(* ===== verification/NDO_Prelude.thy ===== *)
theory NDO_Prelude
  imports
    Main
    "HOL-Library.Word"
    "HOL-Library.Multiset"
    "HOL-Library.List_Lexorder"
    "HOL-Library.Char_ord"
    "HOL-Library.Product_Lexorder"
begin

text \<open>
  Shared ground of the development.  The theory fixes the machine types the runtime uses, the
  model of \<^verbatim>\<open>std::map\<close> (an association list with strictly ascending keys, iterated in key order),
  the model of \<^verbatim>\<open>std::sort\<close> and \<^verbatim>\<open>std::lower_bound\<close> under a caller-supplied comparator, and the
  loop combinator that the ledger's passes over its finding map are written with.  Two interfaces
  are stated as locales: \<open>keyed_store\<close> (what a client of \<^verbatim>\<open>std::map\<close> relies on) and
  \<open>strict_weak_order\<close> (what \<^verbatim>\<open>std::sort\<close> requires of a comparator); the client lemmas are proved
  once inside them.
\<close>

unbundle bit_operations_syntax

section \<open>Machine types\<close>

type_synonym u8 = "8 word"
type_synonym u16 = "16 word"
type_synonym u32 = "32 word"
type_synonym u64 = "64 word"
type_synonym bytes = "u8 list"

text \<open>
  A signed 64-bit quantity is an \<open>int\<close>; the bounds of the type are explicit wherever the source
  checks or relies on them.
\<close>

abbreviation INT64_MAX :: int where "INT64_MAX \<equiv> 9223372036854775807"
abbreviation INT64_MIN :: int where "INT64_MIN \<equiv> -9223372036854775808"

definition is_i64 :: "int \<Rightarrow> bool" where
  "is_i64 x \<longleftrightarrow> INT64_MIN \<le> x \<and> x \<le> INT64_MAX"

text \<open>C++ integer division and remainder truncate towards zero.\<close>

definition cdiv :: "int \<Rightarrow> int \<Rightarrow> int" where
  "cdiv a b = sgn a * sgn b * (\<bar>a\<bar> div \<bar>b\<bar>)"

definition cmod :: "int \<Rightarrow> int \<Rightarrow> int" where
  "cmod a b = a - cdiv a b * b"

text \<open>The bytes of a text: a \<^verbatim>\<open>char\<close> is one byte.\<close>

definition byte_of_char :: "char \<Rightarrow> u8" where
  "byte_of_char c = of_nat (of_char c)"

definition bytes_of_text :: "string \<Rightarrow> bytes" where
  "bytes_of_text s = map byte_of_char s"

text \<open>\<^verbatim>\<open>std::to_string\<close> on unsigned and signed integers.\<close>

fun nat_text :: "nat \<Rightarrow> string" where
  "nat_text n = (if n < 10 then [char_of (48 + n)] else nat_text (n div 10) @ [char_of (48 + n mod 10)])"

declare nat_text.simps [simp del]

definition int_text :: "int \<Rightarrow> string" where
  "int_text i = (if i < 0 then CHR ''-'' # nat_text (nat (- i)) else nat_text (nat i))"

section \<open>Ordered maps\<close>

type_synonym ('k, 'v) omap = "('k \<times> 'v) list"

fun map_put :: "'k::linorder \<Rightarrow> 'v \<Rightarrow> ('k, 'v) omap \<Rightarrow> ('k, 'v) omap" where
  "map_put k v [] = [(k, v)]"
| "map_put k v (e # m) =
     (if k < fst e then (k, v) # e # m
      else if k = fst e then (k, v) # m
      else e # map_put k v m)"

definition map_erase :: "'k \<Rightarrow> ('k, 'v) omap \<Rightarrow> ('k, 'v) omap" where
  "map_erase k m = filter (\<lambda>e. fst e \<noteq> k) m"

text \<open>\<^verbatim>\<open>emplace\<close> keeps the entry that is already there.\<close>

definition map_emplace :: "'k::linorder \<Rightarrow> 'v \<Rightarrow> ('k, 'v) omap \<Rightarrow> ('k, 'v) omap" where
  "map_emplace k v m = (if map_of m k = None then map_put k v m else m)"

definition keys_ascending :: "('k::linorder, 'v) omap \<Rightarrow> bool" where
  "keys_ascending m \<longleftrightarrow> sorted_wrt (<) (map fst m)"

section \<open>Sorting under a comparator\<close>

text \<open>
  \<open>insert_by lt x xs\<close> places \<open>x\<close> before the first element that is not less than it: the position
  \<^verbatim>\<open>std::lower_bound\<close> returns on a sorted range.  \<open>sort_by\<close> is \<^verbatim>\<open>std::sort\<close> with ties left in their
  original order, one of the results the standard allows.
\<close>

fun insert_by :: "('a \<Rightarrow> 'a \<Rightarrow> bool) \<Rightarrow> 'a \<Rightarrow> 'a list \<Rightarrow> 'a list" where
  "insert_by lt x [] = [x]"
| "insert_by lt x (y # ys) = (if lt y x then y # insert_by lt x ys else x # y # ys)"

definition sort_by :: "('a \<Rightarrow> 'a \<Rightarrow> bool) \<Rightarrow> 'a list \<Rightarrow> 'a list" where
  "sort_by lt xs = foldr (insert_by lt) xs []"

text \<open>\<^verbatim>\<open>std::unique\<close> followed by \<^verbatim>\<open>erase\<close>: adjacent repetitions collapse.\<close>

definition sort_unique :: "'a::linorder list \<Rightarrow> 'a list" where
  "sort_unique xs = remdups_adj (sort xs)"

section \<open>Loops that rewrite a container while threading a state\<close>

fun map_accum :: "('s \<Rightarrow> 'a \<Rightarrow> 's \<times> 'b) \<Rightarrow> 's \<Rightarrow> 'a list \<Rightarrow> 's \<times> 'b list" where
  "map_accum f s [] = (s, [])"
| "map_accum f s (x # xs) =
     (let here = f s x; rest = map_accum f (fst here) xs in (fst rest, snd here # snd rest))"

section \<open>Name tables of enumerations\<close>

text \<open>
  \<open>lookup_name\<close> is the loop of the \<^verbatim>\<open>Lookup\<close> helpers (the first row with the wanted code, else the
  given fallback); \<open>lookup_code\<close> is the loop of the \<^verbatim>\<open>TryParse\<close> functions over the same table.
\<close>

fun lookup_name :: "(nat \<times> string) list \<Rightarrow> nat \<Rightarrow> string \<Rightarrow> string" where
  "lookup_name [] c fallback = fallback"
| "lookup_name (row # rows) c fallback = (if fst row = c then snd row else lookup_name rows c fallback)"

fun lookup_code :: "(nat \<times> string) list \<Rightarrow> string \<Rightarrow> nat option" where
  "lookup_code [] text = None"
| "lookup_code (row # rows) text = (if text = snd row then Some (fst row) else lookup_code rows text)"

section \<open>Collections of facts\<close>

named_theorems store_simps \<open>lookups after an update of a keyed store\<close>
named_theorems frame_simps \<open>fields an operation leaves alone\<close>
named_theorems stream_simps \<open>byte streams fed to a hasher\<close>

section \<open>Arithmetic\<close>

lemma cdiv_nonneg: "0 \<le> a \<Longrightarrow> 0 < b \<Longrightarrow> cdiv a b = a div b"
  by (cases "a = 0") (auto simp: cdiv_def)

lemma cmod_nonneg: "0 \<le> a \<Longrightarrow> 0 < b \<Longrightarrow> cmod a b = a mod b"
  by (simp add: cmod_def cdiv_nonneg minus_div_mult_eq_mod)

lemma byte_of_char_inj: "byte_of_char a = byte_of_char b \<longleftrightarrow> a = b"
proof
  assume h: "byte_of_char a = byte_of_char b"
  have "unat (byte_of_char c) = of_char c" for c
    by (simp add: byte_of_char_def unat_of_nat take_bit_nat_eq_self)
  with h have "(of_char a :: nat) = of_char b" by metis
  then show "a = b" by simp
qed simp

lemma bytes_of_text_inj: "bytes_of_text a = bytes_of_text b \<longleftrightarrow> a = b"
  unfolding bytes_of_text_def
  by (rule inj_map_eq_map) (simp add: inj_def byte_of_char_inj)

lemma length_bytes_of_text [simp]: "length (bytes_of_text s) = length s"
  by (simp add: bytes_of_text_def)

section \<open>Ordered maps: the laws of a keyed store\<close>

lemma map_of_map_put: "map_of (map_put k v m) x = (if x = k then Some v else map_of m x)"
  by (induction m) auto

lemma map_of_map_erase: "map_of (map_erase k m) x = (if x = k then None else map_of m x)"
  by (induction m) (auto simp: map_erase_def)

lemma set_keys_map_put: "fst ` set (map_put k v m) = insert k (fst ` set m)"
  by (induction m) auto

lemma keys_ascending_Nil [simp]: "keys_ascending []"
  by (simp add: keys_ascending_def)

lemma keys_ascending_Cons:
  "keys_ascending (e # m) \<longleftrightarrow> (\<forall>k \<in> fst ` set m. fst e < k) \<and> keys_ascending m"
  by (simp add: keys_ascending_def)

lemma keys_ascending_map_put: "keys_ascending m \<Longrightarrow> keys_ascending (map_put k v m)"
  by (induction m) (auto simp: keys_ascending_Cons set_keys_map_put)

lemma keys_ascending_map_erase: "keys_ascending m \<Longrightarrow> keys_ascending (map_erase k m)"
  by (induction m) (auto simp: keys_ascending_Cons map_erase_def)

lemma keys_ascending_distinct: "keys_ascending m \<Longrightarrow> distinct (map fst m)"
  by (simp add: keys_ascending_def strict_sorted_iff)

lemma map_of_eq_Some_iff_set: "keys_ascending m \<Longrightarrow> map_of m k = Some v \<longleftrightarrow> (k, v) \<in> set m"
  by (simp add: keys_ascending_distinct)

lemma length_map_put:
  assumes "keys_ascending m"
  shows "length (map_put k v m) = (if map_of m k = None then Suc (length m) else length m)"
  using assms by (induction m) (force simp: keys_ascending_Cons map_of_eq_None_iff)+

lemma length_map_erase_le: "length (map_erase k m) \<le> length m"
  by (simp add: map_erase_def)

locale keyed_store =
  fixes look :: "'m \<Rightarrow> 'k \<Rightarrow> 'v option"
    and put :: "'k \<Rightarrow> 'v \<Rightarrow> 'm \<Rightarrow> 'm"
    and erase :: "'k \<Rightarrow> 'm \<Rightarrow> 'm"
    and valid :: "'m \<Rightarrow> bool"
  assumes look_put: "look (put k v m) x = (if x = k then Some v else look m x)"
    and look_erase: "look (erase k m) x = (if x = k then None else look m x)"
    and valid_put: "valid m \<Longrightarrow> valid (put k v m)"
    and valid_erase: "valid m \<Longrightarrow> valid (erase k m)"
begin

lemma look_erase_all:
  "look (fold erase ks m) x = (if x \<in> set ks then None else look m x)"
  by (induction ks arbitrary: m) (auto simp: look_erase)

lemma valid_erase_all: "valid m \<Longrightarrow> valid (fold erase ks m)"
  by (induction ks arbitrary: m) (auto simp: valid_erase)

lemma look_put_all:
  "look (fold (\<lambda>(k, v). put k v) kvs m) x = (case map_of (rev kvs) x of None \<Rightarrow> look m x | Some v \<Rightarrow> Some v)"
  by (induction kvs rule: rev_induct) (auto simp: look_put)

lemma valid_put_all: "valid m \<Longrightarrow> valid (fold (\<lambda>(k, v). put k v) kvs m)"
  by (induction kvs arbitrary: m) (auto simp: valid_put)

lemma put_other_frame: "x \<noteq> k \<Longrightarrow> look (put k v m) x = look m x"
  by (simp add: look_put)

end

interpretation std_map: keyed_store map_of map_put map_erase keys_ascending
  by unfold_locales
    (auto simp: map_of_map_put map_of_map_erase keys_ascending_map_put keys_ascending_map_erase)

lemmas [store_simps] = std_map.look_put std_map.look_erase std_map.look_erase_all

lemma map_of_map_emplace:
  "map_of (map_emplace k v m) x = (if x = k \<and> map_of m k = None then Some v else map_of m x)"
  by (auto simp: map_emplace_def map_of_map_put)

lemma keys_ascending_map_emplace: "keys_ascending m \<Longrightarrow> keys_ascending (map_emplace k v m)"
  by (simp add: map_emplace_def keys_ascending_map_put)

section \<open>Comparators\<close>

lemma mset_insert_by [simp]: "mset (insert_by lt x xs) = add_mset x (mset xs)"
  by (induction xs) auto

lemma mset_sort_by [simp]: "mset (sort_by lt xs) = mset xs"
  unfolding sort_by_def by (induction xs) auto

lemma set_insert_by [simp]: "set (insert_by lt x xs) = insert x (set xs)"
  by (induction xs) auto

lemma set_sort_by [simp]: "set (sort_by lt xs) = set xs"
  by (metis mset_sort_by set_mset_mset)

lemma length_insert_by [simp]: "length (insert_by lt x xs) = Suc (length xs)"
  by (induction xs) auto

lemma length_sort_by [simp]: "length (sort_by lt xs) = length xs"
  by (metis mset_sort_by size_mset)

locale strict_weak_order =
  fixes lt :: "'a \<Rightarrow> 'a \<Rightarrow> bool"
  assumes lt_asym: "lt x y \<Longrightarrow> \<not> lt y x"
    and lt_neg_trans: "\<not> lt x y \<Longrightarrow> \<not> lt y z \<Longrightarrow> \<not> lt x z"
begin

lemma lt_trans: "lt x y \<Longrightarrow> lt y z \<Longrightarrow> lt x z"
  using lt_asym lt_neg_trans by blast

lemma insert_by_in_order:
  assumes "sorted_wrt (\<lambda>x y. \<not> lt y x) xs"
  shows "sorted_wrt (\<lambda>x y. \<not> lt y x) (insert_by lt x xs)"
  using assms
proof (induction xs)
  case Nil
  show ?case by simp
next
  case (Cons y ys)
  show ?case
  proof (cases "lt y x")
    case True
    with Cons show ?thesis by (auto dest: lt_asym)
  next
    case False
    with Cons.prems have "\<not> lt z x" if "z \<in> set ys" for z
      using that lt_neg_trans [of z y x] by auto
    with False Cons.prems show ?thesis by auto
  qed
qed

lemma sort_by_in_order: "sorted_wrt (\<lambda>x y. \<not> lt y x) (sort_by lt xs)"
  unfolding sort_by_def by (induction xs) (auto intro: insert_by_in_order)

lemma in_order_unique:
  assumes "sorted_wrt (\<lambda>x y. \<not> lt y x) xs" and "sorted_wrt (\<lambda>x y. \<not> lt y x) ys"
    and "mset xs = mset ys"
    and total: "\<And>x y. x \<in> set xs \<Longrightarrow> y \<in> set xs \<Longrightarrow> x \<noteq> y \<Longrightarrow> lt x y \<or> lt y x"
  shows "xs = ys"
  using assms
proof (induction xs arbitrary: ys)
  case Nil
  then show ?case by simp
next
  case (Cons x xs)
  then obtain y ys' where ys: "ys = y # ys'"
    by (cases ys) auto
  have sets: "set (x # xs) = set ys"
    using Cons.prems(3) by (metis set_mset_mset)
  have "x = y"
  proof (rule ccontr)
    assume "x \<noteq> y"
    with sets ys have "y \<in> set xs" and "x \<in> set ys'"
      by auto
    with Cons.prems(1,2) ys have "\<not> lt y x" and "\<not> lt x y"
      by auto
    with Cons.prems(4) [of x y] \<open>x \<noteq> y\<close> \<open>y \<in> set xs\<close> show False by auto
  qed
  with Cons ys show ?case by auto
qed

text \<open>A comparator that decides between any two different elements leaves no freedom to the sort.\<close>

lemma sort_by_permutation:
  assumes "mset xs = mset ys"
    and "\<And>x y. x \<in> set xs \<Longrightarrow> y \<in> set xs \<Longrightarrow> x \<noteq> y \<Longrightarrow> lt x y \<or> lt y x"
  shows "sort_by lt xs = sort_by lt ys"
  using assms by (intro in_order_unique sort_by_in_order) auto

lemma head_is_least:
  assumes "sort_by lt xs = y # ys" and "x \<in> set xs"
  shows "\<not> lt x y"
proof -
  have "x \<in> set (y # ys)" using assms by (metis set_sort_by)
  moreover have "sorted_wrt (\<lambda>x y. \<not> lt y x) (y # ys)"
    using sort_by_in_order [of xs] assms(1) by simp
  ultimately show ?thesis using lt_asym by auto
qed

end

section \<open>Rewriting loops\<close>

lemma fst_map_accum_Cons [simp]:
  "fst (map_accum f s (x # xs)) = fst (map_accum f (fst (f s x)) xs)"
  by (simp add: Let_def)

lemma snd_map_accum_Cons [simp]:
  "snd (map_accum f s (x # xs)) = snd (f s x) # snd (map_accum f (fst (f s x)) xs)"
  by (simp add: Let_def)

declare map_accum.simps(2) [simp del]

lemma length_map_accum: "length (snd (map_accum f s xs)) = length xs"
  by (induction xs arbitrary: s) simp_all

text \<open>What every step keeps of the state, and what every step relates of an element.\<close>

lemma map_accum_invariant:
  assumes "I s" and "\<And>s x. x \<in> set xs \<Longrightarrow> I s \<Longrightarrow> I (fst (f s x))"
  shows "I (fst (map_accum f s xs))"
  using assms by (induction xs arbitrary: s) simp_all

lemma map_accum_elements:
  assumes "\<And>s x. x \<in> set xs \<Longrightarrow> R x (snd (f s x))"
  shows "list_all2 R xs (snd (map_accum f s xs))"
  using assms by (induction xs arbitrary: s) simp_all

lemma map_accum_keys:
  assumes "\<And>s x. fst (snd (f s x)) = fst x"
  shows "map fst (snd (map_accum f s xs)) = map fst xs"
  using assms by (induction xs arbitrary: s) simp_all

lemma list_all2_map_of:
  assumes "list_all2 (\<lambda>x y. fst y = fst x \<and> P (fst x) (snd x) (snd y)) m m'"
  shows "(map_of m k = None \<and> map_of m' k = None)
       \<or> (\<exists>v v'. map_of m k = Some v \<and> map_of m' k = Some v' \<and> P k v v')"
  using assms by (induction rule: list_all2_induct) auto

section \<open>Name tables\<close>

lemma lookup_name_listed: "c \<in> fst ` set rows \<Longrightarrow> lookup_name rows c d \<in> snd ` set rows"
  by (induction rows) auto

lemma lookup_code_name:
  assumes "distinct (map snd rows)" and "c \<in> fst ` set rows"
  shows "lookup_code rows (lookup_name rows c d) = Some c"
  using assms
proof (induction rows)
  case Nil
  then show ?case by simp
next
  case (Cons row rows)
  show ?case
  proof (cases "fst row = c")
    case True
    then show ?thesis by simp
  next
    case False
    with Cons.prems have listed: "c \<in> fst ` set rows" by auto
    have "snd row \<notin> snd ` set rows" using Cons.prems by simp
    then have "lookup_name rows c d \<noteq> snd row"
      using lookup_name_listed [OF listed, of d] by metis
    with False listed Cons show ?thesis by simp
  qed
qed

end
