(* ===== verification/NDO_Text.thy ===== *)
theory NDO_Text
  imports NDO_Prelude
begin

text \<open>
  Decimal numerals, shared by field paths, instants and values: the digits \<^verbatim>\<open>std::to_string\<close> prints
  are read back as the number they came from, and a digit string without superfluous leading zeros is
  the only numeral of its number.
\<close>

definition is_digit :: "char \<Rightarrow> bool" where
  "is_digit c \<longleftrightarrow> 48 \<le> (of_char c :: nat) \<and> (of_char c :: nat) \<le> 57"

definition digit_value :: "char \<Rightarrow> nat" where
  "digit_value c = of_char c - 48"

definition text_nat :: "string \<Rightarrow> nat" where
  "text_nat s = foldl (\<lambda>v c. v * 10 + digit_value c) 0 s"

text \<open>A canonical numeral: at least one digit, and a leading zero only when it is the only digit.\<close>

definition is_numeral :: "string \<Rightarrow> bool" where
  "is_numeral s \<longleftrightarrow> s \<noteq> [] \<and> list_all is_digit s \<and> (length s > 1 \<longrightarrow> hd s \<noteq> CHR ''0'')"

lemma text_nat_Nil [simp]: "text_nat [] = 0"
  by (simp add: text_nat_def)

lemma text_nat_snoc [simp]: "text_nat (s @ [c]) = text_nat s * 10 + digit_value c"
  by (simp add: text_nat_def)

lemma of_char_digit: "d < 10 \<Longrightarrow> of_char (char_of (48 + d :: nat)) = 48 + d"
  by simp

lemma digit_char [simp]:
  "d < 10 \<Longrightarrow> is_digit (char_of (48 + d :: nat))"
  "d < 10 \<Longrightarrow> digit_value (char_of (48 + d :: nat)) = d"
  by (simp_all add: is_digit_def digit_value_def)

lemma char_of_digit_value: "is_digit c \<Longrightarrow> char_of (48 + digit_value c) = c"
  by (simp add: is_digit_def digit_value_def)

lemma digit_value_less: "is_digit c \<Longrightarrow> digit_value c < 10"
  unfolding is_digit_def digit_value_def by linarith

lemma nat_text_small: "n < 10 \<Longrightarrow> nat_text n = [char_of (48 + n)]"
  by (simp add: nat_text.simps [of n])

lemma nat_text_large: "10 \<le> n \<Longrightarrow> nat_text n = nat_text (n div 10) @ [char_of (48 + n mod 10)]"
  by (simp add: nat_text.simps [of n])

lemma nat_text_not_Nil [simp]: "nat_text n \<noteq> []"
  by (subst nat_text.simps) simp

lemma text_nat_nat_text [simp]: "text_nat (nat_text n) = n"
proof (induction n rule: nat_text.induct)
  case (1 n)
  show ?case
  proof (cases "n < 10")
    case True
    then show ?thesis
      using text_nat_snoc [of "[]"] by (simp add: nat_text_small)
  next
    case False
    with 1 show ?thesis by (simp add: nat_text_large)
  qed
qed

lemma nat_text_digits: "list_all is_digit (nat_text n)"
proof (induction n rule: nat_text.induct)
  case (1 n)
  then show ?case
    by (cases "n < 10") (simp_all add: nat_text_small nat_text_large)
qed

lemma nat_text_hd: "0 < n \<Longrightarrow> hd (nat_text n) \<noteq> CHR ''0''"
proof (induction n rule: nat_text.induct)
  case (1 n)
  show ?case
  proof (cases "n < 10")
    case True
    have zero: "digit_value CHR ''0'' = 0" by (simp add: digit_value_def)
    have "char_of (48 + n) \<noteq> CHR ''0''"
    proof
      assume "char_of (48 + n) = CHR ''0''"
      then have "digit_value (char_of (48 + n)) = 0" using zero by (rule ssubst)
      with digit_char(2) [OF True] 1(2) show False by linarith
    qed
    then show ?thesis using True by (simp add: nat_text_small)
  next
    case False
    with 1 show ?thesis by (simp add: nat_text_large)
  qed
qed

lemma is_numeral_nat_text: "is_numeral (nat_text n)"
  using nat_text_digits [of n] nat_text_hd [of n]
  by (cases "n = 0") (simp_all add: is_numeral_def nat_text_small)

lemma text_nat_pos: "s \<noteq> [] \<Longrightarrow> list_all is_digit s \<Longrightarrow> hd s \<noteq> CHR ''0'' \<Longrightarrow> 0 < text_nat s"
proof (induction s rule: rev_induct)
  case (snoc c s)
  show ?case
  proof (cases "s = []")
    case True
    with snoc.prems have c: "is_digit c" "c \<noteq> CHR ''0''" by auto
    have "digit_value c \<noteq> 0"
    proof
      assume "digit_value c = 0"
      with char_of_digit_value [OF c(1)] have "c = char_of (48 :: nat)" by simp
      also have "\<dots> = CHR ''0''" by code_simp
      finally show False using c(2) by simp
    qed
    then show ?thesis using True text_nat_snoc [of "[]" c] by simp
  next
    case False
    with snoc show ?thesis by simp
  qed
qed simp

text \<open>A canonical numeral is the text of its number.\<close>

lemma nat_text_text_nat: "is_numeral s \<Longrightarrow> nat_text (text_nat s) = s"
proof (induction s rule: rev_induct)
  case (snoc c s)
  then have c: "is_digit c" by (simp add: is_numeral_def)
  show ?case
  proof (cases "s = []")
    case True
    then show ?thesis
      using c text_nat_snoc [of "[]" c] by (simp add: nat_text_small digit_value_less char_of_digit_value)
  next
    case False
    with snoc.prems have s: "list_all is_digit s" "hd s \<noteq> CHR ''0''"
      by (simp_all add: is_numeral_def Suc_lessI)
    with False have "10 \<le> text_nat s * 10 + digit_value c"
      using text_nat_pos [of s] by simp
    moreover have "is_numeral s" using False s by (simp add: is_numeral_def)
    ultimately show ?thesis
      using snoc.IH c digit_value_less [OF c] by (simp add: nat_text_large char_of_digit_value)
  qed
qed (simp add: is_numeral_def)

lemma nat_text_inj [simp]: "nat_text m = nat_text n \<longleftrightarrow> m = n"
  by (metis text_nat_nat_text)

lemma nat_text_length_le: "n < 10 ^ k \<Longrightarrow> 0 < k \<Longrightarrow> length (nat_text n) \<le> k"
proof (induction k arbitrary: n)
  case (Suc k)
  show ?case
  proof (cases "n < 10")
    case False
    with Suc.prems have "n div 10 < 10 ^ k" by (auto simp: less_mult_imp_div_less mult.commute)
    moreover have "0 < k" using False Suc.prems by (cases k) auto
    ultimately show ?thesis using False Suc.IH [of "n div 10"] by (simp add: nat_text_large)
  qed (simp add: nat_text_small)
qed simp

lemma text_nat_append: "text_nat (a @ b) = text_nat a * 10 ^ length b + text_nat b"
  by (induction b rule: rev_induct) (simp_all flip: append_assoc add: algebra_simps)

lemma text_nat_bound: "list_all is_digit s \<Longrightarrow> text_nat s < 10 ^ length s"
proof (induction s rule: rev_induct)
  case (snoc c s)
  then have "digit_value c < 10" and "Suc (text_nat s) \<le> 10 ^ length s"
    by (simp_all add: digit_value_less)
  then have "text_nat s * 10 + digit_value c < Suc (text_nat s) * 10" by simp
  also have "\<dots> \<le> 10 ^ length s * 10" using \<open>Suc (text_nat s) \<le> 10 ^ length s\<close> by (rule mult_right_mono) simp
  finally show ?case by (simp add: mult.commute)
qed simp

end
