(* ===== verification/NDO_Status.thy ===== *)
theory NDO_Status
  imports NDO_Prelude
begin

text \<open>
  The outcome vocabulary (\<^verbatim>\<open>status.hpp\<close>, \<^verbatim>\<open>status.cpp\<close>), the resource envelope (\<^verbatim>\<open>limits.hpp\<close>,
  \<^verbatim>\<open>limits.cpp\<close>) and the checked arithmetic (\<^verbatim>\<open>checked.hpp\<close>).  Enumerators carry a prefix naming
  their enumeration: \<open>SC_\<close> for \<^verbatim>\<open>StatusCode\<close>, \<open>RC_\<close> for \<^verbatim>\<open>ReasonCode\<close>, \<open>EC_\<close> for \<^verbatim>\<open>EvidenceClass\<close>.
  The lemmas show that the textual names and the numeric codes are inverse to the enumerations and
  that checked arithmetic returns the exact mathematical result or refuses.
\<close>

section \<open>Status and reason codes\<close>

datatype StatusCode =
    SC_Ok
  | SC_Rejected
  | SC_ConflictState
  | SC_NotFound
  | SC_StaleAuthority
  | SC_LimitExceeded
  | SC_IntegrityFailure
  | SC_Unsupported
  | SC_Indeterminate
  | SC_PreconditionFailed
  | SC_InternalError
  | SC_Cancelled

datatype (plugins only:) ReasonCode =
    RC_None
  | RC_ClassifiedConverged
  | RC_ClassifiedObjectMissing
  | RC_ClassifiedObjectUnexpected
  | RC_ClassifiedValueMismatch
  | RC_ClassifiedFieldMissing
  | RC_ClassifiedFieldUnexpected
  | RC_ClassifiedFieldNotComparable
  | RC_ClassifiedNotObservable
  | RC_ClassifiedUnsupportedField
  | RC_ClassifiedGenerationMismatch
  | RC_ClassifiedPartialApplication
  | RC_ClassifiedSourceConflict
  | RC_ClassifiedStaleObservation
  | RC_ClassifiedNoIntent
  | RC_ObservationExpired
  | RC_ObservationForeignEpoch
  | RC_ObservationForeignIncarnation
  | RC_ObservationClockRegression
  | RC_ObservationSequenceRegressed
  | RC_ObservationGenerationRegressed
  | RC_ObservationDuplicateIdentical
  | RC_ObservationDuplicateConflicting
  | RC_ObservationCoveragePartial
  | RC_ObservationCoverageUnknown
  | RC_ObservationSourceCannotAssertAbsence
  | RC_ObservationSourcesDisagree
  | RC_ObservationOutOfOrder
  | RC_ObservationSuperseded
  | RC_IntentGenerationRegressed
  | RC_IntentGenerationConflicting
  | RC_IntentGenerationDuplicateIdentical
  | RC_IntentTargetUndeclared
  | RC_IntentCoverageIncomplete
  | RC_NoFreshEvidence
  | RC_EvidenceRecoveredNotFresh
  | RC_FencedStaleEpoch
  | RC_FencedStaleIncarnation
  | RC_FencedStaleSequence
  | RC_FencedStaleGeneration
  | RC_FencedRetiredSource
  | RC_AuthorityMismatch
  | RC_ComparisonBaselineUnavailable
  | RC_SuppressedByPolicy
  | RC_SuppressedByOperator
  | RC_SuppressionExpired
  | RC_SuppressionNotFound
  | RC_AcknowledgementRecorded
  | RC_FindingResolved
  | RC_FindingReopened
  | RC_FindingUnchanged
  | RC_FindingCreated
  | RC_FindingUpdated
  | RC_ResolutionRefusedNoFreshEvidence
  | RC_ResolutionRefusedCoverageIncomplete
  | RC_ResolutionRefusedConflict
  | RC_FindingRebasedToNewGeneration
  | RC_FindingReclassified
  | RC_FindingNotFound
  | RC_FindingRetired
  | RC_LedgerIntegrityDigestMismatch
  | RC_LedgerSchemaUnsupported
  | RC_LedgerTruncated
  | RC_LedgerHeaderInvalid
  | RC_LedgerPayloadTooLarge
  | RC_LedgerRecoveredConservatively
  | RC_LedgerVersionRegression
  | RC_LedgerDecodeFailed
  | RC_WireFrameTruncated
  | RC_WireFrameOversize
  | RC_WireFrameChecksumMismatch
  | RC_WireProtocolVersionUnsupported
  | RC_WireFrameMagicMismatch
  | RC_WireHandshakeRequired
  | RC_WireHandshakeRejected
  | RC_WireSessionLimitExceeded
  | RC_WireSessionClosed
  | RC_WireFrameTypeUnsupported
  | RC_WireSessionIdleExpired
  | RC_LimitObjectsExceeded
  | RC_LimitFieldsExceeded
  | RC_LimitDepthExceeded
  | RC_LimitBytesExceeded
  | RC_LimitFindingsExceeded
  | RC_LimitHistoryExceeded
  | RC_LimitTimelineExceeded
  | RC_EncodingMalformed
  | RC_EncodingUnexpectedToken
  | RC_EncodingInvalidUtf8
  | RC_EncodingNumberOutOfRange
  | RC_EncodingDuplicateKey
  | RC_EncodingTrailingBytes
  | RC_ArithmeticOverflow

text \<open>The enumerators' declared values, \<^verbatim>\<open>static_cast<std::uint16_t>(value)\<close>.\<close>

fun status_value :: "StatusCode \<Rightarrow> nat" where
  "status_value SC_Ok = 0"
| "status_value SC_Rejected = 1"
| "status_value SC_ConflictState = 2"
| "status_value SC_NotFound = 3"
| "status_value SC_StaleAuthority = 4"
| "status_value SC_LimitExceeded = 5"
| "status_value SC_IntegrityFailure = 6"
| "status_value SC_Unsupported = 7"
| "status_value SC_Indeterminate = 8"
| "status_value SC_PreconditionFailed = 9"
| "status_value SC_InternalError = 10"
| "status_value SC_Cancelled = 11"

fun reason_value :: "ReasonCode \<Rightarrow> nat" where
  "reason_value RC_None = 0"
| "reason_value RC_ClassifiedConverged = 100"
| "reason_value RC_ClassifiedObjectMissing = 101"
| "reason_value RC_ClassifiedObjectUnexpected = 102"
| "reason_value RC_ClassifiedValueMismatch = 103"
| "reason_value RC_ClassifiedFieldMissing = 104"
| "reason_value RC_ClassifiedFieldUnexpected = 105"
| "reason_value RC_ClassifiedFieldNotComparable = 106"
| "reason_value RC_ClassifiedNotObservable = 107"
| "reason_value RC_ClassifiedUnsupportedField = 108"
| "reason_value RC_ClassifiedGenerationMismatch = 109"
| "reason_value RC_ClassifiedPartialApplication = 110"
| "reason_value RC_ClassifiedSourceConflict = 111"
| "reason_value RC_ClassifiedStaleObservation = 112"
| "reason_value RC_ClassifiedNoIntent = 113"
| "reason_value RC_ObservationExpired = 200"
| "reason_value RC_ObservationForeignEpoch = 201"
| "reason_value RC_ObservationForeignIncarnation = 202"
| "reason_value RC_ObservationClockRegression = 203"
| "reason_value RC_ObservationSequenceRegressed = 204"
| "reason_value RC_ObservationGenerationRegressed = 205"
| "reason_value RC_ObservationDuplicateIdentical = 206"
| "reason_value RC_ObservationDuplicateConflicting = 207"
| "reason_value RC_ObservationCoveragePartial = 208"
| "reason_value RC_ObservationCoverageUnknown = 209"
| "reason_value RC_ObservationSourceCannotAssertAbsence = 210"
| "reason_value RC_ObservationSourcesDisagree = 211"
| "reason_value RC_ObservationOutOfOrder = 212"
| "reason_value RC_ObservationSuperseded = 213"
| "reason_value RC_IntentGenerationRegressed = 220"
| "reason_value RC_IntentGenerationConflicting = 224"
| "reason_value RC_IntentGenerationDuplicateIdentical = 221"
| "reason_value RC_IntentTargetUndeclared = 222"
| "reason_value RC_IntentCoverageIncomplete = 223"
| "reason_value RC_NoFreshEvidence = 230"
| "reason_value RC_EvidenceRecoveredNotFresh = 231"
| "reason_value RC_FencedStaleEpoch = 300"
| "reason_value RC_FencedStaleIncarnation = 301"
| "reason_value RC_FencedStaleSequence = 302"
| "reason_value RC_FencedStaleGeneration = 303"
| "reason_value RC_FencedRetiredSource = 304"
| "reason_value RC_AuthorityMismatch = 310"
| "reason_value RC_ComparisonBaselineUnavailable = 311"
| "reason_value RC_SuppressedByPolicy = 400"
| "reason_value RC_SuppressedByOperator = 401"
| "reason_value RC_SuppressionExpired = 402"
| "reason_value RC_SuppressionNotFound = 403"
| "reason_value RC_AcknowledgementRecorded = 404"
| "reason_value RC_FindingResolved = 410"
| "reason_value RC_FindingReopened = 411"
| "reason_value RC_FindingUnchanged = 412"
| "reason_value RC_FindingCreated = 413"
| "reason_value RC_FindingUpdated = 414"
| "reason_value RC_ResolutionRefusedNoFreshEvidence = 415"
| "reason_value RC_ResolutionRefusedCoverageIncomplete = 416"
| "reason_value RC_ResolutionRefusedConflict = 417"
| "reason_value RC_FindingRebasedToNewGeneration = 418"
| "reason_value RC_FindingReclassified = 419"
| "reason_value RC_FindingNotFound = 420"
| "reason_value RC_FindingRetired = 421"
| "reason_value RC_LedgerIntegrityDigestMismatch = 500"
| "reason_value RC_LedgerSchemaUnsupported = 501"
| "reason_value RC_LedgerTruncated = 502"
| "reason_value RC_LedgerHeaderInvalid = 503"
| "reason_value RC_LedgerPayloadTooLarge = 504"
| "reason_value RC_LedgerRecoveredConservatively = 505"
| "reason_value RC_LedgerVersionRegression = 506"
| "reason_value RC_LedgerDecodeFailed = 507"
| "reason_value RC_WireFrameTruncated = 600"
| "reason_value RC_WireFrameOversize = 601"
| "reason_value RC_WireFrameChecksumMismatch = 602"
| "reason_value RC_WireProtocolVersionUnsupported = 603"
| "reason_value RC_WireFrameMagicMismatch = 604"
| "reason_value RC_WireHandshakeRequired = 605"
| "reason_value RC_WireHandshakeRejected = 606"
| "reason_value RC_WireSessionLimitExceeded = 607"
| "reason_value RC_WireSessionClosed = 608"
| "reason_value RC_WireFrameTypeUnsupported = 609"
| "reason_value RC_WireSessionIdleExpired = 610"
| "reason_value RC_LimitObjectsExceeded = 700"
| "reason_value RC_LimitFieldsExceeded = 701"
| "reason_value RC_LimitDepthExceeded = 702"
| "reason_value RC_LimitBytesExceeded = 703"
| "reason_value RC_LimitFindingsExceeded = 704"
| "reason_value RC_LimitHistoryExceeded = 705"
| "reason_value RC_LimitTimelineExceeded = 706"
| "reason_value RC_EncodingMalformed = 710"
| "reason_value RC_EncodingUnexpectedToken = 711"
| "reason_value RC_EncodingInvalidUtf8 = 712"
| "reason_value RC_EncodingNumberOutOfRange = 713"
| "reason_value RC_EncodingDuplicateKey = 714"
| "reason_value RC_EncodingTrailingBytes = 715"
| "reason_value RC_ArithmeticOverflow = 720"

definition kStatusNames :: "(nat \<times> string) list" where
  "kStatusNames = [(0, ''Ok''),
     (1, ''Rejected''),
     (2, ''ConflictState''),
     (3, ''NotFound''),
     (4, ''StaleAuthority''),
     (5, ''LimitExceeded''),
     (6, ''IntegrityFailure''),
     (7, ''Unsupported''),
     (8, ''Indeterminate''),
     (9, ''PreconditionFailed''),
     (10, ''InternalError''),
     (11, ''Cancelled'')]"

definition kReasonNames :: "(nat \<times> string) list" where
  "kReasonNames = [(0, ''None''),
     (100, ''ClassifiedConverged''),
     (101, ''ClassifiedObjectMissing''),
     (102, ''ClassifiedObjectUnexpected''),
     (103, ''ClassifiedValueMismatch''),
     (104, ''ClassifiedFieldMissing''),
     (105, ''ClassifiedFieldUnexpected''),
     (106, ''ClassifiedFieldNotComparable''),
     (107, ''ClassifiedNotObservable''),
     (108, ''ClassifiedUnsupportedField''),
     (109, ''ClassifiedGenerationMismatch''),
     (110, ''ClassifiedPartialApplication''),
     (111, ''ClassifiedSourceConflict''),
     (112, ''ClassifiedStaleObservation''),
     (113, ''ClassifiedNoIntent''),
     (200, ''ObservationExpired''),
     (201, ''ObservationForeignEpoch''),
     (202, ''ObservationForeignIncarnation''),
     (203, ''ObservationClockRegression''),
     (204, ''ObservationSequenceRegressed''),
     (205, ''ObservationGenerationRegressed''),
     (206, ''ObservationDuplicateIdentical''),
     (207, ''ObservationDuplicateConflicting''),
     (208, ''ObservationCoveragePartial''),
     (209, ''ObservationCoverageUnknown''),
     (210, ''ObservationSourceCannotAssertAbsence''),
     (211, ''ObservationSourcesDisagree''),
     (212, ''ObservationOutOfOrder''),
     (213, ''ObservationSuperseded''),
     (220, ''IntentGenerationRegressed''),
     (224, ''IntentGenerationConflicting''),
     (221, ''IntentGenerationDuplicateIdentical''),
     (222, ''IntentTargetUndeclared''),
     (223, ''IntentCoverageIncomplete''),
     (230, ''NoFreshEvidence''),
     (231, ''EvidenceRecoveredNotFresh''),
     (300, ''FencedStaleEpoch''),
     (301, ''FencedStaleIncarnation''),
     (302, ''FencedStaleSequence''),
     (303, ''FencedStaleGeneration''),
     (304, ''FencedRetiredSource''),
     (310, ''AuthorityMismatch''),
     (311, ''ComparisonBaselineUnavailable''),
     (400, ''SuppressedByPolicy''),
     (401, ''SuppressedByOperator''),
     (402, ''SuppressionExpired''),
     (403, ''SuppressionNotFound''),
     (404, ''AcknowledgementRecorded''),
     (410, ''FindingResolved''),
     (411, ''FindingReopened''),
     (412, ''FindingUnchanged''),
     (413, ''FindingCreated''),
     (414, ''FindingUpdated''),
     (415, ''ResolutionRefusedNoFreshEvidence''),
     (416, ''ResolutionRefusedCoverageIncomplete''),
     (417, ''ResolutionRefusedConflict''),
     (418, ''FindingRebasedToNewGeneration''),
     (419, ''FindingReclassified''),
     (420, ''FindingNotFound''),
     (421, ''FindingRetired''),
     (500, ''LedgerIntegrityDigestMismatch''),
     (501, ''LedgerSchemaUnsupported''),
     (502, ''LedgerTruncated''),
     (503, ''LedgerHeaderInvalid''),
     (504, ''LedgerPayloadTooLarge''),
     (505, ''LedgerRecoveredConservatively''),
     (506, ''LedgerVersionRegression''),
     (507, ''LedgerDecodeFailed''),
     (600, ''WireFrameTruncated''),
     (601, ''WireFrameOversize''),
     (602, ''WireFrameChecksumMismatch''),
     (603, ''WireProtocolVersionUnsupported''),
     (604, ''WireFrameMagicMismatch''),
     (605, ''WireHandshakeRequired''),
     (606, ''WireHandshakeRejected''),
     (607, ''WireSessionLimitExceeded''),
     (608, ''WireSessionClosed''),
     (609, ''WireFrameTypeUnsupported''),
     (610, ''WireSessionIdleExpired''),
     (700, ''LimitObjectsExceeded''),
     (701, ''LimitFieldsExceeded''),
     (702, ''LimitDepthExceeded''),
     (703, ''LimitBytesExceeded''),
     (704, ''LimitFindingsExceeded''),
     (705, ''LimitHistoryExceeded''),
     (706, ''LimitTimelineExceeded''),
     (710, ''EncodingMalformed''),
     (711, ''EncodingUnexpectedToken''),
     (712, ''EncodingInvalidUtf8''),
     (713, ''EncodingNumberOutOfRange''),
     (714, ''EncodingDuplicateKey''),
     (715, ''EncodingTrailingBytes''),
     (720, ''ArithmeticOverflow'')]"

definition all_reasons :: "ReasonCode list" where
  "all_reasons = [RC_None,
     RC_ClassifiedConverged,
     RC_ClassifiedObjectMissing,
     RC_ClassifiedObjectUnexpected,
     RC_ClassifiedValueMismatch,
     RC_ClassifiedFieldMissing,
     RC_ClassifiedFieldUnexpected,
     RC_ClassifiedFieldNotComparable,
     RC_ClassifiedNotObservable,
     RC_ClassifiedUnsupportedField,
     RC_ClassifiedGenerationMismatch,
     RC_ClassifiedPartialApplication,
     RC_ClassifiedSourceConflict,
     RC_ClassifiedStaleObservation,
     RC_ClassifiedNoIntent,
     RC_ObservationExpired,
     RC_ObservationForeignEpoch,
     RC_ObservationForeignIncarnation,
     RC_ObservationClockRegression,
     RC_ObservationSequenceRegressed,
     RC_ObservationGenerationRegressed,
     RC_ObservationDuplicateIdentical,
     RC_ObservationDuplicateConflicting,
     RC_ObservationCoveragePartial,
     RC_ObservationCoverageUnknown,
     RC_ObservationSourceCannotAssertAbsence,
     RC_ObservationSourcesDisagree,
     RC_ObservationOutOfOrder,
     RC_ObservationSuperseded,
     RC_IntentGenerationRegressed,
     RC_IntentGenerationConflicting,
     RC_IntentGenerationDuplicateIdentical,
     RC_IntentTargetUndeclared,
     RC_IntentCoverageIncomplete,
     RC_NoFreshEvidence,
     RC_EvidenceRecoveredNotFresh,
     RC_FencedStaleEpoch,
     RC_FencedStaleIncarnation,
     RC_FencedStaleSequence,
     RC_FencedStaleGeneration,
     RC_FencedRetiredSource,
     RC_AuthorityMismatch,
     RC_ComparisonBaselineUnavailable,
     RC_SuppressedByPolicy,
     RC_SuppressedByOperator,
     RC_SuppressionExpired,
     RC_SuppressionNotFound,
     RC_AcknowledgementRecorded,
     RC_FindingResolved,
     RC_FindingReopened,
     RC_FindingUnchanged,
     RC_FindingCreated,
     RC_FindingUpdated,
     RC_ResolutionRefusedNoFreshEvidence,
     RC_ResolutionRefusedCoverageIncomplete,
     RC_ResolutionRefusedConflict,
     RC_FindingRebasedToNewGeneration,
     RC_FindingReclassified,
     RC_FindingNotFound,
     RC_FindingRetired,
     RC_LedgerIntegrityDigestMismatch,
     RC_LedgerSchemaUnsupported,
     RC_LedgerTruncated,
     RC_LedgerHeaderInvalid,
     RC_LedgerPayloadTooLarge,
     RC_LedgerRecoveredConservatively,
     RC_LedgerVersionRegression,
     RC_LedgerDecodeFailed,
     RC_WireFrameTruncated,
     RC_WireFrameOversize,
     RC_WireFrameChecksumMismatch,
     RC_WireProtocolVersionUnsupported,
     RC_WireFrameMagicMismatch,
     RC_WireHandshakeRequired,
     RC_WireHandshakeRejected,
     RC_WireSessionLimitExceeded,
     RC_WireSessionClosed,
     RC_WireFrameTypeUnsupported,
     RC_WireSessionIdleExpired,
     RC_LimitObjectsExceeded,
     RC_LimitFieldsExceeded,
     RC_LimitDepthExceeded,
     RC_LimitBytesExceeded,
     RC_LimitFindingsExceeded,
     RC_LimitHistoryExceeded,
     RC_LimitTimelineExceeded,
     RC_EncodingMalformed,
     RC_EncodingUnexpectedToken,
     RC_EncodingInvalidUtf8,
     RC_EncodingNumberOutOfRange,
     RC_EncodingDuplicateKey,
     RC_EncodingTrailingBytes,
     RC_ArithmeticOverflow]"

definition ToText_StatusCode :: "StatusCode \<Rightarrow> string" where
  "ToText_StatusCode v = lookup_name kStatusNames (status_value v) ''Unknown''"

definition ToText_ReasonCode :: "ReasonCode \<Rightarrow> string" where
  "ToText_ReasonCode v = lookup_name kReasonNames (reason_value v) ''Unknown''"

text \<open>\<^verbatim>\<open>static_cast<ReasonCode>(code)\<close>, on the codes the enumeration declares.\<close>

definition reason_of_value :: "nat \<Rightarrow> ReasonCode option" where
  "reason_of_value c = List.find (\<lambda>r. reason_value r = c) all_reasons"

definition TryParseReasonCode :: "string \<Rightarrow> ReasonCode option" where
  "TryParseReasonCode text = Option.bind (lookup_code kReasonNames text) reason_of_value"

definition ReasonCodeDomain :: "ReasonCode \<Rightarrow> string" where
  "ReasonCodeDomain v =
     (let code = reason_value v in
      if code = 0 then ''none''
      else if code < 100 then ''invalid''
      else if code < 200 then ''classification''
      else if code < 300 then ''freshness''
      else if code < 400 then ''authority''
      else if code < 500 then ''lifecycle''
      else if code < 600 then ''persistence''
      else if code < 700 then ''transport''
      else if code < 800 then ''bounds''
      else ''unknown'')"

record Status =
  st_code :: StatusCode
  st_reason :: ReasonCode
  st_detail :: string

definition mk_status :: "StatusCode \<Rightarrow> ReasonCode \<Rightarrow> string \<Rightarrow> Status" where
  "mk_status c r d = \<lparr>st_code = c, st_reason = r, st_detail = d\<rparr>"

definition status_ok :: "Status \<Rightarrow> bool" where
  "status_ok s \<longleftrightarrow> st_code s = SC_Ok"

abbreviation Status_Ok :: Status where "Status_Ok \<equiv> mk_status SC_Ok RC_None ''''"
abbreviation Status_Rejected :: "ReasonCode \<Rightarrow> string \<Rightarrow> Status" where
  "Status_Rejected \<equiv> mk_status SC_Rejected"
abbreviation Status_Conflict :: "ReasonCode \<Rightarrow> string \<Rightarrow> Status" where
  "Status_Conflict \<equiv> mk_status SC_ConflictState"
abbreviation Status_NotFound :: "ReasonCode \<Rightarrow> string \<Rightarrow> Status" where
  "Status_NotFound \<equiv> mk_status SC_NotFound"
abbreviation Status_Stale :: "ReasonCode \<Rightarrow> string \<Rightarrow> Status" where
  "Status_Stale \<equiv> mk_status SC_StaleAuthority"
abbreviation Status_Limit :: "ReasonCode \<Rightarrow> string \<Rightarrow> Status" where
  "Status_Limit \<equiv> mk_status SC_LimitExceeded"
abbreviation Status_Precondition :: "ReasonCode \<Rightarrow> string \<Rightarrow> Status" where
  "Status_Precondition \<equiv> mk_status SC_PreconditionFailed"
abbreviation Status_Internal :: "ReasonCode \<Rightarrow> string \<Rightarrow> Status" where
  "Status_Internal \<equiv> mk_status SC_InternalError"
abbreviation Status_Cancelled :: "ReasonCode \<Rightarrow> string \<Rightarrow> Status" where
  "Status_Cancelled \<equiv> mk_status SC_Cancelled"

text \<open>
  \<^verbatim>\<open>Result<T>\<close>: a value or a status that is not \<open>Ok\<close>.  Constructing a result from an \<open>Ok\<close> status
  turns it into an internal error, as the class does.
\<close>

type_synonym 'a Result = "Status + 'a"

definition result_of_status :: "Status \<Rightarrow> 'a Result" where
  "result_of_status s =
     Inl (if status_ok s then mk_status SC_InternalError RC_None ''ok status without value'' else s)"

section \<open>The resource envelope\<close>

datatype EvidenceClass = EC_Unknown | EC_Real | EC_Synthetic | EC_Unsupported

fun evidence_value :: "EvidenceClass \<Rightarrow> u8" where
  "evidence_value EC_Unknown = 0"
| "evidence_value EC_Real = 1"
| "evidence_value EC_Synthetic = 2"
| "evidence_value EC_Unsupported = 3"

fun ToText_EvidenceClass :: "EvidenceClass \<Rightarrow> string" where
  "ToText_EvidenceClass EC_Unknown = ''unknown''"
| "ToText_EvidenceClass EC_Real = ''real''"
| "ToText_EvidenceClass EC_Synthetic = ''synthetic''"
| "ToText_EvidenceClass EC_Unsupported = ''unsupported''"

definition TryParseEvidenceClass :: "string \<Rightarrow> EvidenceClass option" where
  "TryParseEvidenceClass wanted =
     (if wanted = ''unknown'' then Some EC_Unknown
      else if wanted = ''real'' then Some EC_Real
      else if wanted = ''synthetic'' then Some EC_Synthetic
      else if wanted = ''unsupported'' then Some EC_Unsupported
      else None)"

record RuntimeLimits =
  max_targets :: nat
  max_objects_per_target :: nat
  max_fields_per_object :: nat
  max_value_depth :: nat
  max_value_nodes :: nat
  max_leaf_bytes :: nat
  max_document_bytes :: nat
  max_path_segments :: nat
  max_path_key_bytes :: nat
  max_sources :: nat
  max_retained_snapshots_per_source :: nat
  max_findings :: nat
  max_timeline_entries_per_finding :: nat
  max_global_timeline_entries :: nat
  max_suppressions :: nat
  max_groups :: nat
  max_evidence_refs_per_finding :: nat
  max_report_findings :: nat
  max_ledger_bytes :: nat
  max_record_payload_bytes :: nat
  max_sessions :: nat
  max_in_flight_frames_per_session :: nat
  max_wire_payload_bytes :: nat
  session_idle_timeout_nanos :: int
  max_evaluation_workers :: nat

definition default_limits :: RuntimeLimits where
  "default_limits =
    \<lparr>max_targets = 4096, max_objects_per_target = 200000, max_fields_per_object = 512,
     max_value_depth = 16, max_value_nodes = 4096, max_leaf_bytes = 4096,
     max_document_bytes = 32 * 1024 * 1024, max_path_segments = 32, max_path_key_bytes = 256,
     max_sources = 256, max_retained_snapshots_per_source = 8, max_findings = 500000,
     max_timeline_entries_per_finding = 32, max_global_timeline_entries = 200000,
     max_suppressions = 65536, max_groups = 100000, max_evidence_refs_per_finding = 8,
     max_report_findings = 500000, max_ledger_bytes = 512 * 1024 * 1024,
     max_record_payload_bytes = 64 * 1024 * 1024, max_sessions = 64,
     max_in_flight_frames_per_session = 8, max_wire_payload_bytes = 16 * 1024 * 1024,
     session_idle_timeout_nanos = 600 * 1000 * 1000 * 1000, max_evaluation_workers = 16\<rparr>"

section \<open>Checked arithmetic\<close>

text \<open>
  The templates are instantiated at an unsigned width; \<open>max_word\<close> is \<^verbatim>\<open>numeric_limits<T>::max()\<close>.
  The guards are the source's, written so that no intermediate step can wrap.
\<close>

definition CheckedAdd :: "'a::len word \<Rightarrow> 'a word \<Rightarrow> 'a word option" where
  "CheckedAdd a b = (if a > - 1 - b then None else Some (a + b))"

definition CheckedSub :: "'a::len word \<Rightarrow> 'a word \<Rightarrow> 'a word option" where
  "CheckedSub a b = (if b > a then None else Some (a - b))"

definition CheckedMul :: "'a::len word \<Rightarrow> 'a word \<Rightarrow> 'a word option" where
  "CheckedMul a b = (if a \<noteq> 0 \<and> b > - 1 div a then None else Some (a * b))"

definition CheckedAddSigned :: "int \<Rightarrow> int \<Rightarrow> int option" where
  "CheckedAddSigned a b =
     (if b > 0 \<and> a > INT64_MAX - b then None
      else if b < 0 \<and> a < INT64_MIN - b then None
      else Some (a + b))"

definition CheckedSubSigned :: "int \<Rightarrow> int \<Rightarrow> int option" where
  "CheckedSubSigned a b = (if b = INT64_MIN then None else CheckedAddSigned a (- b))"

section \<open>Names and codes\<close>

text \<open>
  The enumeration has more than ninety members, so the case analysis is done once, here: every
  reason is recovered from its number, and from its name.
\<close>

lemma reason_of_value_inverse: "reason_of_value (reason_value r) = Some r"
  by (cases r) (simp_all add: reason_of_value_def all_reasons_def)

lemma reason_value_inject: "reason_value a = reason_value b \<longleftrightarrow> a = b"
  by (metis option.inject reason_of_value_inverse)

instantiation ReasonCode :: equal
begin

definition equal_ReasonCode :: "ReasonCode \<Rightarrow> ReasonCode \<Rightarrow> bool" where
  "equal_ReasonCode a b \<longleftrightarrow> reason_value a = reason_value b"

instance
  by standard (simp add: equal_ReasonCode_def reason_value_inject)

end

lemma reason_codes_listed: "map fst kReasonNames = map reason_value all_reasons"
  by (simp add: kReasonNames_def all_reasons_def)

lemma in_all_reasons: "r \<in> set all_reasons"
  using reason_of_value_inverse [of r] by (auto simp: reason_of_value_def find_Some_iff)

lemma reason_value_listed: "reason_value r \<in> fst ` set kReasonNames"
  using in_all_reasons [of r] by (metis image_eqI reason_codes_listed set_map)

lemma distinct_reason_names: "distinct (map snd kReasonNames)"
  by (simp add: kReasonNames_def)

text \<open>
  Every reason code has a name of its own: parsing the text the runtime prints for a reason
  gives that reason back, so a reason survives a trip through a document or a frame.
\<close>

theorem reason_text_roundtrip: "TryParseReasonCode (ToText_ReasonCode r) = Some r"
  by (simp add: TryParseReasonCode_def ToText_ReasonCode_def
      lookup_code_name [OF distinct_reason_names reason_value_listed] reason_of_value_inverse)

lemma status_ok_mk [simp]: "status_ok (mk_status c r d) \<longleftrightarrow> c = SC_Ok"
  by (simp add: status_ok_def mk_status_def)

lemma st_code_mk [simp]: "st_code (mk_status c r d) = c"
  by (simp add: mk_status_def)

lemma st_reason_mk [simp]: "st_reason (mk_status c r d) = r"
  by (simp add: mk_status_def)

lemma evidence_text_roundtrip: "TryParseEvidenceClass (ToText_EvidenceClass e) = Some e"
  by (cases e) (simp_all add: TryParseEvidenceClass_def)

section \<open>Checked arithmetic is exact or refuses\<close>

lemma unat_lt2p: "unat b < 2 ^ LENGTH('a)" for b :: "'a::len word"
  by (rule unsigned_less)

lemma unat_max_minus: "unat (- 1 - b) = 2 ^ LENGTH('a) - 1 - unat b" for b :: "'a::len word"
proof -
  have "b \<le> - 1" by simp
  then have "unat (- 1 - b) = unat (- 1 :: 'a word) - unat b" by (rule unat_sub)
  then show ?thesis by (simp add: unsigned_minus_1_eq_mask mask_eq_exp_minus_1)
qed

lemma CheckedAdd_exact:
  "CheckedAdd a b = (if unat a + unat b < 2 ^ LENGTH('a) then Some (a + b) else None)"
  for a b :: "'a::len word"
proof -
  have "a > - 1 - b \<longleftrightarrow> 2 ^ LENGTH('a) \<le> unat a + unat b"
    using unat_lt2p [of b] unfolding word_less_nat_alt unat_max_minus by linarith
  then show ?thesis by (auto simp: CheckedAdd_def)
qed

lemma CheckedMul_exact:
  "CheckedMul a b = (if unat a * unat b < 2 ^ LENGTH('a) then Some (a * b) else None)"
  for a b :: "'a::len word"
proof (cases "a = 0")
  case True
  then show ?thesis by (simp add: CheckedMul_def)
next
  case False
  then have pos: "0 < unat a" by (simp add: unat_gt_0)
  have max: "n < 2 ^ LENGTH('a) \<longleftrightarrow> n \<le> 2 ^ LENGTH('a) - 1" for n :: nat
    using zero_less_power [of "2::nat" "LENGTH('a)"] by linarith
  have "b > - 1 div a \<longleftrightarrow> unat b > (2 ^ LENGTH('a) - 1) div unat a"
    by (simp add: word_less_nat_alt unat_div unsigned_minus_1_eq_mask mask_eq_exp_minus_1)
  also have "\<dots> \<longleftrightarrow> 2 ^ LENGTH('a) - 1 < unat b * unat a"
    using pos by (simp add: div_less_iff_less_mult)
  also have "\<dots> \<longleftrightarrow> \<not> unat a * unat b < 2 ^ LENGTH('a)"
    using max [of "unat a * unat b"] by (simp add: mult.commute not_le)
  finally show ?thesis using False by (simp add: CheckedMul_def)
qed

text \<open>Readings of the results as integers: the exact sum, difference or product, when it fits.\<close>

lemma CheckedAdd_unat: "CheckedAdd a b = Some c \<Longrightarrow> unat c = unat a + unat b"
  by (auto simp: CheckedAdd_exact unat_word_ariths split: if_splits)

lemma CheckedSub_unat: "CheckedSub a b = Some c \<Longrightarrow> unat c = unat a - unat b \<and> unat b \<le> unat a"
  by (auto simp: CheckedSub_def unat_sub word_le_nat_alt not_less split: if_splits)

lemma CheckedMul_unat: "CheckedMul a b = Some c \<Longrightarrow> unat c = unat a * unat b"
  by (auto simp: CheckedMul_exact unat_word_ariths split: if_splits)

text \<open>
  Checked unsigned arithmetic never wraps: each of the three operations succeeds exactly when
  the mathematical result fits the width, and then returns that result.
\<close>

theorem checked_unsigned_exact:
  fixes a b :: "'a::len word"
  shows "map_option unat (CheckedAdd a b)
           = (if unat a + unat b < 2 ^ LENGTH('a) then Some (unat a + unat b) else None)
       \<and> map_option unat (CheckedSub a b) = (if unat b \<le> unat a then Some (unat a - unat b) else None)
       \<and> map_option unat (CheckedMul a b)
           = (if unat a * unat b < 2 ^ LENGTH('a) then Some (unat a * unat b) else None)"
  by (auto simp: CheckedAdd_exact CheckedMul_exact CheckedSub_def unat_word_ariths word_less_nat_alt
      unat_sub word_le_nat_alt)

lemma CheckedAddSigned_exact:
  "is_i64 a \<Longrightarrow> is_i64 b \<Longrightarrow>
   CheckedAddSigned a b = (if is_i64 (a + b) then Some (a + b) else None)"
  by (auto simp: CheckedAddSigned_def is_i64_def)

lemma CheckedSubSigned_exact:
  "is_i64 a \<Longrightarrow> is_i64 b \<Longrightarrow>
   CheckedSubSigned a b = (if b \<noteq> INT64_MIN \<and> is_i64 (a - b) then Some (a - b) else None)"
  by (auto simp: CheckedSubSigned_def CheckedAddSigned_def is_i64_def)

end
