(* ===== verification/NDO_Hash.thy ===== *)
theory NDO_Hash
  imports NDO_Prelude "HOL-Library.While_Combinator"
begin

text \<open>
  Hashing (\<^verbatim>\<open>hash.hpp\<close>, \<^verbatim>\<open>hash.cpp\<close>) and the digest value type (\<^verbatim>\<open>Digest\<close> of \<^verbatim>\<open>identity.hpp\<close>,
  \<^verbatim>\<open>identity.cpp\<close>): the streaming SHA-256 class, CRC-32 with its compile-time table, and the hex
  codecs.  The streaming hasher is shown to refine a one-shot specification over the whole message
  (\<open>sha256\<close>), whatever the chunking; the table-driven CRC is shown equal to the bit-serial one and to
  detect every corruption confined to one byte; the hex codecs are shown to be inverse; and the
  length-prefixed fields that every identity is hashed from are shown to be uniquely readable.
\<close>

section \<open>SHA-256\<close>

text \<open>The round constants, in the rows of the source.\<close>

definition kSha256K :: "u32 list" where
  "kSha256K = concat
    [[0x428a2f98, 0x71374491, 0xb5c0fbcf, 0xe9b5dba5, 0x3956c25b, 0x59f111f1, 0x923f82a4],
     [0xab1c5ed5, 0xd807aa98, 0x12835b01, 0x243185be, 0x550c7dc3, 0x72be5d74, 0x80deb1fe],
     [0x9bdc06a7, 0xc19bf174, 0xe49b69c1, 0xefbe4786, 0x0fc19dc6, 0x240ca1cc, 0x2de92c6f],
     [0x4a7484aa, 0x5cb0a9dc, 0x76f988da, 0x983e5152, 0xa831c66d, 0xb00327c8, 0xbf597fc7],
     [0xc6e00bf3, 0xd5a79147, 0x06ca6351, 0x14292967, 0x27b70a85, 0x2e1b2138, 0x4d2c6dfc],
     [0x53380d13, 0x650a7354, 0x766a0abb, 0x81c2c92e, 0x92722c85, 0xa2bfe8a1, 0xa81a664b],
     [0xc24b8b70, 0xc76c51a3, 0xd192e819, 0xd6990624, 0xf40e3585, 0x106aa070, 0x19a4c116],
     [0x1e376c08, 0x2748774c, 0x34b0bcb5, 0x391c0cb3, 0x4ed8aa4a, 0x5b9cca4f, 0x682e6ff3],
     [0x748f82ee, 0x78a5636f, 0x84c87814, 0x8cc70208, 0x90befffa, 0xa4506ceb, 0xbef9a3f7],
     [0xc67178f2]]"

definition RotateRight :: "u32 \<Rightarrow> nat \<Rightarrow> u32" where
  "RotateRight v bits = drop_bit bits v OR push_bit (32 - bits) v"

text \<open>
  The hasher.  The valid prefix of the 64-byte buffer is kept as a list; its length is \<^verbatim>\<open>buffered_\<close>.
\<close>

record Sha256 =
  sh_state :: "u32 list"
  sh_buffer :: bytes
  sh_total_bytes :: u64
  sh_finalized :: bool

definition sha256_iv :: "u32 list" where
  "sha256_iv = [0x6a09e667, 0xbb67ae85, 0x3c6ef372, 0xa54ff53a, 0x510e527f, 0x9b05688c,
                0x1f83d9ab, 0x5be0cd19]"

definition Sha256_new :: Sha256 where
  "Sha256_new = \<lparr>sh_state = sha256_iv, sh_buffer = [], sh_total_bytes = 0, sh_finalized = False\<rparr>"

definition block_word :: "bytes \<Rightarrow> nat \<Rightarrow> u32" where
  "block_word block i =
     push_bit 24 (ucast (block ! (i * 4))) OR push_bit 16 (ucast (block ! (i * 4 + 1)))
     OR push_bit 8 (ucast (block ! (i * 4 + 2))) OR ucast (block ! (i * 4 + 3))"

text \<open>The message schedule: \<open>extend_schedule n w\<close> appends \<open>n\<close> further words.\<close>

fun extend_schedule :: "nat \<Rightarrow> u32 list \<Rightarrow> u32 list" where
  "extend_schedule 0 w = w"
| "extend_schedule (Suc n) w =
     (let i = length w;
          s0 = RotateRight (w ! (i - 15)) 7 XOR RotateRight (w ! (i - 15)) 18 XOR drop_bit 3 (w ! (i - 15));
          s1 = RotateRight (w ! (i - 2)) 17 XOR RotateRight (w ! (i - 2)) 19 XOR drop_bit 10 (w ! (i - 2))
      in extend_schedule n (w @ [w ! (i - 16) + s0 + w ! (i - 7) + s1]))"

fun sha_round :: "u32 \<times> u32 \<Rightarrow> u32 list \<Rightarrow> u32 list" where
  "sha_round (k, w) [a, b, c, d, e, f, g, h] =
     (let s1 = RotateRight e 6 XOR RotateRight e 11 XOR RotateRight e 25;
          ch = (e AND f) XOR ((NOT e) AND g);
          temp1 = h + s1 + ch + k + w;
          s0 = RotateRight a 2 XOR RotateRight a 13 XOR RotateRight a 22;
          maj = (a AND b) XOR (a AND c) XOR (b AND c);
          temp2 = s0 + maj
      in [temp1 + temp2, a, b, c, d + temp1, e, f, g])"
| "sha_round kw st = st"

definition Compress :: "u32 list \<Rightarrow> bytes \<Rightarrow> u32 list" where
  "Compress st block =
     (let w = extend_schedule 48 (map (block_word block) [0..<16])
      in map2 (+) st (fold sha_round (zip kSha256K w) st))"

text \<open>The loop \<^verbatim>\<open>while (remaining >= 64)\<close>: the state after the whole blocks, and what is left over.\<close>

function compress_blocks :: "u32 list \<Rightarrow> bytes \<Rightarrow> u32 list \<times> bytes" where
  "compress_blocks st data =
     (if 64 \<le> length data then compress_blocks (Compress st (take 64 data)) (drop 64 data)
      else (st, data))"
  by pat_completeness auto
termination
  by (relation "measure (\<lambda>(st, data). length data)") auto

declare compress_blocks.simps [simp del]

definition Update :: "bytes \<Rightarrow> Sha256 \<Rightarrow> Sha256" where
  "Update data h =
     (if sh_finalized h \<or> data = [] then h
      else
        let (state, buffer, cursor) =
              (if sh_buffer h \<noteq> []
               then let needed = 64 - length (sh_buffer h);
                        n = (if length data < needed then length data else needed);
                        buffer = sh_buffer h @ take n data
                    in if length buffer = 64
                       then (Compress (sh_state h) buffer, [], drop n data)
                       else (sh_state h, buffer, drop n data)
               else (sh_state h, [], data));
            (state', rest) = compress_blocks state cursor
        in h\<lparr>sh_state := state',
             sh_buffer := (if rest \<noteq> [] then rest else buffer),
             sh_total_bytes := sh_total_bytes h + of_nat (length data)\<rparr>)"

definition Update_text :: "string \<Rightarrow> Sha256 \<Rightarrow> Sha256" where
  "Update_text s = Update (bytes_of_text s)"

definition UpdateByte :: "u8 \<Rightarrow> Sha256 \<Rightarrow> Sha256" where
  "UpdateByte b = Update [b]"

text \<open>The eight bytes of a value, most significant first.\<close>

definition be_bytes :: "u64 \<Rightarrow> bytes" where
  "be_bytes v = map (\<lambda>i. ucast (drop_bit ((7 - i) * 8) v AND 0xFF)) [0..<8]"

definition UpdateU64 :: "u64 \<Rightarrow> Sha256 \<Rightarrow> Sha256" where
  "UpdateU64 v = Update (be_bytes v)"

definition UpdateLengthPrefixed :: "string \<Rightarrow> Sha256 \<Rightarrow> Sha256" where
  "UpdateLengthPrefixed s h = Update_text s (UpdateU64 (of_nat (length s)) h)"

definition UpdateTag :: "string \<Rightarrow> Sha256 \<Rightarrow> Sha256" where
  "UpdateTag = UpdateLengthPrefixed"

definition pad_zero :: "Sha256 \<Rightarrow> Sha256" where
  "pad_zero = while (\<lambda>h. length (sh_buffer h) \<noteq> 56) (Update [0])"

type_synonym Digest = bytes

definition state_bytes :: "u32 list \<Rightarrow> bytes" where
  "state_bytes st =
     concat (map (\<lambda>x. [ucast (drop_bit 24 x AND 0xFF), ucast (drop_bit 16 x AND 0xFF),
                      ucast (drop_bit 8 x AND 0xFF), ucast (x AND 0xFF)]) st)"

definition kDigestBytes :: nat where
  "kDigestBytes = 32"

text \<open>\<^verbatim>\<open>Final\<close>: the digest and the spent hasher.  A second call yields the zero digest.\<close>

definition Final_step :: "Sha256 \<Rightarrow> Digest \<times> Sha256" where
  "Final_step h =
     (if sh_finalized h then (replicate kDigestBytes 0, h)
      else
        let total_bits = sh_total_bytes h * 8;
            padded = pad_zero (Update [0x80] h);
            closed = Update (be_bytes total_bits) padded
        in (state_bytes (sh_state closed), closed\<lparr>sh_finalized := True\<rparr>))"

definition Final :: "Sha256 \<Rightarrow> Digest" where
  "Final h = fst (Final_step h)"

definition HashBytes :: "bytes \<Rightarrow> Digest" where
  "HashBytes data = Final (Update data Sha256_new)"

section \<open>CRC-32\<close>

definition crc_shift :: "u32 \<Rightarrow> u32" where
  "crc_shift v = (if v AND 1 \<noteq> 0 then 0xEDB88320 XOR drop_bit 1 v else drop_bit 1 v)"

definition crc_table_entry :: "nat \<Rightarrow> u32" where
  "crc_table_entry i = (crc_shift ^^ 8) (of_nat i)"

definition kCrc32Table :: "u32 list" where
  "kCrc32Table = map crc_table_entry [0..<256]"

definition crc_byte :: "u8 \<Rightarrow> u32 \<Rightarrow> u32" where
  "crc_byte b crc = kCrc32Table ! unat ((crc XOR ucast b) AND 0xFF) XOR drop_bit 8 crc"

definition Crc32 :: "bytes \<Rightarrow> u32" where
  "Crc32 data = fold crc_byte data 0xFFFFFFFF XOR 0xFFFFFFFF"

section \<open>Hexadecimal text\<close>

definition kHexDigits :: string where
  "kHexDigits = ''0123456789abcdef''"

definition HexValue :: "char \<Rightarrow> int" where
  "HexValue c =
     (let n = int (of_char c) in
      if 48 \<le> n \<and> n \<le> 57 then n - 48
      else if 97 \<le> n \<and> n \<le> 102 then n - 97 + 10
      else if 65 \<le> n \<and> n \<le> 70 then n - 65 + 10
      else - 1)"

definition ToHex :: "bytes \<Rightarrow> string" where
  "ToHex data = concat (map (\<lambda>b. [kHexDigits ! unat (drop_bit 4 b), kHexDigits ! unat (b AND 0x0F)]) data)"

fun hex_pairs :: "string \<Rightarrow> bytes option" where
  "hex_pairs [] = Some []"
| "hex_pairs [c] = None"
| "hex_pairs (h # l # rest) =
     (let high = HexValue h; low = HexValue l in
      if high < 0 \<or> low < 0 then None
      else map_option ((#) (of_int high * 16 OR of_int low)) (hex_pairs rest))"

definition FromHex :: "string \<Rightarrow> bytes option" where
  "FromHex hex = (if length hex mod 2 \<noteq> 0 then None else hex_pairs hex)"

definition Digest_is_set :: "Digest \<Rightarrow> bool" where
  "Digest_is_set d \<longleftrightarrow> list_ex (\<lambda>b. b \<noteq> 0) d"

definition Digest_unset :: Digest where
  "Digest_unset = replicate kDigestBytes 0"

definition Digest_ToHex :: "Digest \<Rightarrow> string" where
  "Digest_ToHex d = ToHex (take kDigestBytes d)"

definition Digest_TryFromHex :: "string \<Rightarrow> Digest option" where
  "Digest_TryFromHex hex = (if length hex \<noteq> 2 * kDigestBytes then None else hex_pairs hex)"

definition ToShortHex :: "Digest \<Rightarrow> string" where
  "ToShortHex d = take 12 (Digest_ToHex d)"

section \<open>The one-shot specification\<close>

text \<open>
  \<open>sha256 m\<close> pads the message once, cuts it into blocks and folds the compression over them.
  \<open>hasher_of m\<close> is the hasher that has absorbed exactly \<open>m\<close>.
\<close>

definition sha_padding :: "nat \<Rightarrow> bytes" where
  "sha_padding n = 0x80 # replicate ((119 - n mod 64) mod 64) 0 @ be_bytes (of_nat n * 8)"

definition sha256 :: "bytes \<Rightarrow> Digest" where
  "sha256 m = state_bytes (fst (compress_blocks sha256_iv (m @ sha_padding (length m))))"

definition hasher_of :: "bytes \<Rightarrow> Sha256" where
  "hasher_of m =
     \<lparr>sh_state = fst (compress_blocks sha256_iv m), sh_buffer = snd (compress_blocks sha256_iv m),
      sh_total_bytes = of_nat (length m), sh_finalized = False\<rparr>"

text \<open>A length-prefixed field as bytes.\<close>

definition lp_bytes :: "string \<Rightarrow> bytes" where
  "lp_bytes s = be_bytes (of_nat (length s)) @ bytes_of_text s"

section \<open>Streaming refines the one-shot specification\<close>

lemma compress_blocks_short: "length data < 64 \<Longrightarrow> compress_blocks st data = (st, data)"
  by (subst compress_blocks.simps) simp

lemma compress_blocks_append:
  "compress_blocks st (a @ b) = (let (s, r) = compress_blocks st a in compress_blocks s (r @ b))"
proof (induction st a rule: compress_blocks.induct)
  case (1 st a)
  show ?case
  proof (cases "64 \<le> length a")
    case True
    then have "compress_blocks st (a @ b)
        = compress_blocks (Compress st (take 64 a)) (drop 64 a @ b)"
      by (subst compress_blocks.simps) simp
    also have "\<dots> = (let (s, r) = compress_blocks st a in compress_blocks s (r @ b))"
      using True by (subst 1) (simp_all add: compress_blocks.simps [of st a])
    finally show ?thesis .
  qed (simp add: compress_blocks_short)
qed

lemma length_leftover: "length (snd (compress_blocks st data)) = length data mod 64"
proof (induction st data rule: compress_blocks.induct)
  case (1 st data)
  then show ?case
    by (cases "64 \<le> length data")
      (simp_all add: compress_blocks.simps [of st data] mod_if [of "length data"])
qed

lemma leftover_bound: "length (snd (compress_blocks st data)) < 64"
  by (simp add: length_leftover)

lemma Sha256_new_absorbed: "Sha256_new = hasher_of []"
  by (simp add: Sha256_new_def hasher_of_def compress_blocks_short)

lemma compress_full_block:
  "length block = 64 \<Longrightarrow> compress_blocks st (block @ data) = compress_blocks (Compress st block) data"
  by (subst compress_blocks.simps) simp

text \<open>One call of \<^verbatim>\<open>Update\<close> extends the absorbed message, whatever is buffered.\<close>

lemma Update_absorbs [stream_simps]: "Update data (hasher_of m) = hasher_of (m @ data)"
proof (cases "data = []")
  case True
  then show ?thesis by (simp add: Update_def)
next
  case False
  obtain s r where sr: "compress_blocks sha256_iv m = (s, r)" by fastforce
  have short: "length r < 64" using leftover_bound [of sha256_iv m] sr by simp
  have whole: "compress_blocks sha256_iv (m @ data) = compress_blocks s (r @ data)"
    by (subst compress_blocks_append) (simp add: sr)
  show ?thesis
  proof (cases "r = []")
    case True
    with False sr whole show ?thesis
      by (simp add: Update_def hasher_of_def Let_def case_prod_unfold)
  next
    case buffered: False
    show ?thesis
    proof (cases "length data < 64 - length r")
      case True
      then have "compress_blocks s (r @ data) = (s, r @ data)"
        by (intro compress_blocks_short) simp
      with True False buffered short sr whole show ?thesis
        by (simp add: Update_def hasher_of_def Let_def compress_blocks_short)
    next
      case full: False
      define n where "n = 64 - length r"
      have len: "length (r @ take n data) = 64" using full short by (simp add: n_def)
      have split: "r @ data = (r @ take n data) @ drop n data" by simp
      have "compress_blocks s (r @ data) = compress_blocks (Compress s (r @ take n data)) (drop n data)"
        by (subst split) (rule compress_full_block [OF len])
      moreover have "\<not> length data < n" and "length r + n = 64"
        using full short by (simp_all add: n_def)
      ultimately show ?thesis
        using False buffered sr whole len
        by (simp add: Update_def hasher_of_def Let_def case_prod_unfold flip: n_def)
    qed
  qed
qed

lemma Update_finalized: "sh_finalized h \<Longrightarrow> Update data h = h"
  by (simp add: Update_def)

lemma UpdateByte_absorbs [stream_simps]: "UpdateByte b (hasher_of m) = hasher_of (m @ [b])"
  by (simp add: UpdateByte_def stream_simps)

lemma UpdateU64_absorbs [stream_simps]: "UpdateU64 v (hasher_of m) = hasher_of (m @ be_bytes v)"
  by (simp add: UpdateU64_def stream_simps)

lemma UpdateLengthPrefixed_absorbs [stream_simps]:
  "UpdateLengthPrefixed s (hasher_of m) = hasher_of (m @ lp_bytes s)"
  by (simp add: UpdateLengthPrefixed_def Update_text_def lp_bytes_def stream_simps)

lemma UpdateTag_absorbs [stream_simps]: "UpdateTag s (hasher_of m) = hasher_of (m @ lp_bytes s)"
  by (simp add: UpdateTag_def stream_simps)

lemma length_be_bytes [simp]: "length (be_bytes v) = 8"
  by (simp add: be_bytes_def)

lemma buffered_hasher_of: "length (sh_buffer (hasher_of m)) = length m mod 64"
  by (simp add: hasher_of_def length_leftover)

text \<open>The padding loop stops, after the number of zero bytes the specification names.\<close>

lemma pad_count:
  fixes k :: nat
  assumes "k < 64"
  shows "(120 - k) mod 64 = (if k \<le> 56 then 56 - k else 120 - k)"
  using assms by (auto simp: mod_if)

lemma pad_zero_absorbed:
  "pad_zero (hasher_of m) = hasher_of (m @ replicate ((120 - length m mod 64) mod 64) 0)"
proof (induction "(120 - length m mod 64) mod 64" arbitrary: m)
  case 0
  define k where "k = length m mod 64"
  have "k < 64" by (simp add: k_def)
  with 0 have "k = 56" by (auto simp: pad_count simp flip: k_def split: if_splits)
  then show ?case
    by (simp add: pad_zero_def while_unfold buffered_hasher_of flip: k_def)
next
  case (Suc n)
  define k where "k = length m mod 64"
  have small: "k < 64" by (simp add: k_def)
  with Suc(2) have "k \<noteq> 56" by (auto simp: pad_count simp flip: k_def)
  then have step: "pad_zero (hasher_of m) = pad_zero (hasher_of (m @ [0]))"
    by (simp add: pad_zero_def while_unfold [of _ _ "hasher_of m"] buffered_hasher_of stream_simps
        flip: k_def)
  have "Suc n = (if k \<le> 56 then 56 - k else 120 - k)"
    using Suc(2) small by (simp add: pad_count flip: k_def)
  then have n: "n = (120 - length (m @ [0]) mod 64) mod 64"
    using small by (auto simp: mod_Suc pad_count simp flip: k_def split: if_splits)
  have "replicate (Suc n) (0::u8) = 0 # replicate n 0" by simp
  then show ?case
    using step Suc(1) [OF n] Suc(2) n by (metis append.assoc append_Cons append_Nil)
qed

lemma Final_absorbed: "Final (hasher_of m) = sha256 m"
proof -
  have zeros: "(120 - Suc (length m) mod 64) mod 64 = (119 - length m mod 64) mod 64"
    by (simp add: mod_Suc)
  show ?thesis
    by (simp add: Final_def Final_step_def Let_def stream_simps pad_zero_absorbed zeros
        sha256_def sha_padding_def) (simp add: hasher_of_def)
qed

text \<open>
  C37. Streaming does not matter: feeding a message to the hasher in any number of pieces, of any
  sizes, and finalizing gives the one-shot digest of the concatenation; in particular the padding
  loop of the finalization terminates on every message.
\<close>

theorem sha256_streaming: "Final (fold Update chunks Sha256_new) = sha256 (concat chunks)"
proof -
  have "fold Update chunks (hasher_of m) = hasher_of (m @ concat chunks)" for m
    by (induction chunks arbitrary: m) (simp_all add: stream_simps)
  then show ?thesis by (simp add: Sha256_new_absorbed Final_absorbed)
qed

lemma length_Compress: "length st = 8 \<Longrightarrow> length (Compress st block) = 8"
proof -
  assume st: "length st = 8"
  have round: "length (sha_round kw s) = length s" for kw s
    by (cases "(kw, s)" rule: sha_round.cases) (simp_all add: Let_def)
  have "length (fold sha_round kws s) = length s" for kws s
    by (induction kws arbitrary: s) (simp_all add: round)
  with st show ?thesis by (simp add: Compress_def Let_def)
qed

lemma length_compress_blocks: "length st = 8 \<Longrightarrow> length (fst (compress_blocks st data)) = 8"
proof (induction st data rule: compress_blocks.induct)
  case (1 st data)
  then show ?case
    by (cases "64 \<le> length data") (simp_all add: compress_blocks.simps [of st data] length_Compress)
qed

lemma length_sha256: "length (sha256 m) = kDigestBytes"
proof -
  have "length (state_bytes st) = 4 * length st" for st
    by (induction st) (simp_all add: state_bytes_def)
  then show ?thesis
    by (simp add: sha256_def kDigestBytes_def length_compress_blocks sha256_iv_def)
qed

section \<open>CRC-32: the table and the corruption it detects\<close>

lemma odd_xor_word: "odd (x XOR y) \<longleftrightarrow> odd x \<noteq> odd y" for x y :: "'a::len word"
  by (simp flip: bit_0 add: bit_xor_iff)

lemma xor_cancel_word: "x XOR z = y XOR z \<longleftrightarrow> x = y" for x y z :: "'a::len word"
  by (metis xor.assoc xor.right_neutral xor_self_eq)

lemma xor_cancel_left: "z XOR x = z XOR y \<longleftrightarrow> x = y" for x y z :: "'a::len word"
  by (simp only: xor.commute [of z] xor_cancel_word)

lemma ucast_byte_inj: "(ucast b :: u32) = ucast c \<longleftrightarrow> b = c" for b c :: u8
proof
  assume eq: "(ucast b :: u32) = ucast c"
  show "b = c"
  proof (rule bit_word_eqI)
    fix i assume "i < LENGTH(8)"
    then show "bit b i = bit c i"
      using arg_cong [OF eq, of "\<lambda>w. bit w i"] by (simp add: bit_ucast_iff)
  qed
qed simp

lemma crc_shift_odd: "crc_shift v = (if odd v then 0xEDB88320 XOR drop_bit 1 v else drop_bit 1 v)"
  by (simp add: crc_shift_def and_one_eq odd_iff_mod_2_eq_one)

lemma crc_shift_xor: "crc_shift (x XOR y) = crc_shift x XOR crc_shift y"
  by (simp add: crc_shift_odd odd_xor_word drop_bit_xor ac_simps)

lemma crc_shift_iterate_xor: "(crc_shift ^^ n) (x XOR y) = (crc_shift ^^ n) x XOR (crc_shift ^^ n) y"
  by (induction n) (simp_all add: crc_shift_xor)

lemma crc_shift_iterate_high:
  assumes "\<And>i. i < n \<Longrightarrow> \<not> bit v i"
  shows "(crc_shift ^^ n) v = drop_bit n v"
  using assms
proof (induction n)
  case (Suc n)
  have "\<not> bit (drop_bit n v) 0" using Suc.prems [of n] by (simp add: bit_drop_bit_eq)
  then have "even (drop_bit n v)" by (simp add: bit_0)
  then show ?case using Suc by (simp add: crc_shift_odd)
qed simp

text \<open>Eight bit-serial steps are one table access.\<close>

lemma crc_byte_serial: "crc_byte b crc = (crc_shift ^^ 8) (crc XOR ucast b)"
proof -
  define v where "v = crc XOR ucast b"
  define low where "low = v AND 0xFF"
  define high where "high = v AND NOT 0xFF"
  have ff: "(0xFF :: u32) = mask 8" by (simp add: mask_eq_exp_minus_1)
  have parts: "v = low XOR high"
    by (rule bit_word_eqI) (auto simp: low_def high_def bit_simps)
  have "low < 2 ^ 8"
    unfolding low_def ff by (rule and_mask_less') simp
  then have bound: "unat low < 256" by (simp add: word_less_nat_alt)
  have "kCrc32Table ! unat low = (crc_shift ^^ 8) low"
    using bound by (simp add: kCrc32Table_def crc_table_entry_def)
  moreover have "(crc_shift ^^ 8) high = drop_bit 8 high"
    by (rule crc_shift_iterate_high) (auto simp: high_def ff bit_simps)
  moreover have "drop_bit 8 high = drop_bit 8 crc"
    by (rule bit_word_eqI) (auto simp: high_def v_def ff bit_simps dest: bit_imp_le_length)
  ultimately have "kCrc32Table ! unat low XOR drop_bit 8 crc = (crc_shift ^^ 8) (low XOR high)"
    by (simp only: crc_shift_iterate_xor)
  then show ?thesis
    by (simp only: crc_byte_def flip: v_def low_def parts)
qed

text \<open>The top bit of the polynomial records the bit shifted out, so no step loses information.\<close>

lemma inj_crc_shift: "crc_shift x = crc_shift y \<longleftrightarrow> x = y"
proof
  assume eq: "crc_shift x = crc_shift y"
  have top: "bit (crc_shift v) 31 \<longleftrightarrow> odd v" for v
    by (auto simp: crc_shift_odd bit_xor_iff bit_drop_bit_eq dest: bit_imp_le_length)
  have "odd x \<longleftrightarrow> odd y" using eq top by metis
  with eq have "drop_bit 1 x = drop_bit 1 y"
    by (auto simp: crc_shift_odd xor_cancel_left split: if_splits)
  then have high: "bit x (Suc i) = bit y (Suc i)" for i
    by (metis One_nat_def add.commute bit_drop_bit_eq comp_apply plus_1_eq_Suc)
  show "x = y"
  proof (rule bit_word_eqI)
    fix i
    show "bit x i = bit y i"
      using high \<open>odd x \<longleftrightarrow> odd y\<close> by (cases i) (simp_all add: bit_0)
  qed
qed simp

lemma inj_crc_iterate: "(crc_shift ^^ n) x = (crc_shift ^^ n) y \<longleftrightarrow> x = y"
  by (induction n) (simp_all add: inj_crc_shift)

lemma crc_byte_inj_state: "crc_byte b x = crc_byte b y \<longleftrightarrow> x = y"
  by (simp add: crc_byte_serial inj_crc_iterate xor_cancel_word)

lemma crc_byte_inj_byte: "crc_byte b x = crc_byte c x \<longleftrightarrow> b = c"
  by (simp add: crc_byte_serial inj_crc_iterate xor.commute [of x] xor_cancel_word ucast_byte_inj)

lemma crc_fold_inj_state: "fold crc_byte data x = fold crc_byte data y \<longleftrightarrow> x = y"
  by (induction data arbitrary: x y) (simp_all add: crc_byte_inj_state)

text \<open>
  The frame checksum detects every corruption confined to one byte of the payload, at any
  position and in a payload of any length.
\<close>

theorem crc32_detects_byte_corruption:
  "Crc32 (before @ [b] @ after) = Crc32 (before @ [c] @ after) \<longleftrightarrow> b = c"
  by (simp add: Crc32_def xor_cancel_word crc_fold_inj_state crc_byte_inj_byte)

text \<open>
  The table-driven checksum is the bit-serial one: eight conditional shifts by the reflected
  polynomial per byte.
\<close>

theorem crc32_is_bit_serial:
  "Crc32 data = fold (\<lambda>b crc. (crc_shift ^^ 8) (crc XOR ucast b)) data 0xFFFFFFFF XOR 0xFFFFFFFF"
  by (simp add: Crc32_def crc_byte_serial [abs_def])

section \<open>Hexadecimal text round trips\<close>

lemma hex_digit_value:
  assumes "n < 16"
  shows "HexValue (kHexDigits ! n) = int n"
proof -
  have "\<forall>n < 16. HexValue (kHexDigits ! n) = int n"
    by code_simp
  with assms show ?thesis by blast
qed

lemma nibbles_join: "of_int (int (unat (drop_bit 4 b))) * 16 OR of_int (int (unat (b AND 0x0F))) = b"
  for b :: u8
proof -
  have "of_int (int (unat (drop_bit 4 b))) * 16 = push_bit 4 (drop_bit 4 b)"
    by (simp add: push_bit_eq_mult)
  moreover have "push_bit 4 (drop_bit 4 b) OR (b AND mask 4) = b"
    by (rule bit_word_eqI) (auto simp: bit_simps)
  moreover have "(0x0F :: u8) = mask 4" by (simp add: mask_eq_exp_minus_1)
  ultimately show ?thesis by simp
qed

lemma nibble_bounds: "unat (drop_bit 4 b) < 16 \<and> unat (b AND 0x0F) < 16" for b :: u8
proof -
  have "b AND 0x0F < 2 ^ 4"
    using and_mask_less' [of 4 b] by (simp add: mask_eq_exp_minus_1)
  moreover have "unat (drop_bit 4 b) = unat b div 16"
    by (simp add: drop_bit_eq_div unat_div)
  moreover have "unat b < 256" using unsigned_less [of b, where 'a = nat] by simp
  ultimately show ?thesis by (auto simp: word_less_nat_alt)
qed

lemma hex_pairs_ToHex: "hex_pairs (ToHex data) = Some data"
proof (induction data)
  case Nil
  show ?case by (simp add: ToHex_def)
next
  case (Cons b data)
  then show ?case
    using nibble_bounds [of b] nibbles_join [of b]
    by (simp add: ToHex_def hex_digit_value Let_def)
qed

lemma length_ToHex [simp]: "length (ToHex data) = 2 * length data"
  by (induction data) (simp_all add: ToHex_def)

text \<open>
  The hex form of a digest reads back as that digest, and the text form fits what the parser
  requires.
\<close>

theorem digest_hex_roundtrip:
  assumes "length d = kDigestBytes"
  shows "Digest_TryFromHex (Digest_ToHex d) = Some d \<and> FromHex (ToHex d) = Some d"
  using assms by (simp add: Digest_TryFromHex_def Digest_ToHex_def FromHex_def hex_pairs_ToHex)

theorem digest_hex_roundtrip_witness:
  "Digest_TryFromHex (Digest_ToHex Digest_unset) = Some Digest_unset \<and>
   FromHex (ToHex Digest_unset) = Some Digest_unset"
  by (rule digest_hex_roundtrip) (simp add: Digest_unset_def)

lemma Digest_ToHex_inj:
  "length d = kDigestBytes \<Longrightarrow> length e = kDigestBytes \<Longrightarrow> Digest_ToHex d = Digest_ToHex e \<longleftrightarrow> d = e"
  by (metis Digest_ToHex_def hex_pairs_ToHex option.inject order_refl take_all)

section \<open>Unique reading of hashed fields\<close>

lemma be_bytes_nth_bit: "i < 8 \<Longrightarrow> j < 8 \<Longrightarrow> bit (be_bytes v ! i) j = bit v ((7 - i) * 8 + j)"
proof -
  have ff: "(0xFF :: u64) = mask 8" by (simp add: mask_eq_exp_minus_1)
  show "i < 8 \<Longrightarrow> j < 8 \<Longrightarrow> ?thesis"
    unfolding be_bytes_def ff by (simp add: bit_simps)
qed

lemma be_bytes_inj: "be_bytes v = be_bytes w \<longleftrightarrow> v = w"
proof
  assume eq: "be_bytes v = be_bytes w"
  show "v = w"
  proof (rule bit_word_eqI)
    fix n assume n: "n < LENGTH(64)"
    define i where "i = 7 - n div 8"
    define j where "j = n mod 8"
    have "n div 8 \<le> 7" using n by simp
    then have ij: "i < 8" "j < 8" "(7 - i) * 8 + j = n"
      by (simp_all add: i_def j_def)
    show "bit v n = bit w n"
      using be_bytes_nth_bit [OF ij(1,2)] eq ij(3) by metis
  qed
qed simp

text \<open>
  A length-prefixed field followed by anything can be split in only one way, as long as the text is
  shorter than the 64-bit length can count; hence two different sequences of fields never hash the
  same bytes.
\<close>

lemma unat_of_nat_small: "n < 2 ^ 64 \<Longrightarrow> unat (of_nat n :: u64) = n"
  by (simp add: unat_of_nat take_bit_nat_eq_self)

lemma lp_bytes_unique:
  assumes "lp_bytes a @ x = lp_bytes b @ y"
    and "length a < 2 ^ 64" and "length b < 2 ^ 64"
  shows "a = b \<and> x = y"
proof -
  have "be_bytes (of_nat (length a)) = be_bytes (of_nat (length b))"
    and rest: "bytes_of_text a @ x = bytes_of_text b @ y"
    using assms(1) by (simp_all add: lp_bytes_def append_eq_append_conv)
  then have "(of_nat (length a) :: u64) = of_nat (length b)" by (simp add: be_bytes_inj)
  then have "length a = length b"
    using assms(2,3) by (metis unat_of_nat_small)
  with rest show ?thesis by (simp add: append_eq_append_conv bytes_of_text_inj)
qed

end
