(* ===== verification/NDO_Values.thy ===== *)
theory NDO_Values
  imports NDO_Text NDO_Status NDO_Hash
begin

text \<open>
  Canonical values (\<^verbatim>\<open>value.hpp\<close>, \<^verbatim>\<open>value.cpp\<close>): the tree, its bounds, its canonical text, the byte
  stream its digest is computed from, the relation the comparison decides drift with, and the UTF-8
  validator.  A \<^verbatim>\<open>double\<close> is its 64-bit IEEE pattern; its exact value is read as an integer number of
  units of \<open>2 ^ -1075\<close>, which is what comparison, \<^verbatim>\<open>std::floor\<close> and the conversions to integers are
  defined by.  The decimal form of a double, \<^verbatim>\<open>FormatDouble\<close>, calls \<^verbatim>\<open>std::to_chars\<close>; it is the
  parameter \<open>fd\<close> of the definitions that print values.
\<close>

section \<open>The tree\<close>

datatype Value =
    V_Null
  | V_Bool bool
  | V_Int int
  | V_Uint u64
  | V_Double u64
  | V_String string
  | V_Bytes bytes
  | V_List "Value list"
  | V_Map "(string \<times> Value) list"

datatype ValueKind = VK_Null | VK_Bool | VK_Int | VK_Uint | VK_Double | VK_String | VK_Bytes | VK_List | VK_Map

fun value_kind :: "Value \<Rightarrow> ValueKind" where
  "value_kind V_Null = VK_Null"
| "value_kind (V_Bool b) = VK_Bool"
| "value_kind (V_Int i) = VK_Int"
| "value_kind (V_Uint u) = VK_Uint"
| "value_kind (V_Double d) = VK_Double"
| "value_kind (V_String s) = VK_String"
| "value_kind (V_Bytes b) = VK_Bytes"
| "value_kind (V_List l) = VK_List"
| "value_kind (V_Map m) = VK_Map"

fun kind_tag :: "ValueKind \<Rightarrow> u8" where
  "kind_tag VK_Null = 0"
| "kind_tag VK_Bool = 1"
| "kind_tag VK_Int = 2"
| "kind_tag VK_Uint = 3"
| "kind_tag VK_Double = 4"
| "kind_tag VK_String = 5"
| "kind_tag VK_Bytes = 6"
| "kind_tag VK_List = 7"
| "kind_tag VK_Map = 8"

fun ToText_ValueKind :: "ValueKind \<Rightarrow> string" where
  "ToText_ValueKind VK_Null = ''null''"
| "ToText_ValueKind VK_Bool = ''bool''"
| "ToText_ValueKind VK_Int = ''int''"
| "ToText_ValueKind VK_Uint = ''uint''"
| "ToText_ValueKind VK_Double = ''double''"
| "ToText_ValueKind VK_String = ''string''"
| "ToText_ValueKind VK_Bytes = ''bytes''"
| "ToText_ValueKind VK_List = ''list''"
| "ToText_ValueKind VK_Map = ''map''"

datatype NumericEquivalence = NE_Exact | NE_Numeric
datatype ValueRelation = VR_Equal | VR_Different | VR_Incomparable

definition is_null :: "Value \<Rightarrow> bool" where
  "is_null v \<longleftrightarrow> value_kind v = VK_Null"

definition is_container :: "Value \<Rightarrow> bool" where
  "is_container v \<longleftrightarrow> value_kind v = VK_List \<or> value_kind v = VK_Map"

definition MakeUint :: "u64 \<Rightarrow> Value" where
  "MakeUint v = (if v \<le> 9223372036854775807 then V_Int (uint v) else V_Uint v)"

section \<open>Doubles\<close>

definition double_exponent :: "u64 \<Rightarrow> nat" where
  "double_exponent d = unat (drop_bit 52 d AND 0x7FF)"

definition double_fraction :: "u64 \<Rightarrow> nat" where
  "double_fraction d = unat (d AND 0xFFFFFFFFFFFFF)"

definition double_negative :: "u64 \<Rightarrow> bool" where
  "double_negative d \<longleftrightarrow> bit d 63"

definition double_isfinite :: "u64 \<Rightarrow> bool" where
  "double_isfinite d \<longleftrightarrow> double_exponent d \<noteq> 0x7FF"

text \<open>The value of a finite double in units of \<open>2 ^ -1075\<close>.\<close>

definition double_scaled :: "u64 \<Rightarrow> int" where
  "double_scaled d =
     (let e = double_exponent d;
          m = (if e = 0 then int (double_fraction d) * 2 else 2 ^ 52 + int (double_fraction d));
          magnitude = m * 2 ^ e
      in if double_negative d then - magnitude else magnitude)"

definition double_unit :: int where
  "double_unit = 2 ^ 1075"

text \<open>\<^verbatim>\<open>std::floor(x) == x\<close>, and the integer such a double is.\<close>

definition double_is_integral :: "u64 \<Rightarrow> bool" where
  "double_is_integral d \<longleftrightarrow> double_scaled d mod double_unit = 0"

definition double_to_int :: "u64 \<Rightarrow> int" where
  "double_to_int d = double_scaled d div double_unit"

definition TryMakeDouble :: "u64 \<Rightarrow> Value option" where
  "TryMakeDouble d = (if \<not> double_isfinite d then None else Some (V_Double d))"

section \<open>Canonical text\<close>

definition kHardRecursionLimit :: nat where
  "kHardRecursionLimit = 64"

definition kNodeOverheadBytes :: nat where
  "kNodeOverheadBytes = 32"

definition kContainerOverheadBytes :: nat where
  "kContainerOverheadBytes = 48"

fun canonical :: "(u64 \<Rightarrow> string) \<Rightarrow> nat \<Rightarrow> Value \<Rightarrow> string"
  and canonical_list :: "(u64 \<Rightarrow> string) \<Rightarrow> nat \<Rightarrow> Value list \<Rightarrow> string"
  and canonical_map :: "(u64 \<Rightarrow> string) \<Rightarrow> nat \<Rightarrow> bool \<Rightarrow> (string \<times> Value) list \<Rightarrow> string" where
  "canonical fd depth v =
     (if depth > kHardRecursionLimit then ''!depth''
      else case v of
        V_Null \<Rightarrow> ''n''
      | V_Bool b \<Rightarrow> (if b then ''t'' else ''f'')
      | V_Int i \<Rightarrow> CHR ''i'' # int_text i
      | V_Uint u \<Rightarrow> CHR ''u'' # nat_text (unat u)
      | V_Double d \<Rightarrow> CHR ''d'' # fd d
      | V_String s \<Rightarrow> CHR ''s'' # nat_text (length s) @ CHR '':'' # s
      | V_Bytes b \<Rightarrow> CHR ''b'' # nat_text (length b) @ CHR '':'' # ToHex b
      | V_List l \<Rightarrow> CHR ''l'' # nat_text (length l) @ CHR ''['' # canonical_list fd (Suc depth) l @ '']''
      | V_Map m \<Rightarrow> CHR ''m'' # nat_text (length m) @ CHR ''{'' # canonical_map fd (Suc depth) True m @ ''}'')"
| "canonical_list fd depth [] = []"
| "canonical_list fd depth (v # vs) = canonical fd depth v @ CHR '';'' # canonical_list fd depth vs"
| "canonical_map fd depth first [] = []"
| "canonical_map fd depth first ((k, v) # m) =
     (if first then [] else '','') @ nat_text (length k) @ CHR '':'' # k @ CHR ''='' # canonical fd depth v
     @ canonical_map fd depth False m"

declare canonical.simps [simp del]

definition ToCanonicalText :: "(u64 \<Rightarrow> string) \<Rightarrow> Value \<Rightarrow> string" where
  "ToCanonicalText fd v = canonical fd 0 v"

definition ToDisplayText :: "(u64 \<Rightarrow> string) \<Rightarrow> Value \<Rightarrow> nat \<Rightarrow> string" where
  "ToDisplayText fd v max_bytes =
     (let text = ToCanonicalText fd v
      in if length text \<le> max_bytes then text else take max_bytes text @ ''...'')"

section \<open>Hashing\<close>

fun HashValue :: "nat \<Rightarrow> Value \<Rightarrow> Sha256 \<Rightarrow> Sha256"
  and hash_list :: "nat \<Rightarrow> Value list \<Rightarrow> Sha256 \<Rightarrow> Sha256"
  and hash_map :: "nat \<Rightarrow> (string \<times> Value) list \<Rightarrow> Sha256 \<Rightarrow> Sha256" where
  "HashValue depth v h =
     (if depth > kHardRecursionLimit then UpdateTag ''!depth'' h
      else
        let h = UpdateByte (kind_tag (value_kind v)) h
        in case v of
             V_Null \<Rightarrow> h
           | V_Bool b \<Rightarrow> UpdateByte (if b then 1 else 0) h
           | V_Int i \<Rightarrow> UpdateU64 (word_of_int i) h
           | V_Uint u \<Rightarrow> UpdateU64 u h
           | V_Double d \<Rightarrow> UpdateU64 d h
           | V_String s \<Rightarrow> UpdateLengthPrefixed s h
           | V_Bytes b \<Rightarrow> Update b (UpdateU64 (of_nat (length b)) h)
           | V_List l \<Rightarrow> hash_list (Suc depth) l (UpdateU64 (of_nat (length l)) h)
           | V_Map m \<Rightarrow> hash_map (Suc depth) m (UpdateU64 (of_nat (length m)) h))"
| "hash_list depth [] h = h"
| "hash_list depth (v # vs) h = hash_list depth vs (HashValue depth v h)"
| "hash_map depth [] h = h"
| "hash_map depth ((k, v) # m) h = hash_map depth m (HashValue depth v (UpdateLengthPrefixed k h))"

declare HashValue.simps [simp del]

definition HashInto :: "Value \<Rightarrow> Sha256 \<Rightarrow> Sha256" where
  "HashInto v h = HashValue 0 v h"

definition DigestOf :: "Value \<Rightarrow> Digest" where
  "DigestOf v = Final (HashInto v Sha256_new)"

section \<open>Measures and bounds\<close>

fun CountNodes :: "nat \<Rightarrow> Value \<Rightarrow> nat"
  and count_list :: "nat \<Rightarrow> Value list \<Rightarrow> nat"
  and count_map :: "nat \<Rightarrow> (string \<times> Value) list \<Rightarrow> nat" where
  "CountNodes depth v =
     (if depth > kHardRecursionLimit then 1
      else case v of
        V_List l \<Rightarrow> 1 + count_list (Suc depth) l
      | V_Map m \<Rightarrow> 1 + count_map (Suc depth) m
      | _ \<Rightarrow> 1)"
| "count_list depth [] = 0"
| "count_list depth (v # vs) = CountNodes depth v + count_list depth vs"
| "count_map depth [] = 0"
| "count_map depth ((k, v) # m) = CountNodes depth v + count_map depth m"

fun CountDepth :: "nat \<Rightarrow> Value \<Rightarrow> nat"
  and deepest_list :: "nat \<Rightarrow> nat \<Rightarrow> Value list \<Rightarrow> nat"
  and deepest_map :: "nat \<Rightarrow> nat \<Rightarrow> (string \<times> Value) list \<Rightarrow> nat" where
  "CountDepth depth v =
     (if depth > kHardRecursionLimit then depth
      else case v of
        V_List l \<Rightarrow> deepest_list (Suc depth) depth l
      | V_Map m \<Rightarrow> deepest_map (Suc depth) depth m
      | _ \<Rightarrow> depth)"
| "deepest_list depth deepest [] = deepest"
| "deepest_list depth deepest (v # vs) = deepest_list depth (max deepest (CountDepth depth v)) vs"
| "deepest_map depth deepest [] = deepest"
| "deepest_map depth deepest ((k, v) # m) = deepest_map depth (max deepest (CountDepth depth v)) m"

fun MeasureBytes :: "nat \<Rightarrow> Value \<Rightarrow> nat \<Rightarrow> nat"
  and measure_list :: "nat \<Rightarrow> Value list \<Rightarrow> nat \<Rightarrow> nat"
  and measure_map :: "nat \<Rightarrow> (string \<times> Value) list \<Rightarrow> nat \<Rightarrow> nat" where
  "MeasureBytes depth v acc =
     (if depth > kHardRecursionLimit then acc
      else
        let acc = acc + kNodeOverheadBytes
        in case v of
             V_String s \<Rightarrow> acc + length s
           | V_Bytes b \<Rightarrow> acc + length b
           | V_List l \<Rightarrow> measure_list (Suc depth) l (acc + kContainerOverheadBytes)
           | V_Map m \<Rightarrow> measure_map (Suc depth) m (acc + kContainerOverheadBytes)
           | _ \<Rightarrow> acc)"
| "measure_list depth [] acc = acc"
| "measure_list depth (v # vs) acc = measure_list depth vs (MeasureBytes depth v acc)"
| "measure_map depth [] acc = acc"
| "measure_map depth ((k, v) # m) acc =
     measure_map depth m (MeasureBytes depth v (acc + (length k + kNodeOverheadBytes)))"

declare CountNodes.simps [simp del] CountDepth.simps [simp del] MeasureBytes.simps [simp del]

definition NodeCount :: "Value \<Rightarrow> nat" where
  "NodeCount v = CountNodes 0 v"

definition MaxDepth :: "Value \<Rightarrow> nat" where
  "MaxDepth v = CountDepth 0 v"

definition ApproximateBytes :: "Value \<Rightarrow> nat" where
  "ApproximateBytes v = MeasureBytes 0 v 0"

section \<open>UTF-8\<close>

text \<open>The lead byte: how many bytes follow, and the payload bits it contributes.\<close>

definition utf8_lead :: "nat \<Rightarrow> (nat \<times> nat) option" where
  "utf8_lead lead =
     (if lead AND 0xE0 = 0xC0
      then (if lead AND 0x1F = 0 then None else Some (1, lead AND 0x1F))
      else if lead AND 0xF0 = 0xE0 then Some (2, lead AND 0x0F)
      else if lead AND 0xF8 = 0xF0 then Some (3, lead AND 0x07)
      else None)"

text \<open>The inner loop over the continuation bytes.\<close>

fun utf8_continue :: "nat \<Rightarrow> nat list \<Rightarrow> nat option" where
  "utf8_continue codepoint [] = Some codepoint"
| "utf8_continue codepoint (c # cs) =
     (if c AND 0xC0 \<noteq> 0x80 then None
      else utf8_continue (push_bit 6 codepoint OR (c AND 0x3F)) cs)"

definition utf8_in_range :: "nat \<Rightarrow> nat \<Rightarrow> bool" where
  "utf8_in_range extra codepoint \<longleftrightarrow>
     \<not> (extra = 1 \<and> codepoint < 0x80) \<and> \<not> (extra = 2 \<and> codepoint < 0x800) \<and>
     \<not> (extra = 3 \<and> codepoint < 0x10000) \<and> \<not> codepoint > 0x10FFFF \<and>
     \<not> (codepoint \<ge> 0xD800 \<and> codepoint \<le> 0xDFFF)"

function utf8_valid :: "nat list \<Rightarrow> bool" where
  "utf8_valid [] = True"
| "utf8_valid (lead # rest) =
     (if lead < 0x80 then utf8_valid rest
      else case utf8_lead lead of
             None \<Rightarrow> False
           | Some (extra, payload) \<Rightarrow>
               extra \<le> length rest \<and>
               (case utf8_continue payload (take extra rest) of
                  None \<Rightarrow> False
                | Some codepoint \<Rightarrow> utf8_in_range extra codepoint \<and> utf8_valid (drop extra rest)))"
  by pat_completeness auto
termination
  by (relation "measure length") auto

definition IsValidUtf8 :: "string \<Rightarrow> bool" where
  "IsValidUtf8 text = utf8_valid (map of_char text)"

section \<open>Validation\<close>

text \<open>The first failing status in iteration order, or \<open>Ok\<close>.\<close>

fun ValidateValue :: "RuntimeLimits \<Rightarrow> nat \<Rightarrow> Value \<Rightarrow> Status"
  and validate_list :: "RuntimeLimits \<Rightarrow> nat \<Rightarrow> Value list \<Rightarrow> Status"
  and validate_map :: "RuntimeLimits \<Rightarrow> nat \<Rightarrow> (string \<times> Value) list \<Rightarrow> Status" where
  "ValidateValue limits depth v =
     (if depth > max_value_depth limits \<or> depth > kHardRecursionLimit
      then Status_Limit RC_LimitDepthExceeded ''value nesting exceeds the envelope''
      else case v of
        V_String s \<Rightarrow>
          if length s > max_leaf_bytes limits
          then Status_Limit RC_LimitBytesExceeded ''string leaf exceeds the envelope''
          else if \<not> IsValidUtf8 s
          then Status_Rejected RC_EncodingInvalidUtf8 ''string leaf is not UTF-8''
          else Status_Ok
      | V_Bytes b \<Rightarrow>
          if length b > max_leaf_bytes limits
          then Status_Limit RC_LimitBytesExceeded ''byte leaf exceeds the envelope''
          else Status_Ok
      | V_List l \<Rightarrow>
          if length l > max_value_nodes limits
          then Status_Limit RC_LimitObjectsExceeded ''sequence exceeds the envelope''
          else validate_list limits (Suc depth) l
      | V_Map m \<Rightarrow>
          if length m > max_value_nodes limits
          then Status_Limit RC_LimitFieldsExceeded ''member set exceeds the envelope''
          else validate_map limits (Suc depth) m
      | _ \<Rightarrow> Status_Ok)"
| "validate_list limits depth [] = Status_Ok"
| "validate_list limits depth (v # vs) =
     (let status = ValidateValue limits depth v
      in if \<not> status_ok status then status else validate_list limits depth vs)"
| "validate_map limits depth [] = Status_Ok"
| "validate_map limits depth ((k, v) # m) =
     (if length k > max_leaf_bytes limits
      then Status_Limit RC_LimitBytesExceeded ''member name exceeds the envelope''
      else if \<not> IsValidUtf8 k
      then Status_Rejected RC_EncodingInvalidUtf8 ''member name is not UTF-8''
      else
        let status = ValidateValue limits depth v
        in if \<not> status_ok status then status else validate_map limits depth m)"

declare ValidateValue.simps [simp del]

definition Validate :: "RuntimeLimits \<Rightarrow> Value \<Rightarrow> Status" where
  "Validate limits v =
     (if NodeCount v > max_value_nodes limits
      then Status_Limit RC_LimitObjectsExceeded ''value node count exceeds the envelope''
      else ValidateValue limits 0 v)"

section \<open>Relating two values\<close>

text \<open>
  \<open>RelateNumerics\<close> is \<open>None\<close> where the source returns false (a side is not numeric).  The guards on
  the double side are the source's: finite, integral, in the range of the integer type.
\<close>

definition double_equals_int :: "u64 \<Rightarrow> int \<Rightarrow> bool" where
  "double_equals_int d i \<longleftrightarrow>
     double_isfinite d \<and> double_is_integral d \<and>
     double_scaled d \<ge> -9223372036854775808 * double_unit \<and>
     double_scaled d < 9223372036854775808 * double_unit \<and> double_to_int d = i"

definition double_equals_uint :: "u64 \<Rightarrow> u64 \<Rightarrow> bool" where
  "double_equals_uint d u \<longleftrightarrow>
     double_isfinite d \<and> double_is_integral d \<and> double_scaled d \<ge> 0 \<and>
     double_scaled d < 18446744073709551616 * double_unit \<and> double_to_int d = uint u"

fun RelateNumerics :: "Value \<Rightarrow> Value \<Rightarrow> bool option" where
  "RelateNumerics (V_Int a) (V_Int b) = Some (a = b)"
| "RelateNumerics (V_Uint a) (V_Uint b) = Some (a = b)"
| "RelateNumerics (V_Int a) (V_Uint b) = Some (a \<ge> 0 \<and> word_of_int a = b)"
| "RelateNumerics (V_Uint a) (V_Int b) = Some (b \<ge> 0 \<and> word_of_int b = a)"
| "RelateNumerics (V_Double a) (V_Double b) = Some (double_scaled a = double_scaled b)"
| "RelateNumerics (V_Int a) (V_Double b) = Some (double_equals_int b a)"
| "RelateNumerics (V_Double a) (V_Int b) = Some (double_equals_int a b)"
| "RelateNumerics (V_Uint a) (V_Double b) = Some (double_equals_uint b a)"
| "RelateNumerics (V_Double a) (V_Uint b) = Some (double_equals_uint a b)"
| "RelateNumerics a b = None"

definition is_numeric :: "Value \<Rightarrow> bool" where
  "is_numeric v \<longleftrightarrow> value_kind v = VK_Int \<or> value_kind v = VK_Uint \<or> value_kind v = VK_Double"

definition equal_or_different :: "bool \<Rightarrow> ValueRelation" where
  "equal_or_different b = (if b then VR_Equal else VR_Different)"

fun RelateValuesAt :: "NumericEquivalence \<Rightarrow> nat \<Rightarrow> Value \<Rightarrow> Value \<Rightarrow> ValueRelation"
  and relate_lists :: "NumericEquivalence \<Rightarrow> nat \<Rightarrow> bool \<Rightarrow> Value list \<Rightarrow> Value list \<Rightarrow> ValueRelation"
  and relate_maps :: "NumericEquivalence \<Rightarrow> nat \<Rightarrow> bool \<Rightarrow> (string \<times> Value) list \<Rightarrow> (string \<times> Value) list \<Rightarrow> ValueRelation" where
  "RelateValuesAt eqv depth lhs rhs =
     (if depth > kHardRecursionLimit then VR_Incomparable
      else if is_numeric lhs \<and> is_numeric rhs \<and> eqv = NE_Exact \<and> value_kind lhs \<noteq> value_kind rhs
      then VR_Different
      else case (if is_numeric lhs \<and> is_numeric rhs then RelateNumerics lhs rhs else None) of
        Some eq \<Rightarrow> equal_or_different eq
      | None \<Rightarrow>
          (case (lhs, rhs) of
             (V_Null, V_Null) \<Rightarrow> VR_Equal
           | (V_Bool a, V_Bool b) \<Rightarrow> equal_or_different (a = b)
           | (V_String a, V_String b) \<Rightarrow> equal_or_different (a = b)
           | (V_Bytes a, V_Bytes b) \<Rightarrow> equal_or_different (a = b)
           | (V_List a, V_List b) \<Rightarrow>
               if length a \<noteq> length b then VR_Different else relate_lists eqv (Suc depth) False a b
           | (V_Map a, V_Map b) \<Rightarrow>
               if length a \<noteq> length b then VR_Different else relate_maps eqv (Suc depth) False a b
           | _ \<Rightarrow> VR_Incomparable))"
| "relate_lists eqv depth incomparable (a # as) (b # bs) =
     (let relation = RelateValuesAt eqv depth a b
      in if relation = VR_Different then VR_Different
         else relate_lists eqv depth (incomparable \<or> relation = VR_Incomparable) as bs)"
| "relate_lists eqv depth incomparable as bs = (if incomparable then VR_Incomparable else VR_Equal)"
| "relate_maps eqv depth incomparable ((j, a) # as) ((k, b) # bs) =
     (if j \<noteq> k then VR_Different
      else
        let relation = RelateValuesAt eqv depth a b
        in if relation = VR_Different then VR_Different
           else relate_maps eqv depth (incomparable \<or> relation = VR_Incomparable) as bs)"
| "relate_maps eqv depth incomparable as bs = (if incomparable then VR_Incomparable else VR_Equal)"

declare RelateValuesAt.simps [simp del]

definition RelateValues :: "Value \<Rightarrow> Value \<Rightarrow> NumericEquivalence \<Rightarrow> ValueRelation" where
  "RelateValues lhs rhs eqv = RelateValuesAt eqv 0 lhs rhs"

section \<open>The byte stream of a value\<close>

fun value_bytes :: "nat \<Rightarrow> Value \<Rightarrow> bytes"
  and list_bytes :: "nat \<Rightarrow> Value list \<Rightarrow> bytes"
  and map_bytes :: "nat \<Rightarrow> (string \<times> Value) list \<Rightarrow> bytes" where
  "value_bytes depth v =
     (if depth > kHardRecursionLimit then lp_bytes ''!depth''
      else kind_tag (value_kind v) #
        (case v of
           V_Null \<Rightarrow> []
         | V_Bool b \<Rightarrow> [if b then 1 else 0]
         | V_Int i \<Rightarrow> be_bytes (word_of_int i)
         | V_Uint u \<Rightarrow> be_bytes u
         | V_Double d \<Rightarrow> be_bytes d
         | V_String s \<Rightarrow> lp_bytes s
         | V_Bytes b \<Rightarrow> be_bytes (of_nat (length b)) @ b
         | V_List l \<Rightarrow> be_bytes (of_nat (length l)) @ list_bytes (Suc depth) l
         | V_Map m \<Rightarrow> be_bytes (of_nat (length m)) @ map_bytes (Suc depth) m))"
| "list_bytes depth [] = []"
| "list_bytes depth (v # vs) = value_bytes depth v @ list_bytes depth vs"
| "map_bytes depth [] = []"
| "map_bytes depth ((k, v) # m) = lp_bytes k @ value_bytes depth v @ map_bytes depth m"

declare value_bytes.simps [simp del]

lemma HashValue_absorbs [stream_simps]:
  "HashValue depth v (hasher_of msg) = hasher_of (msg @ value_bytes depth v)"
  and hash_list_absorbs [stream_simps]:
  "hash_list depth l (hasher_of msg) = hasher_of (msg @ list_bytes depth l)"
  and hash_map_absorbs [stream_simps]:
  "hash_map depth m (hasher_of msg) = hasher_of (msg @ map_bytes depth m)"
proof (induction depth v and depth l and depth m arbitrary: msg and msg and msg
    rule: value_bytes_list_bytes_map_bytes.induct)
  case (1 depth v)
  then show ?case
    by (cases v) (simp_all add: HashValue.simps [of depth] value_bytes.simps [of depth] Let_def stream_simps)
qed (simp_all add: stream_simps)

lemma HashInto_absorbs [stream_simps]: "HashInto v (hasher_of m) = hasher_of (m @ value_bytes 0 v)"
  by (simp add: HashInto_def stream_simps)

text \<open>What the injectivity of the stream needs: the recursion guard is not hit and counts fit 64 bits.\<close>

fun hashable :: "nat \<Rightarrow> Value \<Rightarrow> bool"
  and hashable_list :: "nat \<Rightarrow> Value list \<Rightarrow> bool"
  and hashable_map :: "nat \<Rightarrow> (string \<times> Value) list \<Rightarrow> bool" where
  "hashable depth v \<longleftrightarrow>
     depth \<le> kHardRecursionLimit \<and>
     (case v of
        V_Int i \<Rightarrow> is_i64 i
      | V_String s \<Rightarrow> length s < 2 ^ 64
      | V_Bytes b \<Rightarrow> length b < 2 ^ 64
      | V_List l \<Rightarrow> length l < 2 ^ 64 \<and> hashable_list (Suc depth) l
      | V_Map m \<Rightarrow> length m < 2 ^ 64 \<and> hashable_map (Suc depth) m
      | _ \<Rightarrow> True)"
| "hashable_list depth [] = True"
| "hashable_list depth (v # vs) = (hashable depth v \<and> hashable_list depth vs)"
| "hashable_map depth [] = True"
| "hashable_map depth ((k, v) # m) = (length k < 2 ^ 64 \<and> hashable depth v \<and> hashable_map depth m)"

declare hashable.simps [simp del]

lemma kind_tag_inject: "kind_tag a = kind_tag b \<longleftrightarrow> a = b"
  by (cases a; cases b) simp_all

lemma i64_word_inject:
  assumes "is_i64 i" and "is_i64 j" and "(word_of_int i :: u64) = word_of_int j"
  shows "i = j"
proof -
  have read: "signed_take_bit 63 k = k" if "is_i64 k" for k
    using that by (intro signed_take_bit_int_eq_self) (auto simp: is_i64_def)
  have "sint (word_of_int i :: u64) = sint (word_of_int j :: u64)" using assms(3) by simp
  then show ?thesis using read assms(1,2) by (simp add: sint_sbintrunc')
qed

lemma counted_split:
  assumes "be_bytes (of_nat m) @ x = be_bytes (of_nat n) @ y" and "m < 2 ^ 64" and "n < 2 ^ 64"
  shows "m = n \<and> x = y"
proof -
  have "be_bytes (of_nat m) = be_bytes (of_nat n)" and "x = y"
    using assms(1) by (simp_all add: append_eq_append_conv)
  then show ?thesis using assms(2,3) by (metis be_bytes_inj unat_of_nat_small)
qed

lemma be_bytes_split: "be_bytes v @ x = be_bytes w @ y \<longleftrightarrow> v = w \<and> x = y"
  by (auto simp: append_eq_append_conv be_bytes_inj)

lemma value_bytes_unique:
  "hashable depth a \<Longrightarrow> hashable depth b \<Longrightarrow> value_bytes depth a @ x = value_bytes depth b @ y
     \<Longrightarrow> a = b \<and> x = y"
  and list_bytes_unique:
  "hashable_list depth la \<Longrightarrow> hashable_list depth lb \<Longrightarrow> length la = length lb
     \<Longrightarrow> list_bytes depth la @ x = list_bytes depth lb @ y \<Longrightarrow> la = lb \<and> x = y"
  and map_bytes_unique:
  "hashable_map depth ma \<Longrightarrow> hashable_map depth mb \<Longrightarrow> length ma = length mb
     \<Longrightarrow> map_bytes depth ma @ x = map_bytes depth mb @ y \<Longrightarrow> ma = mb \<and> x = y"
proof (induction depth a and depth la and depth ma arbitrary: b x y and lb x y and mb x y
    rule: value_bytes_list_bytes_map_bytes.induct)
  case (1 depth a)
  have depth: "\<not> kHardRecursionLimit < depth"
    using "1.prems"(1) by (simp add: hashable.simps)
  have same: "value_kind a = value_kind b"
    using "1.prems"(3) depth by (simp add: value_bytes.simps kind_tag_inject)
  show ?case
  proof (cases a)
    case (V_Int i)
    then obtain j where b: "b = V_Int j" using same by (cases b) auto
    show ?thesis
      using "1.prems" V_Int b depth i64_word_inject [of i j]
      by (simp add: value_bytes.simps [of depth] hashable.simps [of depth] be_bytes_split)
  next
    case (V_String s)
    then obtain t where b: "b = V_String t" using same by (cases b) auto
    show ?thesis
      using "1.prems" V_String b depth lp_bytes_unique [of s x t y]
      by (simp add: value_bytes.simps [of depth] hashable.simps [of depth])
  next
    case (V_Bytes s)
    then obtain t where b: "b = V_Bytes t" using same by (cases b) auto
    have "be_bytes (of_nat (length s)) @ s @ x = be_bytes (of_nat (length t)) @ t @ y"
      and "length s < 2 ^ 64" and "length t < 2 ^ 64"
      using "1.prems" V_Bytes b depth by (simp_all add: value_bytes.simps [of depth] hashable.simps [of depth])
    then have "length s = length t \<and> s @ x = t @ y" by (rule counted_split)
    then show ?thesis using V_Bytes b by (auto simp: append_eq_append_conv)
  next
    case (V_List s)
    then obtain t where b: "b = V_List t" using same by (cases b) auto
    have "be_bytes (of_nat (length s)) @ list_bytes (Suc depth) s @ x
        = be_bytes (of_nat (length t)) @ list_bytes (Suc depth) t @ y"
      and "length s < 2 ^ 64" and "length t < 2 ^ 64"
      and ok: "hashable_list (Suc depth) s" "hashable_list (Suc depth) t"
      using "1.prems" V_List b depth by (simp_all add: value_bytes.simps [of depth] hashable.simps [of depth])
    then have "length s = length t" and "list_bytes (Suc depth) s @ x = list_bytes (Suc depth) t @ y"
      using counted_split by blast+
    then have "s = t \<and> x = y" using "1.IH"(1) [OF depth V_List ok] by simp
    then show ?thesis using V_List b by simp
  next
    case (V_Map s)
    then obtain t where b: "b = V_Map t" using same by (cases b) auto
    have "be_bytes (of_nat (length s)) @ map_bytes (Suc depth) s @ x
        = be_bytes (of_nat (length t)) @ map_bytes (Suc depth) t @ y"
      and "length s < 2 ^ 64" and "length t < 2 ^ 64"
      and ok: "hashable_map (Suc depth) s" "hashable_map (Suc depth) t"
      using "1.prems" V_Map b depth by (simp_all add: value_bytes.simps [of depth] hashable.simps [of depth])
    then have "length s = length t" and "map_bytes (Suc depth) s @ x = map_bytes (Suc depth) t @ y"
      using counted_split by blast+
    then have "s = t \<and> x = y" using "1.IH"(2) [OF depth V_Map ok] by simp
    then show ?thesis using V_Map b by simp
  qed (use same "1.prems" depth in \<open>cases b; simp add: value_bytes.simps [of depth] be_bytes_split split: if_splits\<close>)+
next
  case (3 depth v vs)
  then obtain w ws where lb: "lb = w # ws" by (cases lb) auto
  show ?case
    using "3.prems" lb "3.IH"(1) [of w "list_bytes depth vs @ x" "list_bytes depth ws @ y"]
      "3.IH"(2) [of ws x y]
    by auto
next
  case (5 depth k v m)
  then obtain l w ws where mb: "mb = (l, w) # ws" by (cases mb) auto
  show ?case
    using "5.prems" mb
      lp_bytes_unique [of k "value_bytes depth v @ map_bytes depth m @ x" l
        "value_bytes depth w @ map_bytes depth ws @ y"]
      "5.IH"(1) [of w "map_bytes depth m @ x" "map_bytes depth ws @ y"] "5.IH"(2) [of ws x y]
    by auto
qed simp_all

text \<open>The storage type bounds integers to 64 bits, in every leaf.\<close>

fun value_typed :: "Value \<Rightarrow> bool"
  and typed_list :: "Value list \<Rightarrow> bool"
  and typed_map :: "(string \<times> Value) list \<Rightarrow> bool" where
  "value_typed (V_Int i) = is_i64 i"
| "value_typed (V_Double d) = double_isfinite d"
| "value_typed (V_List l) = typed_list l"
| "value_typed (V_Map m) = typed_map m"
| "value_typed V_Null = True"
| "value_typed (V_Bool b) = True"
| "value_typed (V_Uint u) = True"
| "value_typed (V_String s) = True"
| "value_typed (V_Bytes b) = True"
| "typed_list [] = True"
| "typed_list (v # vs) = (value_typed v \<and> typed_list vs)"
| "typed_map [] = True"
| "typed_map ((k, v) # m) = (value_typed v \<and> typed_map m)"

text \<open>Counts are \<^verbatim>\<open>size_t\<close>, so a limit is below \<open>2 ^ 64\<close>.\<close>

definition limits_sized :: "RuntimeLimits \<Rightarrow> bool" where
  "limits_sized limits \<longleftrightarrow> max_leaf_bytes limits < 2 ^ 64 \<and> max_value_nodes limits < 2 ^ 64"

lemma ValidateValue_hashable:
  "status_ok (ValidateValue limits depth v) \<Longrightarrow> value_typed v \<Longrightarrow> limits_sized limits \<Longrightarrow> hashable depth v"
  and validate_list_hashable:
  "status_ok (validate_list limits depth l) \<Longrightarrow> typed_list l \<Longrightarrow> limits_sized limits \<Longrightarrow> hashable_list depth l"
  and validate_map_hashable:
  "status_ok (validate_map limits depth m) \<Longrightarrow> typed_map m \<Longrightarrow> limits_sized limits \<Longrightarrow> hashable_map depth m"
proof (induction limits depth v and limits depth l and limits depth m
    rule: ValidateValue_validate_list_validate_map.induct)
  case (1 limits depth v)
  then show ?case
    by (cases v)
      (simp_all add: ValidateValue.simps [of limits depth] hashable.simps [of depth] limits_sized_def split: if_splits)
qed (simp_all add: Let_def limits_sized_def split: if_splits)

text \<open>
  C36. The digest of a value identifies it: it is the SHA-256 of a byte stream that two different
  values accepted by validation never share, however they nest and whatever their leaves contain.
\<close>

theorem value_digest_identifies:
  assumes "status_ok (Validate limits a)" and "status_ok (Validate limits b)"
    and "value_typed a" and "value_typed b" and "limits_sized limits"
  shows "DigestOf a = sha256 (value_bytes 0 a) \<and> (value_bytes 0 a = value_bytes 0 b \<longleftrightarrow> a = b)"
proof -
  have "hashable 0 a" and "hashable 0 b"
    using assms ValidateValue_hashable by (auto simp: Validate_def split: if_splits)
  then have "a = b" if "value_bytes 0 a = value_bytes 0 b"
    using value_bytes_unique [of 0 a b "[]" "[]"] that by simp
  then show ?thesis
    by (auto simp: DigestOf_def HashInto_def Sha256_new_absorbed stream_simps Final_absorbed)
qed

theorem value_digest_identifies_witness:
  "DigestOf (V_List [V_Int 1, V_Null]) = sha256 (value_bytes 0 (V_List [V_Int 1, V_Null])) \<and>
   (value_bytes 0 (V_List [V_Int 1, V_Null]) = value_bytes 0 (V_List [V_Int 1])
     \<longleftrightarrow> V_List [V_Int 1, V_Null] = V_List [V_Int 1])"
  by (rule value_digest_identifies [where limits = default_limits])
    (simp_all add: Validate_def NodeCount_def CountNodes.simps ValidateValue.simps default_limits_def
      kHardRecursionLimit_def limits_sized_def is_i64_def)

section \<open>The relation that decides drift\<close>

lemma RelateNumerics_commute: "RelateNumerics a b = RelateNumerics b a"
  by (cases "(a, b)" rule: RelateNumerics.cases) auto

lemma RelateNumerics_defined: "is_numeric a \<Longrightarrow> is_numeric b \<Longrightarrow> \<exists>eq. RelateNumerics a b = Some eq"
  by (cases a; cases b) (simp_all add: is_numeric_def)

lemma RelateValuesAt_numeric:
  assumes "is_numeric a" and "is_numeric b"
  shows "RelateValuesAt e depth a b =
    (if depth > kHardRecursionLimit then VR_Incomparable
     else if e = NE_Exact \<and> value_kind a \<noteq> value_kind b then VR_Different
     else equal_or_different (the (RelateNumerics a b)))"
  using RelateNumerics_defined [OF assms] assms by (auto simp: RelateValuesAt.simps)

lemma RelateValuesAt_commute: "RelateValuesAt e depth a b = RelateValuesAt e depth b a"
  and relate_lists_commute: "relate_lists e depth inc la lb = relate_lists e depth inc lb la"
  and relate_maps_commute: "relate_maps e depth inc ma mb = relate_maps e depth inc mb ma"
proof (induction e depth a b and e depth inc la lb and e depth inc ma mb
    rule: RelateValuesAt_relate_lists_relate_maps.induct)
  case (1 e depth a b)
  show ?case
  proof (cases "is_numeric a \<and> is_numeric b")
    case True
    then show ?thesis by (simp add: RelateValuesAt_numeric RelateNumerics_commute [of a b] eq_commute)
  next
    case False
    then show ?thesis
      using 1 by (cases a; cases b) (auto simp: RelateValuesAt.simps [of e depth] equal_or_different_def)
  qed
qed (auto simp: Let_def)

text \<open>The relation between an intended and an observed value does not depend on which is which.\<close>

theorem relate_values_symmetric: "RelateValues a b e = RelateValues b a e"
  unfolding RelateValues_def by (rule RelateValuesAt_commute)

lemma RelateNumerics_same: "is_numeric a \<Longrightarrow> RelateNumerics a a = Some True"
  by (cases a) (simp_all add: is_numeric_def)

lemma RelateValuesAt_same: "hashable depth v \<Longrightarrow> RelateValuesAt e depth v v = VR_Equal"
  and relate_lists_same: "hashable_list depth l \<Longrightarrow> relate_lists e depth False l l = VR_Equal"
  and relate_maps_same: "hashable_map depth m \<Longrightarrow> relate_maps e depth False m m = VR_Equal"
proof (induction depth v and depth l and depth m rule: value_bytes_list_bytes_map_bytes.induct)
  case (1 depth v)
  show ?case
  proof (cases "is_numeric v")
    case True
    with 1 show ?thesis
      by (simp add: RelateValuesAt_numeric RelateNumerics_same equal_or_different_def hashable.simps)
  next
    case False
    with 1 show ?thesis
      by (cases v) (simp_all add: RelateValuesAt.simps [of e depth] hashable.simps [of depth]
          equal_or_different_def is_numeric_def not_less)
  qed
qed simp_all

text \<open>
  A value that passed validation is Equal to itself under either numeric equivalence: a device
  that reports exactly what is intended is never reported as drifting, and never as incomparable.
\<close>

theorem relate_values_reflexive:
  assumes "status_ok (Validate limits v)" and "value_typed v" and "limits_sized limits"
  shows "RelateValues v v e = VR_Equal"
  using assms ValidateValue_hashable RelateValuesAt_same
  by (auto simp: RelateValues_def Validate_def split: if_splits)

theorem relate_values_reflexive_witness:
  "RelateValues (V_Map [(''mtu'', V_Int 9000)]) (V_Map [(''mtu'', V_Int 9000)]) NE_Exact = VR_Equal"
  by (rule relate_values_reflexive [where limits = default_limits])
    (simp_all add: Validate_def NodeCount_def CountNodes.simps ValidateValue.simps default_limits_def
      kHardRecursionLimit_def limits_sized_def is_i64_def IsValidUtf8_def)

text \<open>The exact value of a number, in units of \<open>2 ^ -1075\<close>.\<close>

fun num_scaled :: "Value \<Rightarrow> int" where
  "num_scaled (V_Int i) = i * double_unit"
| "num_scaled (V_Uint u) = uint u * double_unit"
| "num_scaled (V_Double d) = double_scaled d"
| "num_scaled v = 0"

lemma double_unit_pos: "0 < double_unit"
  unfolding double_unit_def by (rule zero_less_power) simp

lemma scaled_as_int:
  "double_is_integral d \<and> double_to_int d = i \<longleftrightarrow> double_scaled d = i * double_unit"
  unfolding double_is_integral_def double_to_int_def using double_unit_pos
  by (metis add_cancel_right_right div_mult_mod_eq mod_mult_self2_is_0 nonzero_mult_div_cancel_right less_irrefl)

lemma double_equals_int_exact:
  assumes "double_isfinite d" and "is_i64 i"
  shows "double_equals_int d i \<longleftrightarrow> double_scaled d = i * double_unit"
proof -
  have "-9223372036854775808 * double_unit \<le> i * double_unit"
    by (rule mult_right_mono) (use assms(2) double_unit_pos in \<open>simp_all add: is_i64_def\<close>)
  moreover have "i * double_unit < 9223372036854775808 * double_unit"
    by (rule mult_strict_right_mono) (use assms(2) double_unit_pos in \<open>simp_all add: is_i64_def\<close>)
  ultimately show ?thesis using assms(1) scaled_as_int [of d i] by (auto simp: double_equals_int_def)
qed

lemma double_equals_uint_exact:
  assumes "double_isfinite d"
  shows "double_equals_uint d u \<longleftrightarrow> double_scaled d = uint u * double_unit"
proof -
  have "uint u < 18446744073709551616" using uint_lt2p [of u] by simp
  then have "0 \<le> uint u * double_unit" and "uint u * double_unit < 18446744073709551616 * double_unit"
    using double_unit_pos by (auto intro: mult_strict_right_mono)
  then show ?thesis using assms(1) scaled_as_int [of d "uint u"] by (auto simp: double_equals_uint_def)
qed

lemma int_equals_uint:
  fixes u :: u64
  assumes "is_i64 i"
  shows "i \<ge> 0 \<and> word_of_int i = u \<longleftrightarrow> i * double_unit = uint u * double_unit"
proof -
  have "i \<ge> 0 \<Longrightarrow> uint (word_of_int i :: u64) = i"
    using assms by (simp add: uint_word_of_int is_i64_def)
  then have "i \<ge> 0 \<and> word_of_int i = u \<longleftrightarrow> i = uint u" by auto
  then show ?thesis using double_unit_pos by simp
qed

text \<open>
  Under numeric equivalence two numbers are Equal exactly when they have the same mathematical
  value, whatever mixture of signed, unsigned and floating kinds they are stored in; no rounding, no
  wrap-around and no sign confusion can make two different quantities equal.
\<close>

theorem relate_numeric_by_value:
  assumes "is_numeric a" and "is_numeric b" and "value_typed a" and "value_typed b"
  shows "RelateValues a b NE_Numeric = (if num_scaled a = num_scaled b then VR_Equal else VR_Different)"
proof -
  have "the (RelateNumerics a b) \<longleftrightarrow> num_scaled a = num_scaled b"
    using assms double_unit_pos
    by (cases "(a, b)" rule: RelateNumerics.cases)
      (auto simp: is_numeric_def int_equals_uint double_equals_int_exact double_equals_uint_exact
        intro: word_uint_eqI)
  then show ?thesis
    using assms by (simp add: RelateValues_def RelateValuesAt_numeric equal_or_different_def kHardRecursionLimit_def)
qed

theorem relate_numeric_by_value_witness:
  "RelateValues (V_Int (- 1)) (V_Uint 18446744073709551615) NE_Numeric =
     (if num_scaled (V_Int (- 1)) = num_scaled (V_Uint 18446744073709551615) then VR_Equal else VR_Different)"
  by (rule relate_numeric_by_value) (simp_all add: is_numeric_def is_i64_def)

end
