(* ===== verification/NDO_Json.thy ===== *)
theory NDO_Json
  imports NDO_Values
begin

text \<open>
  The JSON codec (\<^verbatim>\<open>json.hpp\<close>, \<^verbatim>\<open>json.cpp\<close>) and the member readers the document codecs share
  (\<^verbatim>\<open>json_help.hpp\<close>).  The parser's position is the text still to be read.  A nested parse takes fuel;
  the fuel \<open>Parse\<close> starts with is shown to be enough for every document.  The decimal forms of a
  double come from \<^verbatim>\<open>std::to_chars\<close> and \<^verbatim>\<open>std::from_chars\<close>: they are the parameters \<open>tc\<close> (the general
  format, \<open>None\<close> when the call reports an error) and \<open>fc\<close> (the bits of the double a whole token reads
  as).
\<close>

section \<open>Writing\<close>

definition QUOTE :: char where "QUOTE = CHR 0x22"
definition ESCAPE :: char where "ESCAPE = CHR 0x5C"

definition escape_char :: "char \<Rightarrow> string" where
  "escape_char c =
     (if c = QUOTE then [ESCAPE, QUOTE]
      else if c = ESCAPE then [ESCAPE, ESCAPE]
      else if c = CHR 0x08 then [ESCAPE, CHR ''b'']
      else if c = CHR 0x0C then [ESCAPE, CHR ''f'']
      else if c = CHR 0x0A then [ESCAPE, CHR ''n'']
      else if c = CHR 0x0D then [ESCAPE, CHR ''r'']
      else if c = CHR 0x09 then [ESCAPE, CHR ''t'']
      else if (of_char c :: nat) < 0x20
      then [ESCAPE, CHR ''u'', CHR ''0'', CHR ''0'', kHexDigits ! (of_char c div 16), kHexDigits ! (of_char c mod 16)]
      else [c])"

definition JsonQuote :: "string \<Rightarrow> string" where
  "JsonQuote s = QUOTE # concat (map escape_char s) @ [QUOTE]"

definition FormatDoubleCanonical :: "(u64 \<Rightarrow> string option) \<Rightarrow> u64 \<Rightarrow> string" where
  "FormatDoubleCanonical tc d =
     (case tc d of
        None \<Rightarrow> ''0''
      | Some s \<Rightarrow> if CHR ''.'' \<notin> set s \<and> CHR ''e'' \<notin> set s \<and> CHR ''E'' \<notin> set s then s @ ''.0'' else s)"

fun WriteCompact :: "(u64 \<Rightarrow> string option) \<Rightarrow> Value \<Rightarrow> string"
  and write_elements :: "(u64 \<Rightarrow> string option) \<Rightarrow> Value list \<Rightarrow> string"
  and write_members :: "(u64 \<Rightarrow> string option) \<Rightarrow> (string \<times> Value) list \<Rightarrow> string" where
  "WriteCompact tc V_Null = ''null''"
| "WriteCompact tc (V_Bool b) = (if b then ''true'' else ''false'')"
| "WriteCompact tc (V_Int i) = int_text i"
| "WriteCompact tc (V_Uint u) = nat_text (unat u)"
| "WriteCompact tc (V_Double d) = FormatDoubleCanonical tc d"
| "WriteCompact tc (V_String s) = JsonQuote s"
| "WriteCompact tc (V_Bytes b) = CHR ''{'' # QUOTE # ''$bytes'' @ QUOTE # CHR '':'' # QUOTE # ToHex b @ [QUOTE, CHR ''}'']"
| "WriteCompact tc (V_List l) = CHR ''['' # write_elements tc l @ '']''"
| "WriteCompact tc (V_Map m) = CHR ''{'' # write_members tc m @ ''}''"
| "write_elements tc [] = []"
| "write_elements tc (v # vs) = WriteCompact tc v @ (if vs = [] then [] else CHR '','' # write_elements tc vs)"
| "write_members tc [] = []"
| "write_members tc ((k, v) # m) =
     JsonQuote k @ CHR '':'' # WriteCompact tc v @ (if m = [] then [] else CHR '','' # write_members tc m)"

definition WriteCanonicalJson :: "(u64 \<Rightarrow> string option) \<Rightarrow> Value \<Rightarrow> string" where
  "WriteCanonicalJson tc v = WriteCompact tc v"

definition WriteIndent :: "nat \<Rightarrow> nat \<Rightarrow> string" where
  "WriteIndent width depth = (if width = 0 then [] else CHR 0x0A # replicate (width * depth) (CHR '' ''))"

fun WritePretty :: "(u64 \<Rightarrow> string option) \<Rightarrow> nat \<Rightarrow> nat \<Rightarrow> Value \<Rightarrow> string"
  and pretty_elements :: "(u64 \<Rightarrow> string option) \<Rightarrow> nat \<Rightarrow> nat \<Rightarrow> Value list \<Rightarrow> string"
  and pretty_members :: "(u64 \<Rightarrow> string option) \<Rightarrow> nat \<Rightarrow> nat \<Rightarrow> (string \<times> Value) list \<Rightarrow> string" where
  "WritePretty tc width depth v =
     (case v of
        V_List l \<Rightarrow>
          if l = [] then ''[]''
          else CHR ''['' # pretty_elements tc width (Suc depth) l @ WriteIndent width depth @ '']''
      | V_Map m \<Rightarrow>
          if m = [] then ''{}''
          else CHR ''{'' # pretty_members tc width (Suc depth) m @ WriteIndent width depth @ ''}''
      | _ \<Rightarrow> WriteCompact tc v)"
| "pretty_elements tc width depth [] = []"
| "pretty_elements tc width depth (v # vs) =
     WriteIndent width depth @ WritePretty tc width depth v @ (if vs = [] then [] else CHR '','' # pretty_elements tc width depth vs)"
| "pretty_members tc width depth [] = []"
| "pretty_members tc width depth ((k, v) # m) =
     WriteIndent width depth @ JsonQuote k @ '': '' @ WritePretty tc width depth v @
     (if m = [] then [] else CHR '','' # pretty_members tc width depth m)"

declare WritePretty.simps [simp del]

definition WritePrettyJson :: "(u64 \<Rightarrow> string option) \<Rightarrow> Value \<Rightarrow> nat \<Rightarrow> string" where
  "WritePrettyJson tc v indent_width = WritePretty tc indent_width 0 v"

section \<open>Reading\<close>

definition is_whitespace :: "char \<Rightarrow> bool" where
  "is_whitespace c \<longleftrightarrow> c = CHR '' '' \<or> c = CHR 0x09 \<or> c = CHR 0x0A \<or> c = CHR 0x0D"

definition SkipWhitespace :: "string \<Rightarrow> string" where
  "SkipWhitespace s = dropWhile is_whitespace s"

definition malformed :: "string \<Rightarrow> 'a Result" where
  "malformed detail = Inl (Status_Rejected RC_EncodingMalformed detail)"

definition ParseLiteral :: "string \<Rightarrow> Value \<Rightarrow> string \<Rightarrow> (Value \<times> string) Result" where
  "ParseLiteral literal v s =
     (if length s < length literal \<or> take (length literal) s \<noteq> literal
      then Inl (Status_Rejected RC_EncodingUnexpectedToken ''unrecognized literal'')
      else Inr (v, drop (length literal) s))"

definition JsonHexValue :: "char \<Rightarrow> int" where
  "JsonHexValue c =
     (let n = int (of_char c) in
      if 48 \<le> n \<and> n \<le> 57 then n - 48
      else if 97 \<le> n \<and> n \<le> 102 then n - 97 + 10
      else if 65 \<le> n \<and> n \<le> 70 then n - 65 + 10
      else -1)"

definition ParseHex4 :: "string \<Rightarrow> (nat \<times> string) Result" where
  "ParseHex4 s =
     (if length s < 4 then malformed ''truncated escape sequence''
      else if list_ex (\<lambda>c. JsonHexValue c < 0) (take 4 s) then malformed ''invalid escape digit''
      else Inr (foldl (\<lambda>v c. push_bit 4 v OR nat (JsonHexValue c)) 0 (take 4 s), drop 4 s))"

definition AppendUtf8 :: "nat \<Rightarrow> string" where
  "AppendUtf8 cp =
     (if cp < 0x80 then [char_of cp]
      else if cp < 0x800 then [char_of (0xC0 OR drop_bit 6 cp), char_of (0x80 OR (cp AND 0x3F))]
      else if cp < 0x10000
      then [char_of (0xE0 OR drop_bit 12 cp), char_of (0x80 OR (drop_bit 6 cp AND 0x3F)), char_of (0x80 OR (cp AND 0x3F))]
      else [char_of (0xF0 OR drop_bit 18 cp), char_of (0x80 OR (drop_bit 12 cp AND 0x3F)),
            char_of (0x80 OR (drop_bit 6 cp AND 0x3F)), char_of (0x80 OR (cp AND 0x3F))])"

text \<open>The code point of a \<^verbatim>\<open>\u\<close> escape, a surrogate pair included.\<close>

definition parse_unicode :: "string \<Rightarrow> (nat \<times> string) Result" where
  "parse_unicode s =
     (case ParseHex4 s of
        Inl status \<Rightarrow> Inl status
      | Inr (cp, r) \<Rightarrow>
          if 0xD800 \<le> cp \<and> cp \<le> 0xDBFF
          then
            if length r < 2 \<or> r ! 0 \<noteq> ESCAPE \<or> r ! 1 \<noteq> CHR ''u''
            then Inl (Status_Rejected RC_EncodingInvalidUtf8 ''lone high surrogate'')
            else (case ParseHex4 (drop 2 r) of
                    Inl status \<Rightarrow> Inl status
                  | Inr (low, r) \<Rightarrow>
                      if low < 0xDC00 \<or> low > 0xDFFF
                      then Inl (Status_Rejected RC_EncodingInvalidUtf8 ''high surrogate without a low surrogate'')
                      else Inr (0x10000 + push_bit 10 (cp - 0xD800) + (low - 0xDC00), r))
          else if 0xDC00 \<le> cp \<and> cp \<le> 0xDFFF
          then Inl (Status_Rejected RC_EncodingInvalidUtf8 ''lone low surrogate'')
          else Inr (cp, r))"

definition simple_escape :: "char \<Rightarrow> char option" where
  "simple_escape e =
     (if e = QUOTE then Some QUOTE
      else if e = ESCAPE then Some ESCAPE
      else if e = CHR ''/'' then Some (CHR ''/'')
      else if e = CHR ''b'' then Some (CHR 0x08)
      else if e = CHR ''f'' then Some (CHR 0x0C)
      else if e = CHR ''n'' then Some (CHR 0x0A)
      else if e = CHR ''r'' then Some (CHR 0x0D)
      else if e = CHR ''t'' then Some (CHR 0x09)
      else None)"

text \<open>What an escape sequence stands for, after its backslash.\<close>

definition parse_escape :: "string \<Rightarrow> (string \<times> string) Result" where
  "parse_escape s =
     (case s of
        [] \<Rightarrow> malformed ''truncated escape sequence''
      | e # r \<Rightarrow>
          (case simple_escape e of
             Some c \<Rightarrow> Inr ([c], r)
           | None \<Rightarrow>
               if e = CHR ''u''
               then (case parse_unicode r of Inl status \<Rightarrow> Inl status | Inr (cp, r) \<Rightarrow> Inr (AppendUtf8 cp, r))
               else malformed ''invalid escape sequence''))"

lemma ParseHex4_length: "ParseHex4 s = Inr (cp, r) \<Longrightarrow> length r \<le> length s"
  by (auto simp: ParseHex4_def malformed_def split: if_splits)

lemma parse_unicode_length: "parse_unicode s = Inr (cp, r) \<Longrightarrow> length r \<le> length s"
  by (auto simp: parse_unicode_def split: sum.splits if_splits dest!: ParseHex4_length)

lemma parse_escape_length: "parse_escape s = Inr (cs, r) \<Longrightarrow> length r < length s"
  by (auto simp: parse_escape_def malformed_def less_Suc_eq_le dest!: parse_unicode_length
      split: list.splits option.splits if_splits sum.splits)

text \<open>The loop of \<^verbatim>\<open>ParseString\<close>, after the opening quote; \<open>out\<close> is what has been read.\<close>

function ParseString :: "RuntimeLimits \<Rightarrow> string \<Rightarrow> string \<Rightarrow> (string \<times> string) Result" where
  "ParseString lim out [] = malformed ''unterminated string''"
| "ParseString lim out (c # r) =
     (if c = QUOTE then
        (if \<not> IsValidUtf8 out then Inl (Status_Rejected RC_EncodingInvalidUtf8 ''string is not valid UTF-8'')
         else if length out > max_leaf_bytes lim then Inl (Status_Limit RC_LimitBytesExceeded ''string exceeds the envelope'')
         else Inr (out, r))
      else if c = ESCAPE then
        (case parse_escape r of
           Inl status \<Rightarrow> Inl status
         | Inr (cs, r) \<Rightarrow>
             if length (out @ cs) > max_leaf_bytes lim
             then Inl (Status_Limit RC_LimitBytesExceeded ''string exceeds the envelope'')
             else ParseString lim (out @ cs) r)
      else if (of_char c :: nat) < 0x20 then malformed ''raw control character in string''
      else if length (out @ [c]) > max_leaf_bytes lim
      then Inl (Status_Limit RC_LimitBytesExceeded ''string exceeds the envelope'')
      else ParseString lim (out @ [c]) r)"
  by pat_completeness auto
termination
  by (relation "measure (\<lambda>(lim, out, s). length s)") (auto dest: parse_escape_length)

text \<open>The grammar of a number: whether it is integral, and the text after it.\<close>

definition starts_digit :: "string \<Rightarrow> bool" where
  "starts_digit s \<longleftrightarrow> s \<noteq> [] \<and> is_digit (hd s)"

definition skip_digits :: "string \<Rightarrow> string" where
  "skip_digits s = dropWhile is_digit s"

definition scan_integer :: "string \<Rightarrow> string Result" where
  "scan_integer s =
     (let r = (case s of c # r \<Rightarrow> if c = CHR ''-'' then r else s | [] \<Rightarrow> s) in
      if \<not> starts_digit r then Inl (Status_Rejected RC_EncodingUnexpectedToken ''not a value'')
      else if hd r = CHR ''0''
      then (if starts_digit (tl r) then malformed ''number has a leading zero'' else Inr (tl r))
      else Inr (skip_digits r))"

definition scan_fraction :: "string \<Rightarrow> (bool \<times> string) Result" where
  "scan_fraction s =
     (case s of
        c # r \<Rightarrow>
          if c = CHR ''.''
          then (if \<not> starts_digit r then malformed ''fraction has no digits'' else Inr (False, skip_digits r))
          else Inr (True, s)
      | [] \<Rightarrow> Inr (True, s))"

definition scan_exponent :: "bool \<Rightarrow> string \<Rightarrow> (bool \<times> string) Result" where
  "scan_exponent integral s =
     (case s of
        c # r \<Rightarrow>
          if c = CHR ''e'' \<or> c = CHR ''E''
          then let r = (case r of d # q \<Rightarrow> if d = CHR ''+'' \<or> d = CHR ''-'' then q else r | [] \<Rightarrow> r)
               in if \<not> starts_digit r then malformed ''exponent has no digits'' else Inr (False, skip_digits r)
          else Inr (integral, s)
      | [] \<Rightarrow> Inr (integral, s))"

definition scan_number :: "string \<Rightarrow> (bool \<times> string) Result" where
  "scan_number s =
     (case scan_integer s of
        Inl status \<Rightarrow> Inl status
      | Inr r \<Rightarrow> (case scan_fraction r of Inl status \<Rightarrow> Inl status | Inr (integral, r) \<Rightarrow> scan_exponent integral r))"

text \<open>\<^verbatim>\<open>std::from_chars\<close> on a digit token, into \<^verbatim>\<open>int64_t\<close> after a minus sign, else into \<^verbatim>\<open>uint64_t\<close>.\<close>

definition integer_value :: "string \<Rightarrow> Value option" where
  "integer_value token =
     (if hd token = CHR ''-''
      then let v = - int (text_nat (tl token)) in if is_i64 v then Some (V_Int v) else None
      else let v = text_nat token in
           if v \<ge> 2 ^ 64 then None
           else if v \<le> 9223372036854775807 then Some (V_Int (int v)) else Some (MakeUint (of_nat v)))"

definition double_value :: "(string \<Rightarrow> u64 option) \<Rightarrow> string \<Rightarrow> Value Result" where
  "double_value fc token =
     (case fc token of
        None \<Rightarrow> Inl (Status_Rejected RC_EncodingNumberOutOfRange ''number is outside the representable range'')
      | Some d \<Rightarrow>
          if \<not> double_isfinite d
          then Inl (Status_Rejected RC_EncodingNumberOutOfRange ''number is outside the representable range'')
          else (case TryMakeDouble d of
                  None \<Rightarrow> Inl (Status_Rejected RC_EncodingNumberOutOfRange ''number is not finite'')
                | Some v \<Rightarrow> Inr v))"

definition ParseNumber :: "(string \<Rightarrow> u64 option) \<Rightarrow> string \<Rightarrow> (Value \<times> string) Result" where
  "ParseNumber fc s =
     (case scan_number s of
        Inl status \<Rightarrow> Inl status
      | Inr (integral, r) \<Rightarrow>
          let token = take (length s - length r) s in
          (case (if integral \<and> length token \<le> 20 then integer_value token else None) of
             Some v \<Rightarrow> Inr (v, r)
           | None \<Rightarrow> (case double_value fc token of Inl status \<Rightarrow> Inl status | Inr v \<Rightarrow> Inr (v, r))))"

definition kBytesMember :: string where
  "kBytesMember = ''$bytes''"

definition FinishObject :: "RuntimeLimits \<Rightarrow> (string \<times> Value) list \<Rightarrow> Value Result" where
  "FinishObject lim m =
     (if length m = 1 \<and> map_of m kBytesMember \<noteq> None then
        (case map_of m kBytesMember of
           Some (V_String hex) \<Rightarrow>
             (case FromHex hex of
                None \<Rightarrow> malformed ''the byte-string tag carries invalid hex''
              | Some raw \<Rightarrow>
                  if length raw > max_leaf_bytes lim
                  then Inl (Status_Limit RC_LimitBytesExceeded ''byte string exceeds the envelope'')
                  else Inr (V_Bytes raw))
         | _ \<Rightarrow> malformed ''the byte-string tag must carry a hex string'')
      else Inr (V_Map m))"

text \<open>A leaf or a finished container, with the text after it and the nodes counted so far.\<close>

definition with_nodes :: "nat \<Rightarrow> ('a \<times> string) Result \<Rightarrow> ('a \<times> string \<times> nat) Result" where
  "with_nodes n r = (case r of Inl status \<Rightarrow> Inl status | Inr (v, s) \<Rightarrow> Inr (v, s, n))"

definition finish_at :: "RuntimeLimits \<Rightarrow> (string \<times> Value) list \<Rightarrow> string \<Rightarrow> nat \<Rightarrow> (Value \<times> string \<times> nat) Result" where
  "finish_at lim m s n = (case FinishObject lim m of Inl status \<Rightarrow> Inl status | Inr v \<Rightarrow> Inr (v, s, n))"

text \<open>A member name and its colon, up to the member's value.\<close>

definition parse_member_name :: "RuntimeLimits \<Rightarrow> string \<Rightarrow> (string \<times> string) Result" where
  "parse_member_name lim s =
     (let s = SkipWhitespace s in
      if s = [] \<or> hd s \<noteq> QUOTE then malformed ''member name must be a string''
      else (case ParseString lim [] (tl s) of
              Inl status \<Rightarrow> Inl status
            | Inr (key, s) \<Rightarrow>
                if length key > max_leaf_bytes lim
                then Inl (Status_Limit RC_LimitBytesExceeded ''member name exceeds the envelope'')
                else let s = SkipWhitespace s in
                     if s = [] \<or> hd s \<noteq> CHR '':'' then malformed ''member name must be followed by a colon''
                     else Inr (key, SkipWhitespace (tl s))))"

text \<open>
  One activation of each of the mutually recursive parsers; the parsers it calls are arguments.
\<close>

type_synonym parse_result = "(Value \<times> string \<times> nat) Result option"

definition parse_leaf :: "(string \<Rightarrow> u64 option) \<Rightarrow> RuntimeLimits \<Rightarrow> string \<Rightarrow> (Value \<times> string) Result" where
  "parse_leaf fc lim s =
     (if hd s = QUOTE then (case ParseString lim [] (tl s) of Inl status \<Rightarrow> Inl status | Inr (t, r) \<Rightarrow> Inr (V_String t, r))
      else if hd s = CHR ''t'' then ParseLiteral ''true'' (V_Bool True) s
      else if hd s = CHR ''f'' then ParseLiteral ''false'' (V_Bool False) s
      else if hd s = CHR ''n'' then ParseLiteral ''null'' V_Null s
      else ParseNumber fc s)"

definition value_step ::
    "((string \<times> Value) list \<Rightarrow> string \<Rightarrow> nat \<Rightarrow> parse_result) \<Rightarrow> (Value list \<Rightarrow> string \<Rightarrow> nat \<Rightarrow> parse_result)
       \<Rightarrow> (string \<Rightarrow> u64 option) \<Rightarrow> RuntimeLimits \<Rightarrow> nat \<Rightarrow> string \<Rightarrow> nat \<Rightarrow> parse_result" where
  "value_step members elements fc lim depth s n =
     (if depth > max_value_depth lim
      then Some (Inl (Status_Limit RC_LimitDepthExceeded ''document nesting exceeds the envelope''))
      else if Suc n > max_value_nodes lim
      then Some (Inl (Status_Limit RC_LimitObjectsExceeded ''document node count exceeds the envelope''))
      else if s = [] then Some (malformed ''document ended before a value'')
      else if hd s = CHR ''{'' then
        (let r = SkipWhitespace (tl s) in
         if r \<noteq> [] \<and> hd r = CHR ''}'' then Some (finish_at lim [] (tl r) (Suc n)) else members [] r (Suc n))
      else if hd s = CHR ''['' then
        (let r = SkipWhitespace (tl s) in
         if r \<noteq> [] \<and> hd r = CHR '']'' then Some (Inr (V_List [], tl r, Suc n)) else elements [] r (Suc n))
      else Some (with_nodes (Suc n) (parse_leaf fc lim s)))"

definition members_step ::
    "(string \<Rightarrow> nat \<Rightarrow> parse_result) \<Rightarrow> ((string \<times> Value) list \<Rightarrow> string \<Rightarrow> nat \<Rightarrow> parse_result)
       \<Rightarrow> RuntimeLimits \<Rightarrow> (string \<times> Value) list \<Rightarrow> string \<Rightarrow> nat \<Rightarrow> parse_result" where
  "members_step parse members lim m s n =
     (case parse_member_name lim s of
        Inl status \<Rightarrow> Some (Inl status)
      | Inr (key, s) \<Rightarrow>
          (case parse s n of
             None \<Rightarrow> None
           | Some (Inl status) \<Rightarrow> Some (Inl status)
           | Some (Inr (v, s, n)) \<Rightarrow>
               if map_of m key \<noteq> None then Some (Inl (Status_Rejected RC_EncodingDuplicateKey ''duplicate member name''))
               else
                 let m = map_emplace key v m; s = SkipWhitespace s in
                 if length m > max_fields_per_object lim
                 then Some (Inl (Status_Limit RC_LimitFieldsExceeded ''member count exceeds the envelope''))
                 else if s = [] then Some (malformed ''unterminated object'')
                 else if hd s = CHR '','' then members m (tl s) n
                 else if hd s = CHR ''}'' then Some (finish_at lim m (tl s) n)
                 else Some (malformed (''expected '' @ [CHR 0x27] @ '','' @ [CHR 0x27] @ '' or '' @ [CHR 0x27] @ ''}'' @ [CHR 0x27]))))"

definition elements_step ::
    "(string \<Rightarrow> nat \<Rightarrow> parse_result) \<Rightarrow> (Value list \<Rightarrow> string \<Rightarrow> nat \<Rightarrow> parse_result)
       \<Rightarrow> RuntimeLimits \<Rightarrow> Value list \<Rightarrow> string \<Rightarrow> nat \<Rightarrow> parse_result" where
  "elements_step parse elements lim l s n =
     (case parse (SkipWhitespace s) n of
        None \<Rightarrow> None
      | Some (Inl status) \<Rightarrow> Some (Inl status)
      | Some (Inr (v, s, n)) \<Rightarrow>
          let l = l @ [v]; s = SkipWhitespace s in
          if length l > max_value_nodes lim
          then Some (Inl (Status_Limit RC_LimitObjectsExceeded ''sequence exceeds the envelope''))
          else if s = [] then Some (malformed ''unterminated sequence'')
          else if hd s = CHR '','' then elements l (tl s) n
          else if hd s = CHR '']'' then Some (Inr (V_List l, tl s, n))
          else Some (malformed (''expected '' @ [CHR 0x27] @ '','' @ [CHR 0x27] @ '' or '' @ [CHR 0x27] @ '']'' @ [CHR 0x27])))"

fun ParseValue :: "(string \<Rightarrow> u64 option) \<Rightarrow> RuntimeLimits \<Rightarrow> nat \<Rightarrow> nat \<Rightarrow> string \<Rightarrow> nat \<Rightarrow> parse_result"
  and parse_members :: "(string \<Rightarrow> u64 option) \<Rightarrow> RuntimeLimits \<Rightarrow> nat \<Rightarrow> nat \<Rightarrow> (string \<times> Value) list \<Rightarrow> string \<Rightarrow> nat
    \<Rightarrow> parse_result"
  and parse_elements :: "(string \<Rightarrow> u64 option) \<Rightarrow> RuntimeLimits \<Rightarrow> nat \<Rightarrow> nat \<Rightarrow> Value list \<Rightarrow> string \<Rightarrow> nat
    \<Rightarrow> parse_result" where
  "ParseValue fc lim 0 depth s n = None"
| "ParseValue fc lim (Suc fuel) depth s n =
     value_step (parse_members fc lim fuel depth) (parse_elements fc lim fuel depth) fc lim depth s n"
| "parse_members fc lim 0 depth m s n = None"
| "parse_members fc lim (Suc fuel) depth m s n =
     members_step (ParseValue fc lim fuel (Suc depth)) (parse_members fc lim fuel depth) lim m s n"
| "parse_elements fc lim 0 depth l s n = None"
| "parse_elements fc lim (Suc fuel) depth l s n =
     elements_step (ParseValue fc lim fuel (Suc depth)) (parse_elements fc lim fuel depth) lim l s n"

definition json_fuel :: "string \<Rightarrow> nat" where
  "json_fuel s = 2 * length s + 1"

definition Parse :: "(string \<Rightarrow> u64 option) \<Rightarrow> RuntimeLimits \<Rightarrow> string \<Rightarrow> Value Result option" where
  "Parse fc lim s =
     (let s = SkipWhitespace s in
      if s = [] then Some (malformed ''empty document'')
      else (case ParseValue fc lim (json_fuel s) 0 s 0 of
              None \<Rightarrow> None
            | Some (Inl status) \<Rightarrow> Some (Inl status)
            | Some (Inr (v, r, n)) \<Rightarrow>
                if SkipWhitespace r \<noteq> []
                then Some (Inl (Status_Rejected RC_EncodingTrailingBytes ''document has bytes after the top-level value''))
                else Some (Inr v)))"

text \<open>\<open>ParseJson\<close> is defined for every text: the last case never arises (\<open>Parse_returns\<close> below).\<close>

definition ParseJson :: "(string \<Rightarrow> u64 option) \<Rightarrow> RuntimeLimits \<Rightarrow> string \<Rightarrow> Value Result" where
  "ParseJson fc lim s =
     (if length s > max_document_bytes lim then Inl (Status_Limit RC_LimitBytesExceeded ''document exceeds the envelope'')
      else (case Parse fc lim s of Some r \<Rightarrow> r | None \<Rightarrow> Inl (Status_Internal RC_None [])))"

section \<open>The parser returns\<close>

lemma SkipWhitespace_length: "length (SkipWhitespace s) \<le> length s"
  by (simp add: SkipWhitespace_def length_dropWhile_le)

lemma ParseString_length: "ParseString lim out s = Inr (t, r) \<Longrightarrow> length r < length s"
proof (induction lim out s rule: ParseString.induct)
  case (2 lim out c r')
  then show ?case
    by (auto simp: malformed_def split: if_splits sum.splits prod.splits dest!: parse_escape_length)
      (meson less_SucI less_trans)
qed (simp add: malformed_def)

lemma parse_member_name_length: "parse_member_name lim s = Inr (key, r) \<Longrightarrow> length r < length s"
proof -
  have "length (SkipWhitespace (tl q)) < length s" if "ParseString lim [] (tl (SkipWhitespace s)) = Inr (key, p)"
    "q = SkipWhitespace p" "q \<noteq> []" "SkipWhitespace s \<noteq> []" for p q
  proof -
    have "length p < length (SkipWhitespace s)" using ParseString_length [OF that(1)] that(4) by (cases "SkipWhitespace s") auto
    then show ?thesis using SkipWhitespace_length [of s] SkipWhitespace_length [of p] SkipWhitespace_length [of "tl q"] that
      by (cases q) auto
  qed
  then show "parse_member_name lim s = Inr (key, r) \<Longrightarrow> length r < length s"
    by (auto simp: parse_member_name_def Let_def malformed_def split: if_splits sum.splits prod.splits)
qed

lemma scan_number_length: "scan_number s = Inr (integral, r) \<Longrightarrow> length r < length s"
proof -
  have digits: "length (skip_digits t) \<le> length t" for t by (simp add: skip_digits_def length_dropWhile_le)
  have first: "length (skip_digits t) < length t" if "starts_digit t" for t
    using that length_dropWhile_le [of is_digit "tl t"] by (cases t) (auto simp: starts_digit_def skip_digits_def)
  have "length r < length s" if "scan_integer s = Inr r" for r
    using that first
    by (auto simp: scan_integer_def Let_def malformed_def starts_digit_def split: if_splits list.splits)
      (metis first less_SucI list.sel(1) list.discI starts_digit_def length_Cons)+
  moreover have "length q \<le> length r" if "scan_fraction r = Inr (b, q)" for r b q
    using that digits by (auto simp: scan_fraction_def malformed_def le_SucI split: if_splits list.splits)
  moreover have "length q \<le> length r" if "scan_exponent i r = Inr (b, q)" for i r b q
    using that digits
    by (auto simp: scan_exponent_def Let_def malformed_def le_SucI intro: le_SucI order_trans [OF digits] split: if_splits list.splits)
  ultimately show "scan_number s = Inr (integral, r) \<Longrightarrow> length r < length s"
    by (force simp: scan_number_def split: sum.splits prod.splits)
qed

lemma parse_leaf_length: "s \<noteq> [] \<Longrightarrow> parse_leaf fc lim s = Inr (v, r) \<Longrightarrow> length r < length s"
  by (cases s)
    (auto simp: parse_leaf_def ParseLiteral_def ParseNumber_def Let_def less_Suc_eq_le le_SucI
      dest!: ParseString_length scan_number_length split: if_splits sum.splits prod.splits option.splits)

lemma skipped_length: "SkipWhitespace s = c # r \<Longrightarrow> length r < length s"
  using SkipWhitespace_length [of s] by simp

lemma value_consumes: "ParseValue fc lim fuel depth s n = Some (Inr (v, r, n')) \<Longrightarrow> length r < length s"
  and members_consumes: "parse_members fc lim fuel depth m s n = Some (Inr (v, r, n')) \<Longrightarrow> length r < length s"
  and elements_consumes: "parse_elements fc lim fuel depth l s n = Some (Inr (v, r, n')) \<Longrightarrow> length r < length s"
proof (induction fc lim fuel depth s n and fc lim fuel depth m s n and fc lim fuel depth l s n
    arbitrary: v r n' and v r n' and v r n' rule: ParseValue_parse_members_parse_elements.induct)
  case (2 fc lim fuel depth s n)
  let ?q = "SkipWhitespace (tl s)"
  have tail: "length ?q < length s" if "s \<noteq> []" using SkipWhitespace_length [of "tl s"] that by (cases s) auto
  have rest: "length (tl ?q) < length s" if "s \<noteq> []" using tail [OF that] by simp
  have members: "length r < length s" if "s \<noteq> []" "parse_members fc lim fuel depth [] ?q (Suc n) = Some (Inr (v, r, n'))"
    using 2(1) [OF that(2)] tail [OF that(1)] by simp
  have elements: "length r < length s" if "s \<noteq> []" "parse_elements fc lim fuel depth [] ?q (Suc n) = Some (Inr (v, r, n'))"
    using 2(2) [OF that(2)] tail [OF that(1)] by simp
  from 2(3) show ?case
    using rest members elements parse_leaf_length [of s fc lim v r]
    by (auto simp: value_step_def Let_def malformed_def finish_at_def with_nodes_def split: if_splits sum.splits prod.splits)
next
  case (4 fc lim fuel depth m s n)
  obtain key t where name: "parse_member_name lim s = Inr (key, t)"
    using 4(3) by (auto simp: members_step_def split: sum.splits)
  obtain w q k where val: "ParseValue fc lim fuel (Suc depth) t n = Some (Inr (w, q, k))"
    using 4(3) name by (auto simp: members_step_def split: sum.splits option.splits)
  have "length (tl (SkipWhitespace q)) < length s"
    using parse_member_name_length [OF name] 4(1) [OF val] SkipWhitespace_length [of q] by simp
  then show ?case using 4(3) name val 4(2) [of "map_emplace key w m" "tl (SkipWhitespace q)" k]
    by (auto simp: members_step_def Let_def malformed_def finish_at_def split: if_splits sum.splits prod.splits intro: less_trans)
next
  case (6 fc lim fuel depth l s n)
  obtain w q k where val: "ParseValue fc lim fuel (Suc depth) (SkipWhitespace s) n = Some (Inr (w, q, k))"
    using 6(3) by (auto simp: elements_step_def split: sum.splits option.splits)
  have "length (tl (SkipWhitespace q)) < length s"
    using 6(1) [OF val] SkipWhitespace_length [of q] SkipWhitespace_length [of s] by simp
  then show ?case using 6(3) val 6(2) [of "l @ [w]" "tl (SkipWhitespace q)" k]
    by (auto simp: elements_step_def Let_def malformed_def split: if_splits sum.splits prod.splits intro: less_trans)
qed simp_all

lemma value_returns: "2 * length s + 1 \<le> fuel \<Longrightarrow> ParseValue fc lim fuel depth s n \<noteq> None"
  and members_returns: "2 * length s + 2 \<le> fuel \<Longrightarrow> parse_members fc lim fuel depth m s n \<noteq> None"
  and elements_returns: "2 * length s + 2 \<le> fuel \<Longrightarrow> parse_elements fc lim fuel depth l s n \<noteq> None"
proof (induction fc lim fuel depth s n and fc lim fuel depth m s n and fc lim fuel depth l s n
    rule: ParseValue_parse_members_parse_elements.induct)
  case (2 fc lim fuel depth s n)
  have "2 * length (SkipWhitespace (tl s)) + 2 \<le> fuel" if "s \<noteq> []"
    using SkipWhitespace_length [of "tl s"] that 2(3) by (cases s) auto
  then show ?case using 2(1,2) by (auto simp: value_step_def Let_def)
next
  case (4 fc lim fuel depth m s n)
  show ?case
  proof (cases "parse_member_name lim s")
    case (Inr p)
    obtain key t where p: "p = (key, t)" by fastforce
    have t: "length t < length s" using parse_member_name_length Inr p by blast
    then have "ParseValue fc lim fuel (Suc depth) t n \<noteq> None" using 4(1,3) by simp
    moreover have "2 * length (tl (SkipWhitespace q)) + 2 \<le> fuel"
      if "ParseValue fc lim fuel (Suc depth) t n = Some (Inr (w, q, k))" for w q k
      using value_consumes [OF that] t SkipWhitespace_length [of q] 4(3) by simp
    ultimately show ?thesis using Inr p 4(2) by (auto simp: members_step_def Let_def split: sum.splits option.splits)
  qed (simp add: members_step_def)
next
  case (6 fc lim fuel depth l s n)
  have "ParseValue fc lim fuel (Suc depth) (SkipWhitespace s) n \<noteq> None" using 6(1,3) SkipWhitespace_length [of s] by simp
  moreover have "2 * length (tl (SkipWhitespace q)) + 2 \<le> fuel"
    if "ParseValue fc lim fuel (Suc depth) (SkipWhitespace s) n = Some (Inr (w, q, k))" for w q k
    using value_consumes [OF that] SkipWhitespace_length [of q] SkipWhitespace_length [of s] 6(3) by simp
  ultimately show ?case using 6(2) by (auto simp: elements_step_def Let_def split: sum.splits option.splits)
qed simp_all

lemma Parse_returns: "Parse fc lim s \<noteq> None"
proof -
  have "ParseValue fc lim (json_fuel (SkipWhitespace s)) 0 (SkipWhitespace s) 0 \<noteq> None"
    by (rule value_returns) (simp add: json_fuel_def)
  then show ?thesis by (auto simp: Parse_def Let_def split: sum.splits)
qed

end
