(* ===== verification/NDO_Json_Roundtrip.thy ===== *)
theory NDO_Json_Roundtrip
  imports NDO_Json
begin

text \<open>
  The JSON codec is an inverse pair.  The relation \<open>renders\<close> collects the texts of a value that differ
  in insignificant whitespace only; the parser reads every one of them back as the value, and both
  writers produce one.
\<close>

section \<open>Strings\<close>

lemma nibble_or: "b < 16 \<Longrightarrow> push_bit 4 a OR b = 16 * a + b" for a b :: nat
proof -
  assume "b < 16"
  then have b: "take_bit 4 b = b" by (simp add: take_bit_nat_eq_self)
  have "push_bit 4 a AND take_bit 4 b = 0" by (rule bit_eqI) (auto simp: bit_simps)
  then have "push_bit 4 a + b = push_bit 4 a OR b" unfolding b by (rule disjunctive_add_eq_or)
  then show ?thesis by (simp add: push_bit_eq_mult mult.commute)
qed

lemma JsonHexValue_digit: "k < 16 \<Longrightarrow> JsonHexValue (kHexDigits ! k) = int k"
  using hex_digit_value [of k] by (simp add: HexValue_def JsonHexValue_def)

lemma control_hex:
  assumes "n < 32"
  shows "\<not> list_ex (\<lambda>c. JsonHexValue c < 0) [CHR ''0'', CHR ''0'', kHexDigits ! (n div 16), kHexDigits ! (n mod 16)] \<and>
    foldl (\<lambda>v c. push_bit 4 v OR nat (JsonHexValue c)) 0 [CHR ''0'', CHR ''0'', kHexDigits ! (n div 16), kHexDigits ! (n mod 16)] = n"
proof -
  have "n div 16 < 16" "n mod 16 < 16" using assms by auto
  moreover have "JsonHexValue CHR ''0'' = 0" by (simp add: JsonHexValue_def)
  ultimately show ?thesis by (simp add: JsonHexValue_digit nibble_or)
qed

lemma parse_escape_simple:
  "parse_escape (QUOTE # r) = Inr ([QUOTE], r)" "parse_escape (ESCAPE # r) = Inr ([ESCAPE], r)"
  "parse_escape (CHR ''b'' # r) = Inr ([CHR 0x08], r)" "parse_escape (CHR ''f'' # r) = Inr ([CHR 0x0C], r)"
  "parse_escape (CHR ''n'' # r) = Inr ([CHR 0x0A], r)" "parse_escape (CHR ''r'' # r) = Inr ([CHR 0x0D], r)"
  "parse_escape (CHR ''t'' # r) = Inr ([CHR 0x09], r)"
  by (simp_all add: parse_escape_def simple_escape_def QUOTE_def ESCAPE_def)

lemma parse_escape_control:
  assumes "(of_char c :: nat) < 0x20"
  shows "parse_escape (CHR ''u'' # CHR ''0'' # CHR ''0'' # kHexDigits ! (of_char c div 16) # kHexDigits ! (of_char c mod 16) # r) =
    Inr ([c], r)"
proof -
  let ?d = "[CHR ''0'', CHR ''0'', kHexDigits ! (of_char c div 16), kHexDigits ! (of_char c mod 16)]"
  have "ParseHex4 (?d @ r) = Inr (of_char c, r)"
    unfolding ParseHex4_def using control_hex [OF assms] by simp
  then have "parse_unicode (?d @ r) = Inr (of_char c, r)" using assms by (simp add: parse_unicode_def)
  then show ?thesis using assms
    by (simp add: parse_escape_def simple_escape_def QUOTE_def ESCAPE_def AppendUtf8_def)
qed

lemma escape_char_cases:
  obtains (plain) "escape_char c = [c]" "c \<noteq> QUOTE" "c \<noteq> ESCAPE" "\<not> (of_char c :: nat) < 0x20"
  | (escaped) e where "escape_char c = ESCAPE # e" "\<And>r. parse_escape (e @ r) = Inr ([c], r)"
proof (cases "c \<in> {QUOTE, ESCAPE, CHR 0x08, CHR 0x0C, CHR 0x0A, CHR 0x0D, CHR 0x09}")
  case True
  then show thesis
    using escaped parse_escape_simple by (auto simp: escape_char_def QUOTE_def ESCAPE_def)
next
  case False
  show thesis
  proof (cases "(of_char c :: nat) < 0x20")
    case True
    with False show thesis
      by (intro escaped [where e = "[CHR ''u'', CHR ''0'', CHR ''0'', kHexDigits ! (of_char c div 16), kHexDigits ! (of_char c mod 16)]"])
        (simp_all add: escape_char_def parse_escape_control)
  qed (use False in \<open>auto intro: plain simp: escape_char_def\<close>)
qed

lemma ParseString_reads:
  "length (out @ s) \<le> max_leaf_bytes lim \<Longrightarrow> IsValidUtf8 (out @ s) \<Longrightarrow>
     ParseString lim out (concat (map escape_char s) @ QUOTE # r) = Inr (out @ s, r)"
proof (induction s arbitrary: out)
  case (Cons c s)
  then have IH: "ParseString lim (out @ [c]) (concat (map escape_char s) @ QUOTE # r) = Inr (out @ c # s, r)"
    using Cons.IH [of "out @ [c]"] by simp
  show ?case
  proof (cases c rule: escape_char_cases)
    case plain
    then show ?thesis using IH Cons.prems(1) by simp
  next
    case (escaped e)
    have "ESCAPE \<noteq> QUOTE" by (simp add: ESCAPE_def QUOTE_def)
    then show ?thesis using escaped IH Cons.prems(1) by simp
  qed
qed simp

lemma ParseString_quoted:
  "length s \<le> max_leaf_bytes lim \<Longrightarrow> IsValidUtf8 s \<Longrightarrow> ParseString lim [] (tl (JsonQuote s) @ r) = Inr (s, r)"
  using ParseString_reads [of "[]" s lim r] by (simp add: JsonQuote_def)

section \<open>Numbers\<close>

text \<open>What may follow a value in a document.\<close>

definition ends_value :: "string \<Rightarrow> bool" where
  "ends_value r \<longleftrightarrow> r = [] \<or> is_whitespace (hd r) \<or> hd r \<in> {CHR '','', CHR '']'', CHR ''}''}"

definition digits1 :: "string \<Rightarrow> bool" where
  "digits1 s \<longleftrightarrow> s \<noteq> [] \<and> list_all is_digit s"

lemma ends_value_stops: "ends_value r \<Longrightarrow> \<not> starts_digit r \<and> (r = [] \<or> hd r \<notin> {CHR ''.'', CHR ''e'', CHR ''E''})"
  by (auto simp: ends_value_def starts_digit_def is_digit_def is_whitespace_def)

lemma skip_digits_append: "list_all is_digit s \<Longrightarrow> \<not> starts_digit r \<Longrightarrow> skip_digits (s @ r) = r"
  by (induction s) (cases r; auto simp: skip_digits_def starts_digit_def)+

text \<open>The parts of a decimal numeral: sign, integer part, fraction, exponent.\<close>

definition fraction_part :: "string \<Rightarrow> bool" where
  "fraction_part f \<longleftrightarrow> f = [] \<or> (hd f = CHR ''.'' \<and> digits1 (tl f))"

definition exponent_part :: "string \<Rightarrow> bool" where
  "exponent_part e \<longleftrightarrow> e = [] \<or> (hd e \<in> {CHR ''e'', CHR ''E''} \<and>
     (digits1 (tl e) \<or> (tl e \<noteq> [] \<and> hd (tl e) \<in> {CHR ''+'', CHR ''-''} \<and> digits1 (tl (tl e)))))"

lemma scan_integer_reads:
  assumes "sg \<in> {[], ''-''}" and "is_numeral ip" and "\<not> starts_digit r"
  shows "scan_integer (sg @ ip @ r) = Inr r"
proof -
  obtain c ds where ip: "ip = c # ds" "is_digit c" "list_all is_digit ds" and zero: "c = CHR ''0'' \<longrightarrow> ds = []"
    using assms(2) by (cases ip) (auto simp: is_numeral_def)
  have sign: "\<not> is_digit (CHR ''-'')" by (simp add: is_digit_def)
  have start: "starts_digit (c # x)" for x using ip(2) by (simp add: starts_digit_def)
  have skip: "skip_digits (c # ds @ r) = r" using skip_digits_append [of "c # ds" r] ip assms(3) by simp
  have minus: "c \<noteq> CHR ''-''" using ip(2) sign by auto
  then have strip: "(case sg @ ip @ r of c # r' \<Rightarrow> if c = CHR ''-'' then r' else sg @ ip @ r | [] \<Rightarrow> sg @ ip @ r) = c # ds @ r"
    using assms(1) ip(1) by auto
  show ?thesis unfolding scan_integer_def strip Let_def using assms(3) zero start skip by auto
qed

lemma scan_fraction_reads:
  assumes "fraction_part f" and "\<not> starts_digit r" and "r = [] \<or> hd r \<noteq> CHR ''.''"
  shows "scan_fraction (f @ r) = Inr (f = [], r)"
proof (cases f)
  case Nil
  then show ?thesis using assms(3) by (cases r) (auto simp: scan_fraction_def)
next
  case (Cons c ds)
  then have c: "c = CHR ''.''" "digits1 ds" using assms(1) by (auto simp: fraction_part_def)
  then have "starts_digit (ds @ r)" by (cases ds) (auto simp: starts_digit_def digits1_def)
  then show ?thesis using Cons c assms(2) by (auto simp: scan_fraction_def skip_digits_append digits1_def)
qed

lemma scan_exponent_reads:
  assumes "exponent_part e" and "\<not> starts_digit r" and "r = [] \<or> hd r \<notin> {CHR ''e'', CHR ''E''}"
  shows "scan_exponent b (e @ r) = Inr (b \<and> e = [], r)"
proof -
  have start: "starts_digit (ds @ r)" if "digits1 ds" for ds using that by (cases ds) (auto simp: starts_digit_def digits1_def)
  have sign: "hd ds \<notin> {CHR ''+'', CHR ''-''}" if "digits1 ds" for ds
    using that by (cases ds) (auto simp: digits1_def is_digit_def)
  consider "e = []" | c ds where "e = c # ds" "c \<in> {CHR ''e'', CHR ''E''}" "digits1 ds"
    | c d ds where "e = c # d # ds" "c \<in> {CHR ''e'', CHR ''E''}" "d \<in> {CHR ''+'', CHR ''-''}" "digits1 ds"
    using assms(1) by (cases e; cases "tl e") (auto simp: exponent_part_def digits1_def)
  then show ?thesis
  proof cases
    case 1
    then show ?thesis using assms(3) by (cases r) (auto simp: scan_exponent_def)
  next
    case (2 c ds)
    then obtain x xs where ds: "ds = x # xs" by (cases ds) (auto simp: digits1_def)
    have "skip_digits (ds @ r) = r" using 2 assms(2) by (simp add: skip_digits_append digits1_def)
    then show ?thesis using 2 ds start [OF 2(3)] sign [OF 2(3)] by (auto simp: scan_exponent_def Let_def)
  next
    case (3 c d ds)
    have "skip_digits (ds @ r) = r" using 3 assms(2) by (simp add: skip_digits_append digits1_def)
    then show ?thesis using 3 start [OF 3(4)] by (auto simp: scan_exponent_def Let_def)
  qed
qed

lemma scan_number_reads:
  assumes "sg \<in> {[], ''-''}" "is_numeral ip" "fraction_part f" "exponent_part e" "ends_value r"
  shows "scan_number (sg @ ip @ f @ e @ r) = Inr (f = [] \<and> e = [], r)"
proof -
  note stops = ends_value_stops [OF assms(5)]
  have f: "\<not> starts_digit (f @ e @ r)" "\<not> starts_digit (e @ r)" "e @ r = [] \<or> hd (e @ r) \<noteq> CHR ''.''"
    using assms(3,4) stops
    by (auto simp: starts_digit_def fraction_part_def exponent_part_def hd_append is_digit_def)
  have "scan_integer (sg @ ip @ f @ e @ r) = Inr (f @ e @ r)" by (rule scan_integer_reads) (use assms f in auto)
  moreover have "scan_fraction (f @ e @ r) = Inr (f = [], e @ r)" by (rule scan_fraction_reads) (use assms f in auto)
  moreover have "scan_exponent (f = []) (e @ r) = Inr (f = [] \<and> e = [], r)" by (rule scan_exponent_reads) (use assms stops in auto)
  ultimately show ?thesis by (simp add: scan_number_def)
qed

lemma ParseNumber_integer:
  assumes "sg \<in> {[], ''-''}" "is_numeral ip" "ends_value r" "length (sg @ ip) \<le> 20" "integer_value (sg @ ip) = Some v"
  shows "ParseNumber fc (sg @ ip @ r) = Inr (v, r)"
  using scan_number_reads [of sg ip "[]" "[]" r] assms
  by (simp add: ParseNumber_def Let_def fraction_part_def exponent_part_def)

lemma numeral_length:
  assumes "n < 10 ^ 19"
  shows "length (nat_text n) \<le> 19"
  using nat_text_length_le [of n 19] assms by simp

lemma numeral_sign: "hd (nat_text n) \<noteq> CHR ''-''"
  using nat_text_digits [of n] by (cases "nat_text n") (auto simp: is_digit_def)

lemma ParseNumber_int:
  assumes "is_i64 i" "ends_value r"
  shows "ParseNumber fc (int_text i @ r) = Inr (V_Int i, r)"
proof (cases "i < 0")
  case True
  have "nat (- i) < 10 ^ 19" using assms(1) True by (simp add: is_i64_def nat_less_iff)
  then have "length (''-'' @ nat_text (nat (- i))) \<le> 20" using numeral_length [of "nat (- i)"] by simp
  then show ?thesis
    using ParseNumber_integer [of "''-''" "nat_text (nat (- i))" r "V_Int i" fc] True assms is_numeral_nat_text
    by (simp add: int_text_def integer_value_def)
next
  case False
  have "nat i < 10 ^ 19" using assms(1) False by (simp add: is_i64_def nat_less_iff)
  moreover have "nat i < 2 ^ 64" "nat i \<le> 9223372036854775807" using assms(1) False by (simp_all add: is_i64_def nat_less_iff nat_le_iff)
  ultimately show ?thesis
    using ParseNumber_integer [of "[]" "nat_text (nat i)" r "V_Int i" fc] False assms is_numeral_nat_text
      numeral_length [of "nat i"] numeral_sign
    by (simp add: int_text_def integer_value_def)
qed

lemma ParseNumber_uint:
  assumes "u > 9223372036854775807" "ends_value r"
  shows "ParseNumber fc (nat_text (unat u) @ r) = Inr (V_Uint u, r)"
proof -
  have less: "unat u < 2 ^ 64" using unsigned_less [of u, where 'a = nat] by simp
  have "unat u > 9223372036854775807" using assms(1) by (simp add: word_less_nat_alt)
  moreover have "length (nat_text (unat u)) \<le> 20" using nat_text_length_le [of "unat u" 20] less by simp
  moreover have "MakeUint u = V_Uint u" using assms(1) by (simp add: MakeUint_def linorder_not_le)
  ultimately show ?thesis
    using ParseNumber_integer [of "[]" "nat_text (unat u)" r "V_Uint u" fc] less assms(2) is_numeral_nat_text numeral_sign
    by (simp add: integer_value_def)
qed

text \<open>
  What the codec relies on for a double: the general format of \<^verbatim>\<open>std::to_chars\<close> is a decimal numeral,
  and \<^verbatim>\<open>std::from_chars\<close> reads the numeral, with a zero fraction appended to an integral one, as the same
  finite double.
\<close>

definition double_codec :: "(u64 \<Rightarrow> string option) \<Rightarrow> (string \<Rightarrow> u64 option) \<Rightarrow> u64 \<Rightarrow> bool" where
  "double_codec tc fc d \<longleftrightarrow>
     double_isfinite d \<and> fc (FormatDoubleCanonical tc d) = Some d \<and>
     (\<exists>sg ip f e. tc d = Some (sg @ ip @ f @ e) \<and> sg \<in> {[], ''-''} \<and> is_numeral ip \<and> fraction_part f \<and> exponent_part e)"

lemma FormatDouble_shape:
  assumes "double_codec tc fc d"
  obtains sg ip f e where "FormatDoubleCanonical tc d = sg @ ip @ f @ e" "sg \<in> {[], ''-''}" "is_numeral ip" "fraction_part f"
    "exponent_part e" "\<not> (f = [] \<and> e = [])"
proof -
  obtain sg ip f e where t: "tc d = Some (sg @ ip @ f @ e)" "sg \<in> {[], ''-''}" "is_numeral ip" "fraction_part f" "exponent_part e"
    using assms by (auto simp: double_codec_def)
  have zero: "fraction_part ''.0''" by (simp add: fraction_part_def digits1_def is_digit_def)
  show thesis
  proof (cases "f = [] \<and> e = []")
    case True
    have "\<forall>c \<in> set (sg @ ip). c = CHR ''-'' \<or> is_digit c" using t(2,3) by (auto simp: is_numeral_def list_all_iff)
    moreover have "\<not> (c = CHR ''-'' \<or> is_digit c)" if "c \<in> {CHR ''.'', CHR ''e'', CHR ''E''}" for c
      using that by (auto simp: is_digit_def)
    ultimately have "CHR ''.'' \<notin> set (sg @ ip)" "CHR ''e'' \<notin> set (sg @ ip)" "CHR ''E'' \<notin> set (sg @ ip)" by blast+
    then have "FormatDoubleCanonical tc d = sg @ ip @ ''.0'' @ []" using t(1) True by (simp add: FormatDoubleCanonical_def)
    then show thesis using t zero True by (intro that [where f = "''.0''" and e = "[]"]) (auto simp: exponent_part_def)
  next
    case False
    then have "CHR ''.'' \<in> set f \<or> CHR ''e'' \<in> set e \<or> CHR ''E'' \<in> set e"
      using t(4,5) by (cases f; cases e) (auto simp: fraction_part_def exponent_part_def)
    then have "FormatDoubleCanonical tc d = sg @ ip @ f @ e" using t(1) by (auto simp: FormatDoubleCanonical_def)
    then show thesis using t False by (intro that)
  qed
qed

lemma ParseNumber_double:
  assumes "double_codec tc fc d" "ends_value r"
  shows "ParseNumber fc (FormatDoubleCanonical tc d @ r) = Inr (V_Double d, r)"
proof -
  obtain sg ip f e where t: "FormatDoubleCanonical tc d = sg @ ip @ f @ e" "sg \<in> {[], ''-''}" "is_numeral ip" "fraction_part f"
    "exponent_part e" "\<not> (f = [] \<and> e = [])"
    by (rule FormatDouble_shape [OF assms(1)])
  have "scan_number (FormatDoubleCanonical tc d @ r) = Inr (False, r)"
    using scan_number_reads [OF t(2-5) assms(2)] t(1,6) by auto
  moreover have "double_value fc (FormatDoubleCanonical tc d) = Inr (V_Double d)"
    using assms(1) by (simp add: double_codec_def double_value_def TryMakeDouble_def)
  ultimately show ?thesis by (simp add: ParseNumber_def Let_def)
qed

section \<open>What the envelope admits\<close>

fun json_nodes :: "Value \<Rightarrow> nat"
  and nodes_list :: "Value list \<Rightarrow> nat"
  and nodes_map :: "(string \<times> Value) list \<Rightarrow> nat" where
  "json_nodes (V_List l) = Suc (nodes_list l)"
| "json_nodes (V_Map m) = Suc (nodes_map m)"
| "json_nodes (V_Bytes b) = 2"
| "json_nodes V_Null = 1"
| "json_nodes (V_Bool b) = 1"
| "json_nodes (V_Int i) = 1"
| "json_nodes (V_Uint u) = 1"
| "json_nodes (V_Double d) = 1"
| "json_nodes (V_String s) = 1"
| "nodes_list [] = 0"
| "nodes_list (v # vs) = json_nodes v + nodes_list vs"
| "nodes_map [] = 0"
| "nodes_map ((k, v) # m) = json_nodes v + nodes_map m"

fun json_fits :: "RuntimeLimits \<Rightarrow> nat \<Rightarrow> Value \<Rightarrow> bool"
  and fits_list :: "RuntimeLimits \<Rightarrow> nat \<Rightarrow> Value list \<Rightarrow> bool"
  and fits_map :: "RuntimeLimits \<Rightarrow> nat \<Rightarrow> (string \<times> Value) list \<Rightarrow> bool" where
  "json_fits lim depth (V_List l) \<longleftrightarrow> depth \<le> max_value_depth lim \<and> fits_list lim (Suc depth) l"
| "json_fits lim depth (V_Map m) \<longleftrightarrow>
     depth \<le> max_value_depth lim \<and> keys_ascending m \<and> length m \<le> max_fields_per_object lim \<and>
     \<not> (length m = 1 \<and> fst (hd m) = kBytesMember) \<and> fits_map lim (Suc depth) m"
| "json_fits lim depth (V_Bytes b) \<longleftrightarrow>
     depth < max_value_depth lim \<and> 2 * length b \<le> max_leaf_bytes lim \<and> length kBytesMember \<le> max_leaf_bytes lim \<and>
     1 \<le> max_fields_per_object lim"
| "json_fits lim depth (V_String s) \<longleftrightarrow> depth \<le> max_value_depth lim \<and> length s \<le> max_leaf_bytes lim \<and> IsValidUtf8 s"
| "json_fits lim depth (V_Int i) \<longleftrightarrow> depth \<le> max_value_depth lim \<and> is_i64 i"
| "json_fits lim depth (V_Uint u) \<longleftrightarrow> depth \<le> max_value_depth lim \<and> u > 9223372036854775807"
| "json_fits lim depth (V_Double d) \<longleftrightarrow> depth \<le> max_value_depth lim"
| "json_fits lim depth (V_Bool b) \<longleftrightarrow> depth \<le> max_value_depth lim"
| "json_fits lim depth V_Null \<longleftrightarrow> depth \<le> max_value_depth lim"
| "fits_list lim depth [] = True"
| "fits_list lim depth (v # vs) \<longleftrightarrow> json_fits lim depth v \<and> fits_list lim depth vs"
| "fits_map lim depth [] = True"
| "fits_map lim depth ((k, v) # m) \<longleftrightarrow>
     length k \<le> max_leaf_bytes lim \<and> IsValidUtf8 k \<and> json_fits lim depth v \<and> fits_map lim depth m"

fun doubles_in :: "Value \<Rightarrow> u64 list"
  and doubles_list :: "Value list \<Rightarrow> u64 list"
  and doubles_map :: "(string \<times> Value) list \<Rightarrow> u64 list" where
  "doubles_in (V_Double d) = [d]"
| "doubles_in (V_List l) = doubles_list l"
| "doubles_in (V_Map m) = doubles_map m"
| "doubles_in V_Null = []"
| "doubles_in (V_Bool b) = []"
| "doubles_in (V_Int i) = []"
| "doubles_in (V_Uint u) = []"
| "doubles_in (V_String s) = []"
| "doubles_in (V_Bytes b) = []"
| "doubles_list [] = []"
| "doubles_list (v # vs) = doubles_in v @ doubles_list vs"
| "doubles_map [] = []"
| "doubles_map ((k, v) # m) = doubles_in v @ doubles_map m"

lemma json_nodes_pos: "0 < json_nodes v"
  by (cases v) simp_all

definition is_leaf :: "Value \<Rightarrow> bool" where
  "is_leaf v \<longleftrightarrow> (case v of V_List l \<Rightarrow> False | V_Map m \<Rightarrow> False | V_Bytes b \<Rightarrow> False | _ \<Rightarrow> True)"

text \<open>The characters a value can start with: never whitespace, a separator or a closing bracket.\<close>

definition value_start :: "char \<Rightarrow> bool" where
  "value_start c \<longleftrightarrow> c \<in> {QUOTE, CHR ''t'', CHR ''f'', CHR ''n'', CHR ''-'', CHR ''{'', CHR ''[''} \<or> is_digit c"

definition leaf_start :: "char \<Rightarrow> bool" where
  "leaf_start c \<longleftrightarrow> value_start c \<and> c \<noteq> CHR ''{'' \<and> c \<noteq> CHR ''[''"

lemma number_start: "is_digit c \<or> c = CHR ''-'' \<Longrightarrow> leaf_start c \<and> c \<notin> {QUOTE, CHR ''t'', CHR ''f'', CHR ''n''}"
  by (auto simp: leaf_start_def value_start_def QUOTE_def is_digit_def)

lemma parse_leaf_number:
  assumes "ParseNumber fc s = Inr (v, r)" "s \<noteq> []" "is_digit (hd s) \<or> hd s = CHR ''-''"
  shows "parse_leaf fc lim s = Inr (v, r) \<and> leaf_start (hd s)"
  using assms number_start [OF assms(3)] by (auto simp: parse_leaf_def)

lemma signed_numeral_start: "sg \<in> {[], ''-''} \<Longrightarrow> is_numeral ip \<Longrightarrow> is_digit (hd (sg @ ip @ r)) \<or> hd (sg @ ip @ r) = CHR ''-''"
  by (cases ip) (auto simp: is_numeral_def)

lemma leaf_reads:
  assumes "is_leaf v" "json_fits lim depth v" "\<forall>d \<in> set (doubles_in v). double_codec tc fc d" "ends_value r"
  shows "WriteCompact tc v \<noteq> [] \<and> leaf_start (hd (WriteCompact tc v)) \<and> parse_leaf fc lim (WriteCompact tc v @ r) = Inr (v, r)"
proof (cases v)
  case V_Null
  then show ?thesis by (simp add: parse_leaf_def ParseLiteral_def QUOTE_def leaf_start_def value_start_def)
next
  case (V_Bool b)
  then show ?thesis by (simp add: parse_leaf_def ParseLiteral_def QUOTE_def leaf_start_def value_start_def)
next
  case (V_Int i)
  have "int_text i \<noteq> []" "is_digit (hd (int_text i)) \<or> hd (int_text i) = CHR ''-''"
    using signed_numeral_start [of "[]" "nat_text (nat i)" "[]"] is_numeral_nat_text by (auto simp: int_text_def)
  then show ?thesis using V_Int assms ParseNumber_int [of i r fc] parse_leaf_number [of fc "int_text i @ r" "V_Int i" r lim]
    by simp
next
  case (V_Uint u)
  have "is_digit (hd (nat_text (unat u))) \<or> hd (nat_text (unat u)) = CHR ''-''"
    using signed_numeral_start [of "[]" "nat_text (unat u)" "[]"] is_numeral_nat_text by simp
  then show ?thesis
    using V_Uint assms ParseNumber_uint [of u r fc] parse_leaf_number [of fc "nat_text (unat u) @ r" "V_Uint u" r lim] by simp
next
  case (V_Double d)
  then have codec: "double_codec tc fc d" using assms(3) by simp
  obtain sg ip f e where t: "FormatDoubleCanonical tc d = sg @ ip @ f @ e" "sg \<in> {[], ''-''}" "is_numeral ip"
    by (rule FormatDouble_shape [OF codec])
  have "FormatDoubleCanonical tc d \<noteq> []" using t by (auto simp: is_numeral_def)
  moreover have "is_digit (hd (FormatDoubleCanonical tc d)) \<or> hd (FormatDoubleCanonical tc d) = CHR ''-''"
    using signed_numeral_start [OF t(2,3), of "f @ e"] t(1) by simp
  ultimately show ?thesis
    using V_Double ParseNumber_double [OF codec assms(4)] parse_leaf_number [of fc "FormatDoubleCanonical tc d @ r" "V_Double d" r lim]
    by simp
next
  case (V_String s)
  then have "ParseString lim [] (tl (JsonQuote s) @ r) = Inr (s, r)" using assms(2) by (intro ParseString_quoted) auto
  moreover have "JsonQuote s \<noteq> []" "hd (JsonQuote s) = QUOTE" by (simp_all add: JsonQuote_def)
  ultimately show ?thesis using V_String
    by (simp add: parse_leaf_def leaf_start_def value_start_def QUOTE_def)
qed (use assms(1) in \<open>simp_all add: is_leaf_def\<close>)

section \<open>Texts of a value\<close>

definition ws :: "string \<Rightarrow> bool" where
  "ws w \<longleftrightarrow> list_all is_whitespace w"

inductive renders :: "(u64 \<Rightarrow> string option) \<Rightarrow> Value \<Rightarrow> string \<Rightarrow> bool"
  and renders_elements :: "(u64 \<Rightarrow> string option) \<Rightarrow> Value list \<Rightarrow> string \<Rightarrow> bool"
  and renders_members :: "(u64 \<Rightarrow> string option) \<Rightarrow> (string \<times> Value) list \<Rightarrow> string \<Rightarrow> bool"
  for tc where
  leaf: "is_leaf v \<Longrightarrow> renders tc v (WriteCompact tc v)"
| octets: "renders tc (V_Bytes b) (WriteCompact tc (V_Bytes b))"
| empty_list: "renders tc (V_List []) ''[]''"
| elements: "renders_elements tc l t \<Longrightarrow> renders tc (V_List l) (CHR ''['' # t @ '']'')"
| empty_map: "renders tc (V_Map []) ''{}''"
| members: "renders_members tc m t \<Longrightarrow> renders tc (V_Map m) (CHR ''{'' # t @ ''}'')"
| one_element: "ws w1 \<Longrightarrow> renders tc v t \<Longrightarrow> ws w2 \<Longrightarrow> renders_elements tc [v] (w1 @ t @ w2)"
| next_element: "ws w1 \<Longrightarrow> renders tc v t \<Longrightarrow> ws w2 \<Longrightarrow> renders_elements tc l u \<Longrightarrow>
    renders_elements tc (v # l) (w1 @ t @ w2 @ CHR '','' # u)"
| one_member: "ws w1 \<Longrightarrow> ws w2 \<Longrightarrow> renders tc v t \<Longrightarrow> ws w3 \<Longrightarrow>
    renders_members tc [(k, v)] (w1 @ JsonQuote k @ CHR '':'' # w2 @ t @ w3)"
| next_member: "ws w1 \<Longrightarrow> ws w2 \<Longrightarrow> renders tc v t \<Longrightarrow> ws w3 \<Longrightarrow> renders_members tc m u \<Longrightarrow>
    renders_members tc ((k, v) # m) (w1 @ JsonQuote k @ CHR '':'' # w2 @ t @ w3 @ CHR '','' # u)"

lemma value_start_facts:
  "value_start c \<Longrightarrow> \<not> is_whitespace c \<and> c \<notin> {CHR '','', CHR '']'', CHR ''}'', CHR '':''}"
  by (auto simp: value_start_def QUOTE_def is_whitespace_def is_digit_def)

lemma skip_ws: "ws w \<Longrightarrow> SkipWhitespace (w @ r) = SkipWhitespace r"
  by (induction w) (auto simp: ws_def SkipWhitespace_def)

lemma skip_start: "value_start (hd r) \<Longrightarrow> r \<noteq> [] \<Longrightarrow> SkipWhitespace r = r"
  using value_start_facts by (cases r) (auto simp: SkipWhitespace_def)

lemma skip_punct: "\<not> is_whitespace c \<Longrightarrow> SkipWhitespace (c # r) = c # r"
  by (simp add: SkipWhitespace_def)

lemma skip_idem [simp]: "SkipWhitespace (SkipWhitespace s) = SkipWhitespace s"
  by (simp add: SkipWhitespace_def dropWhile_idem)

lemma punct_not_ws [simp]: "\<not> is_whitespace CHR '',''" "\<not> is_whitespace CHR '']''" "\<not> is_whitespace CHR ''}''"
  "\<not> is_whitespace CHR '':''" "\<not> is_whitespace QUOTE"
  by (simp_all add: is_whitespace_def QUOTE_def)

lemma ends_value_ws: "ws w \<Longrightarrow> c \<in> {CHR '','', CHR '']'', CHR ''}''} \<Longrightarrow> ends_value (w @ c # r)"
  by (cases w) (auto simp: ends_value_def ws_def)

lemma append_member: "keys_ascending (m @ (k, v) # n) \<Longrightarrow> map_of m k = None \<and> map_emplace k v m = m @ [(k, v)]"
proof -
  assume asc: "keys_ascending (m @ (k, v) # n)"
  have small: "\<forall>e \<in> set m. fst e < k" using asc by (force simp: keys_ascending_def sorted_wrt_append)
  then have "map_of m k = None" by (force simp: map_of_eq_None_iff)
  moreover have "map_put k v m = m @ [(k, v)]" using small by (induction m) auto
  ultimately show ?thesis by (simp add: map_emplace_def)
qed

text \<open>Reading a member name.\<close>

lemma parse_member_name_reads:
  assumes "ws w1" "ws w2" "length k \<le> max_leaf_bytes lim" "IsValidUtf8 k" "value_start (hd t)" "t \<noteq> []"
  shows "parse_member_name lim (w1 @ JsonQuote k @ CHR '':'' # w2 @ t @ r) = Inr (k, t @ r)"
proof -
  have q: "JsonQuote k = QUOTE # tl (JsonQuote k)" by (simp add: JsonQuote_def)
  have "SkipWhitespace (w1 @ JsonQuote k @ CHR '':'' # w2 @ t @ r) = QUOTE # tl (JsonQuote k) @ CHR '':'' # w2 @ t @ r"
    using assms(1) by (subst q) (simp add: skip_ws skip_punct)
  moreover have "SkipWhitespace (t @ r) = t @ r" using assms(5,6) by (intro skip_start) auto
  ultimately show ?thesis
    using ParseString_quoted [OF assms(3,4), of "CHR '':'' # w2 @ t @ r"] assms(2,3)
    by (simp add: parse_member_name_def Let_def skip_punct skip_ws)
qed

lemma renders_start:
  assumes "renders tc v t" "json_fits lim depth v" "\<forall>d \<in> set (doubles_in v). double_codec tc fc d"
  shows "t \<noteq> [] \<and> value_start (hd t)"
  using assms(1)
proof (cases rule: renders.cases)
  case leaf
  then show ?thesis using leaf_reads [of v lim depth tc fc "[]"] assms(2,3) by (simp add: leaf_start_def ends_value_def)
qed (auto simp: value_start_def)

lemma skipped_elements:
  "parse_elements fc lim fuel depth l (SkipWhitespace s) n = parse_elements fc lim fuel depth l s n"
  by (cases fuel) (simp_all add: elements_step_def)

lemma skipped_members:
  "parse_members fc lim fuel depth m (SkipWhitespace s) n = parse_members fc lim fuel depth m s n"
  by (cases fuel) (simp_all add: members_step_def parse_member_name_def)

section \<open>The parser reads every text of a value\<close>

lemma object_opens:
  assumes "depth \<le> max_value_depth lim" "Suc n \<le> max_value_nodes lim" "SkipWhitespace s \<noteq> []" "hd (SkipWhitespace s) \<noteq> CHR ''}''"
  shows "ParseValue fc lim (Suc fuel) depth (CHR ''{'' # s) n = parse_members fc lim fuel depth [] s (Suc n)"
  using assms by (simp add: value_step_def skipped_members)

lemma list_opens:
  assumes "depth \<le> max_value_depth lim" "Suc n \<le> max_value_nodes lim" "SkipWhitespace s \<noteq> []" "hd (SkipWhitespace s) \<noteq> CHR '']''"
  shows "ParseValue fc lim (Suc fuel) depth (CHR ''['' # s) n = parse_elements fc lim fuel depth [] s (Suc n)"
  using assms by (simp add: value_step_def skipped_elements)

lemma elements_step_reads:
  assumes "ws w1" "ws w2" "t \<noteq> []" "value_start (hd t)" "c \<in> {CHR '','', CHR '']''}" "length l < max_value_nodes lim"
    and "parse (t @ w2 @ c # r) n = Some (Inr (v, w2 @ c # r, n'))"
  shows "elements_step parse elements lim l (w1 @ t @ w2 @ c # r) n =
           (if c = CHR '','' then elements (l @ [v]) r n' else Some (Inr (V_List (l @ [v]), r, n')))"
proof -
  have "SkipWhitespace (w1 @ t @ w2 @ c # r) = t @ w2 @ c # r" using assms(1,3,4) skip_start [of "t @ w2 @ c # r"] by (simp add: skip_ws)
  moreover have "SkipWhitespace (w2 @ c # r) = c # r" using assms(2,5) by (auto simp: skip_ws skip_punct)
  ultimately show ?thesis using assms(5-7) by (auto simp: elements_step_def Let_def)
qed

lemma members_step_reads:
  assumes "ws w1" "ws w2" "ws w3" "t \<noteq> []" "value_start (hd t)" "c \<in> {CHR '','', CHR ''}''}"
    and "length k \<le> max_leaf_bytes lim" "IsValidUtf8 k" "keys_ascending (m @ (k, v) # q)"
    and "length m < max_fields_per_object lim"
    and "parse (t @ w3 @ c # r) n = Some (Inr (v, w3 @ c # r, n'))"
  shows "members_step parse members lim m (w1 @ JsonQuote k @ CHR '':'' # w2 @ t @ w3 @ c # r) n =
           (if c = CHR '','' then members (m @ [(k, v)]) r n' else Some (finish_at lim (m @ [(k, v)]) r n'))"
proof -
  have "parse_member_name lim (w1 @ JsonQuote k @ CHR '':'' # w2 @ t @ w3 @ c # r) = Inr (k, t @ w3 @ c # r)"
    using assms by (intro parse_member_name_reads)
  moreover have "SkipWhitespace (w3 @ c # r) = c # r" using assms(3,6) by (auto simp: skip_ws skip_punct)
  ultimately show ?thesis using assms(6,10,11) append_member [OF assms(9)] by (auto simp: members_step_def Let_def)
qed

text \<open>The tagged form of a byte string.\<close>

lemma utf8_ascii: "\<forall>c \<in> set s. c < 0x80 \<Longrightarrow> utf8_valid s"
  by (induction s) auto

text \<open>Printable ASCII needs no escape.\<close>

definition plain_text :: "string \<Rightarrow> bool" where
  "plain_text s \<longleftrightarrow> list_all (\<lambda>c. 0x20 \<le> (of_char c :: nat) \<and> (of_char c :: nat) < 0x80 \<and> c \<noteq> QUOTE \<and> c \<noteq> ESCAPE) s"

lemma plain_utf8: "plain_text s \<Longrightarrow> IsValidUtf8 s"
  using utf8_ascii [of "map of_char s"] by (auto simp: plain_text_def IsValidUtf8_def list_all_iff)

lemma plain_quote: "plain_text s \<Longrightarrow> JsonQuote s = QUOTE # s @ [QUOTE]"
proof -
  have "escape_char c = [c]" if "0x20 \<le> (of_char c :: nat)" "c \<noteq> QUOTE" "c \<noteq> ESCAPE" for c
    using that by (auto simp: escape_char_def)
  then have "plain_text s \<Longrightarrow> concat (map escape_char s) = s" by (induction s) (auto simp: plain_text_def)
  then show "plain_text s \<Longrightarrow> ?thesis" by (simp add: JsonQuote_def)
qed

lemma hex_char: "n < 16 \<Longrightarrow> escape_char (kHexDigits ! n) = [kHexDigits ! n] \<and> (of_char (kHexDigits ! n) :: nat) < 0x80"
proof -
  have "\<forall>n < (16 :: nat). escape_char (kHexDigits ! n) = [kHexDigits ! n] \<and> (of_char (kHexDigits ! n) :: nat) < 0x80"
    by code_simp
  then show "n < 16 \<Longrightarrow> ?thesis" by blast
qed

lemma ToHex_plain: "concat (map escape_char (ToHex b)) = ToHex b \<and> IsValidUtf8 (ToHex b)"
proof -
  have "concat (map escape_char (ToHex b)) = ToHex b \<and> (\<forall>c \<in> set (ToHex b). (of_char c :: nat) < 0x80)"
    by (induction b) (use hex_char nibble_bounds in \<open>auto simp: ToHex_def\<close>)
  then show ?thesis using utf8_ascii [of "map of_char (ToHex b)"] by (auto simp: IsValidUtf8_def)
qed

lemma bytes_text: "WriteCompact tc (V_Bytes b) = CHR ''{'' # JsonQuote kBytesMember @ CHR '':'' # JsonQuote (ToHex b) @ ''}''"
proof -
  have "JsonQuote kBytesMember = QUOTE # ''$bytes'' @ [QUOTE]" by code_simp
  then show ?thesis using ToHex_plain [of b] by (simp add: JsonQuote_def)
qed

lemma bytes_read:
  assumes "json_fits lim depth (V_Bytes b)" "n + 2 \<le> max_value_nodes lim" "3 \<le> fuel"
  shows "ParseValue fc lim fuel depth (WriteCompact tc (V_Bytes b) @ r) n = Some (Inr (V_Bytes b, r, n + 2))"
proof -
  obtain k where fuel: "fuel = Suc (Suc (Suc k))" using assms(3) by (metis add_2_eq_Suc add_Suc le_Suc_ex numeral_3_eq_3)
  let ?hex = "JsonQuote (ToHex b)"
  have len: "length (ToHex b) \<le> max_leaf_bytes lim" using assms(1) by simp
  have str: "ParseString lim [] (tl ?hex @ CHR ''}'' # r) = Inr (ToHex b, CHR ''}'' # r)"
    using ToHex_plain len by (intro ParseString_quoted) auto
  have start: "?hex \<noteq> []" "hd ?hex = QUOTE" "value_start QUOTE" by (simp_all add: JsonQuote_def value_start_def)
  have "ParseValue fc lim (Suc k) (Suc depth) (?hex @ [] @ CHR ''}'' # r) (Suc n) =
      Some (Inr (V_String (ToHex b), [] @ CHR ''}'' # r, n + 2))"
    using assms(1,2) start str by (simp add: value_step_def parse_leaf_def with_nodes_def) (simp add: QUOTE_def)
  moreover have "IsValidUtf8 kBytesMember" by code_simp
  moreover have "keys_ascending [(kBytesMember, V_String (ToHex b))]" by (simp add: keys_ascending_def)
  ultimately have "parse_members fc lim (Suc (Suc k)) depth [] (JsonQuote kBytesMember @ CHR '':'' # ?hex @ CHR ''}'' # r) (Suc n) =
      Some (finish_at lim [(kBytesMember, V_String (ToHex b))] r (n + 2))"
    using members_step_reads [of "[]" "[]" "[]" ?hex "CHR ''}''" kBytesMember lim "[]" "V_String (ToHex b)" "[]"
        "ParseValue fc lim (Suc k) (Suc depth)" r "Suc n" "n + 2" "parse_members fc lim (Suc k) depth"] start assms(1)
    by (simp add: ws_def)
  moreover have "finish_at lim [(kBytesMember, V_String (ToHex b))] r (n + 2) = Inr (V_Bytes b, r, n + 2)"
    using assms(1) by (simp add: finish_at_def FinishObject_def FromHex_def hex_pairs_ToHex)
  moreover have "ParseValue fc lim (Suc (Suc (Suc k))) depth (CHR ''{'' # JsonQuote kBytesMember @ CHR '':'' # ?hex @ CHR ''}'' # r) n =
      parse_members fc lim (Suc (Suc k)) depth [] (JsonQuote kBytesMember @ CHR '':'' # ?hex @ CHR ''}'' # r) (Suc n)"
    by (rule object_opens) (use assms in \<open>simp_all add: JsonQuote_def skip_punct, simp_all add: QUOTE_def\<close>)
  ultimately show ?thesis unfolding bytes_text fuel by simp
qed

lemma skip_to_start:
  assumes "ws w" "t \<noteq> []" "value_start (hd t)"
  shows "SkipWhitespace (w @ t @ r) \<noteq> [] \<and> hd (SkipWhitespace (w @ t @ r)) = hd t"
  using assms skip_start [of "t @ r"] by (simp add: skip_ws)

lemma renders_elements_start:
  assumes "renders_elements tc l t" "fits_list lim depth l" "\<forall>d \<in> set (doubles_list l). double_codec tc fc d"
  shows "SkipWhitespace (t @ r) \<noteq> [] \<and> hd (SkipWhitespace (t @ r)) \<noteq> CHR '']''"
  using assms(1)
proof (cases rule: renders_elements.cases)
  case (one_element w1 v t w2)
  have v: "t \<noteq> [] \<and> value_start (hd t)" by (rule renders_start [OF one_element(4)]) (use assms one_element in auto)
  show ?thesis using skip_to_start [OF one_element(3), of t "w2 @ r"] v value_start_facts [of "hd t"] one_element by auto
next
  case (next_element w1 v t w2 l u)
  have v: "t \<noteq> [] \<and> value_start (hd t)" by (rule renders_start [OF next_element(4)]) (use assms next_element in auto)
  show ?thesis using skip_to_start [OF next_element(3), of t "w2 @ CHR '','' # u @ r"] v value_start_facts [of "hd t"] next_element
    by auto
qed

lemma renders_members_start:
  assumes "renders_members tc m t"
  shows "SkipWhitespace (t @ r) \<noteq> [] \<and> hd (SkipWhitespace (t @ r)) \<noteq> CHR ''}''"
proof -
  obtain w k x where "ws w" "t = w @ JsonQuote k @ x" using assms by (cases rule: renders_members.cases) auto
  then show ?thesis by (simp add: skip_ws JsonQuote_def skip_punct) (simp add: QUOTE_def)
qed

lemma value_reads:
  "renders tc v t \<Longrightarrow> json_fits lim depth v \<Longrightarrow> \<forall>d \<in> set (doubles_in v). double_codec tc fc d \<Longrightarrow>
     n + json_nodes v \<le> max_value_nodes lim \<Longrightarrow> ends_value r \<Longrightarrow> 2 * length t + 1 \<le> fuel \<Longrightarrow>
     ParseValue fc lim fuel depth (t @ r) n = Some (Inr (v, r, n + json_nodes v))"
  and elements_read:
  "renders_elements tc vs t \<Longrightarrow> fits_list lim (Suc depth) vs \<Longrightarrow> \<forall>d \<in> set (doubles_list vs). double_codec tc fc d \<Longrightarrow>
     n + nodes_list vs \<le> max_value_nodes lim \<Longrightarrow> length l \<le> n \<Longrightarrow> 2 * length t + 2 \<le> fuel \<Longrightarrow>
     parse_elements fc lim fuel depth l (t @ CHR '']'' # r) n = Some (Inr (V_List (l @ vs), r, n + nodes_list vs))"
  and members_read:
  "renders_members tc ms t \<Longrightarrow> fits_map lim (Suc depth) ms \<Longrightarrow> \<forall>d \<in> set (doubles_map ms). double_codec tc fc d \<Longrightarrow>
     n + nodes_map ms \<le> max_value_nodes lim \<Longrightarrow> keys_ascending (m @ ms) \<Longrightarrow>
     length (m @ ms) \<le> max_fields_per_object lim \<Longrightarrow> 2 * length t + 2 \<le> fuel \<Longrightarrow>
     parse_members fc lim fuel depth m (t @ CHR ''}'' # r) n = Some (finish_at lim (m @ ms) r (n + nodes_map ms))"
proof (induction arbitrary: depth n r fuel and depth n r fuel l and depth n r fuel m
    rule: renders_renders_elements_renders_members.inducts)
  case (leaf v)
  note l = leaf_reads [OF leaf(1-3), of r] leaf(4,5)
  obtain k where "fuel = Suc k" using leaf(6) by (cases fuel) auto
  moreover have "json_nodes v = 1" "depth \<le> max_value_depth lim" using leaf(1,2) by (cases v; simp add: is_leaf_def)+
  ultimately show ?case using l by (auto simp: value_step_def with_nodes_def leaf_start_def)
next
  case (octets b)
  have "3 \<le> fuel" using octets(5) by simp
  then show ?case using octets bytes_read [of lim depth b n fuel fc tc r] by (simp del: WriteCompact.simps)
next
  case empty_list
  then obtain k where "fuel = Suc k" by (cases fuel) auto
  with empty_list show ?case by (simp add: value_step_def skip_punct QUOTE_def)
next
  case (elements l t)
  then obtain k where k: "fuel = Suc k" by (cases fuel) auto
  have "ParseValue fc lim fuel depth (CHR ''['' # (t @ CHR '']'' # r)) n = parse_elements fc lim k depth [] (t @ CHR '']'' # r) (Suc n)"
    unfolding k using elements.prems elements.IH(1) renders_elements_start [of tc l t lim "Suc depth" fc "CHR '']'' # r"]
    by (intro list_opens) auto
  then show ?case using elements.IH(2) [of depth "Suc n" "[]" k r] elements.prems k by simp
next
  case empty_map
  then obtain k where "fuel = Suc k" by (cases fuel) auto
  with empty_map show ?case by (simp add: value_step_def skip_punct finish_at_def FinishObject_def)
next
  case (members m t)
  then obtain k where k: "fuel = Suc k" by (cases fuel) auto
  have "ParseValue fc lim fuel depth (CHR ''{'' # (t @ CHR ''}'' # r)) n = parse_members fc lim k depth [] (t @ CHR ''}'' # r) (Suc n)"
    unfolding k using members.prems members.IH(1) renders_members_start [of tc m t "CHR ''}'' # r"]
    by (intro object_opens) auto
  moreover have "finish_at lim m r (n + json_nodes (V_Map m)) = Inr (V_Map m, r, n + json_nodes (V_Map m))"
    using members.prems(1) by (cases m) (auto simp: finish_at_def FinishObject_def)
  ultimately show ?case using members.IH(2) [of depth "Suc n" "[]" k r] members.prems k by simp
next
  case (one_element w1 v t w2)
  then obtain k where k: "fuel = Suc k" by (cases fuel) auto
  have v: "t \<noteq> [] \<and> value_start (hd t)" using one_element renders_start [of tc v t lim "Suc depth" fc] by simp
  have "ParseValue fc lim k (Suc depth) (t @ w2 @ CHR '']'' # r) n = Some (Inr (v, w2 @ CHR '']'' # r, n + json_nodes v))"
    using one_element k by (intro one_element.IH(2)) (auto simp: ends_value_ws)
  then show ?case
    using elements_step_reads [of w1 w2 t "CHR '']''" l lim "ParseValue fc lim k (Suc depth)" r n v "n + json_nodes v"] v
      one_element json_nodes_pos [of v] k by simp
next
  case (next_element w1 v t w2 vs u)
  then obtain k where k: "fuel = Suc k" by (cases fuel) auto
  have v: "t \<noteq> [] \<and> value_start (hd t)" using next_element renders_start [of tc v t lim "Suc depth" fc] by simp
  have "ParseValue fc lim k (Suc depth) (t @ w2 @ CHR '','' # u @ CHR '']'' # r) n =
      Some (Inr (v, w2 @ CHR '','' # u @ CHR '']'' # r, n + json_nodes v))"
    using next_element.prems next_element.hyps next_element.IH(1,3) k by (intro next_element.IH(2)) (auto simp: ends_value_ws)
  then have "parse_elements fc lim fuel depth l (w1 @ t @ w2 @ CHR '','' # u @ CHR '']'' # r) n =
      parse_elements fc lim k depth (l @ [v]) (u @ CHR '']'' # r) (n + json_nodes v)"
    using elements_step_reads [of w1 w2 t "CHR '',''" l lim "ParseValue fc lim k (Suc depth)" "u @ CHR '']'' # r" n v "n + json_nodes v"] v
      next_element.prems next_element.hyps next_element.IH(1,3) json_nodes_pos [of v] k by simp
  then show ?case
    using next_element.IH(4) [of depth "n + json_nodes v" "l @ [v]" k r] next_element.prems json_nodes_pos [of v] k
    by (simp add: add.assoc Suc_le_eq)
next
  case (one_member w1 w2 v t w3 key)
  then obtain k where k: "fuel = Suc k" by (cases fuel) auto
  have v: "t \<noteq> [] \<and> value_start (hd t)" using one_member renders_start [of tc v t lim "Suc depth" fc] by simp
  have "ParseValue fc lim k (Suc depth) (t @ w3 @ CHR ''}'' # r) n = Some (Inr (v, w3 @ CHR ''}'' # r, n + json_nodes v))"
    using one_member k by (intro one_member.IH(2)) (auto simp: ends_value_ws)
  then show ?case
    using members_step_reads [of w1 w2 w3 t "CHR ''}''" key lim m v "[]" "ParseValue fc lim k (Suc depth)" r n "n + json_nodes v"] v
      one_member k by simp
next
  case (next_member w1 w2 v t w3 ms u key)
  then obtain k where k: "fuel = Suc k" by (cases fuel) auto
  have v: "t \<noteq> [] \<and> value_start (hd t)" using next_member renders_start [of tc v t lim "Suc depth" fc] by simp
  have "ParseValue fc lim k (Suc depth) (t @ w3 @ CHR '','' # u @ CHR ''}'' # r) n =
      Some (Inr (v, w3 @ CHR '','' # u @ CHR ''}'' # r, n + json_nodes v))"
    using next_member.prems next_member.hyps next_member.IH(1,3) k by (intro next_member.IH(2)) (auto simp: ends_value_ws)
  then have "parse_members fc lim fuel depth m (w1 @ JsonQuote key @ CHR '':'' # w2 @ t @ w3 @ CHR '','' # u @ CHR ''}'' # r) n =
      parse_members fc lim k depth (m @ [(key, v)]) (u @ CHR ''}'' # r) (n + json_nodes v)"
    using members_step_reads [of w1 w2 w3 t "CHR '',''" key lim m v ms "ParseValue fc lim k (Suc depth)" "u @ CHR ''}'' # r" n
        "n + json_nodes v"] v next_member.prems next_member.hyps next_member.IH(1,3) k by simp
  then show ?case
    using next_member.IH(4) [of depth "n + json_nodes v" "m @ [(key, v)]" k r] next_member.prems k by (simp add: add.assoc)
qed

section \<open>The writers\<close>

lemma ws_Nil [simp]: "ws []"
  by (simp add: ws_def)

lemma ws_indent [simp]: "ws (WriteIndent width depth)"
  by (auto simp: ws_def WriteIndent_def is_whitespace_def list_all_iff)

lemma renders_compact:
  "renders tc v (WriteCompact tc v)"
  "l \<noteq> [] \<Longrightarrow> renders_elements tc l (write_elements tc l)"
  "m \<noteq> [] \<Longrightarrow> renders_members tc m (write_members tc m)"
proof (induction tc v and tc l and tc m rule: WriteCompact_write_elements_write_members.induct)
  case (7 tc b)
  show ?case by (rule octets)
next
  case (8 tc l)
  then show ?case using empty_list elements by (cases "l = []") auto
next
  case (9 tc m)
  then show ?case using empty_map members by (cases "m = []") auto
next
  case (11 tc v vs)
  then show ?case using one_element [of "[]" tc v _ "[]"] next_element [of "[]" tc v _ "[]"] by (cases "vs = []") auto
next
  case (13 tc k v m)
  then show ?case using one_member [of "[]" "[]" tc v _ "[]"] next_member [of "[]" "[]" tc v _ "[]"] by (cases "m = []") auto
qed (simp_all add: leaf [of V_Null, simplified] is_leaf_def leaf [of "V_Bool b" for b, simplified]
  leaf [of "V_Int i" for i, simplified] leaf [of "V_Uint u" for u, simplified] leaf [of "V_Double d" for d, simplified]
  leaf [of "V_String s" for s, simplified])

lemma renders_pretty:
  "renders tc v (WritePretty tc width depth v)"
  "l \<noteq> [] \<Longrightarrow> ws w \<Longrightarrow> renders_elements tc l (pretty_elements tc width depth l @ w)"
  "m \<noteq> [] \<Longrightarrow> ws w \<Longrightarrow> renders_members tc m (pretty_members tc width depth m @ w)"
proof (induction tc width depth v and tc width depth l and tc width depth m arbitrary: and w and w
    rule: WritePretty_pretty_elements_pretty_members.induct)
  case (1 tc width depth v)
  show ?case
  proof (cases v)
    case (V_List l)
    show ?thesis
    proof (cases "l = []")
      case False
      have "renders tc (V_List l) (CHR ''['' # (pretty_elements tc width (Suc depth) l @ WriteIndent width depth) @ '']'')"
        by (rule elements) (use 1(1) [OF V_List False False] in simp)
      then show ?thesis using V_List False by (simp add: WritePretty.simps [of tc width depth])
    qed (simp add: V_List WritePretty.simps [of tc width depth] empty_list)
  next
    case (V_Map m)
    show ?thesis
    proof (cases "m = []")
      case False
      have "renders tc (V_Map m) (CHR ''{'' # (pretty_members tc width (Suc depth) m @ WriteIndent width depth) @ ''}'')"
        by (rule members) (use 1(2) [OF V_Map False False] in simp)
      then show ?thesis using V_Map False by (simp add: WritePretty.simps [of tc width depth])
    qed (simp add: V_Map WritePretty.simps [of tc width depth] empty_map)
  qed (use renders_compact(1) [of tc v] in \<open>simp_all add: WritePretty.simps [of tc width depth]\<close>)
next
  case (3 tc width depth v vs)
  show ?case
  proof (cases "vs = []")
    case True
    then show ?thesis using one_element [OF ws_indent [of width depth] 3(1) 3(4)] by simp
  next
    case False
    have "renders_elements tc vs (pretty_elements tc width depth vs @ w)" by (rule 3(2)) (use False 3(4) in simp_all)
    from next_element [OF ws_indent [of width depth] 3(1) ws_Nil this] show ?thesis using False by simp
  qed
next
  case (5 tc width depth k v m)
  have sp: "ws '' ''" by (simp add: ws_def is_whitespace_def)
  show ?case
  proof (cases "m = []")
    case True
    then show ?thesis using one_member [OF ws_indent [of width depth] sp 5(1) 5(4), of k] by simp
  next
    case False
    have "renders_members tc m (pretty_members tc width depth m @ w)" by (rule 5(2)) (use False 5(4) in simp_all)
    from next_member [OF ws_indent [of width depth] sp 5(1) ws_Nil this, of k] show ?thesis using False by simp
  qed
qed simp_all

lemma ParseJson_renders:
  assumes "renders tc v t" "json_fits lim 0 v" "json_nodes v \<le> max_value_nodes lim"
    "\<forall>d \<in> set (doubles_in v). double_codec tc fc d" "length t \<le> max_document_bytes lim"
  shows "ParseJson fc lim t = Inr v"
proof -
  have start: "t \<noteq> []" "SkipWhitespace t = t" using renders_start [OF assms(1,2,4)] skip_start by auto
  have "ParseValue fc lim (json_fuel t) 0 (t @ []) 0 = Some (Inr (v, [], 0 + json_nodes v))"
    using assms by (intro value_reads) (simp_all add: ends_value_def json_fuel_def)
  then show ?thesis using start assms(5) by (simp add: ParseJson_def Parse_def SkipWhitespace_def [of "[]"])
qed


section \<open>What the parser accepts\<close>

lemma ParseString_fits: "ParseString lim out s = Inr (t, r) \<Longrightarrow> length t \<le> max_leaf_bytes lim \<and> IsValidUtf8 t"
proof (induction lim out s rule: ParseString.induct)
  case (2 lim out c r')
  then show ?case by (auto simp: malformed_def split: if_splits sum.splits prod.splits)
qed (simp add: malformed_def)

lemma integer_value_fits:
  assumes "integer_value token = Some v" "depth \<le> max_value_depth lim"
  shows "json_fits lim depth v \<and> json_nodes v = 1"
proof (cases "hd token = CHR ''-''")
  case True
  with assms show ?thesis by (auto simp: integer_value_def Let_def split: if_splits)
next
  case False
  let ?n = "text_nat token"
  have "(9223372036854775807 :: u64) < of_nat ?n" if "9223372036854775807 < ?n" "?n < 2 ^ 64"
    using that by (simp add: word_less_nat_alt unsigned_of_nat take_bit_nat_eq_self)
  with False assms show ?thesis
    by (auto simp: integer_value_def Let_def MakeUint_def is_i64_def linorder_not_le split: if_splits)
qed

lemma parse_leaf_fits:
  assumes "parse_leaf fc lim s = Inr (v, r)" "depth \<le> max_value_depth lim"
  shows "json_fits lim depth v \<and> json_nodes v = 1"
proof -
  have number: "json_fits lim depth v \<and> json_nodes v = 1" if "ParseNumber fc s = Inr (v, r)"
    using that assms(2) integer_value_fits [OF _ assms(2)]
    by (auto simp: ParseNumber_def double_value_def TryMakeDouble_def Let_def split: sum.splits prod.splits option.splits if_splits)
  then show ?thesis using assms
    by (auto simp: parse_leaf_def ParseLiteral_def dest!: ParseString_fits split: if_splits sum.splits prod.splits)
qed

lemma fits_map_put:
  "fits_map lim depth m \<Longrightarrow> length k \<le> max_leaf_bytes lim \<Longrightarrow> IsValidUtf8 k \<Longrightarrow> json_fits lim depth v \<Longrightarrow> fits_map lim depth (map_put k v m)"
  by (induction m) auto

lemma nodes_map_put: "map_of m k = None \<Longrightarrow> nodes_map (map_put k v m) = json_nodes v + nodes_map m"
  by (induction m) auto

lemma hex_pairs_length: "hex_pairs s = Some b \<Longrightarrow> length s = 2 * length b"
  by (induction s arbitrary: b rule: hex_pairs.induct) (auto simp: Let_def split: if_splits)

lemma FinishObject_fits:
  assumes "FinishObject lim m = Inr v" "keys_ascending m" "fits_map lim (Suc depth) m" "length m \<le> max_fields_per_object lim"
    "depth \<le> max_value_depth lim"
  shows "json_fits lim depth v \<and> json_nodes v = Suc (nodes_map m)"
proof (cases "length m = 1 \<and> map_of m kBytesMember \<noteq> None")
  case True
  then obtain x where m: "m = [(kBytesMember, x)]" by (cases m) (auto split: if_splits)
  then show ?thesis using assms
    by (auto simp: FinishObject_def malformed_def FromHex_def dest!: hex_pairs_length split: Value.splits option.splits if_splits)
next
  case False
  then show ?thesis using assms by (cases m) (auto simp: FinishObject_def split: if_splits)
qed

lemma parse_member_name_fits:
  "parse_member_name lim s = Inr (k, r) \<Longrightarrow> length k \<le> max_leaf_bytes lim \<and> IsValidUtf8 k"
  by (auto simp: parse_member_name_def malformed_def Let_def dest!: ParseString_fits split: if_splits sum.splits prod.splits)

lemma fits_list_append: "fits_list lim depth (a @ b) \<longleftrightarrow> fits_list lim depth a \<and> fits_list lim depth b"
  by (induction a) auto

lemma nodes_list_append: "nodes_list (a @ b) = nodes_list a + nodes_list b"
  by (induction a) auto

lemma value_parsed:
  "ParseValue fc lim fuel depth s n = Some (Inr (v, r, n')) \<Longrightarrow>
     json_fits lim depth v \<and> n' = n + json_nodes v \<and> n' \<le> max_value_nodes lim"
  and members_parsed:
  "parse_members fc lim fuel depth m s n = Some (Inr (v, r, n')) \<Longrightarrow> keys_ascending m \<Longrightarrow> fits_map lim (Suc depth) m \<Longrightarrow>
     depth \<le> max_value_depth lim \<Longrightarrow> json_fits lim depth v \<and> Suc (n' + nodes_map m) = n + json_nodes v \<and> n' \<le> max_value_nodes lim"
  and elements_parsed:
  "parse_elements fc lim fuel depth l s n = Some (Inr (v, r, n')) \<Longrightarrow> fits_list lim (Suc depth) l \<Longrightarrow>
     depth \<le> max_value_depth lim \<Longrightarrow> json_fits lim depth v \<and> Suc (n' + nodes_list l) = n + json_nodes v \<and> n' \<le> max_value_nodes lim"
proof (induction fc lim fuel depth s n and fc lim fuel depth m s n and fc lim fuel depth l s n
    arbitrary: v r n' and v r n' and v r n' rule: ParseValue_parse_members_parse_elements.induct)
  case (2 fc lim fuel depth s n)
  let ?q = "SkipWhitespace (tl s)"
  have ok: "depth \<le> max_value_depth lim" "Suc n \<le> max_value_nodes lim"
    using 2(3) by (auto simp: value_step_def split: if_splits)
  have members: ?case if "parse_members fc lim fuel depth [] ?q (Suc n) = Some (Inr (v, r, n'))"
    using 2(1) [OF that] ok by simp
  have elements: ?case if "parse_elements fc lim fuel depth [] ?q (Suc n) = Some (Inr (v, r, n'))"
    using 2(2) [OF that] ok by simp
  have leaf: ?case if "parse_leaf fc lim s = Inr (v, r)" "n' = Suc n" using parse_leaf_fits [OF that(1) ok(1)] ok that(2) by simp
  from 2(3) show ?case
    by (auto simp: value_step_def Let_def malformed_def finish_at_def FinishObject_def with_nodes_def
        split: if_splits sum.splits prod.splits dest: members elements leaf)
next
  case (4 fc lim fuel depth m s n)
  obtain key t where name: "parse_member_name lim s = Inr (key, t)"
    using 4(3) by (auto simp: members_step_def split: sum.splits)
  obtain w q k where val: "ParseValue fc lim fuel (Suc depth) t n = Some (Inr (w, q, k))"
    using 4(3) name by (auto simp: members_step_def split: sum.splits option.splits)
  let ?m = "map_put key w m" and ?q = "SkipWhitespace q"
  note w = 4(1) [OF val] and key = parse_member_name_fits [OF name]
  have new: "map_of m key = None" using 4(3) name val by (auto simp: members_step_def split: if_splits)
  have m: "keys_ascending ?m" "fits_map lim (Suc depth) ?m" "nodes_map ?m = json_nodes w + nodes_map m"
    using 4(4,5) w key new by (simp_all add: keys_ascending_map_put fits_map_put nodes_map_put)
  have more: ?case if "parse_members fc lim fuel depth ?m (tl ?q) k = Some (Inr (v, r, n'))"
    using 4(2) [OF that m(1,2) 4(6)] m(3) w by simp
  have fin: ?case if "FinishObject lim ?m = Inr v" "n' = k" "length ?m \<le> max_fields_per_object lim"
    using FinishObject_fits [OF that(1) m(1,2) that(3) 4(6)] that(2) m(3) w by simp
  from 4(3) show ?case using new
    by (auto simp: members_step_def name val Let_def malformed_def finish_at_def map_emplace_def
        split: if_splits sum.splits dest: more fin)
next
  case (6 fc lim fuel depth l s n)
  obtain w q k where val: "ParseValue fc lim fuel (Suc depth) (SkipWhitespace s) n = Some (Inr (w, q, k))"
    using 6(3) by (auto simp: elements_step_def split: sum.splits option.splits)
  note w = 6(1) [OF val]
  have l: "fits_list lim (Suc depth) (l @ [w])" "nodes_list (l @ [w]) = nodes_list l + json_nodes w"
    using 6(4) w by (simp_all add: fits_list_append nodes_list_append)
  have more: ?case if "parse_elements fc lim fuel depth (l @ [w]) (tl (SkipWhitespace q)) k = Some (Inr (v, r, n'))"
    using 6(2) [OF that l(1) 6(5)] l(2) w by simp
  have fin: ?case if "v = V_List (l @ [w]) \<and> n' = k" using that w l 6(5) by simp
  have "parse_elements fc lim fuel depth (l @ [w]) (tl (SkipWhitespace q)) k = Some (Inr (v, r, n')) \<or>
      v = V_List (l @ [w]) \<and> n' = k"
    using 6(3) by (auto simp: elements_step_def val Let_def malformed_def split: if_splits)
  then show ?case using more fin by blast
qed simp_all

text \<open>
  C28. The parser is total and enforces the envelope: its recursion ends on every text, and a value it
  accepts has only valid UTF-8 strings and keys within the leaf bound, 64-bit integers, members in key
  order without duplicates and within the field bound, and stays within the bounds on nesting and nodes.
\<close>

theorem json_parser_envelope:
  "Parse fc lim s \<noteq> None \<and>
   (case ParseJson fc lim s of Inl status \<Rightarrow> True
    | Inr v \<Rightarrow> json_fits lim 0 v \<and> json_nodes v \<le> max_value_nodes lim \<and> length s \<le> max_document_bytes lim)"
proof -
  have "json_fits lim 0 v \<and> json_nodes v \<le> max_value_nodes lim \<and> length s \<le> max_document_bytes lim"
    if "ParseJson fc lim s = Inr v" for v
    using that value_parsed [of fc lim "json_fuel (SkipWhitespace s)" 0 "SkipWhitespace s" 0 v]
    by (auto simp: ParseJson_def Parse_def malformed_def Let_def split: if_splits option.splits sum.splits)
  then show ?thesis using Parse_returns by (auto split: sum.splits)
qed

text \<open>
  The tag of a byte string is not reserved: a member set whose only member has the tag's name is
  written exactly like a byte string, so it is not read back as a member set.
\<close>

theorem byte_tag_not_reserved:
  "WriteCanonicalJson tc (V_Map [(kBytesMember, V_String (ToHex b))]) = WriteCanonicalJson tc (V_Bytes b)"
  using bytes_text [of tc b] unfolding WriteCanonicalJson_def by (simp del: WriteCompact.simps(7))

definition example_json :: Value where
  "example_json = V_Map [(''a'', V_List [V_Int (- 7), V_Double 0x3FF8000000000000, V_Bytes [171]]), (''b'', V_String [CHR 0x0A, QUOTE])]"


end
