(* ===== verification/NDO_Members.thy ===== *)
theory NDO_Members
  imports NDO_Values
begin

text \<open>
  The member readers every document codec shares (\<^verbatim>\<open>json_help.hpp\<close>).  A reader that can refuse returns
  a \<open>Result\<close>; \<open>bindr\<close> is the pattern "return the status unless it is Ok, else go on".
\<close>

definition bindr :: "'a Result \<Rightarrow> ('a \<Rightarrow> 'b Result) \<Rightarrow> 'b Result" where
  "bindr r f = (case r of Inl status \<Rightarrow> Inl status | Inr x \<Rightarrow> f x)"

definition guard :: "bool \<Rightarrow> Status \<Rightarrow> 'b Result \<Rightarrow> 'b Result" where
  "guard refused status k = (if refused then Inl status else k)"

lemma bindr_simps [simp]: "bindr (Inr x) f = f x" "bindr (Inl status) f = Inl status"
  by (simp_all add: bindr_def)

lemma bindr_Inr_iff: "bindr r f = Inr y \<longleftrightarrow> (\<exists>x. r = Inr x \<and> f x = Inr y)"
  by (cases r) (simp_all add: bindr_def)

lemma guard_simps [simp]: "guard False status k = k" "guard True status k = Inl status"
  by (simp_all add: guard_def)

lemma guard_Inr_iff: "guard b status k = Inr y \<longleftrightarrow> \<not> b \<and> k = Inr y"
  by (simp add: guard_def)

text \<open>The loop that refuses at the first element that fails.\<close>

fun traverse :: "('a \<Rightarrow> 'b Result) \<Rightarrow> 'a list \<Rightarrow> 'b list Result" where
  "traverse f [] = Inr []"
| "traverse f (x # xs) = bindr (f x) (\<lambda>y. bindr (traverse f xs) (\<lambda>ys. Inr (y # ys)))"

lemma traverse_map: "(\<And>x. x \<in> set xs \<Longrightarrow> f (g x) = Inr (h x)) \<Longrightarrow> traverse f (map g xs) = Inr (map h xs)"
  by (induction xs) simp_all

lemma traverse_id: "(\<And>x. x \<in> set xs \<Longrightarrow> f (g x) = Inr x) \<Longrightarrow> traverse f (map g xs) = Inr xs"
  by (induction xs) simp_all

text \<open>A C string ends at its first NUL.\<close>

definition c_str :: "string \<Rightarrow> string" where
  "c_str s = takeWhile (\<lambda>c. c \<noteq> CHR 0x00) s"

section \<open>Typed access\<close>

fun as_bool :: "Value \<Rightarrow> bool option" where
  "as_bool (V_Bool b) = Some b"
| "as_bool _ = None"

fun as_int :: "Value \<Rightarrow> int option" where
  "as_int (V_Int i) = Some i"
| "as_int _ = None"

fun as_uint :: "Value \<Rightarrow> u64 option" where
  "as_uint (V_Uint u) = Some u"
| "as_uint _ = None"

fun as_double :: "Value \<Rightarrow> u64 option" where
  "as_double (V_Double d) = Some d"
| "as_double _ = None"

fun as_string :: "Value \<Rightarrow> string option" where
  "as_string (V_String s) = Some s"
| "as_string _ = None"

fun as_list :: "Value \<Rightarrow> Value list option" where
  "as_list (V_List l) = Some l"
| "as_list _ = None"

fun as_map :: "Value \<Rightarrow> (string \<times> Value) list option" where
  "as_map (V_Map m) = Some m"
| "as_map _ = None"

type_synonym members = "(string \<times> Value) list"

section \<open>Readers\<close>

definition MemberError :: "string \<Rightarrow> string \<Rightarrow> string \<Rightarrow> Status" where
  "MemberError what member detail = Status_Rejected RC_EncodingMalformed (what @ '': '' @ member @ '': '' @ detail)"

fun CheckMembers :: "members \<Rightarrow> string list \<Rightarrow> string \<Rightarrow> unit Result" where
  "CheckMembers [] allowed what = Inr ()"
| "CheckMembers (e # m) allowed what =
     (if fst e \<notin> set allowed then Inl (MemberError what (fst e) ''unknown member'') else CheckMembers m allowed what)"

definition FindMember :: "members \<Rightarrow> string \<Rightarrow> Value option" where
  "FindMember m name = map_of m name"

definition require :: "members \<Rightarrow> string \<Rightarrow> string \<Rightarrow> (Value \<Rightarrow> 'a option) \<Rightarrow> string \<Rightarrow> 'a Result" where
  "require m name what as_kind wrong =
     (case FindMember m name of
        None \<Rightarrow> Inl (MemberError what name ''missing required member'')
      | Some v \<Rightarrow> (case as_kind v of None \<Rightarrow> Inl (MemberError what name wrong) | Some x \<Rightarrow> Inr x))"

definition RequireString :: "members \<Rightarrow> string \<Rightarrow> string \<Rightarrow> string Result" where
  "RequireString m name what = require m name what as_string ''must be a string''"

definition OptionalString :: "members \<Rightarrow> string \<Rightarrow> string option" where
  "OptionalString m name = Option.bind (FindMember m name) as_string"

definition RequireBool :: "members \<Rightarrow> string \<Rightarrow> string \<Rightarrow> bool Result" where
  "RequireBool m name what = require m name what as_bool ''must be a boolean''"

definition OptionalBool :: "members \<Rightarrow> string \<Rightarrow> bool option" where
  "OptionalBool m name = Option.bind (FindMember m name) as_bool"

text \<open>A non-negative integer of either kind; an integer of either kind that fits \<^verbatim>\<open>int64_t\<close>.\<close>

definition as_unsigned :: "Value \<Rightarrow> u64 option" where
  "as_unsigned v =
     (case as_uint v of
        Some u \<Rightarrow> Some u
      | None \<Rightarrow> (case as_int v of Some i \<Rightarrow> if i \<ge> 0 then Some (word_of_int i) else None | None \<Rightarrow> None))"

definition as_signed :: "Value \<Rightarrow> int option" where
  "as_signed v =
     (case as_int v of
        Some i \<Rightarrow> Some i
      | None \<Rightarrow> (case as_uint v of Some u \<Rightarrow> if u \<le> 9223372036854775807 then Some (uint u) else None | None \<Rightarrow> None))"

definition RequireUint :: "members \<Rightarrow> string \<Rightarrow> string \<Rightarrow> u64 Result" where
  "RequireUint m name what = require m name what as_unsigned ''must be a non-negative integer''"

definition OptionalUint :: "members \<Rightarrow> string \<Rightarrow> u64 option" where
  "OptionalUint m name = Option.bind (FindMember m name) as_unsigned"

definition OptionalInt :: "members \<Rightarrow> string \<Rightarrow> int option" where
  "OptionalInt m name = Option.bind (FindMember m name) as_signed"

datatype MemberKind = MK_Any | MK_Integer | MK_Number | MK_Boolean | MK_Text | MK_Sequence | MK_Object

fun MemberHasKind :: "Value \<Rightarrow> MemberKind \<Rightarrow> bool" where
  "MemberHasKind v MK_Any = True"
| "MemberHasKind v MK_Integer = (as_int v \<noteq> None \<or> as_uint v \<noteq> None)"
| "MemberHasKind v MK_Number = (as_int v \<noteq> None \<or> as_uint v \<noteq> None \<or> as_double v \<noteq> None)"
| "MemberHasKind v MK_Boolean = (as_bool v \<noteq> None)"
| "MemberHasKind v MK_Text = (as_string v \<noteq> None)"
| "MemberHasKind v MK_Sequence = (as_list v \<noteq> None)"
| "MemberHasKind v MK_Object = (as_map v \<noteq> None)"

fun CheckMemberKinds :: "members \<Rightarrow> (string \<times> MemberKind) list \<Rightarrow> string \<Rightarrow> unit Result" where
  "CheckMemberKinds m [] what = Inr ()"
| "CheckMemberKinds m (x # xs) what =
     (case FindMember m (fst x) of
        None \<Rightarrow> CheckMemberKinds m xs what
      | Some v \<Rightarrow>
          if \<not> MemberHasKind v (snd x) then Inl (MemberError what (fst x) ''has the wrong kind'') else CheckMemberKinds m xs what)"

definition read_optional :: "members \<Rightarrow> string \<Rightarrow> string \<Rightarrow> (Value \<Rightarrow> 'a option) \<Rightarrow> string \<Rightarrow> 'a option Result" where
  "read_optional m name what as_kind wrong =
     (case FindMember m name of
        None \<Rightarrow> Inr None
      | Some v \<Rightarrow> (case as_kind v of None \<Rightarrow> Inl (MemberError what name wrong) | Some x \<Rightarrow> Inr (Some x)))"

definition ReadOptionalUint :: "members \<Rightarrow> string \<Rightarrow> string \<Rightarrow> u64 option Result" where
  "ReadOptionalUint m name what = read_optional m name what as_unsigned ''must be a non-negative integer''"

definition ReadOptionalInt :: "members \<Rightarrow> string \<Rightarrow> string \<Rightarrow> int option Result" where
  "ReadOptionalInt m name what = read_optional m name what as_signed ''must be an integer''"

definition ReadOptionalBool :: "members \<Rightarrow> string \<Rightarrow> string \<Rightarrow> bool option Result" where
  "ReadOptionalBool m name what = read_optional m name what as_bool ''must be a boolean''"

definition ReadOptionalString :: "members \<Rightarrow> string \<Rightarrow> string \<Rightarrow> string option Result" where
  "ReadOptionalString m name what = read_optional m name what as_string ''must be a string''"

definition RequireList :: "members \<Rightarrow> string \<Rightarrow> string \<Rightarrow> Value list Result" where
  "RequireList m name what = require m name what as_list ''must be a sequence''"

definition RequireMap :: "members \<Rightarrow> string \<Rightarrow> string \<Rightarrow> members Result" where
  "RequireMap m name what = require m name what as_map ''must be an object''"

definition RequireObject :: "Value \<Rightarrow> string \<Rightarrow> members Result" where
  "RequireObject v what =
     (case as_map v of
        None \<Rightarrow> Inl (Status_Rejected RC_EncodingMalformed (what @ '': top-level value must be an object''))
      | Some m \<Rightarrow> Inr m)"

section \<open>Lemmas for round trips\<close>

text \<open>A member set built by successive \<^verbatim>\<open>emplace\<close> calls.\<close>

definition members_of :: "(string \<times> Value) list \<Rightarrow> members" where
  "members_of kvs = fold (\<lambda>(k, v). map_emplace k v) kvs []"

lemma FindMember_fold:
  "FindMember (fold (\<lambda>(k, v). map_emplace k v) kvs m) name =
     (case FindMember m name of Some v \<Rightarrow> Some v | None \<Rightarrow> map_of kvs name)"
  by (induction kvs arbitrary: m) (auto simp: FindMember_def map_of_map_emplace split: option.splits)

lemma FindMember_of [simp]: "FindMember (members_of kvs) name = map_of kvs name"
  using FindMember_fold [of kvs "[]" name] by (simp add: members_of_def FindMember_def)

lemma keys_of_fold: "fst ` set (fold (\<lambda>(k, v). map_emplace k v) kvs m) = fst ` set kvs \<union> fst ` set m"
proof (induction kvs arbitrary: m)
  case (Cons e kvs)
  have "fst ` set (map_emplace k v m) = insert k (fst ` set m)" for k v
    by (auto simp: map_emplace_def set_keys_map_put image_iff map_of_eq_None_iff split: option.split)
  with Cons show ?case by (auto simp: case_prod_beta)
qed simp

lemma CheckMembers_iff: "CheckMembers m allowed what = Inr () \<longleftrightarrow> fst ` set m \<subseteq> set allowed"
  by (induction m) auto

lemma CheckMembers_of [simp]: "fst ` set kvs \<subseteq> set allowed \<Longrightarrow> CheckMembers (members_of kvs) allowed what = Inr ()"
  by (simp add: CheckMembers_iff members_of_def keys_of_fold)

lemma members_of_ascending: "keys_ascending (members_of kvs)"
proof -
  have "keys_ascending m \<Longrightarrow> keys_ascending (fold (\<lambda>(k, v). map_emplace k v) kvs m)" for m
    by (induction kvs arbitrary: m) (auto simp: keys_ascending_map_emplace)
  then show ?thesis by (simp add: members_of_def)
qed

lemma as_unsigned_MakeUint [simp]: "as_unsigned (MakeUint u) = Some u"
  by (simp add: as_unsigned_def MakeUint_def)

lemma as_signed_Int [simp]: "as_signed (V_Int i) = Some i"
  by (simp add: as_signed_def)

lemmas reader_simps = RequireString_def RequireBool_def RequireUint_def RequireList_def RequireMap_def require_def
  OptionalString_def OptionalBool_def OptionalUint_def OptionalInt_def
  ReadOptionalUint_def ReadOptionalInt_def ReadOptionalBool_def ReadOptionalString_def read_optional_def

end
