(* ===== verification/NDO_Identity.thy ===== *)
theory NDO_Identity
  imports NDO_Text NDO_Status NDO_Hash
begin

text \<open>
  Strong identities and field paths (\<^verbatim>\<open>identity.hpp\<close>, \<^verbatim>\<open>identity.cpp\<close>).  A \<^verbatim>\<open>StringId\<close> is its text, a
  \<^verbatim>\<open>DigestId\<close> its 32 bytes and a \<^verbatim>\<open>StrongUint\<close> a 64-bit word whose zero means unset.  Field paths are
  parsed and printed; the parser is shown to accept exactly the canonical spelling of each path
  within the configured bounds.
\<close>

type_synonym TargetId = string
type_synonym ObjectId = string
type_synonym SourceId = string
type_synonym SnapshotId = string
type_synonym PolicyId = string
type_synonym SuppressionId = string
type_synonym ActorId = string
type_synonym FindingId = Digest
type_synonym GroupId = Digest
type_synonym IntentGeneration = u64
type_synonym FabricEpoch = u64
type_synonym Incarnation = u64
type_synonym SourceSequence = u64
type_synonym LedgerRevision = u64

definition uint_is_set :: "u64 \<Rightarrow> bool" where
  "uint_is_set v \<longleftrightarrow> v \<noteq> 0"

section \<open>Identity texts\<close>

definition kMaxIdentityLength :: nat where
  "kMaxIdentityLength = 256"

definition IsAlnum :: "char \<Rightarrow> bool" where
  "IsAlnum c \<longleftrightarrow>
     (let n = (of_char c :: nat) in
      97 \<le> n \<and> n \<le> 122 \<or> 65 \<le> n \<and> n \<le> 90 \<or> 48 \<le> n \<and> n \<le> 57)"

definition IsIdentitySeparator :: "char \<Rightarrow> bool" where
  "IsIdentitySeparator c \<longleftrightarrow> c \<in> set ''._-/:@#''"

definition is_control :: "char \<Rightarrow> bool" where
  "is_control c \<longleftrightarrow> (of_char c :: nat) < 0x20 \<or> (of_char c :: nat) = 0x7F"

definition BACKSLASH :: char where
  "BACKSLASH = CHR 0x5C"

text \<open>The components the traversal loop visits: the stretches between slashes.\<close>

fun components :: "string \<Rightarrow> string list" where
  "components [] = [[]]"
| "components (c # s) =
     (if c = CHR ''/'' then [] # components s
      else (c # hd (components s)) # tl (components s))"

definition IsValidIdentityText :: "string \<Rightarrow> bool" where
  "IsValidIdentityText text \<longleftrightarrow>
     \<not> (text = [] \<or> length text > kMaxIdentityLength) \<and>
     \<not> (hd text = CHR ''/'' \<or> hd text = CHR ''.'' \<or> hd text = CHR ''-'') \<and>
     \<not> (IsIdentitySeparator (last text) \<or> last text = BACKSLASH) \<and>
     list_all (\<lambda>c. \<not> is_control c \<and> c \<noteq> BACKSLASH \<and> (IsAlnum c \<or> IsIdentitySeparator c)) text \<and>
     list_all (\<lambda>component. component \<noteq> ''.'' \<and> component \<noteq> ''..'') (components text)"

definition StringId_TryParse :: "string \<Rightarrow> string option" where
  "StringId_TryParse text = (if IsValidIdentityText text then Some text else None)"

section \<open>Field paths\<close>

datatype PathSegment = PS_Key string | PS_Index u64

type_synonym FieldPath = "PathSegment list"

fun segment_less :: "PathSegment \<Rightarrow> PathSegment \<Rightarrow> bool" where
  "segment_less (PS_Key a) (PS_Key b) = (a < b)"
| "segment_less (PS_Key a) (PS_Index j) = True"
| "segment_less (PS_Index i) (PS_Key b) = False"
| "segment_less (PS_Index i) (PS_Index j) = (i < j)"

text \<open>
  The order of segments is linear, so the library's lexicographic order on lists is the source's
  three-way comparison of field paths.
\<close>

instantiation PathSegment :: linorder
begin

definition less_PathSegment :: "PathSegment \<Rightarrow> PathSegment \<Rightarrow> bool" where
  "less_PathSegment = segment_less"

definition less_eq_PathSegment :: "PathSegment \<Rightarrow> PathSegment \<Rightarrow> bool" where
  "less_eq_PathSegment a b \<longleftrightarrow> a = b \<or> segment_less a b"

instance
proof
  fix x y z :: PathSegment
  show "x < y \<longleftrightarrow> x \<le> y \<and> \<not> y \<le> x"
    by (cases x; cases y) (auto simp: less_PathSegment_def less_eq_PathSegment_def)
  show "x \<le> x" by (simp add: less_eq_PathSegment_def)
  show "x \<le> y \<Longrightarrow> y \<le> z \<Longrightarrow> x \<le> z"
    by (cases x; cases y; cases z) (auto simp: less_eq_PathSegment_def)
  show "x \<le> y \<Longrightarrow> y \<le> x \<Longrightarrow> x = y"
    by (cases x; cases y) (auto simp: less_eq_PathSegment_def)
  show "x \<le> y \<or> y \<le> x"
    by (cases x; cases y) (auto simp: less_eq_PathSegment_def)
qed

end

definition IsEscapable :: "char \<Rightarrow> bool" where
  "IsEscapable c \<longleftrightarrow> c = BACKSLASH \<or> c = CHR ''.'' \<or> c = CHR ''['' \<or> c = CHR '']''"

fun escaped_key :: "string \<Rightarrow> string" where
  "escaped_key [] = []"
| "escaped_key (c # s) = (if IsEscapable c then [BACKSLASH, c] else [c]) @ escaped_key s"

fun path_text :: "bool \<Rightarrow> FieldPath \<Rightarrow> string" where
  "path_text first [] = []"
| "path_text first (PS_Index i # rest) =
     CHR ''['' # nat_text (unat i) @ CHR '']'' # path_text False rest"
| "path_text first (PS_Key k # rest) =
     (if first then [] else ''.'') @ escaped_key k @ path_text False rest"

definition FieldPath_ToText :: "FieldPath \<Rightarrow> string" where
  "FieldPath_ToText p = path_text True p"

definition Describe :: "FieldPath \<Rightarrow> string" where
  "Describe p = (if p = [] then ''<root>'' else FieldPath_ToText p)"

fun IsPrefixOf :: "FieldPath \<Rightarrow> FieldPath \<Rightarrow> bool" where
  "IsPrefixOf [] other = True"
| "IsPrefixOf (s # p) [] = False"
| "IsPrefixOf (s # p) (t # other) = (s = t \<and> IsPrefixOf p other)"

text \<open>The digits of an index, with the overflow guard of the source.\<close>

fun index_digits :: "u64 \<Rightarrow> string \<Rightarrow> u64 option" where
  "index_digits v [] = Some v"
| "index_digits v (c # s) =
     (if \<not> is_digit c then None
      else let digit = of_nat (digit_value c)
           in if v > (- 1 - digit) div 10 then None else index_digits (v * 10 + digit) s)"

text \<open>The inner loop over a key: the unescaped key and the text at which it stopped.\<close>

fun take_key :: "string \<Rightarrow> (string \<times> string) option" where
  "take_key [] = Some ([], [])"
| "take_key (c # s) =
     (if c = BACKSLASH
      then (case s of
              [] \<Rightarrow> None
            | d # r \<Rightarrow>
                if \<not> IsEscapable d then None
                else map_option (apfst ((#) d)) (take_key r))
      else if c = CHR ''.'' \<or> c = CHR ''['' then Some ([], c # s)
      else if c = CHR '']'' then None
      else if is_control c then None
      else map_option (apfst ((#) c)) (take_key s))"

text \<open>What may follow a segment: the end, another index, or a dot and a key.\<close>

definition next_segment :: "string \<Rightarrow> string option" where
  "next_segment s =
     (case s of
        [] \<Rightarrow> Some []
      | c # r \<Rightarrow>
          if c = CHR ''['' then Some s
          else if c = CHR ''.''
          then (if r = [] \<or> hd r = CHR ''.'' \<or> hd r = CHR '']'' \<or> hd r = CHR ''['' then None else Some r)
          else None)"

lemma take_key_length: "take_key s = Some (k, r) \<Longrightarrow> length r + length k \<le> length s"
proof (induction s arbitrary: k r rule: take_key.induct)
  case (2 c s)
  show ?case
  proof (cases "c = BACKSLASH")
    case True
    then show ?thesis
      using 2 by (fastforce split: list.splits if_splits)
  next
    case False
    then show ?thesis
      using 2 by (fastforce split: if_splits)
  qed
qed auto

lemma next_segment_length: "next_segment s = Some r \<Longrightarrow> length r \<le> length s"
  by (auto simp: next_segment_def split: list.splits if_splits)

function parse_segments :: "nat \<Rightarrow> nat \<Rightarrow> nat \<Rightarrow> string \<Rightarrow> FieldPath option" where
  "parse_segments max_segments max_key_bytes n [] = Some []"
| "parse_segments max_segments max_key_bytes n (c # s) =
     (if n \<ge> max_segments then None
      else if c = CHR ''[''
      then let digits = takeWhile (\<lambda>d. d \<noteq> CHR '']'') s; close = dropWhile (\<lambda>d. d \<noteq> CHR '']'') s
           in if close = [] \<or> digits = [] then None
              else if length digits > 20 then None
              else if length digits > 1 \<and> hd digits = CHR ''0'' then None
              else case index_digits 0 digits of
                     None \<Rightarrow> None
                   | Some v \<Rightarrow>
                       (case next_segment (tl close) of
                          None \<Rightarrow> None
                        | Some rest \<Rightarrow>
                            map_option ((#) (PS_Index v))
                              (parse_segments max_segments max_key_bytes (Suc n) rest))
      else case take_key (c # s) of
             None \<Rightarrow> None
           | Some (key, after) \<Rightarrow>
               if key = [] \<or> length key > max_key_bytes then None
               else case next_segment after of
                      None \<Rightarrow> None
                    | Some rest \<Rightarrow>
                        map_option ((#) (PS_Key key))
                          (parse_segments max_segments max_key_bytes (Suc n) rest))"
  by pat_completeness auto
termination
proof (relation "measure (\<lambda>(a, b, n, s). length s)", goal_cases)
  case 1
  show ?case by simp
next
  case (2 ms mk n c s digits close v rest)
  then have "length (tl close) \<le> length s"
    by (metis diff_le_self le_trans length_dropWhile_le length_tl)
  then show ?case using next_segment_length [OF 2(9)] 2 by simp
next
  case (3 ms mk n c s p key after rest)
  then show ?case
    using take_key_length [of "c # s" key after] next_segment_length [of after rest]
    by (cases key) auto
qed

definition FieldPath_TryParse :: "string \<Rightarrow> nat \<Rightarrow> nat \<Rightarrow> FieldPath option" where
  "FieldPath_TryParse text max_segments max_key_bytes =
     (if text = [] then Some []
      else if length text > max_segments * (max_key_bytes + 4) mod 2 ^ 64 then None
      else parse_segments max_segments max_key_bytes 0 text)"

definition FieldPath_Child :: "FieldPath \<Rightarrow> PathSegment \<Rightarrow> FieldPath" where
  "FieldPath_Child p s = p @ [s]"

section \<open>Canonical spelling of field paths\<close>

fun segment_within :: "nat \<Rightarrow> PathSegment \<Rightarrow> bool" where
  "segment_within max_key_bytes (PS_Index i) = True"
| "segment_within max_key_bytes (PS_Key k) =
     (k \<noteq> [] \<and> length k \<le> max_key_bytes \<and> list_all (\<lambda>c. \<not> is_control c) k)"

definition path_within :: "nat \<Rightarrow> nat \<Rightarrow> FieldPath \<Rightarrow> bool" where
  "path_within max_segments max_key_bytes p \<longleftrightarrow>
     length p \<le> max_segments \<and> list_all (segment_within max_key_bytes) p"

lemma index_guard:
  fixes v :: u64
  assumes "d < 10"
  shows "v > (- 1 - of_nat d) div 10 \<longleftrightarrow> 2 ^ 64 \<le> unat v * 10 + d"
proof -
  have d: "unat (of_nat d :: u64) = d" using assms by (intro unat_of_nat_small) simp
  have "v > (- 1 - of_nat d) div 10 \<longleftrightarrow> (2 ^ 64 - 1 - d) div 10 < unat v"
    by (simp add: word_less_nat_alt unat_div unat_max_minus d)
  also have "\<dots> \<longleftrightarrow> 2 ^ 64 - 1 - d < unat v * 10"
    by (simp add: div_less_iff_less_mult)
  also have "\<dots> \<longleftrightarrow> 2 ^ 64 \<le> unat v * 10 + d" using assms by auto
  finally show ?thesis .
qed

lemma index_digits_iff:
  "index_digits v s = Some w \<longleftrightarrow>
     list_all is_digit s \<and> unat v * 10 ^ length s + text_nat s < 2 ^ 64 \<and>
     unat w = unat v * 10 ^ length s + text_nat s"
proof (induction s arbitrary: v)
  case Nil
  show ?case using unat_lt2p [of v] by (auto simp: word_unat_eq_iff)
next
  case (Cons c s)
  show ?case
  proof (cases "is_digit c")
    case True
    define d where "d = digit_value c"
    have d: "d < 10" using True by (simp add: d_def digit_value_less)
    have du: "unat (of_nat d :: u64) = d" using d by (intro unat_of_nat_small) simp
    have val: "text_nat (c # s) = d * 10 ^ length s + text_nat s"
      using text_nat_append [of "[c]" s] text_nat_snoc [of "[]" c] by (simp add: d_def)
    then have read: "unat v * 10 ^ length (c # s) + text_nat (c # s)
        = (unat v * 10 + d) * 10 ^ length s + text_nat s"
      by (simp add: algebra_simps)
    show ?thesis
    proof (cases "2 ^ 64 \<le> unat v * 10 + d")
      case over: True
      have "(2::nat) ^ 64 \<le> (unat v * 10 + d) * 10 ^ length s"
        using over by (metis le_trans mult.right_neutral mult_le_mono2 one_le_numeral one_le_power)
      then have big: "\<not> unat v * 10 ^ length (c # s) + text_nat (c # s) < 2 ^ 64"
        unfolding read by linarith
      have "index_digits v (c # s) = None"
        using True over index_guard [OF d, of v] by (simp flip: d_def)
      then show ?thesis using big by auto
    next
      case False
      then have "unat (v * 10 + of_nat d) = unat v * 10 + d"
        by (simp add: unat_word_ariths du)
      then show ?thesis
        using True False index_guard [OF d, of v] Cons [of "v * 10 + of_nat d"]
        by (simp add: val Let_def algebra_simps flip: d_def)
    qed
  qed simp
qed

lemma index_digits_canonical:
  "is_numeral s \<and> index_digits 0 s = Some w \<longleftrightarrow> s = nat_text (unat w)"
proof
  assume "is_numeral s \<and> index_digits 0 s = Some w"
  then show "s = nat_text (unat w)" by (simp add: index_digits_iff nat_text_text_nat)
next
  assume "s = nat_text (unat w)"
  then show "is_numeral s \<and> index_digits 0 s = Some w"
    using unat_lt2p [of w] by (simp add: index_digits_iff is_numeral_nat_text nat_text_digits)
qed

abbreviation key_stop :: "string \<Rightarrow> bool" where
  "key_stop r \<equiv> r = [] \<or> hd r = CHR ''.'' \<or> hd r = CHR ''[''"

lemma control_not_escapable: "IsEscapable c \<Longrightarrow> \<not> is_control c"
  by (auto simp: IsEscapable_def is_control_def BACKSLASH_def)

lemma take_key_escaped:
  "list_all (\<lambda>c. \<not> is_control c) k \<Longrightarrow> key_stop r \<Longrightarrow> take_key (escaped_key k @ r) = Some (k, r)"
proof (induction k)
  case Nil
  then show ?case by (cases r) (auto simp: BACKSLASH_def)
next
  case (Cons c k)
  then show ?case by (auto simp: IsEscapable_def)
qed

lemma take_key_sound:
  "take_key s = Some (k, r) \<Longrightarrow>
     s = escaped_key k @ r \<and> list_all (\<lambda>c. \<not> is_control c) k \<and> key_stop r"
proof (induction s arbitrary: k r rule: take_key.induct)
  case (2 c s)
  show ?case
  proof (cases "c = BACKSLASH")
    case True
    then show ?thesis
      using 2 by (fastforce split: list.splits if_splits dest: control_not_escapable)
  next
    case False
    then show ?thesis
      using 2 by (fastforce simp: IsEscapable_def split: if_splits)
  qed
qed auto

lemma escaped_key_head:
  "k \<noteq> [] \<Longrightarrow> escaped_key k \<noteq> [] \<and> hd (escaped_key k @ r) \<notin> {CHR ''.'', CHR ''['', CHR '']''}"
  by (cases k) (auto simp: IsEscapable_def BACKSLASH_def)

lemma path_text_after: "key_stop (path_text False p)"
  by (cases "(False, p)" rule: path_text.cases) auto

lemma next_segment_text:
  "list_all (segment_within mk) p \<Longrightarrow> next_segment (path_text False p) = Some (path_text True p)"
proof (cases "(False, p)" rule: path_text.cases)
  case (3 first k rest)
  then show "list_all (segment_within mk) p \<Longrightarrow> ?thesis"
    using escaped_key_head [of k "path_text False rest"] by (auto simp: next_segment_def)
qed (auto simp: next_segment_def)

lemma next_segment_sound:
  assumes "next_segment s = Some (path_text True p)" and "list_all (segment_within mk) p"
  shows "s = path_text False p"
proof (cases "(False, p)" rule: path_text.cases)
  case (3 first k rest)
  then show ?thesis
    using assms escaped_key_head [of k "path_text False rest"]
    by (cases "escaped_key k") (auto simp: next_segment_def split: list.splits if_splits)
qed (use assms in \<open>auto simp: next_segment_def split: list.splits if_splits\<close>)

lemma parse_segments_complete:
  "list_all (segment_within mk) p \<Longrightarrow> n + length p \<le> ms \<Longrightarrow>
     parse_segments ms mk n (path_text True p) = Some p"
proof (induction p arbitrary: n)
  case Nil
  show ?case by simp
next
  case (Cons seg p)
  have ih: "parse_segments ms mk (Suc n) (path_text True p) = Some p"
    using Cons by simp
  have step: "next_segment (path_text False p) = Some (path_text True p)"
    using Cons.prems by (intro next_segment_text [of mk]) simp
  show ?case
  proof (cases seg)
    case (PS_Index i)
    have digits: "CHR '']'' \<notin> set (nat_text (unat i))"
      using nat_text_digits [of "unat i"] by (auto simp: list_all_iff is_digit_def)
    have parts: "takeWhile (\<lambda>d. d \<noteq> CHR '']'') (nat_text (unat i) @ CHR '']'' # r) = nat_text (unat i)"
      "dropWhile (\<lambda>d. d \<noteq> CHR '']'') (nat_text (unat i) @ CHR '']'' # r) = CHR '']'' # r" for r
      using digits by (auto simp: takeWhile_tail dropWhile_append3)
    have "length (nat_text (unat i)) \<le> 20"
      using unat_lt2p [of i] by (intro nat_text_length_le) auto
    then show ?thesis
      using PS_Index Cons.prems ih step is_numeral_nat_text [of "unat i"]
        index_digits_canonical [of "nat_text (unat i)" i]
      by (auto simp: parts is_numeral_def)
  next
    case (PS_Key k)
    then obtain c s where esc: "escaped_key k @ path_text False p = c # s"
      using Cons.prems escaped_key_head [of k] by (cases "escaped_key k") auto
    have "take_key (c # s) = Some (k, path_text False p)"
      using PS_Key Cons.prems path_text_after [of p] take_key_escaped [of k "path_text False p"] esc
      by simp
    moreover have "c \<noteq> CHR ''[''"
      using PS_Key Cons.prems escaped_key_head [of k "path_text False p"] esc by auto
    ultimately show ?thesis
      using PS_Key Cons.prems ih step esc by (simp del: take_key.simps)
  qed
qed

lemma parse_segments_sound:
  "parse_segments ms mk n s = Some p \<Longrightarrow>
     s = path_text True p \<and> list_all (segment_within mk) p \<and> (p = [] \<or> n + length p \<le> ms)"
proof (induction ms mk n s arbitrary: p rule: parse_segments.induct)
  case (2 ms mk n c s)
  show ?case
  proof (cases "c = CHR ''[''")
    case True
    define digits where "digits = takeWhile (\<lambda>d. d \<noteq> CHR '']'') s"
    define close where "close = dropWhile (\<lambda>d. d \<noteq> CHR '']'') s"
    from 2(3) True obtain v rest q where
      ok: "n < ms" "close \<noteq> []" "digits \<noteq> []" "\<not> (length digits > 1 \<and> hd digits = CHR ''0'')"
        "index_digits 0 digits = Some v" "next_segment (tl close) = Some rest"
        "parse_segments ms mk (Suc n) rest = Some q" "p = PS_Index v # q" "length digits \<le> 20"
      by (auto simp: Let_def digits_def close_def split: if_splits option.splits)
    have ih: "rest = path_text True q \<and> list_all (segment_within mk) q \<and> (q = [] \<or> Suc n + length q \<le> ms)"
      by (rule 2(1)) (use ok True in \<open>auto simp: digits_def close_def\<close>)
    have "is_numeral digits" using ok by (auto simp: is_numeral_def index_digits_iff)
    then have "digits = nat_text (unat v)"
      using ok index_digits_canonical [of digits v] by simp
    moreover have "hd close = CHR '']''"
      using ok(2) hd_dropWhile [of "\<lambda>d. d \<noteq> CHR '']''" s] by (auto simp: close_def)
    moreover have "s = digits @ close" by (simp add: digits_def close_def)
    moreover have "tl close = path_text False q"
      using ok ih next_segment_sound [of "tl close" q mk] by simp
    ultimately show ?thesis using ok ih True by (cases close) auto
  next
    case False
    from 2(3) False obtain k after rest q where
      ok: "n < ms" "take_key (c # s) = Some (k, after)" "k \<noteq> []" "length k \<le> mk"
        "next_segment after = Some rest" "parse_segments ms mk (Suc n) rest = Some q" "p = PS_Key k # q"
      by (auto simp del: take_key.simps split: if_splits option.splits)
    have ih: "rest = path_text True q \<and> list_all (segment_within mk) q \<and> (q = [] \<or> Suc n + length q \<le> ms)"
      by (rule 2(2)) (use ok False in \<open>auto simp del: take_key.simps\<close>)
    then have "after = path_text False q" using ok next_segment_sound [of after q mk] by simp
    then show ?thesis using ok ih take_key_sound [OF ok(2)] by auto
  qed
qed auto

lemma FieldPath_TryParse_iff:
  "FieldPath_TryParse t ms mk = Some p \<longleftrightarrow>
     FieldPath_ToText p = t \<and> path_within ms mk p \<and>
     length t \<le> (if p = [] then 0 else ms * (mk + 4) mod 2 ^ 64)"
proof (cases "t = []")
  case True
  have "FieldPath_ToText p = [] \<and> path_within ms mk p \<longleftrightarrow> p = []"
    using escaped_key_head
    by (cases "(True, p)" rule: path_text.cases) (auto simp: FieldPath_ToText_def path_within_def)
  with True show ?thesis by (auto simp: FieldPath_TryParse_def)
next
  case False
  then have "p \<noteq> []" if "FieldPath_ToText p = t" using that by (auto simp: FieldPath_ToText_def)
  with False show ?thesis
    using parse_segments_sound [of ms mk 0 t p] parse_segments_complete [of mk p 0 ms]
    by (auto simp: FieldPath_TryParse_def FieldPath_ToText_def path_within_def split: if_splits)
qed

text \<open>
  One path, one spelling: the parser accepts exactly the texts the printer produces for paths
  whose segment count and key lengths are within the bounds (and whose text fits the length guard),
  and returns the path that was printed.  So parsing after printing and printing after parsing are
  both the identity, and no second spelling of a path is ever accepted.
\<close>

theorem field_path_parse_iff:
  "FieldPath_TryParse t ms mk = Some p \<longleftrightarrow>
     FieldPath_ToText p = t \<and> path_within ms mk p \<and>
     length t \<le> (if p = [] then 0 else ms * (mk + 4) mod 2 ^ 64)"
  by (rule FieldPath_TryParse_iff)

end
