(* ===== verification/NDO_Time.thy ===== *)
theory NDO_Time
  imports NDO_Text NDO_Status
begin

text \<open>
  Observation time (\<^verbatim>\<open>time.hpp\<close>, \<^verbatim>\<open>time.cpp\<close>): an instant is a signed 64-bit count of nanoseconds
  since 1970, zero meaning unset.  The calendar conversions are shown to be inverse for every day, and
  printing followed by parsing to be the identity for every instant from 1970 on; the theory also
  records what the printer does before 1970.
\<close>

type_synonym NdoTime = int

definition time_is_set :: "NdoTime \<Rightarrow> bool" where
  "time_is_set t \<longleftrightarrow> t \<noteq> 0"

definition kNanosPerSecond :: int where
  "kNanosPerSecond = 1000000000"

definition kSecondsPerDay :: int where
  "kSecondsPerDay = 86400"

text \<open>
  The intermediate quantities of the calendar functions that the source keeps in \<^verbatim>\<open>unsigned\<close> never
  leave \<open>0 \<dots> 146096\<close>, so they are integers here; divisions are C++ divisions.
\<close>

definition DaysFromCivil :: "int \<Rightarrow> int \<Rightarrow> int \<Rightarrow> int" where
  "DaysFromCivil year0 month day =
     (let year = year0 - (if month \<le> 2 then 1 else 0);
          era = cdiv (if year \<ge> 0 then year else year - 399) 400;
          year_of_era = year - era * 400;
          adjusted_month = (if month > 2 then month - 3 else month + 9);
          day_of_year = (153 * adjusted_month + 2) div 5 + day - 1;
          day_of_era = year_of_era * 365 + year_of_era div 4 - year_of_era div 100 + day_of_year
      in era * 146097 + day_of_era - 719468)"

definition CivilFromDays :: "int \<Rightarrow> int \<times> int \<times> int" where
  "CivilFromDays days0 =
     (let days = days0 + 719468;
          era = cdiv (if days \<ge> 0 then days else days - 146096) 146097;
          day_of_era = days - era * 146097;
          year_of_era = (day_of_era - day_of_era div 1460 + day_of_era div 36524 - day_of_era div 146096) div 365;
          year = year_of_era + era * 400;
          day_of_year = day_of_era - (365 * year_of_era + year_of_era div 4 - year_of_era div 100);
          mp = (5 * day_of_year + 2) div 153;
          day = day_of_year - (153 * mp + 2) div 5 + 1;
          month = (if mp < 10 then mp + 3 else mp - 9)
      in (year + (if month \<le> 2 then 1 else 0), month, day))"

definition ParseDigits :: "string \<Rightarrow> nat \<Rightarrow> nat \<Rightarrow> int option" where
  "ParseDigits text offset n =
     (if offset + n > length text then None
      else let digits = take n (drop offset text)
           in if list_all is_digit digits then Some (int (text_nat digits)) else None)"

text \<open>The conversions \<^verbatim>\<open>%04lld\<close>, \<^verbatim>\<open>%02u\<close>, \<^verbatim>\<open>%02d\<close> and \<^verbatim>\<open>%09lld\<close> on a non-negative argument.\<close>

definition zero_padded :: "nat \<Rightarrow> int \<Rightarrow> string" where
  "zero_padded width n = (let s = int_text n in replicate (width - length s) CHR ''0'' @ s)"

definition FormatTime :: "NdoTime \<Rightarrow> string" where
  "FormatTime nanos =
     (let seconds0 = cdiv nanos kNanosPerSecond;
          fraction0 = cmod nanos kNanosPerSecond;
          (fraction, seconds) =
            (if fraction0 < 0 then (fraction0 + kNanosPerSecond, seconds0 - 1) else (fraction0, seconds0));
          days = cdiv seconds kSecondsPerDay;
          remainder0 = cmod seconds kSecondsPerDay;
          remainder = (if remainder0 < 0 then remainder0 + kSecondsPerDay else remainder0);
          (year, month, day) = CivilFromDays days;
          hour = remainder div 3600;
          minute = remainder mod 3600 div 60;
          second = remainder mod 60
      in zero_padded 4 year @ ''-'' @ zero_padded 2 month @ ''-'' @ zero_padded 2 day @ ''T'' @
         zero_padded 2 hour @ '':'' @ zero_padded 2 minute @ '':'' @ zero_padded 2 second @ ''.'' @
         zero_padded 9 fraction @ ''Z'')"

text \<open>The optional fraction: the nanoseconds and the position after it.\<close>

definition parse_fraction :: "string \<Rightarrow> (int \<times> nat) option" where
  "parse_fraction text =
     (if 19 < length text \<and> text ! 19 = CHR ''.''
      then let start = 20;
               digits = length (takeWhile is_digit (drop start text))
           in if digits = 0 \<or> digits > 9 then None
              else (case ParseDigits text start digits of
                      None \<Rightarrow> None
                    | Some raw \<Rightarrow> Some (raw * 10 ^ (9 - digits), start + digits))
      else Some (0, 19))"

definition TryParseTime :: "string \<Rightarrow> NdoTime option" where
  "TryParseTime text =
     (if length text < 20 then None
      else if text ! 4 \<noteq> CHR ''-'' \<or> text ! 7 \<noteq> CHR ''-'' \<or> text ! 10 \<noteq> CHR ''T'' \<or>
              text ! 13 \<noteq> CHR '':'' \<or> text ! 16 \<noteq> CHR '':'' then None
      else if last text \<noteq> CHR ''Z'' then None
      else case (ParseDigits text 0 4, ParseDigits text 5 2, ParseDigits text 8 2,
                 ParseDigits text 11 2, ParseDigits text 14 2, ParseDigits text 17 2) of
        (Some year, Some month, Some day, Some hour, Some minute, Some second) \<Rightarrow>
          if month < 1 \<or> month > 12 \<or> day < 1 \<or> day > 31 \<or> hour > 23 \<or> minute > 59 \<or> second > 60 then None
          else (case parse_fraction text of
                  None \<Rightarrow> None
                | Some (fraction, position) \<Rightarrow>
                    if position \<noteq> length text - 1 then None
                    else
                      let days = DaysFromCivil year month day;
                          seconds = days * kSecondsPerDay + hour * 3600 + minute * 60 + second
                      in if seconds > cdiv (INT64_MAX - fraction) kNanosPerSecond \<or>
                            seconds < cdiv (INT64_MIN + fraction) kNanosPerSecond then None
                         else Some (seconds * kNanosPerSecond + fraction))
      | _ \<Rightarrow> None)"

definition TryDifference :: "NdoTime \<Rightarrow> NdoTime \<Rightarrow> int option" where
  "TryDifference later earlier = CheckedSubSigned later earlier"

section \<open>The calendar\<close>

lemma cdiv_floor_shift:
  assumes "0 < k" and "j = k - 1"
  shows "cdiv (if x \<ge> 0 then x else x - j) k = x div k"
proof (cases "x \<ge> 0")
  case True
  then show ?thesis using assms by (simp add: cdiv_nonneg)
next
  case False
  have "k - 1 - x = (k - 1 - x mod k) + k * (- (x div k))"
    by (simp add: minus_mult_div_eq_mod [symmetric])
  then have "(k - 1 - x) div k = (k - 1 - x mod k) div k - x div k"
    using assms by (metis add_uminus_conv_diff add.commute div_mult_self2 less_irrefl)
  moreover have "(k - 1 - x mod k) div k = 0"
    using assms pos_mod_bound [of k x] pos_mod_sign [of k x] by (intro div_pos_pos_trivial) linarith+
  ultimately have "(k - 1 - x) div k = - (x div k)" by simp
  moreover have "\<bar>x - (k - 1)\<bar> = k - 1 - x" and "sgn (x - (k - 1)) = - 1"
    using False assms(1) by simp_all
  ultimately show ?thesis using False assms by (simp add: cdiv_def)
qed

definition year_start :: "int \<Rightarrow> int" where
  "year_start y = 365 * y + y div 4 - y div 100"

definition year_number :: "int \<Rightarrow> int" where
  "year_number e = e - e div 1460 + e div 36524 - e div 146096"

text \<open>The era's day count at which a year ends; the last year of an era has its leap day.\<close>

definition year_end :: "int \<Rightarrow> int" where
  "year_end y = (if y = 399 then 146097 else year_start (y + 1))"

lemma minus_div_mono:
  fixes a b k :: int
  assumes "a \<le> b" and "1 \<le> k"
  shows "a - a div k \<le> b - b div k"
proof -
  have "b = a + (b - a)" by simp
  also have "\<dots> \<le> a + (b - a) * k"
    using assms mult_left_mono [of 1 k "b - a"] by simp
  finally have "b div k \<le> (a + (b - a) * k) div k" using assms by (intro zdiv_mono1) auto
  then show ?thesis using assms by simp
qed

lemma year_number_mono:
  assumes "a \<le> b"
  shows "year_number a \<le> year_number b"
proof -
  have split: "e div 146096 = (e div 36524) div 4" for e :: int
    by (simp add: div_mult2_eq [symmetric] zdiv_zmult2_eq [symmetric])
  have "a div 36524 \<le> b div 36524" using assms by (rule zdiv_mono1) simp
  then have "a div 36524 - a div 36524 div 4 \<le> b div 36524 - b div 36524 div 4"
    by (rule minus_div_mono) simp
  moreover have "a - a div 1460 \<le> b - b div 1460" using assms by (rule minus_div_mono) simp
  ultimately show ?thesis by (simp add: year_number_def split)
qed

lemma year_table:
  "list_all (\<lambda>y. year_number (year_start y) div 365 = y \<and> year_number (year_end y - 1) div 365 = y
     \<and> year_start y < year_end y \<and> year_end y - year_start y \<le> 366) [0..399]"
  by code_simp

lemma day_in_some_year:
  assumes "0 \<le> e" and "e < 146097"
  shows "\<exists>y. 0 \<le> y \<and> y \<le> 399 \<and> year_start y \<le> e \<and> e < year_end y"
proof -
  have upto: "\<exists>y. 0 \<le> y \<and> y \<le> int n \<and> year_start y \<le> e \<and> e < year_end y"
    if "e < year_end (int n)" "int n \<le> 399" for n
    using that
  proof (induction n)
    case 0
    then show ?case using assms(1) by (intro exI [of _ 0]) (simp add: year_start_def)
  next
    case (Suc n)
    show ?case
    proof (cases "year_start (int (Suc n)) \<le> e")
      case True
      then show ?thesis using Suc.prems by (intro exI [of _ "int (Suc n)"]) auto
    next
      case False
      then have "e < year_end (int n)" using Suc.prems by (simp add: year_end_def add.commute)
      then obtain y where "0 \<le> y \<and> y \<le> int n \<and> year_start y \<le> e \<and> e < year_end y"
        using Suc by auto
      then show ?thesis by (intro exI [of _ y]) auto
    qed
  qed
  show ?thesis using upto [of 399] assms(2) by (simp add: year_end_def)
qed

lemma year_of_day:
  assumes "0 \<le> e" and "e < 146097"
  defines "y \<equiv> year_number e div 365"
  shows "0 \<le> y \<and> y \<le> 399 \<and> 0 \<le> e - year_start y \<and> e - year_start y \<le> 365"
proof -
  obtain z where z: "0 \<le> z" "z \<le> 399" "year_start z \<le> e" "e < year_end z"
    using day_in_some_year [OF assms(1,2)] by blast
  then have t: "year_number (year_start z) div 365 = z" "year_number (year_end z - 1) div 365 = z"
    "year_end z - year_start z \<le> 366"
    using year_table by (auto simp: list_all_iff)
  have "year_number (year_start z) div 365 \<le> y"
    unfolding y_def using z by (intro zdiv_mono1 year_number_mono) auto
  moreover have "y \<le> year_number (year_end z - 1) div 365"
    unfolding y_def using z by (intro zdiv_mono1 year_number_mono) auto
  ultimately have "y = z" using t by simp
  then show ?thesis using z t(3) by auto
qed

lemma month_of_day:
  fixes d :: int
  assumes "0 \<le> d" and "d \<le> 365"
  defines "mp \<equiv> (5 * d + 2) div 153"
  shows "0 \<le> mp \<and> mp \<le> 11 \<and> 1 \<le> d - (153 * mp + 2) div 5 + 1 \<and> d - (153 * mp + 2) div 5 + 1 \<le> 31"
proof -
  have "list_all (\<lambda>d::int. let mp = (5 * d + 2) div 153 in 0 \<le> mp \<and> mp \<le> 11 \<and>
      1 \<le> d - (153 * mp + 2) div 5 + 1 \<and> d - (153 * mp + 2) div 5 + 1 \<le> 31) [0..365]"
    by code_simp
  then show ?thesis using assms by (auto simp: list_all_iff Let_def)
qed

lemma civil_parts:
  assumes "CivilFromDays n = (year, month, day)"
  shows "1 \<le> month \<and> month \<le> 12 \<and> 1 \<le> day \<and> day \<le> 31"
    and "DaysFromCivil year month day = n"
    and "(n + 719468) div 146097 * 400 \<le> year" and "year \<le> (n + 719468) div 146097 * 400 + 400"
proof -
  define N where "N = n + 719468"
  define era where "era = N div 146097"
  define doe where "doe = N mod 146097"
  define yoe where "yoe = year_number doe div 365"
  define doy where "doy = doe - year_start yoe"
  define mp where "mp = (5 * doy + 2) div 153"
  have era: "cdiv (if N \<ge> 0 then N else N - 146096) 146097 = era"
    unfolding era_def by (rule cdiv_floor_shift) simp_all
  have doe: "N - era * 146097 = doe" by (simp add: era_def doe_def minus_div_mult_eq_mod)
  have y: "0 \<le> yoe" "yoe \<le> 399" "0 \<le> doy" "doy \<le> 365"
    using year_of_day [of doe] by (simp_all add: doe_def yoe_def doy_def)
  have m: "0 \<le> mp" "mp \<le> 11" "1 \<le> doy - (153 * mp + 2) div 5 + 1" "doy - (153 * mp + 2) div 5 + 1 \<le> 31"
    using month_of_day [OF y(3,4)] by (simp_all add: mp_def)
  have out: "month = (if mp < 10 then mp + 3 else mp - 9)" "day = doy - (153 * mp + 2) div 5 + 1"
    "year = yoe + era * 400 + (if month \<le> 2 then 1 else 0)"
    using assms unfolding CivilFromDays_def Let_def N_def [symmetric] era doe
    by (auto simp: yoe_def [symmetric] year_number_def [symmetric] doy_def [symmetric]
        year_start_def [symmetric] mp_def [symmetric])
  show "1 \<le> month \<and> month \<le> 12 \<and> 1 \<le> day \<and> day \<le> 31" using out m by auto
  show "(n + 719468) div 146097 * 400 \<le> year" and "year \<le> (n + 719468) div 146097 * 400 + 400"
    using out y by (auto simp: era_def N_def)
  have Y: "year - (if month \<le> 2 then 1 else 0) = yoe + era * 400" using out by simp
  have adj: "(if month > 2 then month - 3 else month + 9) = mp" using out m by auto
  have era': "cdiv (if yoe + era * 400 \<ge> 0 then yoe + era * 400 else yoe + era * 400 - 399) 400 = era"
    using cdiv_floor_shift [of 400 399 "yoe + era * 400"] y by simp
  show "DaysFromCivil year month day = n"
    unfolding DaysFromCivil_def Let_def Y adj era'
    using out(2) doe by (simp add: doy_def year_start_def N_def)
qed

text \<open>
  The calendar conversions are inverse on every day number: the civil date computed for a day
  has a month in 1 to 12 and a day in 1 to 31, and converts back to that day.
\<close>

theorem civil_date_roundtrip:
  "case CivilFromDays n of (year, month, day) \<Rightarrow>
     1 \<le> month \<and> month \<le> 12 \<and> 1 \<le> day \<and> day \<le> 31 \<and> DaysFromCivil year month day = n"
  using civil_parts by (auto split: prod.splits)

section \<open>Printing and parsing\<close>

lemma int_text_nonneg: "0 \<le> n \<Longrightarrow> int_text n = nat_text (nat n)"
  by (simp add: int_text_def)

lemma text_nat_zeros: "text_nat (replicate k CHR ''0'' @ s) = text_nat s"
proof -
  have "text_nat (replicate k CHR ''0'') = 0"
  proof (induction k)
    case (Suc k)
    have "text_nat [CHR ''0''] = 0" using text_nat_snoc [of "[]"] by (simp add: digit_value_def)
    then show ?case using Suc text_nat_append [of "[CHR ''0'']" "replicate k CHR ''0''"] by simp
  qed simp
  then show ?thesis by (simp add: text_nat_append)
qed

lemma zero_padded_reads:
  assumes "0 \<le> n" and "n < 10 ^ w" and "0 < w"
  shows "length (zero_padded w n) = w" and "list_all is_digit (zero_padded w n)"
    and "int (text_nat (zero_padded w n)) = n"
proof -
  have "nat n < 10 ^ w" using assms by (simp add: nat_less_iff)
  then have "length (nat_text (nat n)) \<le> w" using assms(3) by (rule nat_text_length_le)
  then show "length (zero_padded w n) = w" using assms(1) by (simp add: zero_padded_def Let_def int_text_nonneg)
  show "list_all is_digit (zero_padded w n)"
    using assms(1) nat_text_digits [of "nat n"]
    by (auto simp: zero_padded_def Let_def int_text_nonneg list_all_iff is_digit_def)
  show "int (text_nat (zero_padded w n)) = n"
    using assms(1) by (simp add: zero_padded_def Let_def int_text_nonneg text_nat_zeros)
qed

lemma take_drop_field:
  "length a = i \<Longrightarrow> length f = n \<Longrightarrow> take n (drop i (a @ f @ b)) = f"
  by simp

lemma ParseDigits_field:
  assumes "length a = i" and "0 \<le> v" and "v < 10 ^ n" and "0 < n"
  shows "ParseDigits (a @ zero_padded n v @ b) i n = Some v"
  using assms zero_padded_reads [OF assms(2-4)] by (simp add: ParseDigits_def take_drop_field)

text \<open>The calendar fields of an instant from 1970 on, as the printer computes them.\<close>

lemma FormatTime_fields:
  assumes "0 \<le> t" and "t \<le> INT64_MAX"
  obtains year month day hour minute second fraction where
    "FormatTime t = zero_padded 4 year @ ''-'' @ zero_padded 2 month @ ''-'' @ zero_padded 2 day @ ''T'' @
       zero_padded 2 hour @ '':'' @ zero_padded 2 minute @ '':'' @ zero_padded 2 second @ ''.'' @
       zero_padded 9 fraction @ ''Z''"
    and "0 \<le> year" and "year < 10 ^ 4" and "1 \<le> month" and "month \<le> 12" and "1 \<le> day" and "day \<le> 31"
    and "0 \<le> hour" and "hour \<le> 23" and "0 \<le> minute" and "minute \<le> 59" and "0 \<le> second" and "second \<le> 59"
    and "0 \<le> fraction" and "fraction < 10 ^ 9"
    and "(DaysFromCivil year month day * kSecondsPerDay + hour * 3600 + minute * 60 + second) * kNanosPerSecond
           + fraction = t"
proof -
  define seconds where "seconds = t div kNanosPerSecond"
  define fraction where "fraction = t mod kNanosPerSecond"
  define n where "n = seconds div kSecondsPerDay"
  define r where "r = seconds mod kSecondsPerDay"
  obtain year month day where civil: "CivilFromDays n = (year, month, day)"
    by (cases "CivilFromDays n") auto
  have pos: "0 < kNanosPerSecond" "0 < kSecondsPerDay" by (simp_all add: kNanosPerSecond_def kSecondsPerDay_def)
  have s: "0 \<le> seconds" using assms pos by (simp add: seconds_def pos_imp_zdiv_nonneg_iff)
  have n: "0 \<le> n" using s pos by (simp add: n_def pos_imp_zdiv_nonneg_iff)
  have "seconds \<le> INT64_MAX div kNanosPerSecond"
    unfolding seconds_def using assms pos by (intro zdiv_mono1) auto
  then have "n \<le> (INT64_MAX div kNanosPerSecond) div kSecondsPerDay"
    unfolding n_def using pos by (intro zdiv_mono1) auto
  then have nmax: "n \<le> 106751" by (simp add: kNanosPerSecond_def kSecondsPerDay_def)
  have f: "0 \<le> fraction" "fraction < 10 ^ 9"
    unfolding fraction_def kNanosPerSecond_def by simp_all
  have r: "0 \<le> r" "r < 86400"
    unfolding r_def kSecondsPerDay_def by simp_all
  have shape: "FormatTime t = zero_padded 4 year @ ''-'' @ zero_padded 2 month @ ''-'' @ zero_padded 2 day @ ''T'' @
       zero_padded 2 (r div 3600) @ '':'' @ zero_padded 2 (r mod 3600 div 60) @ '':'' @
       zero_padded 2 (r mod 60) @ ''.'' @ zero_padded 9 fraction @ ''Z''"
    using assms pos s r(1) f(1) civil unfolding FormatTime_def Let_def
    by (simp add: cdiv_nonneg cmod_nonneg flip: seconds_def fraction_def n_def r_def)
  have era: "4 \<le> (n + 719468) div 146097" "(n + 719468) div 146097 \<le> 5"
    using n nmax by auto
  have hour: "0 \<le> r div 3600" "r div 3600 \<le> 23" "0 \<le> r mod 3600 div 60" "r mod 3600 div 60 \<le> 59"
    "0 \<le> r mod 60" "r mod 60 \<le> 59"
    using r by auto
  have "r mod 60 = r mod 3600 mod 60" by (simp add: mod_mod_cancel)
  then have "r = r div 3600 * 3600 + r mod 3600 div 60 * 60 + r mod 60"
    by (metis add.assoc div_mult_mod_eq)
  then have "(DaysFromCivil year month day * kSecondsPerDay + r div 3600 * 3600 + r mod 3600 div 60 * 60 + r mod 60)
      = seconds"
    using div_mult_mod_eq [of seconds kSecondsPerDay]
    unfolding n_def [symmetric] r_def [symmetric] civil_parts(2) [OF civil] by linarith
  then have total: "(DaysFromCivil year month day * kSecondsPerDay + r div 3600 * 3600 + r mod 3600 div 60 * 60 + r mod 60)
      * kNanosPerSecond + fraction = t"
    by (simp add: seconds_def fraction_def)
  have "0 \<le> year" and "year < 10 ^ 4"
    using civil_parts(3,4) [OF civil] era by simp_all
  moreover have "1 \<le> month" and "month \<le> 12" and "1 \<le> day" and "day \<le> 31"
    using civil_parts(1) [OF civil] by blast+
  ultimately show ?thesis
    using that [OF shape _ _ _ _ _ _ hour f total] by blast
qed

lemma TryParseTime_FormatTime:
  assumes "0 \<le> t" and "t \<le> INT64_MAX"
  shows "TryParseTime (FormatTime t) = Some t"
proof -
  from assms obtain year month day hour minute second fraction where
    shape: "FormatTime t = zero_padded 4 year @ ''-'' @ zero_padded 2 month @ ''-'' @ zero_padded 2 day @ ''T'' @
       zero_padded 2 hour @ '':'' @ zero_padded 2 minute @ '':'' @ zero_padded 2 second @ ''.'' @
       zero_padded 9 fraction @ ''Z''"
    and b: "0 \<le> year" "year < 10 ^ 4" "1 \<le> month" "month \<le> 12" "1 \<le> day" "day \<le> 31"
      "0 \<le> hour" "hour \<le> 23" "0 \<le> minute" "minute \<le> 59" "0 \<le> second" "second \<le> 59"
      "0 \<le> fraction" "fraction < 10 ^ 9"
    and total: "(DaysFromCivil year month day * kSecondsPerDay + hour * 3600 + minute * 60 + second)
        * kNanosPerSecond + fraction = t"
    by (rule FormatTime_fields)
  note pad = zero_padded_reads
  have two: "v \<le> 59 \<Longrightarrow> v < 10 ^ 2" for v :: int by simp
  have len: "length (zero_padded 4 year) = 4" "length (zero_padded 2 month) = 2" "length (zero_padded 2 day) = 2"
    "length (zero_padded 2 hour) = 2" "length (zero_padded 2 minute) = 2" "length (zero_padded 2 second) = 2"
    "length (zero_padded 9 fraction) = 9"
    using b by (simp_all add: pad)
  define T where "T = FormatTime t"
  have cols: "T ! 4 = CHR ''-''" "T ! 7 = CHR ''-''" "T ! 10 = CHR ''T''" "T ! 13 = CHR '':''"
    "T ! 16 = CHR '':''" "T ! 19 = CHR ''.''" "last T = CHR ''Z''" "length T = 30"
    by (simp_all add: T_def shape len nth_append)
  have digits: "ParseDigits T 0 4 = Some year" "ParseDigits T 5 2 = Some month" "ParseDigits T 8 2 = Some day"
    "ParseDigits T 11 2 = Some hour" "ParseDigits T 14 2 = Some minute" "ParseDigits T 17 2 = Some second"
    "ParseDigits T 20 9 = Some fraction"
    using b by (simp_all add: ParseDigits_def T_def shape len pad)
  have "takeWhile is_digit (drop 20 T) = zero_padded 9 fraction"
    using b pad(2) [of fraction 9] by (simp add: T_def shape len takeWhile_append2 list_all_iff is_digit_def)
  then have frac: "parse_fraction T = Some (fraction, 29)"
    using digits(7) len(7) cols by (auto simp: parse_fraction_def)
  have "\<not> DaysFromCivil year month day * kSecondsPerDay + hour * 3600 + minute * 60 + second
      > cdiv (INT64_MAX - fraction) kNanosPerSecond"
    and "\<not> DaysFromCivil year month day * kSecondsPerDay + hour * 3600 + minute * 60 + second
      < cdiv (INT64_MIN + fraction) kNanosPerSecond"
    using assms total b by (auto simp: kNanosPerSecond_def cdiv_def)
  then show ?thesis
    using cols digits frac b total by (simp add: TryParseTime_def Let_def flip: T_def)
qed

text \<open>
  An instant from 1970 on, printed as RFC 3339, parses back to the same instant to the
  nanosecond, up to the end of the 64-bit range.
\<close>

theorem time_text_roundtrip:
  assumes "0 \<le> t" and "t \<le> INT64_MAX"
  shows "TryParseTime (FormatTime t) = Some t"
  using assms by (rule TryParseTime_FormatTime)

theorem time_text_roundtrip_witness:
  "TryParseTime (FormatTime 1767225600000000001) = Some 1767225600000000001"
  by (rule time_text_roundtrip) simp_all

text \<open>
  Before 1970 the printer is wrong by a day: the quotient that selects the civil date truncates
  towards zero while the time of day is corrected for the sign, so one second before the epoch prints
  as the last second of 1970-01-01 instead of 1969-12-31.
\<close>

theorem format_before_epoch_off_by_a_day:
  "FormatTime (- 1000000000) = ''1970-01-01T23:59:59.000000000Z'' \<and>
   TryParseTime ''1969-12-31T23:59:59.000000000Z'' = Some (- 1000000000)"
  by code_simp

end
