(* ===== verification/NDO_Intent.thy ===== *)
theory NDO_Intent
  imports NDO_Identity NDO_Values NDO_Time
begin

text \<open>
  Committed intent (\<^verbatim>\<open>intent.hpp\<close>, \<^verbatim>\<open>intent.cpp\<close>): the generation document a target's owner publishes,
  its validation and its content digest, and the baseline the ledger keeps of it.
\<close>

datatype IntentAuthority = IA_Unknown | IA_IntentFabric | IA_ConfigurationFabric | IA_LocalPolicy | IA_ImportedDocument

fun authority_value :: "IntentAuthority \<Rightarrow> nat" where
  "authority_value IA_Unknown = 0"
| "authority_value IA_IntentFabric = 1"
| "authority_value IA_ConfigurationFabric = 2"
| "authority_value IA_LocalPolicy = 3"
| "authority_value IA_ImportedDocument = 4"

definition all_authorities :: "IntentAuthority list" where
  "all_authorities = [IA_Unknown, IA_IntentFabric, IA_ConfigurationFabric, IA_LocalPolicy, IA_ImportedDocument]"

definition kAuthorityNames :: "(nat \<times> string) list" where
  "kAuthorityNames =
     [(0, ''unknown''), (1, ''intent-fabric''), (2, ''configuration-fabric''), (3, ''local-policy''),
      (4, ''imported-document'')]"

definition ToText_IntentAuthority :: "IntentAuthority \<Rightarrow> string" where
  "ToText_IntentAuthority v = lookup_name kAuthorityNames (authority_value v) ''invalid''"

definition TryParseIntentAuthority :: "string \<Rightarrow> IntentAuthority option" where
  "TryParseIntentAuthority wanted =
     Option.bind (lookup_code kAuthorityNames wanted) (\<lambda>c. List.find (\<lambda>v. authority_value v = c) all_authorities)"

datatype FieldComparability = FC_Managed | FC_ObserveOnly | FC_Unmanaged | FC_Unobservable | FC_Unsupported

fun comparability_value :: "FieldComparability \<Rightarrow> nat" where
  "comparability_value FC_Managed = 0"
| "comparability_value FC_ObserveOnly = 1"
| "comparability_value FC_Unmanaged = 2"
| "comparability_value FC_Unobservable = 3"
| "comparability_value FC_Unsupported = 4"

definition all_comparabilities :: "FieldComparability list" where
  "all_comparabilities = [FC_Managed, FC_ObserveOnly, FC_Unmanaged, FC_Unobservable, FC_Unsupported]"

definition kComparabilityNames :: "(nat \<times> string) list" where
  "kComparabilityNames =
     [(0, ''managed''), (1, ''observe-only''), (2, ''unmanaged''), (3, ''unobservable''), (4, ''unsupported'')]"

definition ToText_FieldComparability :: "FieldComparability \<Rightarrow> string" where
  "ToText_FieldComparability v = lookup_name kComparabilityNames (comparability_value v) ''invalid''"

definition TryParseFieldComparability :: "string \<Rightarrow> FieldComparability option" where
  "TryParseFieldComparability wanted =
     Option.bind (lookup_code kComparabilityNames wanted)
       (\<lambda>c. List.find (\<lambda>v. comparability_value v = c) all_comparabilities)"

datatype ObjectExistence = OE_Required | OE_Forbidden

fun existence_value :: "ObjectExistence \<Rightarrow> nat" where
  "existence_value OE_Required = 0"
| "existence_value OE_Forbidden = 1"

definition kExistenceNames :: "(nat \<times> string) list" where
  "kExistenceNames = [(0, ''required''), (1, ''forbidden'')]"

definition ToText_ObjectExistence :: "ObjectExistence \<Rightarrow> string" where
  "ToText_ObjectExistence v = lookup_name kExistenceNames (existence_value v) ''invalid''"

record IntentField =
  if_path :: FieldPath
  if_intended :: Value
  if_comparability :: FieldComparability

record IntentObject =
  io_id :: ObjectId
  io_existence :: ObjectExistence
  io_fields :: "(FieldPath, IntentField) omap"

record IntentGenerationDocument =
  ig_target :: TargetId
  ig_generation :: IntentGeneration
  ig_epoch :: FabricEpoch
  ig_authority :: IntentAuthority
  ig_policy :: PolicyId
  ig_authored_at :: NdoTime
  ig_objects :: "(ObjectId, IntentObject) omap"
  ig_evidence :: EvidenceClass

record IntentBaseline =
  ib_target :: TargetId
  ib_generation :: IntentGeneration
  ib_epoch :: FabricEpoch
  ib_authority :: IntentAuthority
  ib_policy :: PolicyId
  ib_committed_at :: NdoTime
  ib_content_digest :: Digest
  ib_evidence :: EvidenceClass
  ib_objects :: "(ObjectId, IntentObject) omap"

definition Baseline_is_set :: "IntentBaseline \<Rightarrow> bool" where
  "Baseline_is_set b \<longleftrightarrow> uint_is_set (ib_generation b)"

definition Baseline_FindObject :: "IntentBaseline \<Rightarrow> ObjectId \<Rightarrow> IntentObject option" where
  "Baseline_FindObject b oid = map_of (ib_objects b) oid"

section \<open>The content digest\<close>

definition kIntentContentTag :: string where
  "kIntentContentTag = ''ndo/intent-generation/v1''"

definition hash_intent_field :: "FieldPath \<times> IntentField \<Rightarrow> Sha256 \<Rightarrow> Sha256" where
  "hash_intent_field entry h =
     HashInto (if_intended (snd entry))
       (UpdateByte (of_nat (comparability_value (if_comparability (snd entry))))
         (UpdateLengthPrefixed (FieldPath_ToText (fst entry)) h))"

definition hash_intent_object :: "ObjectId \<times> IntentObject \<Rightarrow> Sha256 \<Rightarrow> Sha256" where
  "hash_intent_object entry h =
     fold hash_intent_field (io_fields (snd entry))
       (UpdateU64 (of_nat (length (io_fields (snd entry))))
         (UpdateByte (of_nat (existence_value (io_existence (snd entry))))
           (UpdateLengthPrefixed (fst entry) h)))"

definition Intent_ComputeContentDigest :: "IntentGenerationDocument \<Rightarrow> Digest" where
  "Intent_ComputeContentDigest d =
     (let h = UpdateTag kIntentContentTag Sha256_new;
          h = UpdateLengthPrefixed (ig_target d) h;
          h = UpdateU64 (ig_generation d) h;
          h = UpdateU64 (ig_epoch d) h;
          h = UpdateLengthPrefixed (ToText_IntentAuthority (ig_authority d)) h;
          h = UpdateLengthPrefixed (ig_policy d) h;
          h = UpdateU64 (word_of_int (ig_authored_at d)) h;
          h = UpdateByte (evidence_value (ig_evidence d)) h;
          h = UpdateU64 (of_nat (length (ig_objects d))) h
      in Final (fold hash_intent_object (ig_objects d) h))"

definition FieldCount :: "IntentGenerationDocument \<Rightarrow> nat" where
  "FieldCount d = sum_list (map (\<lambda>e. length (io_fields (snd e))) (ig_objects d))"

section \<open>Validation\<close>

text \<open>The first failing status of a loop that returns on the first failure.\<close>

fun first_failure :: "('a \<Rightarrow> Status) \<Rightarrow> 'a list \<Rightarrow> Status" where
  "first_failure check [] = Status_Ok"
| "first_failure check (x # xs) =
     (let status = check x in if \<not> status_ok status then status else first_failure check xs)"

fun segment_key_length :: "PathSegment \<Rightarrow> nat" where
  "segment_key_length (PS_Key k) = length k"
| "segment_key_length (PS_Index i) = 0"

definition validate_intent_field :: "RuntimeLimits \<Rightarrow> FieldPath \<times> IntentField \<Rightarrow> Status" where
  "validate_intent_field limits field =
     (if length (fst field) > max_path_segments limits
      then Status_Limit RC_LimitDepthExceeded ''intent field path is too deep''
      else if list_ex (\<lambda>s. segment_key_length s > max_path_key_bytes limits) (fst field)
      then Status_Limit RC_LimitBytesExceeded ''intent field key is too long''
      else Validate limits (if_intended (snd field)))"

definition validate_intent_object :: "RuntimeLimits \<Rightarrow> ObjectId \<times> IntentObject \<Rightarrow> Status" where
  "validate_intent_object limits entry =
     (if \<not> IsValidIdentityText (fst entry)
      then Status_Rejected RC_EncodingMalformed ''intent object identity is invalid''
      else if length (io_fields (snd entry)) > max_fields_per_object limits
      then Status_Limit RC_LimitFieldsExceeded ''intent field count exceeds the envelope''
      else first_failure (validate_intent_field limits) (io_fields (snd entry)))"

definition Intent_Validate :: "RuntimeLimits \<Rightarrow> IntentGenerationDocument \<Rightarrow> Status" where
  "Intent_Validate limits d =
     (if \<not> IsValidIdentityText (ig_target d)
      then Status_Rejected RC_EncodingMalformed ''target identity is invalid''
      else if \<not> uint_is_set (ig_generation d)
      then Status_Rejected RC_IntentTargetUndeclared ''intent generation must be a positive generation''
      else if \<not> uint_is_set (ig_epoch d)
      then Status_Rejected RC_FencedStaleEpoch
             ''intent generation must declare the epoch it was authored under''
      else if ig_policy d = [] \<or> \<not> IsValidIdentityText (ig_policy d)
      then Status_Rejected RC_EncodingMalformed ''intent policy identity is invalid''
      else if ig_authority d = IA_Unknown
      then Status_Rejected RC_AuthorityMismatch
             ''intent generation must declare the authority that produced it''
      else if length (ig_objects d) > max_objects_per_target limits
      then Status_Limit RC_LimitObjectsExceeded ''intent object count exceeds the envelope''
      else first_failure (validate_intent_object limits) (ig_objects d))"

section \<open>What validation guarantees\<close>

lemma first_failure_ok: "status_ok (first_failure check xs) \<longleftrightarrow> list_all (\<lambda>x. status_ok (check x)) xs"
  by (induction xs) (auto simp: Let_def)

lemma authority_text_roundtrip: "TryParseIntentAuthority (ToText_IntentAuthority v) = Some v"
  by (cases v) (simp_all add: TryParseIntentAuthority_def ToText_IntentAuthority_def kAuthorityNames_def
      all_authorities_def)

lemma comparability_text_roundtrip: "TryParseFieldComparability (ToText_FieldComparability v) = Some v"
  by (cases v) (simp_all add: TryParseFieldComparability_def ToText_FieldComparability_def
      kComparabilityNames_def all_comparabilities_def)

lemma Intent_Validate_sets:
  "status_ok (Intent_Validate limits d) \<Longrightarrow>
     uint_is_set (ig_generation d) \<and> uint_is_set (ig_epoch d) \<and> ig_authority d \<noteq> IA_Unknown \<and>
     length (ig_objects d) \<le> max_objects_per_target limits"
  by (auto simp: Intent_Validate_def split: if_splits)

end
