(* ===== verification/NDO_Observation.thy ===== *)
theory NDO_Observation
  imports NDO_Intent
begin

text \<open>
  Observed state (\<^verbatim>\<open>observation.hpp\<close>, \<^verbatim>\<open>observation.cpp\<close>): the snapshot a source reports, its content
  address, its validation and the queries the comparison asks it.
\<close>

datatype ObjectPresence = OP_Absent | OP_Present | OP_Unknown

fun presence_value :: "ObjectPresence \<Rightarrow> nat" where
  "presence_value OP_Absent = 0"
| "presence_value OP_Present = 1"
| "presence_value OP_Unknown = 2"

definition kPresenceNames :: "(nat \<times> string) list" where
  "kPresenceNames = [(0, ''absent''), (1, ''present''), (2, ''unknown'')]"

definition ToText_ObjectPresence :: "ObjectPresence \<Rightarrow> string" where
  "ToText_ObjectPresence v = lookup_name kPresenceNames (presence_value v) ''invalid''"

definition TryParseObjectPresence :: "string \<Rightarrow> ObjectPresence option" where
  "TryParseObjectPresence wanted =
     Option.bind (lookup_code kPresenceNames wanted)
       (\<lambda>c. List.find (\<lambda>v. presence_value v = c) [OP_Absent, OP_Present, OP_Unknown])"

datatype ObservationCoverage = OC_Unknown | OC_Partial | OC_Complete

fun coverage_value :: "ObservationCoverage \<Rightarrow> nat" where
  "coverage_value OC_Unknown = 0"
| "coverage_value OC_Partial = 1"
| "coverage_value OC_Complete = 2"

definition kCoverageNames :: "(nat \<times> string) list" where
  "kCoverageNames = [(0, ''unknown''), (1, ''partial''), (2, ''complete'')]"

definition ToText_ObservationCoverage :: "ObservationCoverage \<Rightarrow> string" where
  "ToText_ObservationCoverage v = lookup_name kCoverageNames (coverage_value v) ''invalid''"

definition TryParseObservationCoverage :: "string \<Rightarrow> ObservationCoverage option" where
  "TryParseObservationCoverage wanted =
     Option.bind (lookup_code kCoverageNames wanted)
       (\<lambda>c. List.find (\<lambda>v. coverage_value v = c) [OC_Unknown, OC_Partial, OC_Complete])"

record SourceCapabilities =
  sc_asserts_absence :: bool
  sc_complete_coverage :: bool
  sc_reports_nested_paths :: bool
  sc_evidence :: EvidenceClass

record ObservedObject =
  oo_id :: ObjectId
  oo_presence :: ObjectPresence
  oo_fields :: "(FieldPath, Value) omap"

record ObservationSnapshot =
  sn_snapshot_id :: SnapshotId
  sn_source :: SourceId
  sn_epoch :: FabricEpoch
  sn_incarnation :: Incarnation
  sn_sequence :: SourceSequence
  sn_target :: TargetId
  sn_collected_at :: NdoTime
  sn_received_at :: NdoTime
  sn_ttl_nanos :: int
  sn_coverage :: ObservationCoverage
  sn_unobserved :: "ObjectId list"
  sn_objects :: "(ObjectId, ObservedObject) omap"
  sn_capabilities :: SourceCapabilities
  sn_evidence :: EvidenceClass

record SourceDescriptor =
  sd_id :: SourceId
  sd_capabilities :: SourceCapabilities
  sd_registered_at :: NdoTime
  sd_epoch :: FabricEpoch
  sd_incarnation :: Incarnation
  sd_provenance :: string
  sd_evidence :: EvidenceClass

definition kSnapshotIdentityTag :: string where
  "kSnapshotIdentityTag = ''ndo/observation-snapshot/v1''"

definition hash_observed_field :: "FieldPath \<times> Value \<Rightarrow> Sha256 \<Rightarrow> Sha256" where
  "hash_observed_field entry h =
     HashInto (snd entry) (UpdateLengthPrefixed (FieldPath_ToText (fst entry)) h)"

definition hash_observed_object :: "ObjectId \<times> ObservedObject \<Rightarrow> Sha256 \<Rightarrow> Sha256" where
  "hash_observed_object entry h =
     fold hash_observed_field (oo_fields (snd entry))
       (UpdateU64 (of_nat (length (oo_fields (snd entry))))
         (UpdateByte (of_nat (presence_value (oo_presence (snd entry))))
           (UpdateLengthPrefixed (fst entry) h)))"

definition bool_byte :: "bool \<Rightarrow> u8" where
  "bool_byte b = (if b then 1 else 0)"

definition Snapshot_ComputeContentDigest :: "ObservationSnapshot \<Rightarrow> Digest" where
  "Snapshot_ComputeContentDigest s =
     (let h = UpdateTag kSnapshotIdentityTag Sha256_new;
          h = UpdateLengthPrefixed (sn_source s) h;
          h = UpdateU64 (sn_epoch s) h;
          h = UpdateU64 (sn_incarnation s) h;
          h = UpdateU64 (sn_sequence s) h;
          h = UpdateLengthPrefixed (sn_target s) h;
          h = UpdateU64 (word_of_int (sn_collected_at s)) h;
          h = UpdateU64 (word_of_int (sn_ttl_nanos s)) h;
          h = UpdateByte (of_nat (coverage_value (sn_coverage s))) h;
          h = UpdateByte (evidence_value (sn_evidence s)) h;
          h = UpdateByte (bool_byte (sc_asserts_absence (sn_capabilities s))) h;
          h = UpdateByte (bool_byte (sc_complete_coverage (sn_capabilities s))) h;
          h = UpdateByte (bool_byte (sc_reports_nested_paths (sn_capabilities s))) h;
          h = UpdateByte (evidence_value (sc_evidence (sn_capabilities s))) h;
          unobserved_view = sort_unique (sn_unobserved s);
          h = UpdateU64 (of_nat (length unobserved_view)) h;
          h = fold UpdateLengthPrefixed unobserved_view h;
          h = UpdateU64 (of_nat (length (sn_objects s))) h
      in Final (fold hash_observed_object (sn_objects s) h))"

definition ComputeSnapshotId :: "ObservationSnapshot \<Rightarrow> SnapshotId" where
  "ComputeSnapshotId s = Digest_ToHex (Snapshot_ComputeContentDigest s)"

definition declares_complete_coverage :: "ObservationSnapshot \<Rightarrow> bool" where
  "declares_complete_coverage s \<longleftrightarrow>
     sn_coverage s = OC_Complete \<and> sc_complete_coverage (sn_capabilities s)"

definition may_assert_absence :: "ObservationSnapshot \<Rightarrow> bool" where
  "may_assert_absence s \<longleftrightarrow> sc_asserts_absence (sn_capabilities s)"

definition Snapshot_FindObject :: "ObservationSnapshot \<Rightarrow> ObjectId \<Rightarrow> ObservedObject option" where
  "Snapshot_FindObject s oid = map_of (sn_objects s) oid"

definition declares_unobserved :: "ObservationSnapshot \<Rightarrow> ObjectId \<Rightarrow> bool" where
  "declares_unobserved s oid \<longleftrightarrow> list_ex (\<lambda>c. c = oid) (sn_unobserved s)"

definition validate_observed_field :: "RuntimeLimits \<Rightarrow> FieldPath \<times> Value \<Rightarrow> Status" where
  "validate_observed_field limits field =
     (if length (fst field) > max_path_segments limits
      then Status_Limit RC_LimitDepthExceeded ''observed field path is too deep''
      else if list_ex (\<lambda>s. segment_key_length s > max_path_key_bytes limits) (fst field)
      then Status_Limit RC_LimitBytesExceeded ''observed field key is too long''
      else Validate limits (snd field))"

definition validate_observed_object ::
    "RuntimeLimits \<Rightarrow> SourceCapabilities \<Rightarrow> ObjectId \<times> ObservedObject \<Rightarrow> Status" where
  "validate_observed_object limits capabilities entry =
     (let object = snd entry in
      if \<not> IsValidIdentityText (fst entry)
      then Status_Rejected RC_EncodingMalformed ''observed object identity is invalid''
      else if oo_presence object = OP_Absent \<and> \<not> sc_asserts_absence capabilities
      then Status_Rejected RC_ObservationSourceCannotAssertAbsence
             ''source reports absence without the capability to assert it''
      else if length (oo_fields object) > max_fields_per_object limits
      then Status_Limit RC_LimitFieldsExceeded ''observed field count exceeds the envelope''
      else if oo_presence object = OP_Absent \<and> oo_fields object \<noteq> []
      then Status_Rejected RC_EncodingMalformed ''an absent object cannot carry observed fields''
      else first_failure (validate_observed_field limits) (oo_fields object))"

definition validate_unobserved :: "ObjectId \<Rightarrow> Status" where
  "validate_unobserved oid =
     (if \<not> IsValidIdentityText oid
      then Status_Rejected RC_EncodingMalformed ''unobserved identity is invalid''
      else Status_Ok)"

definition validate_snapshot_id :: "ObservationSnapshot \<Rightarrow> Status" where
  "validate_snapshot_id s =
     (let computed = Snapshot_ComputeContentDigest s in
      if sn_snapshot_id s = []
      then Status_Rejected RC_LedgerIntegrityDigestMismatch ''observation snapshot identity is missing''
      else if sn_snapshot_id s \<noteq> Digest_ToHex computed
      then Status_Rejected RC_LedgerIntegrityDigestMismatch
             ''declared snapshot identity does not match snapshot content''
      else Status_Ok)"

definition Snapshot_Validate :: "RuntimeLimits \<Rightarrow> ObservationSnapshot \<Rightarrow> Status" where
  "Snapshot_Validate limits s =
     (if \<not> IsValidIdentityText (sn_source s)
      then Status_Rejected RC_EncodingMalformed ''observation source identity is invalid''
      else if \<not> IsValidIdentityText (sn_target s)
      then Status_Rejected RC_EncodingMalformed ''observation target identity is invalid''
      else if \<not> uint_is_set (sn_epoch s)
      then Status_Rejected RC_FencedStaleEpoch ''observation must declare the epoch it was collected under''
      else if \<not> uint_is_set (sn_incarnation s)
      then Status_Rejected RC_FencedStaleIncarnation
             ''observation must declare the source incarnation that produced it''
      else if \<not> uint_is_set (sn_sequence s)
      then Status_Rejected RC_ObservationSequenceRegressed ''observation sequence must be positive''
      else if \<not> time_is_set (sn_collected_at s)
      then Status_Rejected RC_ObservationClockRegression ''observation must declare its collection time''
      else if sn_ttl_nanos s < 0
      then Status_Rejected RC_EncodingMalformed ''observation ttl must not be negative''
      else if length (sn_unobserved s) > max_objects_per_target limits
      then Status_Limit RC_LimitObjectsExceeded ''unobserved declaration exceeds the envelope''
      else
        let status = first_failure validate_unobserved (sn_unobserved s) in
        if \<not> status_ok status then status
        else if length (sn_objects s) > max_objects_per_target limits
        then Status_Limit RC_LimitObjectsExceeded ''observation object count exceeds the envelope''
        else
          let status = first_failure (validate_observed_object limits (sn_capabilities s)) (sn_objects s) in
          if \<not> status_ok status then status else validate_snapshot_id s)"

section \<open>What validation guarantees\<close>

lemma presence_text_roundtrip: "TryParseObjectPresence (ToText_ObjectPresence v) = Some v"
  by (cases v) (simp_all add: TryParseObjectPresence_def ToText_ObjectPresence_def kPresenceNames_def)

lemma coverage_text_roundtrip: "TryParseObservationCoverage (ToText_ObservationCoverage v) = Some v"
  by (cases v) (simp_all add: TryParseObservationCoverage_def ToText_ObservationCoverage_def kCoverageNames_def)

lemma Snapshot_Validate_sets:
  "status_ok (Snapshot_Validate limits s) \<Longrightarrow>
     uint_is_set (sn_epoch s) \<and> uint_is_set (sn_incarnation s) \<and> uint_is_set (sn_sequence s) \<and>
     time_is_set (sn_collected_at s) \<and> 0 \<le> sn_ttl_nanos s \<and> sn_snapshot_id s = ComputeSnapshotId s"
  by (auto simp: Snapshot_Validate_def Let_def validate_snapshot_id_def ComputeSnapshotId_def split: if_splits)

text \<open>An admitted absence is one the source was entitled to assert, and it carries no fields.\<close>

lemma Snapshot_Validate_absence:
  assumes "status_ok (Snapshot_Validate limits s)" and "(oid, obj) \<in> set (sn_objects s)"
    and "oo_presence obj = OP_Absent"
  shows "may_assert_absence s \<and> oo_fields obj = []"
proof -
  have "list_all (\<lambda>e. status_ok (validate_observed_object limits (sn_capabilities s) e)) (sn_objects s)"
    using assms(1) by (auto simp: Snapshot_Validate_def Let_def first_failure_ok split: if_splits)
  then have "status_ok (validate_observed_object limits (sn_capabilities s) (oid, obj))"
    using assms(2) by (auto simp: list_all_iff)
  then show ?thesis
    using assms(3) by (auto simp: validate_observed_object_def may_assert_absence_def Let_def split: if_splits)
qed

lemma sort_unique_set: "set (sort_unique xs) = set xs"
  by (simp add: sort_unique_def)

lemma distinct_remdups_adj_sorted: "sorted xs \<Longrightarrow> distinct (remdups_adj xs)"
  by (induction xs rule: remdups_adj.induct) auto

lemma sort_unique_cong:
  fixes xs ys :: "'a::linorder list"
  assumes "set xs = set ys"
  shows "sort_unique xs = sort_unique ys"
  by (rule sorted_distinct_set_unique)
    (simp_all add: sort_unique_def distinct_remdups_adj_sorted assms)

text \<open>
  The content address of a snapshot does not depend on when it was received, on the identity it
  declares, nor on the order or repetition in which the unobserved objects are listed.
\<close>

theorem snapshot_identity_canonical:
  assumes "set unobserved = set (sn_unobserved s)"
  shows "ComputeSnapshotId (s\<lparr>sn_received_at := received, sn_snapshot_id := declared, sn_unobserved := unobserved\<rparr>)
    = ComputeSnapshotId s"
  using sort_unique_cong [OF assms]
  by (simp add: ComputeSnapshotId_def Snapshot_ComputeContentDigest_def Let_def)

definition example_snapshot :: ObservationSnapshot where
  "example_snapshot =
     \<lparr>sn_snapshot_id = ''s'', sn_source = ''src'', sn_epoch = 1, sn_incarnation = 1, sn_sequence = 1,
      sn_target = ''dev'', sn_collected_at = 1000, sn_received_at = 1000, sn_ttl_nanos = 0,
      sn_coverage = OC_Complete, sn_unobserved = [''a'', ''b''], sn_objects = [],
      sn_capabilities = \<lparr>sc_asserts_absence = True, sc_complete_coverage = True,
        sc_reports_nested_paths = False, sc_evidence = EC_Real\<rparr>,
      sn_evidence = EC_Real\<rparr>"

theorem snapshot_identity_canonical_witness:
  "ComputeSnapshotId (example_snapshot\<lparr>sn_received_at := 7, sn_snapshot_id := ''x'',
      sn_unobserved := [''b'', ''a'', ''b'']\<rparr>) = ComputeSnapshotId example_snapshot"
  by (rule snapshot_identity_canonical) (auto simp: example_snapshot_def)

end
