(* ===== verification/NDO_Codec.thy ===== *)
theory NDO_Codec
  imports NDO_Json_Roundtrip NDO_Members NDO_Observation
begin

text \<open>
  What the document codecs share: the pieces several of them repeat, the loops that rebuild containers
  from a sequence of documents, and the contract of a codec as a locale.  A codec is a writer and a reader
  of one kind of document such that reading a written document gives it back; the locale derives what
  follows from that for documents written as text.
\<close>

section \<open>Shared pieces\<close>

text \<open>The value of an optional member, or what the object was initialised with.\<close>

definition or_else :: "'a option \<Rightarrow> 'a \<Rightarrow> 'a" where
  "or_else x d = (case x of None \<Rightarrow> d | Some v \<Rightarrow> v)"

definition encode_capabilities :: "SourceCapabilities \<Rightarrow> Value" where
  "encode_capabilities c =
     V_Map (members_of
       [(''asserts_absence'', V_Bool (sc_asserts_absence c)), (''complete_coverage'', V_Bool (sc_complete_coverage c)),
        (''reports_nested_paths'', V_Bool (sc_reports_nested_paths c)), (''evidence'', V_String (ToText_EvidenceClass (sc_evidence c)))])"

definition default_capabilities :: SourceCapabilities where
  "default_capabilities =
     \<lparr>sc_asserts_absence = False, sc_complete_coverage = False, sc_reports_nested_paths = False, sc_evidence = EC_Unknown\<rparr>"

text \<open>
  A required member whose text must parse, and an optional one: when it is absent the object keeps what
  it was initialised with.  \<open>given_text\<close> is the guard of the optional members that may also be empty.
\<close>

definition require_parsed :: "members \<Rightarrow> string \<Rightarrow> string \<Rightarrow> (string \<Rightarrow> 'a option) \<Rightarrow> string \<Rightarrow> 'a Result" where
  "require_parsed m name what parse complaint =
     bindr (RequireString m name what) (\<lambda>s.
       case parse s of None \<Rightarrow> Inl (MemberError what name complaint) | Some x \<Rightarrow> Inr x)"

definition optional_parsed :: "string option \<Rightarrow> (string \<Rightarrow> 'a option) \<Rightarrow> Status \<Rightarrow> 'a \<Rightarrow> 'a Result" where
  "optional_parsed s parse refusal initial =
     (case s of
        None \<Rightarrow> Inr initial
      | Some t \<Rightarrow> (case parse t of None \<Rightarrow> Inl refusal | Some x \<Rightarrow> Inr x))"

definition given_text :: "members \<Rightarrow> string \<Rightarrow> string option" where
  "given_text m name = (case OptionalString m name of None \<Rightarrow> None | Some s \<Rightarrow> if s = [] then None else Some s)"

definition optional_enum :: "members \<Rightarrow> string \<Rightarrow> string \<Rightarrow> (string \<Rightarrow> 'a option) \<Rightarrow> 'a \<Rightarrow> 'a Result" where
  "optional_enum m name what parse initial =
     optional_parsed (OptionalString m name) (\<lambda>s. parse (c_str s)) (MemberError what name ''is not recognized'') initial"

definition require_identity :: "members \<Rightarrow> string \<Rightarrow> string \<Rightarrow> string Result" where
  "require_identity m name what = require_parsed m name what StringId_TryParse ''is not a valid identity''"

definition require_time :: "members \<Rightarrow> string \<Rightarrow> string \<Rightarrow> NdoTime Result" where
  "require_time m name what = require_parsed m name what TryParseTime ''is not an RFC 3339 timestamp''"

definition require_path :: "members \<Rightarrow> RuntimeLimits \<Rightarrow> string \<Rightarrow> FieldPath Result" where
  "require_path m limits what =
     require_parsed m ''path'' what (\<lambda>s. FieldPath_TryParse s (max_path_segments limits) (max_path_key_bytes limits))
       ''is not a valid field path''"

text \<open>A status that must be Ok for the value to be released.\<close>

definition released :: "Status \<Rightarrow> 'a \<Rightarrow> 'a Result" where
  "released status x = (if \<not> status_ok status then Inl status else Inr x)"

section \<open>Loops over documents\<close>

fun run_loop :: "('a \<Rightarrow> 's \<Rightarrow> 's Result) \<Rightarrow> 'a list \<Rightarrow> 's \<Rightarrow> 's Result" where
  "run_loop f [] s = Inr s"
| "run_loop f (x # xs) s = bindr (f x s) (run_loop f xs)"

text \<open>The loop that decodes an entry and \<^verbatim>\<open>emplace\<close>s it: the first entry of a key stays.\<close>

definition emplace_loop :: "('a \<Rightarrow> ('k::linorder \<times> 'v) Result) \<Rightarrow> 'a list \<Rightarrow> ('k, 'v) omap Result" where
  "emplace_loop f xs = run_loop (\<lambda>x m. bindr (f x) (\<lambda>e. Inr (map_emplace (fst e) (snd e) m))) xs []"

lemma run_loop_invariant:
  assumes "run_loop f xs s = Inr t" and "P s" and "\<And>x s t. x \<in> set xs \<Longrightarrow> P s \<Longrightarrow> f x s = Inr t \<Longrightarrow> P t"
  shows "P t"
  using assms by (induction xs arbitrary: s) (auto simp: bindr_Inr_iff)

lemma emplace_loop_encoded:
  assumes "keys_ascending m" and "\<And>e. e \<in> set m \<Longrightarrow> f (g e) = Inr e"
  shows "emplace_loop f (map g m) = Inr m"
proof -
  have "run_loop (\<lambda>x m. bindr (f x) (\<lambda>e. Inr (map_emplace (fst e) (snd e) m))) (map g r) p = Inr (p @ r)"
    if "keys_ascending (p @ r)" "\<And>e. e \<in> set r \<Longrightarrow> f (g e) = Inr e" for p r
    using that
  proof (induction r arbitrary: p)
    case (Cons e r)
    have "map_emplace (fst e) (snd e) p = p @ [e]" using append_member [of p "fst e" "snd e" r] Cons.prems(1) by simp
    then show ?case using Cons.IH [of "p @ [e]"] Cons.prems by simp
  qed simp
  from this [of "[]" m] show ?thesis using assms by (simp add: emplace_loop_def)
qed

lemma set_map_put: "set (map_put k v m) \<subseteq> insert (k, v) (set m)"
  by (induction m) auto

lemma set_map_emplace: "set (map_emplace k v m) \<subseteq> insert (k, v) (set m)"
  using set_map_put [of k v m] by (simp add: map_emplace_def subset_insertI)

lemma emplace_loop_result:
  assumes "emplace_loop f xs = Inr m"
  shows "keys_ascending m \<and> (\<forall>e \<in> set m. \<exists>x \<in> set xs. f x = Inr e)" (is "?P m")
proof (rule run_loop_invariant [OF assms [unfolded emplace_loop_def], where P = ?P])
  fix x s t
  assume "x \<in> set xs" and s: "?P s" and "bindr (f x) (\<lambda>e. Inr (map_emplace (fst e) (snd e) s)) = Inr t"
  then obtain e where e: "f x = Inr e" and t: "t = map_emplace (fst e) (snd e) s" by (auto simp: bindr_Inr_iff)
  have "set t \<subseteq> insert e (set s)" using set_map_emplace [of "fst e" "snd e" s] t by simp
  moreover have "keys_ascending t" using s t by (simp add: keys_ascending_map_emplace)
  ultimately show "?P t" using s e \<open>x \<in> set xs\<close> by blast
qed simp

lemma emplace_loop_length: "emplace_loop f xs = Inr m \<Longrightarrow> length m \<le> length xs"
proof -
  have "run_loop (\<lambda>x m. bindr (f x) (\<lambda>e. Inr (map_emplace (fst e) (snd e) m))) xs s = Inr m \<Longrightarrow> length m \<le> length xs + length s" for s
  proof (induction xs arbitrary: s)
    case (Cons x xs)
    then obtain e where "run_loop (\<lambda>x m. bindr (f x) (\<lambda>e. Inr (map_emplace (fst e) (snd e) m))) xs (map_emplace (fst e) (snd e) s) = Inr m"
      by (auto simp: bindr_Inr_iff)
    moreover have "length (map_emplace k v s) \<le> Suc (length s)" for k v
      by (induction s) (auto simp: map_emplace_def length_map_put)
    ultimately show ?case using Cons.IH by (fastforce intro: order_trans)
  qed simp
  then show "emplace_loop f xs = Inr m \<Longrightarrow> ?thesis" unfolding emplace_loop_def by fastforce
qed

section \<open>The contract of a codec\<close>

text \<open>A value the text form carries faithfully: within the parser's envelope, doubles included.\<close>

definition writable :: "(u64 \<Rightarrow> string option) \<Rightarrow> (string \<Rightarrow> u64 option) \<Rightarrow> RuntimeLimits \<Rightarrow> Value \<Rightarrow> bool" where
  "writable tc fc limits v \<longleftrightarrow>
     json_fits limits 0 v \<and> json_nodes v \<le> max_value_nodes limits \<and> (\<forall>d \<in> set (doubles_in v). double_codec tc fc d) \<and>
     length (WriteCanonicalJson tc v) \<le> max_document_bytes limits"

lemma ParseJson_Write: "writable tc fc limits v \<Longrightarrow> ParseJson fc limits (WriteCanonicalJson tc v) = Inr v"
  unfolding WriteCanonicalJson_def
  by (rule ParseJson_renders [OF renders_compact(1)]) (simp_all add: writable_def WriteCanonicalJson_def)

locale document_codec =
  fixes encode :: "'a \<Rightarrow> Value" and decode :: "Value \<Rightarrow> 'a Result" and valid :: "'a \<Rightarrow> bool"
  assumes decode_encode: "valid x \<Longrightarrow> decode (encode x) = Inr x"
begin

lemma encode_inject: "valid x \<Longrightarrow> valid y \<Longrightarrow> encode x = encode y \<longleftrightarrow> x = y"
  by (metis decode_encode Inr_inject)

lemma through_text:
  "valid x \<Longrightarrow> writable tc fc limits (encode x) \<Longrightarrow>
     bindr (ParseJson fc limits (WriteCanonicalJson tc (encode x))) decode = Inr x"
  by (simp add: ParseJson_Write decode_encode)

lemma texts_apart:
  assumes "valid x" "valid y" "writable tc fc limits (encode x)" "writable tc fc limits (encode y)"
    and "WriteCanonicalJson tc (encode x) = WriteCanonicalJson tc (encode y)"
  shows "x = y"
  using trans [OF sym [OF through_text [OF assms(1,3)]] through_text [OF assms(2,4), folded assms(5)]] by simp

end

section \<open>C strings of the name tables\<close>

lemma c_str_plain: "list_all (\<lambda>c. c \<noteq> CHR 0x00) s \<Longrightarrow> c_str s = s"
  by (induction s) (auto simp: c_str_def)

lemma evidence_c_str [simp]: "TryParseEvidenceClass (c_str (ToText_EvidenceClass e)) = Some e"
  by (cases e) (simp_all add: TryParseEvidenceClass_def c_str_def)

lemma reason_names_plain: "list_all (\<lambda>row. list_all (\<lambda>c. c \<noteq> CHR 0x00) (snd row)) kReasonNames"
  by (simp add: kReasonNames_def)

lemma lookup_name_plain: "list_all P (map snd rows) \<Longrightarrow> P d \<Longrightarrow> P (lookup_name rows c d)"
  by (induction rows) auto

lemma reason_c_str [simp]: "TryParseReasonCode (c_str (ToText_ReasonCode r)) = Some r"
proof -
  have "list_all (\<lambda>c. c \<noteq> CHR 0x00) (ToText_ReasonCode r)"
    unfolding ToText_ReasonCode_def by (rule lookup_name_plain) (use reason_names_plain in \<open>simp_all add: list_all_iff\<close>)
  then show ?thesis by (simp add: c_str_plain reason_text_roundtrip)
qed

lemma table_c_str [simp]:
  "c_str (ToText_FieldComparability c) = ToText_FieldComparability c" "c_str (ToText_IntentAuthority a) = ToText_IntentAuthority a"
  "c_str (ToText_ObjectPresence p) = ToText_ObjectPresence p" "c_str (ToText_ObservationCoverage v) = ToText_ObservationCoverage v"
  subgoal by (cases c) (simp_all add: c_str_def ToText_FieldComparability_def kComparabilityNames_def)
  subgoal by (cases a) (simp_all add: c_str_def ToText_IntentAuthority_def kAuthorityNames_def)
  subgoal by (cases p) (simp_all add: c_str_def ToText_ObjectPresence_def kPresenceNames_def)
  subgoal by (cases v) (simp_all add: c_str_def ToText_ObservationCoverage_def kCoverageNames_def)
  done

lemmas decoding = bindr_Inr_iff require_parsed_def optional_parsed_def require_identity_def require_time_def require_path_def
  released_def StringId_TryParse_def

section \<open>Texts that are read back\<close>

text \<open>A path whose text the parser accepts under the limits, a time the printer is exact on.\<close>

definition path_readable :: "RuntimeLimits \<Rightarrow> FieldPath \<Rightarrow> bool" where
  "path_readable limits p \<longleftrightarrow>
     path_within (max_path_segments limits) (max_path_key_bytes limits) p \<and>
     length (FieldPath_ToText p) \<le> (if p = [] then 0 else max_path_segments limits * (max_path_key_bytes limits + 4) mod 2 ^ 64)"

definition time_readable :: "NdoTime \<Rightarrow> bool" where
  "time_readable t \<longleftrightarrow> 0 \<le> t \<and> t \<le> INT64_MAX"

lemma path_read:
  "path_readable limits p \<longleftrightarrow>
     FieldPath_TryParse (FieldPath_ToText p) (max_path_segments limits) (max_path_key_bytes limits) = Some p"
  by (simp add: FieldPath_TryParse_iff path_readable_def)

lemma path_parsed:
  "FieldPath_TryParse s (max_path_segments limits) (max_path_key_bytes limits) = Some p \<Longrightarrow> path_readable limits p"
  by (auto simp: FieldPath_TryParse_iff path_readable_def)

lemma time_read: "time_readable t \<Longrightarrow> TryParseTime (FormatTime t) = Some t"
  by (simp add: time_readable_def TryParseTime_FormatTime)

lemma identity_read: "IsValidIdentityText s \<Longrightarrow> StringId_TryParse s = Some s"
  by (simp add: StringId_TryParse_def)

lemma digest_read: "length d = kDigestBytes \<Longrightarrow> Digest_TryFromHex (Digest_ToHex d) = Some d"
  by (simp add: Digest_TryFromHex_def Digest_ToHex_def hex_pairs_ToHex)

lemmas text_read = path_read time_read identity_read digest_read
  comparability_text_roundtrip authority_text_roundtrip presence_text_roundtrip coverage_text_roundtrip

lemmas parsed_simps = require_parsed_def optional_parsed_def given_text_def optional_enum_def require_identity_def
  require_time_def require_path_def released_def RequireObject_def reader_simps

lemma scaled_digits_bound:
  assumes "k \<le> 9" and "ParseDigits s start k = Some raw"
  shows "raw * 10 ^ (9 - k) \<le> 10 ^ 9"
proof -
  have "raw \<le> 10 ^ k"
    using text_nat_bound [of "take k (drop start s)"] assms(2) by (auto simp: ParseDigits_def Let_def split: if_splits)
  then have "raw * 10 ^ (9 - k) \<le> 10 ^ k * 10 ^ (9 - k)" by (intro mult_right_mono) auto
  then show ?thesis using assms(1) by (simp flip: power_add)
qed

lemma parse_fraction_bound: "parse_fraction s = Some (fraction, position) \<Longrightarrow> fraction \<le> 10 ^ 9"
  using scaled_digits_bound [of "length (takeWhile is_digit (drop 20 s))" s 20]
  by (auto simp: parse_fraction_def Let_def linorder_not_less split: if_splits option.splits)

lemma instant_bound:
  assumes "fraction \<le> 10 ^ 9" and "\<not> cdiv (INT64_MAX - fraction) kNanosPerSecond < seconds"
  shows "seconds * kNanosPerSecond + fraction \<le> INT64_MAX"
proof -
  have "seconds \<le> (INT64_MAX - fraction) div kNanosPerSecond" using assms by (simp add: cdiv_nonneg kNanosPerSecond_def)
  then show ?thesis by (simp add: kNanosPerSecond_def)
qed

lemma time_parsed: "TryParseTime s = Some t \<Longrightarrow> t \<le> INT64_MAX"
  by (auto simp: TryParseTime_def Let_def split: if_splits option.splits prod.splits
      intro!: instant_bound parse_fraction_bound)

text \<open>A counter is written as an integer of either kind.\<close>

declare MemberHasKind.simps(2) [simp del]

lemma integer_kind [simp]: "MemberHasKind (MakeUint u) MK_Integer" "MemberHasKind (V_Int i) MK_Integer"
  by (simp_all add: MemberHasKind.simps(2) MakeUint_def)

text \<open>Evaluating the text of a small document.\<close>

lemmas written_simps = writable_def encode_capabilities_def default_capabilities_def members_of_def map_emplace_def MakeUint_def
  keys_ascending_def plain_utf8 is_i64_def default_limits_def WriteCanonicalJson_def plain_quote int_text_def nat_text_small
  kBytesMember_def plain_text_def QUOTE_def ESCAPE_def

end
