(* ===== verification/NDO_Wire.thy ===== *)
theory NDO_Wire
  imports NDO_Codec
begin

text \<open>
  The framed transport (\<^verbatim>\<open>wire.hpp\<close>, \<^verbatim>\<open>wire.cpp\<close>): the 28-byte frame header, the payload checks and the
  handshake and acknowledgement payloads.  A frame is shown to be read back as it was sent, a payload
  in which a byte was changed is refused, and the payload documents are inverse pairs.
\<close>

section \<open>Integers in little-endian order\<close>

definition AppendU16 :: "u16 \<Rightarrow> bytes" where
  "AppendU16 v = [ucast (v AND 0xFF), ucast (drop_bit 8 v AND 0xFF)]"

definition AppendU32 :: "u32 \<Rightarrow> bytes" where
  "AppendU32 v = map (\<lambda>i. ucast (drop_bit (8 * i) v AND 0xFF)) [0..<4]"

definition AppendU64 :: "u64 \<Rightarrow> bytes" where
  "AppendU64 v = map (\<lambda>i. ucast (drop_bit (8 * i) v AND 0xFF)) [0..<8]"

definition ReadU16 :: "bytes \<Rightarrow> u16" where
  "ReadU16 data = ucast (data ! 0) OR push_bit 8 (ucast (data ! 1))"

definition ReadU32 :: "bytes \<Rightarrow> u32" where
  "ReadU32 data = fold (\<lambda>i v. v OR push_bit (8 * i) (ucast (data ! i))) [0..<4] 0"

definition ReadU64 :: "bytes \<Rightarrow> u64" where
  "ReadU64 data = fold (\<lambda>i v. v OR push_bit (8 * i) (ucast (data ! i))) [0..<8] 0"

section \<open>Frames\<close>

definition kFrameMagic :: bytes where
  "kFrameMagic = bytes_of_text ''NDO1''"

definition kFrameHeaderBytes :: nat where
  "kFrameHeaderBytes = 28"

definition kWireProtocolVersion :: u16 where
  "kWireProtocolVersion = 1"

datatype FrameType =
    FT_Hello | FT_HelloAck | FT_Snapshot | FT_SnapshotAck | FT_Intent | FT_IntentAck | FT_ErrorFrame | FT_Bye | FT_Heartbeat

fun frame_value :: "FrameType \<Rightarrow> nat" where
  "frame_value FT_Hello = 1"
| "frame_value FT_HelloAck = 2"
| "frame_value FT_Snapshot = 3"
| "frame_value FT_SnapshotAck = 4"
| "frame_value FT_Intent = 5"
| "frame_value FT_IntentAck = 6"
| "frame_value FT_ErrorFrame = 7"
| "frame_value FT_Bye = 8"
| "frame_value FT_Heartbeat = 9"

definition all_frames :: "FrameType list" where
  "all_frames = [FT_Hello, FT_HelloAck, FT_Snapshot, FT_SnapshotAck, FT_Intent, FT_IntentAck, FT_ErrorFrame, FT_Bye, FT_Heartbeat]"

definition kFrameTypeNames :: "(nat \<times> string) list" where
  "kFrameTypeNames =
     [(1, ''hello''), (2, ''hello-ack''), (3, ''snapshot''), (4, ''snapshot-ack''), (5, ''intent''), (6, ''intent-ack''),
      (7, ''error''), (8, ''bye''), (9, ''heartbeat'')]"

definition ToText_FrameType :: "FrameType \<Rightarrow> string" where
  "ToText_FrameType t = lookup_name kFrameTypeNames (frame_value t) ''unknown''"

definition TryParseFrameType :: "u16 \<Rightarrow> FrameType option" where
  "TryParseFrameType raw = find (\<lambda>t. frame_value t = unat raw) all_frames"

definition FrameFlags_None :: u16 where "FrameFlags_None = 0"
definition FrameFlags_ExpectResponse :: u16 where "FrameFlags_ExpectResponse = 1"
definition FrameFlags_Final :: u16 where "FrameFlags_Final = 2"

record FrameHeader =
  fh_version :: u16
  fh_type :: FrameType
  fh_flags :: u16
  fh_payload_bytes :: u32
  fh_checksum :: u32
  fh_sequence :: u64

definition EncodeFrame :: "FrameType \<Rightarrow> u16 \<Rightarrow> u64 \<Rightarrow> string \<Rightarrow> RuntimeLimits \<Rightarrow> bytes Result" where
  "EncodeFrame type flags sequence payload limits =
     (if length payload > max_wire_payload_bytes limits
      then Inl (Status_Limit RC_WireFrameOversize ''frame payload exceeds the envelope'')
      else Inr (kFrameMagic @ AppendU16 kWireProtocolVersion @ AppendU16 (of_nat (frame_value type)) @ AppendU16 flags @
                AppendU16 0 @ AppendU32 (of_nat (length payload)) @ AppendU32 (Crc32 (bytes_of_text payload)) @
                AppendU64 sequence @ bytes_of_text payload))"

definition DecodeFrameHeader :: "bytes \<Rightarrow> RuntimeLimits \<Rightarrow> FrameHeader Result" where
  "DecodeFrameHeader header limits =
     (if length header < kFrameHeaderBytes
      then Inl (Status_Rejected RC_WireFrameTruncated ''the frame header is incomplete'')
      else if take 4 header \<noteq> kFrameMagic
      then Inl (Status_Rejected RC_WireFrameMagicMismatch ''the frame magic does not match'')
      else
        let version = ReadU16 (drop 4 header); raw_type = ReadU16 (drop 6 header); payload_bytes = ReadU32 (drop 12 header) in
        if version \<noteq> kWireProtocolVersion
        then Inl (Status_Rejected RC_WireProtocolVersionUnsupported ''the frame protocol version is not supported'')
        else (case TryParseFrameType raw_type of
          None \<Rightarrow> Inl (Status_Rejected RC_WireFrameTypeUnsupported ''the frame type is not recognized'')
        | Some type \<Rightarrow>
            if unat payload_bytes > max_wire_payload_bytes limits
            then Inl (Status_Limit RC_WireFrameOversize ''the declared payload exceeds the envelope'')
            else Inr \<lparr>fh_version = version, fh_type = type, fh_flags = ReadU16 (drop 8 header), fh_payload_bytes = payload_bytes,
                      fh_checksum = ReadU32 (drop 16 header), fh_sequence = ReadU64 (drop 20 header)\<rparr>))"

definition VerifyFramePayload :: "FrameHeader \<Rightarrow> bytes \<Rightarrow> Status" where
  "VerifyFramePayload header payload =
     (if length payload \<noteq> unat (fh_payload_bytes header)
      then Status_Rejected RC_WireFrameTruncated ''the payload length does not match the header''
      else if Crc32 payload \<noteq> fh_checksum header
      then Status_Rejected RC_WireFrameChecksumMismatch ''the payload checksum does not match the header''
      else Status_Ok)"

section \<open>Payload documents\<close>

record HelloPayload =
  hp_source :: SourceId
  hp_epoch :: FabricEpoch
  hp_incarnation :: Incarnation
  hp_start_sequence :: SourceSequence
  hp_capabilities :: SourceCapabilities
  hp_provenance :: string
  hp_product_version :: string

record HelloAckPayload =
  ha_accepted :: bool
  ha_reason :: ReasonCode
  ha_protocol_version :: u16
  ha_server_epoch :: FabricEpoch
  ha_server_incarnation :: Incarnation
  ha_session_id :: u64
  ha_max_payload_bytes :: u32
  ha_detail :: string

record AckPayload =
  ak_accepted :: bool
  ak_reason :: ReasonCode
  ak_sequence :: SourceSequence
  ak_snapshot :: SnapshotId
  ak_generation :: IntentGeneration
  ak_detail :: string

definition EncodeHello :: "HelloPayload \<Rightarrow> Value" where
  "EncodeHello p =
     V_Map (members_of
       [(''schema'', V_String ''ndo/hello/1''), (''source'', V_String (hp_source p)), (''epoch'', MakeUint (hp_epoch p)),
        (''incarnation'', MakeUint (hp_incarnation p)), (''start_sequence'', MakeUint (hp_start_sequence p)),
        (''provenance'', V_String (hp_provenance p)), (''product_version'', V_String (hp_product_version p)),
        (''capabilities'', encode_capabilities (hp_capabilities p))])"

text \<open>An optional text bounded by the leaf limit.\<close>

definition bounded_text :: "members \<Rightarrow> string \<Rightarrow> RuntimeLimits \<Rightarrow> string \<Rightarrow> string Result" where
  "bounded_text m name limits refusal =
     (case OptionalString m name of
        None \<Rightarrow> Inr []
      | Some s \<Rightarrow> if length s > max_leaf_bytes limits then Inl (Status_Limit RC_LimitBytesExceeded refusal) else Inr s)"

definition decode_capabilities :: "members \<Rightarrow> SourceCapabilities Result" where
  "decode_capabilities m =
     (case FindMember m ''capabilities'' of
        None \<Rightarrow> Inr default_capabilities
      | Some v \<Rightarrow>
          (case as_map v of
             None \<Rightarrow> Inl (MemberError ''hello'' ''capabilities'' ''must be an object'')
           | Some c \<Rightarrow>
               let flags = default_capabilities
                 \<lparr>sc_asserts_absence := or_else (OptionalBool c ''asserts_absence'') (sc_asserts_absence default_capabilities),
                  sc_complete_coverage := or_else (OptionalBool c ''complete_coverage'') (sc_complete_coverage default_capabilities),
                  sc_reports_nested_paths :=
                    or_else (OptionalBool c ''reports_nested_paths'') (sc_reports_nested_paths default_capabilities)\<rparr>
               in (case OptionalString c ''evidence'' of
                     None \<Rightarrow> Inr flags
                   | Some evidence \<Rightarrow>
                       (case TryParseEvidenceClass (c_str evidence) of
                          None \<Rightarrow> Inl (MemberError ''hello.capabilities'' ''evidence'' ''is not recognized'')
                        | Some e \<Rightarrow> Inr (flags\<lparr>sc_evidence := e\<rparr>)))))"

definition DecodeHello :: "RuntimeLimits \<Rightarrow> Value \<Rightarrow> HelloPayload Result" where
  "DecodeHello limits v =
     (case as_map v of
        None \<Rightarrow> Inl (Status_Rejected RC_WireHandshakeRejected ''the hello payload must be an object'')
      | Some m \<Rightarrow>
          bindr (CheckMembers m [''schema'', ''source'', ''epoch'', ''incarnation'', ''start_sequence'', ''provenance'',
                   ''product_version'', ''capabilities''] ''hello'') (\<lambda>_.
          bindr (RequireString m ''source'' ''hello'') (\<lambda>source.
          if StringId_TryParse source = None then Inl (MemberError ''hello'' ''source'' ''is not a valid identity'')
          else
          bindr (RequireUint m ''epoch'' ''hello'') (\<lambda>epoch.
          bindr (RequireUint m ''incarnation'' ''hello'') (\<lambda>incarnation.
          bindr (bounded_text m ''provenance'' limits ''provenance exceeds the envelope'') (\<lambda>provenance.
          bindr (bounded_text m ''product_version'' limits ''product version exceeds the envelope'') (\<lambda>product_version.
          bindr (decode_capabilities m) (\<lambda>capabilities.
          if \<not> uint_is_set epoch \<or> \<not> uint_is_set incarnation
          then Inl (Status_Rejected RC_FencedStaleIncarnation ''hello must declare a positive epoch and incarnation'')
          else Inr \<lparr>hp_source = source, hp_epoch = epoch, hp_incarnation = incarnation,
                    hp_start_sequence = or_else (OptionalUint m ''start_sequence'') 0, hp_capabilities = capabilities,
                    hp_provenance = provenance, hp_product_version = product_version\<rparr>))))))))"

definition EncodeHelloAck :: "HelloAckPayload \<Rightarrow> Value" where
  "EncodeHelloAck p =
     V_Map (members_of
       [(''schema'', V_String ''ndo/hello-ack/1''), (''accepted'', V_Bool (ha_accepted p)),
        (''reason'', V_String (ToText_ReasonCode (ha_reason p))), (''protocol_version'', MakeUint (ucast (ha_protocol_version p))),
        (''server_epoch'', MakeUint (ha_server_epoch p)), (''server_incarnation'', MakeUint (ha_server_incarnation p)),
        (''session_id'', MakeUint (ha_session_id p)), (''max_payload_bytes'', MakeUint (ucast (ha_max_payload_bytes p))),
        (''detail'', V_String (ha_detail p))])"

definition decode_reason :: "members \<Rightarrow> string \<Rightarrow> ReasonCode Result" where
  "decode_reason m what =
     (case OptionalString m ''reason'' of
        None \<Rightarrow> Inr RC_None
      | Some reason \<Rightarrow>
          (case TryParseReasonCode (c_str reason) of
             None \<Rightarrow> Inl (MemberError what ''reason'' ''is not recognized'')
           | Some r \<Rightarrow> Inr r))"

definition DecodeHelloAck :: "Value \<Rightarrow> HelloAckPayload Result" where
  "DecodeHelloAck v =
     (case as_map v of
        None \<Rightarrow> Inl (Status_Rejected RC_WireHandshakeRejected ''the hello acknowledgement must be an object'')
      | Some m \<Rightarrow>
          bindr (decode_reason m ''hello-ack'') (\<lambda>reason.
          Inr \<lparr>ha_accepted = or_else (OptionalBool m ''accepted'') False, ha_reason = reason,
               ha_protocol_version = ucast (or_else (OptionalUint m ''protocol_version'') 0 AND 0xFFFF),
               ha_server_epoch = or_else (OptionalUint m ''server_epoch'') 0,
               ha_server_incarnation = or_else (OptionalUint m ''server_incarnation'') 0,
               ha_session_id = or_else (OptionalUint m ''session_id'') 0,
               ha_max_payload_bytes = ucast (or_else (OptionalUint m ''max_payload_bytes'') 0 AND 0xFFFFFFFF),
               ha_detail = or_else (OptionalString m ''detail'') []\<rparr>))"

definition EncodeAck :: "AckPayload \<Rightarrow> Value" where
  "EncodeAck p =
     V_Map (members_of
       [(''schema'', V_String ''ndo/ack/1''), (''accepted'', V_Bool (ak_accepted p)),
        (''reason'', V_String (ToText_ReasonCode (ak_reason p))), (''sequence'', MakeUint (ak_sequence p)),
        (''snapshot'', V_String (ak_snapshot p)), (''generation'', MakeUint (ak_generation p)), (''detail'', V_String (ak_detail p))])"

definition DecodeAck :: "Value \<Rightarrow> AckPayload Result" where
  "DecodeAck v =
     (case as_map v of
        None \<Rightarrow> Inl (Status_Rejected RC_EncodingMalformed ''the acknowledgement must be an object'')
      | Some m \<Rightarrow>
          bindr (decode_reason m ''ack'') (\<lambda>reason.
          let snapshot = or_else (OptionalString m ''snapshot'') [] in
          if snapshot \<noteq> [] \<and> StringId_TryParse snapshot = None
          then Inl (MemberError ''ack'' ''snapshot'' ''is not a valid identity'')
          else Inr \<lparr>ak_accepted = or_else (OptionalBool m ''accepted'') False, ak_reason = reason,
                    ak_sequence = or_else (OptionalUint m ''sequence'') 0, ak_snapshot = snapshot,
                    ak_generation = or_else (OptionalUint m ''generation'') 0,
                    ak_detail = or_else (OptionalString m ''detail'') []\<rparr>))"

definition EncodeError :: "ReasonCode \<Rightarrow> string \<Rightarrow> Value" where
  "EncodeError reason detail =
     V_Map (members_of
       [(''schema'', V_String ''ndo/error/1''), (''reason'', V_String (ToText_ReasonCode reason)),
        (''domain'', V_String (ReasonCodeDomain reason)), (''detail'', V_String detail)])"

section \<open>Frames are read back as sent\<close>

lemma byte_masks: "(0xFF :: u16) = mask 8" "(0xFF :: u32) = mask 8" "(0xFF :: u64) = mask 8"
  by (simp_all add: mask_eq_exp_minus_1)

lemma ReadU16_Append [simp]: "ReadU16 (AppendU16 v @ r) = v"
  unfolding ReadU16_def AppendU16_def byte_masks
  by (rule bit_word_eqI) (auto simp: bit_simps)

lemma bit_fold_or: "bit (fold (\<lambda>i x. x OR f i) is a) n \<longleftrightarrow> bit a n \<or> (\<exists>i \<in> set is. bit (f i) n)" for a :: "'a::len word"
  by (induction "is" arbitrary: a) (auto simp: bit_or_iff)

text \<open>Reassembling the bytes of a word of \<open>k\<close> bytes.\<close>

lemma reassemble:
  fixes v :: "'a::len word"
  assumes "LENGTH('a) = 8 * k"
  shows "fold (\<lambda>i x. x OR push_bit (8 * i) (drop_bit (8 * i) v AND mask 8)) [0..<k] 0 = v"
proof (rule bit_word_eqI)
  fix n assume n: "n < LENGTH('a)"
  have "n div 8 < k" "8 * (n div 8) \<le> n" "n - 8 * (n div 8) < 8" "8 * (n div 8) + (n - 8 * (n div 8)) = n"
    using n assms by (auto simp: less_mult_imp_div_less mult.commute minus_mult_div_eq_mod)
  moreover have "bit v n" if "bit (push_bit (8 * i) (drop_bit (8 * i) v AND mask 8)) n" for i
    using that by (auto simp: bit_simps)
  ultimately show "bit (fold (\<lambda>i x. x OR push_bit (8 * i) (drop_bit (8 * i) v AND mask 8)) [0..<k] 0) n = bit v n"
    using n by (auto simp: bit_fold_or bit_simps intro!: bexI [of _ "n div 8"])
qed

lemma ReadU32_Append [simp]: "ReadU32 (AppendU32 v @ r) = v"
proof -
  have "ReadU32 (AppendU32 v @ r) = fold (\<lambda>i x. x OR push_bit (8 * i) (drop_bit (8 * i) v AND mask 8)) [0..<4] 0"
    unfolding ReadU32_def AppendU32_def byte_masks
    by (rule fold_cong) (auto simp: nth_append intro!: bit_word_eqI simp: bit_simps)
  also have "\<dots> = v" by (rule reassemble) simp
  finally show ?thesis .
qed

lemma ReadU64_Append [simp]: "ReadU64 (AppendU64 v @ r) = v"
proof -
  have "ReadU64 (AppendU64 v @ r) = fold (\<lambda>i x. x OR push_bit (8 * i) (drop_bit (8 * i) v AND mask 8)) [0..<8] 0"
    unfolding ReadU64_def AppendU64_def byte_masks
    by (rule fold_cong) (auto simp: nth_append intro!: bit_word_eqI simp: bit_simps)
  also have "\<dots> = v" by (rule reassemble) simp
  finally show ?thesis .
qed

lemma field_lengths [simp]: "length (AppendU16 a) = 2" "length (AppendU32 b) = 4" "length (AppendU64 c) = 8" "length kFrameMagic = 4"
  by (simp_all add: AppendU16_def AppendU32_def AppendU64_def kFrameMagic_def)

lemma TryParseFrameType_value [simp]: "TryParseFrameType (of_nat (frame_value t)) = Some t"
  by (cases t) (simp_all add: TryParseFrameType_def all_frames_def)

text \<open>The header an encoded frame carries.\<close>

definition frame_header :: "FrameType \<Rightarrow> u16 \<Rightarrow> u64 \<Rightarrow> string \<Rightarrow> FrameHeader" where
  "frame_header type flags sequence payload =
     \<lparr>fh_version = kWireProtocolVersion, fh_type = type, fh_flags = flags, fh_payload_bytes = of_nat (length payload),
      fh_checksum = Crc32 (bytes_of_text payload), fh_sequence = sequence\<rparr>"

lemma frame_decodes:
  assumes "EncodeFrame type flags sequence payload limits = Inr frame" and "length payload < 2 ^ 32"
  shows "DecodeFrameHeader (take kFrameHeaderBytes frame) limits = Inr (frame_header type flags sequence payload) \<and>
         drop kFrameHeaderBytes frame = bytes_of_text payload \<and>
         unat (fh_payload_bytes (frame_header type flags sequence payload)) = length payload"
proof -
  let ?b = "bytes_of_text payload"
  let ?rest = "AppendU32 (of_nat (length payload)) @ AppendU32 (Crc32 ?b) @ AppendU64 sequence"
  let ?head = "kFrameMagic @ AppendU16 kWireProtocolVersion @ AppendU16 (of_nat (frame_value type)) @ AppendU16 flags @ AppendU16 0 @ ?rest"
  have frame: "frame = ?head @ ?b" and bound: "length payload \<le> max_wire_payload_bytes limits"
    using assms(1) by (auto simp: EncodeFrame_def split: if_splits)
  have len: "length ?head = kFrameHeaderBytes" by (simp add: kFrameHeaderBytes_def)
  have size: "unat (of_nat (length payload) :: u32) = length payload"
    using assms(2) by (simp add: unsigned_of_nat take_bit_nat_eq_self)
  have "take kFrameHeaderBytes frame = ?head" and "drop kFrameHeaderBytes frame = ?b"
    unfolding frame using len by (simp_all flip: len)
  moreover have "DecodeFrameHeader ?head limits = Inr (frame_header type flags sequence payload)"
    using bound size len
    by (simp add: DecodeFrameHeader_def frame_header_def Let_def ReadU32_Append [of _ "[]", simplified]
        ReadU64_Append [of _ "[]", simplified])
  ultimately show ?thesis using size by (simp add: frame_header_def)
qed

lemma payload_verified:
  assumes "length payload < 2 ^ 32" and "i < length payload"
  shows "status_ok (VerifyFramePayload (frame_header type flags sequence payload) ((bytes_of_text payload)[i := x])) \<longleftrightarrow>
    x = bytes_of_text payload ! i"
proof -
  let ?b = "bytes_of_text payload"
  have "Crc32 (take i ?b @ [x] @ drop (Suc i) ?b) = Crc32 (take i ?b @ [?b ! i] @ drop (Suc i) ?b) \<longleftrightarrow> x = ?b ! i"
    by (simp add: Crc32_def xor_cancel_word crc_fold_inj_state crc_byte_inj_byte)
  moreover have "Suc (length payload - Suc 0) = length payload" using assms(2) by simp
  ultimately show ?thesis using assms
    by (simp add: VerifyFramePayload_def frame_header_def upd_conv_take_nth_drop id_take_nth_drop [symmetric] status_ok_def
        mk_status_def unsigned_of_nat take_bit_nat_eq_self)
qed

text \<open>
  C31. A frame is read back as it was sent, and a damaged payload is refused: the header of an encoded
  frame decodes to its type, flags, sequence and payload length, the payload passes verification, and
  no payload that differs from the sent one in exactly one byte or in its length does.
\<close>

theorem frame_roundtrip:
  assumes "EncodeFrame type flags sequence payload limits = Inr frame" and "length payload < 2 ^ 32"
  shows "\<exists>header. DecodeFrameHeader (take kFrameHeaderBytes frame) limits = Inr header \<and>
           fh_type header = type \<and> fh_flags header = flags \<and> fh_sequence header = sequence \<and>
           unat (fh_payload_bytes header) = length payload \<and> drop kFrameHeaderBytes frame = bytes_of_text payload \<and>
           status_ok (VerifyFramePayload header (drop kFrameHeaderBytes frame)) \<and>
           list_all (\<lambda>i. \<forall>b. status_ok (VerifyFramePayload header ((bytes_of_text payload)[i := b])) = (b = bytes_of_text payload ! i))
             [0..<length payload] \<and>
           (\<forall>p. length p \<noteq> length payload \<longrightarrow> \<not> status_ok (VerifyFramePayload header p))"
proof -
  let ?h = "frame_header type flags sequence payload"
  note d = frame_decodes [OF assms]
  have "status_ok (VerifyFramePayload ?h (bytes_of_text payload))"
    using d by (simp add: VerifyFramePayload_def frame_header_def status_ok_def mk_status_def)
  moreover have "list_all (\<lambda>i. \<forall>b. status_ok (VerifyFramePayload ?h ((bytes_of_text payload)[i := b])) = (b = bytes_of_text payload ! i))
      [0..<length payload]"
    using payload_verified [OF assms(2)] by (simp add: list_all_iff)
  moreover have "\<not> status_ok (VerifyFramePayload ?h p)" if "length p \<noteq> length payload" for p
    using d that by (simp add: VerifyFramePayload_def status_ok_def mk_status_def)
  ultimately show ?thesis using d by (intro exI [of _ ?h]) (auto simp: frame_header_def)
qed

theorem frame_roundtrip_witness:
  "let frame = (case EncodeFrame FT_Snapshot 1 7 ''abc'' default_limits of Inr f \<Rightarrow> f | Inl _ \<Rightarrow> [])
   in \<exists>header. DecodeFrameHeader (take kFrameHeaderBytes frame) default_limits = Inr header \<and> fh_type header = FT_Snapshot"
proof -
  obtain frame where "EncodeFrame FT_Snapshot 1 7 ''abc'' default_limits = Inr frame"
    by (simp add: EncodeFrame_def default_limits_def)
  with frame_roundtrip [OF this] show ?thesis by auto
qed

section \<open>Payload documents are inverse pairs\<close>

lemma decode_capabilities_encode:
  "FindMember m ''capabilities'' = Some (encode_capabilities c) \<Longrightarrow> decode_capabilities m = Inr c"
  by (simp add: decode_capabilities_def encode_capabilities_def reader_simps or_else_def default_capabilities_def)

text \<open>What a collector must declare for the handshake to be possible.\<close>

definition hello_ok :: "RuntimeLimits \<Rightarrow> HelloPayload \<Rightarrow> bool" where
  "hello_ok limits p \<longleftrightarrow>
     IsValidIdentityText (hp_source p) \<and> uint_is_set (hp_epoch p) \<and> uint_is_set (hp_incarnation p) \<and>
     length (hp_provenance p) \<le> max_leaf_bytes limits \<and> length (hp_product_version p) \<le> max_leaf_bytes limits"

lemma DecodeHello_Encode: "hello_ok limits p \<Longrightarrow> DecodeHello limits (EncodeHello p) = Inr p"
  by (simp add: DecodeHello_def EncodeHello_def hello_ok_def reader_simps bounded_text_def StringId_TryParse_def or_else_def
      decode_capabilities_encode)

lemma narrow_u16: "ucast (ucast v AND 0xFFFF :: u64) = v" for v :: u16
proof -
  have "(0xFFFF :: u64) = mask 16" by (simp add: mask_eq_exp_minus_1)
  show ?thesis unfolding \<open>0xFFFF = mask 16\<close> by (auto intro!: bit_word_eqI simp: bit_simps)
qed

lemma narrow_u32: "ucast (ucast v AND 0xFFFFFFFF :: u64) = v" for v :: u32
proof -
  have "(0xFFFFFFFF :: u64) = mask 32" by (simp add: mask_eq_exp_minus_1)
  show ?thesis unfolding \<open>0xFFFFFFFF = mask 32\<close> by (auto intro!: bit_word_eqI simp: bit_simps)
qed

lemma DecodeHelloAck_Encode: "DecodeHelloAck (EncodeHelloAck p) = Inr p"
  by (simp add: DecodeHelloAck_def EncodeHelloAck_def reader_simps decode_reason_def or_else_def narrow_u16 narrow_u32)

lemma DecodeAck_Encode: "ak_snapshot p = [] \<or> IsValidIdentityText (ak_snapshot p) \<Longrightarrow> DecodeAck (EncodeAck p) = Inr p"
  by (auto simp: DecodeAck_def EncodeAck_def reader_simps decode_reason_def or_else_def StringId_TryParse_def Let_def)

section \<open>A document over the wire\<close>

definition text_of_bytes :: "bytes \<Rightarrow> string" where
  "text_of_bytes b = map (\<lambda>x. char_of (unat x)) b"

lemma text_of_bytes_inverse [simp]: "text_of_bytes (bytes_of_text s) = s"
proof -
  have "char_of (unat (byte_of_char c)) = c" for c
    by (simp add: byte_of_char_def unsigned_of_nat take_bit_nat_eq_self)
  then show ?thesis by (induction s) (simp_all add: text_of_bytes_def bytes_of_text_def)
qed

text \<open>What a receiver does with the bytes of one frame: header, payload checks, document.\<close>

definition receive_document :: "(string \<Rightarrow> u64 option) \<Rightarrow> RuntimeLimits \<Rightarrow> bytes \<Rightarrow> (FrameHeader \<times> Value) Result" where
  "receive_document fc limits frame =
     bindr (DecodeFrameHeader (take kFrameHeaderBytes frame) limits) (\<lambda>header.
       let payload = drop kFrameHeaderBytes frame; status = VerifyFramePayload header payload in
       if \<not> status_ok status then Inl status
       else bindr (ParseJson fc limits (text_of_bytes payload)) (\<lambda>v. Inr (header, v)))"

definition sendable :: "(u64 \<Rightarrow> string option) \<Rightarrow> (string \<Rightarrow> u64 option) \<Rightarrow> RuntimeLimits \<Rightarrow> Value \<Rightarrow> bool" where
  "sendable tc fc limits v \<longleftrightarrow>
     writable tc fc limits v \<and> length (WriteCanonicalJson tc v) \<le> max_wire_payload_bytes limits \<and>
     length (WriteCanonicalJson tc v) < 2 ^ 32"

lemma document_received:
  assumes "sendable tc fc limits v"
  shows "bindr (EncodeFrame type flags sequence (WriteCanonicalJson tc v) limits) (receive_document fc limits) =
    Inr (frame_header type flags sequence (WriteCanonicalJson tc v), v)"
proof -
  let ?t = "WriteCanonicalJson tc v"
  obtain frame where f: "EncodeFrame type flags sequence ?t limits = Inr frame"
    using assms by (simp add: EncodeFrame_def sendable_def)
  have "length ?t < 2 ^ 32" using assms by (simp add: sendable_def)
  note d = frame_decodes [OF f this]
  have "ParseJson fc limits ?t = Inr v" using assms by (simp add: sendable_def ParseJson_Write)
  moreover have "status_ok (VerifyFramePayload (frame_header type flags sequence ?t) (bytes_of_text ?t))"
    using d by (simp add: VerifyFramePayload_def frame_header_def status_ok_def mk_status_def)
  ultimately show ?thesis using d f by (simp add: receive_document_def Let_def)
qed

text \<open>Every codec whose documents fit a frame works over the wire.\<close>

context document_codec
begin

lemma over_the_wire:
  "valid x \<Longrightarrow> sendable tc fc limits (encode x) \<Longrightarrow>
     bindr (bindr (EncodeFrame type flags sequence (WriteCanonicalJson tc (encode x)) limits) (receive_document fc limits))
       (\<lambda>(header, v). bindr (decode v) (\<lambda>p. Inr (fh_type header, p))) = Inr (type, x)"
  by (simp add: document_received decode_encode frame_header_def)

end

interpretation hello_codec: document_codec EncodeHello "DecodeHello limits" "hello_ok limits" for limits
  by unfold_locales (rule DecodeHello_Encode)

interpretation hello_ack_codec: document_codec EncodeHelloAck DecodeHelloAck "\<lambda>_. True"
  by unfold_locales (rule DecodeHelloAck_Encode)

definition ack_ok :: "AckPayload \<Rightarrow> bool" where
  "ack_ok p \<longleftrightarrow> ak_snapshot p = [] \<or> IsValidIdentityText (ak_snapshot p)"

interpretation ack_codec: document_codec EncodeAck DecodeAck ack_ok
  by unfold_locales (simp add: DecodeAck_Encode ack_ok_def)

text \<open>
  The handshake survives the wire: a greeting with a valid identity, written as a document, framed,
  checked, parsed and decoded by the receiver, is the greeting that was sent; the same holds for the
  server's greeting and for acknowledgements, with no condition on what a reason code or a counter holds.
\<close>

theorem handshake_over_the_wire:
  assumes "sendable tc fc limits (EncodeHello hello)" and "hello_ok limits hello"
    and "sendable tc fc limits (EncodeHelloAck answer)"
    and "sendable tc fc limits (EncodeAck ack)" and "ack_ok ack"
  shows "bindr (bindr (EncodeFrame FT_Hello flags sequence (WriteCanonicalJson tc (EncodeHello hello)) limits) (receive_document fc limits))
           (\<lambda>(header, v). bindr (DecodeHello limits v) (\<lambda>p. Inr (fh_type header, p))) = Inr (FT_Hello, hello) \<and>
         bindr (bindr (EncodeFrame FT_HelloAck flags sequence (WriteCanonicalJson tc (EncodeHelloAck answer)) limits) (receive_document fc limits))
           (\<lambda>(header, v). bindr (DecodeHelloAck v) (\<lambda>p. Inr (fh_type header, p))) = Inr (FT_HelloAck, answer) \<and>
         bindr (bindr (EncodeFrame FT_SnapshotAck flags sequence (WriteCanonicalJson tc (EncodeAck ack)) limits) (receive_document fc limits))
           (\<lambda>(header, v). bindr (DecodeAck v) (\<lambda>p. Inr (fh_type header, p))) = Inr (FT_SnapshotAck, ack)"
  using assms by (intro conjI hello_codec.over_the_wire hello_ack_codec.over_the_wire ack_codec.over_the_wire TrueI)

definition example_hello :: HelloPayload where
  "example_hello =
     \<lparr>hp_source = ''collector'', hp_epoch = 1, hp_incarnation = 2, hp_start_sequence = 0, hp_capabilities = default_capabilities,
      hp_provenance = [], hp_product_version = ''1''\<rparr>"

definition example_answer :: HelloAckPayload where
  "example_answer =
     \<lparr>ha_accepted = True, ha_reason = RC_None, ha_protocol_version = 1, ha_server_epoch = 1, ha_server_incarnation = 2,
      ha_session_id = 3, ha_max_payload_bytes = 9, ha_detail = []\<rparr>"

definition example_ack :: AckPayload where
  "example_ack =
     \<lparr>ak_accepted = True, ak_reason = RC_None, ak_sequence = 5, ak_snapshot = [], ak_generation = 0, ak_detail = []\<rparr>"

lemmas document_simps = EncodeHello_def EncodeHelloAck_def EncodeAck_def written_simps

lemma example_hello_sendable: "sendable (\<lambda>_. None) (\<lambda>_. None) default_limits (EncodeHello example_hello)"
  by (simp add: sendable_def example_hello_def document_simps)

lemma none_text: "ToText_ReasonCode RC_None = ''None''"
  by (simp add: ToText_ReasonCode_def kReasonNames_def)

lemma example_answer_sendable: "sendable (\<lambda>_. None) (\<lambda>_. None) default_limits (EncodeHelloAck example_answer)"
  by (simp add: sendable_def example_answer_def document_simps none_text)

lemma example_ack_sendable: "sendable (\<lambda>_. None) (\<lambda>_. None) default_limits (EncodeAck example_ack)"
  by (simp add: sendable_def example_ack_def document_simps none_text)

theorem handshake_over_the_wire_witness:
  "bindr (bindr (EncodeFrame FT_Hello 1 0 (WriteCanonicalJson (\<lambda>_. None) (EncodeHello example_hello)) default_limits)
       (receive_document (\<lambda>_. None) default_limits))
     (\<lambda>(header, v). bindr (DecodeHello default_limits v) (\<lambda>p. Inr (fh_type header, p))) = Inr (FT_Hello, example_hello)"
proof -
  have "IsValidIdentityText ''collector''" by code_simp
  then have "hello_ok default_limits example_hello"
    by (simp add: hello_ok_def example_hello_def uint_is_set_def default_limits_def)
  from handshake_over_the_wire [OF example_hello_sendable this example_answer_sendable example_ack_sendable, of 1 0]
  show ?thesis by (simp add: example_ack_def ack_ok_def)
qed

end
