(* ===== verification/NDO_Transport.thy ===== *)
theory NDO_Transport
  imports NDO_Wire
begin

text \<open>
  Byte streams and frames on a socket (\<^verbatim>\<open>SendAll\<close>, \<^verbatim>\<open>ReceiveSome\<close> and \<^verbatim>\<open>ReceiveExact\<close> of \<^verbatim>\<open>net.cpp\<close>, and the frame
  readers of \<^verbatim>\<open>server.cpp\<close> and \<^verbatim>\<open>client.cpp\<close>).  What the operating system does is a script carried by the socket:
  what each receive call finds, and what each send call returns, with the text of the error it leaves.  Every script is allowed: segments of
  any size, short writes, timeouts, resets.
\<close>

section \<open>Sockets\<close>

datatype rx = RX_Data bytes | RX_Closed | RX_Timeout | RX_Failed string

record Socket =
  so_open :: bool
  so_incoming :: "rx list"
  so_sends :: "(int \<times> string) list"
  so_sent :: bytes

definition kMaxChunk :: nat where
  "kMaxChunk = 0x7FFFFFFF"

text \<open>
  One receive call.  No bytes is an orderly close; an exhausted script is a closed peer.
\<close>

definition ReceiveSome :: "nat \<Rightarrow> Socket \<Rightarrow> bytes Result \<times> Socket" where
  "ReceiveSome room so =
     (if \<not> so_open so then (Inl (Status_Rejected RC_WireSessionClosed ''the socket is not open''), so)
      else case so_incoming so of
        [] \<Rightarrow> (Inr [], so)
      | RX_Closed # r \<Rightarrow> (Inr [], so)
      | RX_Timeout # r \<Rightarrow>
          (Inl (Status_Rejected RC_WireSessionIdleExpired ''the session idle deadline expired''), so\<lparr>so_incoming := r\<rparr>)
      | RX_Failed e # r \<Rightarrow> (Inl (Status_Rejected RC_WireSessionClosed (''receive failed: '' @ e)), so\<lparr>so_incoming := r\<rparr>)
      | RX_Data b # r \<Rightarrow>
          let n = min room kMaxChunk
          in (Inr (take n b), so\<lparr>so_incoming := (if drop n b = [] then r else RX_Data (drop n b) # r)\<rparr>))"

text \<open>The loop that fills a buffer; the refusal is the answer to a close in the middle.\<close>

function receive_loop :: "Status \<Rightarrow> nat \<Rightarrow> Socket \<Rightarrow> bytes Result \<times> Socket" where
  "receive_loop refusal room so =
     (if room = 0 then (Inr [], so)
      else case ReceiveSome room so of
        (Inl status, so') \<Rightarrow> (Inl status, so')
      | (Inr b, so') \<Rightarrow>
          if b = [] then (Inl refusal, so')
          else case receive_loop refusal (room - length b) so' of
                 (Inl status, so'') \<Rightarrow> (Inl status, so'')
               | (Inr c, so'') \<Rightarrow> (Inr (b @ c), so''))"
  by pat_completeness auto
termination by (relation "measure (\<lambda>(_, room, _). room)") auto

declare receive_loop.simps [simp del]

definition ReceiveExact :: "nat \<Rightarrow> Socket \<Rightarrow> bytes Result \<times> Socket" where
  "ReceiveExact = receive_loop (Status_Rejected RC_WireFrameTruncated ''the peer closed before the frame was complete'')"

text \<open>Sending: each call takes as many bytes as the script says, at least one or the send has failed.\<close>

definition send_failed :: "string \<Rightarrow> Status" where
  "send_failed e = Status_Rejected RC_WireSessionClosed (''send failed: '' @ e)"

primrec send_loop :: "(int \<times> string) list \<Rightarrow> bytes \<Rightarrow> bytes \<Rightarrow> Status \<times> (int \<times> string) list \<times> bytes" where
  "send_loop [] sent data = (if data = [] then Status_Ok else send_failed [], [], sent)"
| "send_loop (x # sends) sent data =
     (if data = [] then (Status_Ok, x # sends, sent)
      else if fst x \<le> 0 then (send_failed (snd x), sends, sent)
      else let n = min (nat (fst x)) (min (length data) kMaxChunk) in send_loop sends (sent @ take n data) (drop n data))"

definition SendAll :: "bytes \<Rightarrow> Socket \<Rightarrow> Status \<times> Socket" where
  "SendAll data so =
     (if \<not> so_open so then (Status_Rejected RC_WireSessionClosed ''the socket is not open'', so)
      else let (status, sends, sent) = send_loop (so_sends so) (so_sent so) data
           in (status, so\<lparr>so_sends := sends, so_sent := sent\<rparr>))"

definition Socket_Close :: "Socket \<Rightarrow> Socket" where
  "Socket_Close so = so\<lparr>so_open := False\<rparr>"

section \<open>Frames on a socket\<close>

text \<open>The body of a frame after its header bytes, as both readers handle it.\<close>

definition read_payload :: "RuntimeLimits \<Rightarrow> bytes \<Rightarrow> Socket \<Rightarrow> (FrameHeader \<times> bytes) Result \<times> Socket" where
  "read_payload limits raw_header so =
     (case DecodeFrameHeader raw_header limits of
        Inl status \<Rightarrow> (Inl status, so)
      | Inr header \<Rightarrow>
          (case ReceiveExact (unat (fh_payload_bytes header)) so of
             (Inl status, so) \<Rightarrow> (Inl status, so)
           | (Inr payload, so) \<Rightarrow>
               let status = VerifyFramePayload header payload
               in (if status_ok status then Inr (header, payload) else Inl status, so)))"

text \<open>The server's reader: a close between frames is the end of the session, a close inside one is not.\<close>

definition ReadFrame_server :: "RuntimeLimits \<Rightarrow> Socket \<Rightarrow> (FrameHeader \<times> bytes) Result \<times> Socket" where
  "ReadFrame_server limits so =
     (case ReceiveSome kFrameHeaderBytes so of
        (Inl status, so) \<Rightarrow> (Inl status, so)
      | (Inr b, so) \<Rightarrow>
          if b = [] then (Inl (Status_Rejected RC_WireSessionClosed ''the peer closed the session''), so)
          else case receive_loop (Status_Rejected RC_WireFrameTruncated ''the frame header is truncated'')
                      (kFrameHeaderBytes - length b) so of
                 (Inl status, so) \<Rightarrow> (Inl status, so)
               | (Inr c, so) \<Rightarrow> read_payload limits (b @ c) so)"

definition ReadFrame_client :: "RuntimeLimits \<Rightarrow> Socket \<Rightarrow> (FrameHeader \<times> bytes) Result \<times> Socket" where
  "ReadFrame_client limits so =
     (case ReceiveExact kFrameHeaderBytes so of
        (Inl status, so) \<Rightarrow> (Inl status, so)
      | (Inr raw_header, so) \<Rightarrow> read_payload limits raw_header so)"

section \<open>Streams\<close>

text \<open>The bytes that arrive before anything but data does.\<close>

fun arriving :: "rx list \<Rightarrow> bytes" where
  "arriving (RX_Data b # r) = (if b = [] then [] else b @ arriving r)"
| "arriving _ = []"

definition stream :: "Socket \<Rightarrow> bytes" where
  "stream so = arriving (so_incoming so)"

text \<open>Everything a socket may still deliver, which every reader consumes.\<close>

fun pending :: "rx list \<Rightarrow> nat" where
  "pending [] = 0"
| "pending (RX_Data b # r) = length b + pending r"
| "pending (_ # r) = pending r"

lemma ReceiveSome_cases:
  assumes "ReceiveSome n so = (r, so')"
  obtains (refused) status inc where "r = Inl status" "so' = so\<lparr>so_incoming := inc\<rparr>" "pending inc \<le> pending (so_incoming so)"
  | (closed) "r = Inr []" "so' = so"
  | (data) b rest where "so_open so" "so_incoming so = RX_Data b # rest" "r = Inr (take (min n kMaxChunk) b)"
      "so' = so\<lparr>so_incoming := (if drop (min n kMaxChunk) b = [] then rest else RX_Data (drop (min n kMaxChunk) b) # rest)\<rparr>"
proof (cases "so_open so")
  case False
  with assms show thesis by (auto simp: ReceiveSome_def intro: refused [of _ "so_incoming so"])
next
  case True
  show thesis
  proof (cases "so_incoming so")
    case Nil
    with assms True show thesis by (intro closed) (simp_all add: ReceiveSome_def)
  next
    case (Cons x rest)
    show thesis
    proof (cases x)
      case (RX_Data b)
      with assms True Cons show thesis by (intro data) (auto simp: ReceiveSome_def Let_def)
    next
      case RX_Closed
      with assms True Cons show thesis by (intro closed) (simp_all add: ReceiveSome_def)
    next
      case RX_Timeout
      with assms True Cons show thesis by (auto simp: ReceiveSome_def intro: refused [of _ rest])
    next
      case (RX_Failed e)
      with assms True Cons show thesis by (auto simp: ReceiveSome_def intro: refused [of _ rest])
    qed
  qed
qed

text \<open>Receiving changes what is still to come and nothing else, and takes no more than there is.\<close>

definition receives :: "Socket \<Rightarrow> nat \<Rightarrow> Socket \<Rightarrow> bool" where
  "receives so n so' \<longleftrightarrow>
     so_open so' = so_open so \<and> so_sends so' = so_sends so \<and> so_sent so' = so_sent so \<and>
     pending (so_incoming so') + n \<le> pending (so_incoming so)"

lemma receives_trans: "receives a m b \<Longrightarrow> receives b n c \<Longrightarrow> receives a (m + n) c"
  by (simp add: receives_def)

lemma ReceiveSome_receives:
  assumes "ReceiveSome n so = (r, so')"
  shows "receives so (case r of Inl _ \<Rightarrow> 0 | Inr b \<Rightarrow> length b) so'"
  using assms
proof (cases rule: ReceiveSome_cases)
  case (data b rest)
  then show ?thesis by (auto simp: receives_def min_def split: if_splits)
qed (simp_all add: receives_def)

text \<open>The loop in one step.\<close>

lemma receive_loop_step:
  "receive_loop e 0 so = (Inr [], so)"
  "n \<noteq> 0 \<Longrightarrow> ReceiveSome n so = (Inl status, so') \<Longrightarrow> receive_loop e n so = (Inl status, so')"
  "n \<noteq> 0 \<Longrightarrow> ReceiveSome n so = (Inr [], so') \<Longrightarrow> receive_loop e n so = (Inl e, so')"
  "n \<noteq> 0 \<Longrightarrow> ReceiveSome n so = (Inr b, so') \<Longrightarrow> b \<noteq> [] \<Longrightarrow>
     receive_loop e n so =
       (case receive_loop e (n - length b) so' of (Inl status, t) \<Rightarrow> (Inl status, t) | (Inr c, t) \<Rightarrow> (Inr (b @ c), t))"
  by (simp_all add: receive_loop.simps [of e n] receive_loop.simps [of e 0])

lemma ReceiveSome_bounded: "ReceiveSome n so = (Inr b, so') \<Longrightarrow> length b \<le> n"
  by (erule ReceiveSome_cases) auto

lemma receive_loop_receives:
  "receive_loop e n so = (r, so') \<Longrightarrow>
     receives so (case r of Inl _ \<Rightarrow> 0 | Inr b \<Rightarrow> n) so' \<and> (case r of Inl _ \<Rightarrow> True | Inr b \<Rightarrow> length b = n)"
proof (induction n arbitrary: so r so' rule: less_induct)
  case (less n)
  obtain q s where q: "ReceiveSome n so = (q, s)" by fastforce
  note first = ReceiveSome_receives [OF q]
  show ?case
  proof (cases "n = 0")
    case True
    then show ?thesis using less.prems by (auto simp: receive_loop_step receives_def)
  next
    case False
    show ?thesis
    proof (cases q)
      case (Inl status)
      then show ?thesis using less.prems first receive_loop_step(2) [OF False q [unfolded Inl]] by auto
    next
      case (Inr b)
      show ?thesis
      proof (cases "b = []")
        case True
        then show ?thesis using less.prems first Inr receive_loop_step(3) [OF False, of so s] q by auto
      next
        case live: False
        obtain r' s' where rest: "receive_loop e (n - length b) s = (r', s')" by fastforce
        have b: "length b \<le> n" using ReceiveSome_bounded q Inr by blast
        have "so' = s' \<and> r = (case r' of Inl status \<Rightarrow> Inl status | Inr c \<Rightarrow> Inr (b @ c))"
          using less.prems receive_loop_step(4) [OF False q [unfolded Inr] live] rest by (auto split: sum.splits)
        moreover have "n - length b < n" using live False by simp
        ultimately show ?thesis
          using less.IH [OF _ rest] first Inr b by (auto simp: receives_def split: sum.splits)
      qed
    qed
  qed
qed

section \<open>Segmentation is invisible\<close>

lemma ReceiveSome_stream:
  assumes "so_open so" "stream so \<noteq> []" "0 < n"
  obtains b so' where "ReceiveSome n so = (Inr b, so')" "b \<noteq> []" "length b \<le> n" "stream so = b @ stream so'" "so_open so'"
proof -
  obtain b rest where inc: "so_incoming so = RX_Data b # rest" "b \<noteq> []"
    using assms(2) by (cases "so_incoming so" rule: arriving.cases) (auto simp: stream_def split: if_splits)
  let ?n = "min n kMaxChunk"
  let ?so = "so\<lparr>so_incoming := (if drop ?n b = [] then rest else RX_Data (drop ?n b) # rest)\<rparr>"
  have "0 < ?n" using assms(3) by (simp add: kMaxChunk_def)
  have "ReceiveSome n so = (Inr (take ?n b), ?so)" using assms(1) inc by (simp add: ReceiveSome_def Let_def)
  then show thesis
    by (rule that) (use \<open>0 < ?n\<close> inc assms(1) in \<open>auto simp: stream_def\<close>)
qed

lemma receive_loop_stream:
  "so_open so \<Longrightarrow> stream so = data @ rest \<Longrightarrow> length data = n \<Longrightarrow>
     \<exists>so'. receive_loop e n so = (Inr data, so') \<and> stream so' = rest \<and> so_open so'"
proof (induction n arbitrary: so data rule: less_induct)
  case (less n)
  show ?case
  proof (cases "n = 0")
    case True
    with less.prems show ?thesis by (simp add: receive_loop_step)
  next
    case False
    with less.prems have "stream so \<noteq> []" by auto
    then obtain b s where b: "ReceiveSome n so = (Inr b, s)" "b \<noteq> []" "length b \<le> n" "stream so = b @ stream s" "so_open s"
      using ReceiveSome_stream less.prems(1) False by (metis gr0I)
    then obtain c where c: "data = b @ c" "stream s = c @ rest" using less.prems by (auto simp: append_eq_append_conv2)
    have "n - length b < n" "length c = n - length b" using b(2) False c less.prems(3) by auto
    from less.IH [OF this(1) b(5) c(2) this(2)] obtain so' where
      "receive_loop e (n - length b) s = (Inr c, so')" "stream so' = rest" "so_open so'" by blast
    then show ?thesis using receive_loop_step(4) [OF False b(1,2), of e] c(1) by simp
  qed
qed

lemma read_payload_receives:
  "read_payload limits raw so = (Inr frame, so') \<Longrightarrow> receives so 0 so'"
  by (auto simp: read_payload_def ReceiveExact_def Let_def receives_def split: sum.splits prod.splits if_splits
      dest!: receive_loop_receives)

text \<open>A reader that returns a frame has taken at least its header from the socket.\<close>

lemma ReadFrame_server_receives:
  assumes "ReadFrame_server limits so = (Inr frame, so')"
  shows "receives so kFrameHeaderBytes so'"
proof -
  obtain b s c t where q: "ReceiveSome kFrameHeaderBytes so = (Inr b, s)"
    and l: "receive_loop (Status_Rejected RC_WireFrameTruncated ''the frame header is truncated'') (kFrameHeaderBytes - length b) s = (Inr c, t)"
    and p: "read_payload limits (b @ c) t = (Inr frame, so')"
    using assms by (auto simp: ReadFrame_server_def split: sum.splits prod.splits if_splits)
  have "receives so (length b + (kFrameHeaderBytes - length b) + 0) so'"
    using ReceiveSome_receives [OF q] receive_loop_receives [OF l] read_payload_receives [OF p] by (auto simp: receives_def)
  then show ?thesis using ReceiveSome_bounded [OF q] by simp
qed

lemma read_payload_stream:
  assumes "EncodeFrame type flags sequence payload limits = Inr frame" "length payload < 2 ^ 32"
    and "so_open so" "stream so = bytes_of_text payload @ rest"
  shows "\<exists>so'. read_payload limits (take kFrameHeaderBytes frame) so = (Inr (frame_header type flags sequence payload, bytes_of_text payload), so') \<and>
    stream so' = rest \<and> so_open so'"
proof -
  note d = frame_decodes [OF assms(1,2)]
  obtain so' where so': "ReceiveExact (length payload) so = (Inr (bytes_of_text payload), so')" "stream so' = rest" "so_open so'"
    using receive_loop_stream [OF assms(3,4)] unfolding ReceiveExact_def by fastforce
  have "status_ok (VerifyFramePayload (frame_header type flags sequence payload) (bytes_of_text payload))"
    using d by (simp add: VerifyFramePayload_def frame_header_def status_ok_def mk_status_def)
  then show ?thesis using d so' by (simp add: read_payload_def Let_def)
qed

lemma frame_split:
  assumes "EncodeFrame type flags sequence payload limits = Inr frame" "length payload < 2 ^ 32"
  shows "frame = take kFrameHeaderBytes frame @ bytes_of_text payload" "length (take kFrameHeaderBytes frame) = kFrameHeaderBytes"
proof -
  have d: "drop kFrameHeaderBytes frame = bytes_of_text payload" using frame_decodes [OF assms] by blast
  then show "frame = take kFrameHeaderBytes frame @ bytes_of_text payload" by (metis append_take_drop_id)
  show "length (take kFrameHeaderBytes frame) = kFrameHeaderBytes"
    using assms(1) by (auto simp: EncodeFrame_def kFrameHeaderBytes_def split: if_splits)
qed

lemma ReadFrame_client_stream:
  assumes "EncodeFrame type flags sequence payload limits = Inr frame" "length payload < 2 ^ 32"
    and "so_open so" "stream so = frame @ rest"
  shows "\<exists>so'. ReadFrame_client limits so = (Inr (frame_header type flags sequence payload, bytes_of_text payload), so') \<and>
    stream so' = rest \<and> so_open so'"
proof -
  have "stream so = take kFrameHeaderBytes frame @ bytes_of_text payload @ rest"
    using assms(4) frame_split(1) [OF assms(1,2)] by (metis append.assoc)
  from receive_loop_stream [OF assms(3) this frame_split(2) [OF assms(1,2)]] obtain s where
    s: "ReceiveExact kFrameHeaderBytes so = (Inr (take kFrameHeaderBytes frame), s)" "stream s = bytes_of_text payload @ rest" "so_open s"
    unfolding ReceiveExact_def by blast
  from read_payload_stream [OF assms(1,2) s(3,2)] s(1) show ?thesis by (simp add: ReadFrame_client_def)
qed

lemma ReadFrame_server_stream:
  assumes "EncodeFrame type flags sequence payload limits = Inr frame" "length payload < 2 ^ 32"
    and "so_open so" "stream so = frame @ rest"
  shows "\<exists>so'. ReadFrame_server limits so = (Inr (frame_header type flags sequence payload, bytes_of_text payload), so') \<and>
    stream so' = rest \<and> so_open so'"
proof -
  let ?h = "take kFrameHeaderBytes frame"
  have str: "stream so = ?h @ bytes_of_text payload @ rest"
    using assms(4) frame_split(1) [OF assms(1,2)] by (metis append.assoc)
  note len = frame_split(2) [OF assms(1,2)]
  then have "stream so \<noteq> []" using str by (auto simp: kFrameHeaderBytes_def)
  then obtain b s where b: "ReceiveSome kFrameHeaderBytes so = (Inr b, s)" "b \<noteq> []" "length b \<le> kFrameHeaderBytes"
    "stream so = b @ stream s" "so_open s"
    using ReceiveSome_stream [OF assms(3), of kFrameHeaderBytes] by (auto simp: kFrameHeaderBytes_def)
  define c where "c = drop (length b) ?h"
  have "take (length b) ?h = b" using b(3,4) str len by (metis append_eq_conv_conj take_append diff_is_0_eq' take0 append_Nil2)
  then have c: "?h = b @ c" by (metis append_take_drop_id c_def)
  then have "stream s = c @ bytes_of_text payload @ rest" using str b(4) by simp
  note c = c this
  have "length c = kFrameHeaderBytes - length b" using c(1) len by (metis add_diff_cancel_left' length_append)
  from receive_loop_stream [OF b(5) c(2) this] obtain t where
    "receive_loop (Status_Rejected RC_WireFrameTruncated ''the frame header is truncated'') (kFrameHeaderBytes - length b) s = (Inr c, t)"
    "stream t = bytes_of_text payload @ rest" "so_open t" by blast
  moreover from read_payload_stream [OF assms(1,2) this(3,2)] c(1) show ?thesis
    using b(1,2) calculation by (simp add: ReadFrame_server_def)
qed

section \<open>Sending\<close>

lemma send_loop_whole:
  assumes "0 < fst x" "length data \<le> nat (fst x)" "length data \<le> kMaxChunk" "data \<noteq> []"
  shows "send_loop (x # sends) sent data = (Status_Ok, sends, sent @ data)"
  using assms by (cases sends) (simp_all add: Let_def)

text \<open>A send that reports success has delivered exactly the bytes, in order, whatever the short writes were.\<close>

lemma send_loop_delivers: "send_loop sends sent data = (status, sends', sent') \<Longrightarrow> status_ok status \<Longrightarrow> sent' = sent @ data"
proof (induction sends arbitrary: sent data)
  case Nil
  then show ?case by (auto simp: send_failed_def status_ok_def mk_status_def split: if_splits)
next
  case (Cons x sends)
  show ?case
  proof (cases "data = [] \<or> fst x \<le> 0")
    case True
    then show ?thesis using Cons.prems by (auto simp: send_failed_def status_ok_def mk_status_def split: if_splits)
  next
    case False
    let ?n = "min (nat (fst x)) (min (length data) kMaxChunk)"
    have "send_loop sends (sent @ take ?n data) (drop ?n data) = (status, sends', sent')"
      using False Cons.prems(1) by (simp add: Let_def)
    from Cons.IH [OF this Cons.prems(2)] show ?thesis by simp
  qed
qed

lemma SendAll_delivers: "SendAll data so = (status, so') \<Longrightarrow> status_ok status \<Longrightarrow> so_sent so' = so_sent so @ data"
  by (auto simp: SendAll_def status_ok_def mk_status_def split: if_splits prod.splits dest!: send_loop_delivers [unfolded status_ok_def])

lemma SendAll_frame: "SendAll data so = (status, so') \<Longrightarrow> so_open so' = so_open so \<and> so_incoming so' = so_incoming so"
  by (auto simp: SendAll_def split: if_splits prod.splits)

text \<open>
  C32. Segmentation is invisible.  However the network splits, delays or joins the bytes of a frame that
  was sent, and whatever follows it, the server's and the client's reader return exactly that frame's
  header and payload and leave the socket at the first byte behind it; and a sender that reports success
  has delivered exactly the bytes it was given.
\<close>

theorem frames_survive_segmentation:
  assumes "EncodeFrame type flags sequence payload limits = Inr frame" "length payload < 2 ^ 32"
    and "so_open so" "stream so = frame @ rest" "SendAll frame peer = (status, peer')" "status_ok status"
  shows "(\<exists>so'. ReadFrame_server limits so = (Inr (frame_header type flags sequence payload, bytes_of_text payload), so') \<and> stream so' = rest) \<and>
    (\<exists>so'. ReadFrame_client limits so = (Inr (frame_header type flags sequence payload, bytes_of_text payload), so') \<and> stream so' = rest) \<and>
    so_sent peer' = so_sent peer @ frame"
  using ReadFrame_server_stream [OF assms(1-4)] ReadFrame_client_stream [OF assms(1-4)] SendAll_delivers [OF assms(5,6)] by auto

definition in_pieces :: "bytes \<Rightarrow> Socket" where
  "in_pieces b = \<lparr>so_open = True, so_incoming = map (\<lambda>x. RX_Data [x]) b, so_sends = [], so_sent = []\<rparr>"

lemma in_pieces_stream: "stream (in_pieces b) = b"
  by (induction b) (simp_all add: stream_def in_pieces_def)

theorem frames_survive_segmentation_witness:
  "let frame = (case EncodeFrame FT_Heartbeat 0 5 ''{}'' default_limits of Inr f \<Rightarrow> f | Inl _ \<Rightarrow> [])
   in \<exists>so'. ReadFrame_server default_limits (in_pieces frame) = (Inr (frame_header FT_Heartbeat 0 5 ''{}'', bytes_of_text ''{}''), so')"
proof -
  obtain frame where f: "EncodeFrame FT_Heartbeat 0 5 ''{}'' default_limits = Inr frame"
    by (simp add: EncodeFrame_def default_limits_def)
  let ?peer = "\<lparr>so_open = True, so_incoming = [], so_sends = replicate 100 (1, []), so_sent = []\<rparr>"
  obtain status peer' where sent: "SendAll frame ?peer = (status, peer')" by fastforce
  have "length frame = 30" using f by (auto simp: EncodeFrame_def kFrameHeaderBytes_def split: if_splits)
  have "status_ok (fst (send_loop (replicate (k + n) (1, [])) sent b))" if "length b = n" for k n sent b
    using that
  proof (induction n arbitrary: sent b)
    case 0
    then show ?case by (cases k) (simp_all add: status_ok_def mk_status_def)
  next
    case (Suc n)
    then show ?case by (auto simp: length_Suc_conv kMaxChunk_def Let_def)
  qed
  from this [of frame 30 70 "[]"] \<open>length frame = 30\<close> have "status_ok status"
    using sent by (auto simp: SendAll_def split_def Let_def)
  with frames_survive_segmentation [OF f _ _ _ sent, of "in_pieces frame" "[]"] show ?thesis
    by (auto simp: in_pieces_stream f) (auto simp: in_pieces_def)
qed

end
