(* ===== verification/NDO_Freshness.thy ===== *)
theory NDO_Freshness
  imports NDO_Observation
begin

text \<open>
  Freshness of evidence (\<^verbatim>\<open>freshness.hpp\<close>, \<^verbatim>\<open>freshness.cpp\<close>).  \<open>EvaluateFreshness\<close> keeps the source's
  order of checks.  The theorems say exactly when evidence may support a compliance conclusion, that a
  source can only shorten its lifetime, and that the aging threshold is the exact percentage, computed
  without overflow.
\<close>

datatype FreshnessState = FR_Unknown | FR_Fresh | FR_Aging | FR_Stale | FR_Expired | FR_Future | FR_RecoveredNotFresh

fun freshness_value :: "FreshnessState \<Rightarrow> nat" where
  "freshness_value FR_Unknown = 0"
| "freshness_value FR_Fresh = 1"
| "freshness_value FR_Aging = 2"
| "freshness_value FR_Stale = 3"
| "freshness_value FR_Expired = 4"
| "freshness_value FR_Future = 5"
| "freshness_value FR_RecoveredNotFresh = 6"

definition all_freshness_states :: "FreshnessState list" where
  "all_freshness_states =
     [FR_Unknown, FR_Fresh, FR_Aging, FR_Stale, FR_Expired, FR_Future, FR_RecoveredNotFresh]"

definition kStateNames :: "(nat \<times> string) list" where
  "kStateNames =
     [(0, ''unknown''), (1, ''fresh''), (2, ''aging''), (3, ''stale''), (4, ''expired''), (5, ''future''),
      (6, ''recovered-not-fresh'')]"

definition ToText_FreshnessState :: "FreshnessState \<Rightarrow> string" where
  "ToText_FreshnessState v = lookup_name kStateNames (freshness_value v) ''unknown''"

definition TryParseFreshnessState :: "string \<Rightarrow> FreshnessState option" where
  "TryParseFreshnessState wanted =
     Option.bind (lookup_code kStateNames wanted)
       (\<lambda>c. List.find (\<lambda>v. freshness_value v = c) all_freshness_states)"

record FreshnessPolicy =
  fp_ttl_nanos :: int
  fp_aging_threshold_percent :: int
  fp_max_clock_skew_nanos :: int
  fp_ttl_applies_to_receive_time :: bool

definition default_freshness_policy :: FreshnessPolicy where
  "default_freshness_policy =
     \<lparr>fp_ttl_nanos = 300 * 1000 * 1000 * 1000, fp_aging_threshold_percent = 80,
      fp_max_clock_skew_nanos = 5 * 1000 * 1000 * 1000, fp_ttl_applies_to_receive_time = True\<rparr>"

record FreshnessVerdict =
  fv_state :: FreshnessState
  fv_reason :: ReasonCode
  fv_age_nanos :: int
  fv_effective_ttl_nanos :: int
  fv_may_support_compliance :: bool
  fv_may_assert_absence :: bool

definition default_verdict :: FreshnessVerdict where
  "default_verdict =
     \<lparr>fv_state = FR_Unknown, fv_reason = RC_NoFreshEvidence, fv_age_nanos = 0,
      fv_effective_ttl_nanos = 0, fv_may_support_compliance = False, fv_may_assert_absence = False\<rparr>"

definition is_fresh :: "FreshnessVerdict \<Rightarrow> bool" where
  "is_fresh v \<longleftrightarrow> fv_state v = FR_Fresh \<or> fv_state v = FR_Aging"

definition effective_ttl :: "ObservationSnapshot \<Rightarrow> FreshnessPolicy \<Rightarrow> int" where
  "effective_ttl s policy =
     (if sn_ttl_nanos s > 0 \<and> sn_ttl_nanos s < fp_ttl_nanos policy then sn_ttl_nanos s
      else fp_ttl_nanos policy)"

definition aging_threshold :: "FreshnessPolicy \<Rightarrow> int \<Rightarrow> int" where
  "aging_threshold policy ttl =
     (let percent = (if fp_aging_threshold_percent policy < 0 then 0
                     else if fp_aging_threshold_percent policy > 100 then 100
                     else fp_aging_threshold_percent policy)
      in cdiv ttl 100 * percent + cdiv (cmod ttl 100 * percent) 100)"

text \<open>The check on the receive time: the state and reason it ends the evaluation with, if it does.\<close>

definition receive_time_check ::
    "ObservationSnapshot \<Rightarrow> FreshnessPolicy \<Rightarrow> NdoTime \<Rightarrow> int \<Rightarrow> (FreshnessState \<times> ReasonCode) option" where
  "receive_time_check s policy now ttl =
     (if fp_ttl_applies_to_receive_time policy \<and> time_is_set (sn_received_at s)
      then (case TryDifference now (sn_received_at s) of
              None \<Rightarrow> Some (FR_Unknown, RC_ObservationClockRegression)
            | Some receive_age \<Rightarrow>
                if receive_age > ttl then Some (FR_Stale, RC_ObservationExpired) else None)
      else None)"

definition EvaluateFreshness ::
    "ObservationSnapshot \<Rightarrow> FreshnessPolicy \<Rightarrow> NdoTime \<Rightarrow> FabricEpoch \<Rightarrow> bool \<Rightarrow> FreshnessVerdict" where
  "EvaluateFreshness s policy now live_epoch recovered =
     (let ttl = effective_ttl s policy;
          v = default_verdict\<lparr>fv_effective_ttl_nanos := ttl\<rparr>
      in case (if time_is_set (sn_collected_at s) then TryDifference now (sn_collected_at s) else None) of
           None \<Rightarrow> v\<lparr>fv_state := FR_Unknown, fv_reason := RC_NoFreshEvidence\<rparr>
         | Some age \<Rightarrow>
             let v = v\<lparr>fv_age_nanos := age\<rparr> in
             if recovered
             then v\<lparr>fv_state := FR_RecoveredNotFresh, fv_reason := RC_EvidenceRecoveredNotFresh\<rparr>
             else if uint_is_set live_epoch \<and> sn_epoch s \<noteq> live_epoch
             then v\<lparr>fv_state := FR_Expired, fv_reason := RC_ObservationForeignEpoch\<rparr>
             else if age < - fp_max_clock_skew_nanos policy
             then v\<lparr>fv_state := FR_Future, fv_reason := RC_ObservationClockRegression\<rparr>
             else if ttl \<le> 0
             then v\<lparr>fv_state := FR_Expired, fv_reason := RC_ObservationExpired\<rparr>
             else if age > ttl
             then v\<lparr>fv_state := FR_Stale, fv_reason := RC_ObservationExpired\<rparr>
             else
               case receive_time_check s policy now ttl of
                 Some (state, reason) \<Rightarrow> v\<lparr>fv_state := state, fv_reason := reason\<rparr>
               | None \<Rightarrow>
                   v\<lparr>fv_state := (if age > aging_threshold policy ttl then FR_Aging else FR_Fresh),
                     fv_reason := RC_None, fv_may_support_compliance := True,
                     fv_may_assert_absence := sc_asserts_absence (sn_capabilities s)\<rparr>)"

section \<open>What a verdict means\<close>

lemma freshness_text_roundtrip: "TryParseFreshnessState (ToText_FreshnessState v) = Some v"
  by (cases v) (simp_all add: TryParseFreshnessState_def ToText_FreshnessState_def kStateNames_def
      all_freshness_states_def)

lemma TryDifference_exact:
  "TryDifference a b = Some d \<Longrightarrow> is_i64 a \<Longrightarrow> is_i64 b \<Longrightarrow> d = a - b \<and> is_i64 d"
  by (auto simp: TryDifference_def CheckedSubSigned_def CheckedAddSigned_def is_i64_def split: if_splits)

lemma effective_ttl_le: "effective_ttl s policy \<le> fp_ttl_nanos policy"
  by (simp add: effective_ttl_def)

lemma verdict_ttl: "fv_effective_ttl_nanos (EvaluateFreshness s policy now e r) = effective_ttl s policy"
  by (simp add: EvaluateFreshness_def Let_def split: option.splits prod.splits)

lemmas verdict_split = EvaluateFreshness_def Let_def receive_time_check_def default_verdict_def is_fresh_def

lemma support_iff_fresh:
  "fv_may_support_compliance (EvaluateFreshness s policy now e r) \<longleftrightarrow> is_fresh (EvaluateFreshness s policy now e r)"
  by (simp add: verdict_split split: option.splits)

text \<open>
  Evidence may support a compliance conclusion exactly when its verdict is Fresh or Aging, and
  then: it was not recovered from durable state, its epoch is the live one, its age is within the
  skew and the effective lifetime, and (where the policy says so) so is the time it has been held;
  the effective lifetime is never longer than the policy's.
\<close>

theorem fresh_evidence_is_current:
  assumes "is_i64 now" and "is_i64 (sn_collected_at s)" and "is_i64 (sn_received_at s)"
    and "fv_may_support_compliance (EvaluateFreshness s policy now live_epoch recovered)"
  shows "is_fresh (EvaluateFreshness s policy now live_epoch recovered) \<and> \<not> recovered \<and>
    time_is_set (sn_collected_at s) \<and>
    (uint_is_set live_epoch \<longrightarrow> sn_epoch s = live_epoch) \<and>
    - fp_max_clock_skew_nanos policy \<le> now - sn_collected_at s \<and>
    now - sn_collected_at s \<le> effective_ttl s policy \<and>
    0 < effective_ttl s policy \<and> effective_ttl s policy \<le> fp_ttl_nanos policy \<and>
    (fp_ttl_applies_to_receive_time policy \<and> time_is_set (sn_received_at s) \<longrightarrow>
       now - sn_received_at s \<le> effective_ttl s policy)"
proof -
  have fresh: "is_fresh (EvaluateFreshness s policy now live_epoch recovered)"
    using assms(4) by (simp add: support_iff_fresh)
  obtain age where age: "time_is_set (sn_collected_at s)" "TryDifference now (sn_collected_at s) = Some age"
    using assms(4) by (auto simp: verdict_split split: option.splits if_splits)
  have "age = now - sn_collected_at s"
    using TryDifference_exact [OF age(2) assms(1,2)] by simp
  moreover have "\<not> recovered" and "uint_is_set live_epoch \<longrightarrow> sn_epoch s = live_epoch"
    and "- fp_max_clock_skew_nanos policy \<le> age" and "age \<le> effective_ttl s policy" and "0 < effective_ttl s policy"
    using assms(4) age by (auto simp: verdict_split split: option.splits if_splits)
  moreover have "now - sn_received_at s \<le> effective_ttl s policy"
    if held: "fp_ttl_applies_to_receive_time policy" "time_is_set (sn_received_at s)"
  proof -
    obtain ra where "TryDifference now (sn_received_at s) = Some ra" "ra \<le> effective_ttl s policy"
      using assms(4) age held by (auto simp: verdict_split split: option.splits if_splits)
    then show ?thesis using TryDifference_exact assms(1,3) by fastforce
  qed
  ultimately show ?thesis using fresh age(1) effective_ttl_le by blast
qed

theorem fresh_evidence_is_current_witness:
  "is_fresh (EvaluateFreshness example_snapshot default_freshness_policy 2000 1 False) \<and>
    sn_epoch example_snapshot = 1 \<and>
    2000 - sn_collected_at example_snapshot \<le> effective_ttl example_snapshot default_freshness_policy"
proof -
  have "fv_may_support_compliance (EvaluateFreshness example_snapshot default_freshness_policy 2000 1 False)"
    by (simp add: verdict_split example_snapshot_def default_freshness_policy_def effective_ttl_def
        time_is_set_def uint_is_set_def TryDifference_def CheckedSubSigned_def CheckedAddSigned_def)
  then show ?thesis
    using fresh_evidence_is_current [of 2000 example_snapshot default_freshness_policy 1 False]
    by (simp add: example_snapshot_def is_i64_def uint_is_set_def)
qed

text \<open>
  The aging threshold is exactly the configured percentage of the lifetime, rounded down, with
  the percentage clamped to 0 to 100; dividing before multiplying keeps every intermediate result
  within the 64-bit range, so no lifetime makes the computation overflow.
\<close>

theorem aging_threshold_exact:
  fixes policy :: FreshnessPolicy
  assumes "0 < ttl" and "ttl \<le> INT64_MAX"
  defines "percent \<equiv> max 0 (min 100 (fp_aging_threshold_percent policy))"
  shows "aging_threshold policy ttl = ttl * percent div 100 \<and>
    is_i64 (ttl div 100 * percent) \<and> is_i64 (ttl mod 100 * percent) \<and>
    0 \<le> aging_threshold policy ttl \<and> aging_threshold policy ttl \<le> ttl"
proof -
  have p: "0 \<le> percent" "percent \<le> 100" by (auto simp: percent_def)
  have clamp: "(if fp_aging_threshold_percent policy < 0 then 0
      else if fp_aging_threshold_percent policy > 100 then 100 else fp_aging_threshold_percent policy) = percent"
    by (auto simp: percent_def)
  have sum: "aging_threshold policy ttl = ttl div 100 * percent + (ttl mod 100 * percent) div 100"
    using assms(1) p by (simp add: aging_threshold_def Let_def clamp cdiv_nonneg cmod_nonneg)
  have "ttl * percent = ttl mod 100 * percent + 100 * (ttl div 100 * percent)"
    by (metis add.commute distrib_right div_mult_mod_eq mult.assoc mult.commute)
  then have exact: "ttl * percent div 100 = ttl div 100 * percent + (ttl mod 100 * percent) div 100"
    by simp
  have high: "0 \<le> ttl div 100 * percent" "ttl div 100 * percent \<le> ttl div 100 * 100"
    using assms(1) p by (simp_all add: mult_left_mono pos_imp_zdiv_nonneg_iff)
  have low: "0 \<le> ttl mod 100 * percent" "ttl mod 100 * percent \<le> 99 * 100"
    using p mult_mono [of "ttl mod 100" 99 percent 100] pos_mod_bound [of 100 ttl] by simp_all
  have "ttl * percent div 100 \<le> ttl * 100 div 100"
    using assms(1) p by (intro zdiv_mono1 mult_left_mono) simp_all
  then have "ttl * percent div 100 \<le> ttl" by simp
  moreover have "0 \<le> ttl * percent div 100" using assms(1) p by (simp add: pos_imp_zdiv_nonneg_iff)
  moreover have "ttl div 100 * 100 \<le> ttl" by (metis div_mult_mod_eq le_add_same_cancel1 pos_mod_sign zero_less_numeral)
  ultimately show ?thesis
    using sum exact high low assms(2) by (auto simp: is_i64_def)
qed

theorem aging_threshold_exact_witness:
  "aging_threshold default_freshness_policy 9223372036854775807
      = 9223372036854775807 * max 0 (min 100 (fp_aging_threshold_percent default_freshness_policy)) div 100 \<and>
   is_i64 (9223372036854775807 div 100 * max 0 (min 100 (fp_aging_threshold_percent default_freshness_policy))) \<and>
   is_i64 (9223372036854775807 mod 100 * max 0 (min 100 (fp_aging_threshold_percent default_freshness_policy))) \<and>
   0 \<le> aging_threshold default_freshness_policy 9223372036854775807 \<and>
   aging_threshold default_freshness_policy 9223372036854775807 \<le> 9223372036854775807"
  by (rule aging_threshold_exact) simp_all

end
