(* ===== verification/NDO_Drift.thy ===== *)
theory NDO_Drift
  imports NDO_Status
begin

text \<open>
  The vocabulary of drift (\<^verbatim>\<open>drift.hpp\<close>, \<^verbatim>\<open>drift.cpp\<close>): severities with their rank, drift classes, and
  the partition the rest of the runtime branches on.
\<close>

datatype Severity = SV_Info | SV_Low | SV_Medium | SV_High | SV_Critical

fun SeverityRank :: "Severity \<Rightarrow> nat" where
  "SeverityRank SV_Info = 0"
| "SeverityRank SV_Low = 1"
| "SeverityRank SV_Medium = 2"
| "SeverityRank SV_High = 3"
| "SeverityRank SV_Critical = 4"

definition all_severities :: "Severity list" where
  "all_severities = [SV_Info, SV_Low, SV_Medium, SV_High, SV_Critical]"

definition kSeverityNames :: "(nat \<times> string) list" where
  "kSeverityNames = [(0, ''info''), (1, ''low''), (2, ''medium''), (3, ''high''), (4, ''critical'')]"

definition ToText_Severity :: "Severity \<Rightarrow> string" where
  "ToText_Severity v = lookup_name kSeverityNames (SeverityRank v) ''invalid''"

definition TryParseSeverity :: "string \<Rightarrow> Severity option" where
  "TryParseSeverity wanted =
     Option.bind (lookup_code kSeverityNames wanted) (\<lambda>c. List.find (\<lambda>v. SeverityRank v = c) all_severities)"

datatype DriftClass =
    DC_None | DC_Missing | DC_Unexpected | DC_ValueMismatch | DC_FieldMissing | DC_FieldUnexpected
  | DC_StaleObservation | DC_Unknown | DC_Unsupported | DC_GenerationMismatch | DC_PartialApplication
  | DC_SourceConflict | DC_IntentMissing | DC_EvidenceInvalid

fun drift_value :: "DriftClass \<Rightarrow> nat" where
  "drift_value DC_None = 0"
| "drift_value DC_Missing = 1"
| "drift_value DC_Unexpected = 2"
| "drift_value DC_ValueMismatch = 3"
| "drift_value DC_FieldMissing = 4"
| "drift_value DC_FieldUnexpected = 5"
| "drift_value DC_StaleObservation = 6"
| "drift_value DC_Unknown = 7"
| "drift_value DC_Unsupported = 8"
| "drift_value DC_GenerationMismatch = 9"
| "drift_value DC_PartialApplication = 10"
| "drift_value DC_SourceConflict = 11"
| "drift_value DC_IntentMissing = 12"
| "drift_value DC_EvidenceInvalid = 13"

definition kDriftClassCount :: nat where
  "kDriftClassCount = 14"

definition all_drift_classes :: "DriftClass list" where
  "all_drift_classes =
     [DC_None, DC_Missing, DC_Unexpected, DC_ValueMismatch, DC_FieldMissing, DC_FieldUnexpected,
      DC_StaleObservation, DC_Unknown, DC_Unsupported, DC_GenerationMismatch, DC_PartialApplication,
      DC_SourceConflict, DC_IntentMissing, DC_EvidenceInvalid]"

definition kDriftClassNames :: "(nat \<times> string) list" where
  "kDriftClassNames =
     [(0, ''none''), (1, ''missing''), (2, ''unexpected''), (3, ''value-mismatch''), (4, ''field-missing''),
      (5, ''field-unexpected''), (6, ''stale-observation''), (7, ''unknown''), (8, ''unsupported''),
      (9, ''generation-mismatch''), (10, ''partial-application''), (11, ''source-conflict''),
      (12, ''intent-missing''), (13, ''evidence-invalid'')]"

definition ToText_DriftClass :: "DriftClass \<Rightarrow> string" where
  "ToText_DriftClass v = lookup_name kDriftClassNames (drift_value v) ''invalid''"

definition TryParseDriftClass :: "string \<Rightarrow> DriftClass option" where
  "TryParseDriftClass wanted =
     Option.bind (lookup_code kDriftClassNames wanted) (\<lambda>c. List.find (\<lambda>v. drift_value v = c) all_drift_classes)"

definition IsActionableDrift :: "DriftClass \<Rightarrow> bool" where
  "IsActionableDrift v \<longleftrightarrow>
     v \<in> {DC_Missing, DC_Unexpected, DC_ValueMismatch, DC_FieldMissing, DC_FieldUnexpected,
          DC_GenerationMismatch, DC_PartialApplication, DC_SourceConflict}"

definition IsIndeterminateDrift :: "DriftClass \<Rightarrow> bool" where
  "IsIndeterminateDrift v \<longleftrightarrow> v \<in> {DC_StaleObservation, DC_Unknown, DC_EvidenceInvalid}"

definition IsStructuralDrift :: "DriftClass \<Rightarrow> bool" where
  "IsStructuralDrift v \<longleftrightarrow> v \<in> {DC_Unsupported, DC_IntentMissing, DC_EvidenceInvalid}"

section \<open>Names and classes\<close>

lemma severity_text_roundtrip: "TryParseSeverity (ToText_Severity v) = Some v"
  by (cases v) (simp_all add: TryParseSeverity_def ToText_Severity_def kSeverityNames_def all_severities_def)

lemma drift_text_roundtrip: "TryParseDriftClass (ToText_DriftClass v) = Some v"
  by (cases v)
    (simp_all add: TryParseDriftClass_def ToText_DriftClass_def kDriftClassNames_def all_drift_classes_def)

lemma ToText_DriftClass_inj: "ToText_DriftClass a = ToText_DriftClass b \<longleftrightarrow> a = b"
  by (metis drift_text_roundtrip option.inject)

lemma drift_value_inj: "drift_value a = drift_value b \<longleftrightarrow> a = b"
  by (cases a; cases b) simp_all

text \<open>An actionable class is never indeterminate, so no class both demands action and lacks evidence.\<close>

lemma actionable_not_indeterminate: "IsActionableDrift v \<Longrightarrow> \<not> IsIndeterminateDrift v \<and> \<not> IsStructuralDrift v"
  by (auto simp: IsActionableDrift_def IsIndeterminateDrift_def IsStructuralDrift_def)

lemma drift_class_exhausted:
  "v = DC_None \<or> IsActionableDrift v \<or> IsIndeterminateDrift v \<or> IsStructuralDrift v"
  by (cases v) (simp_all add: IsActionableDrift_def IsIndeterminateDrift_def IsStructuralDrift_def)

end
