(* ===== verification/NDO_Policy.thy ===== *)
theory NDO_Policy
  imports NDO_Freshness NDO_Drift
begin

text \<open>
  The observatory policy (\<^verbatim>\<open>policy.hpp\<close>, the decision part of \<^verbatim>\<open>policy.cpp\<close>): selectors, the rules for
  severity, lifetime, field class and suppression, validation and the policy digest.  The loops over
  rules are folds over the loop-carried variables.  The lifetime loop is shown to refine a declarative
  reference (the last of the most specific matching rules).
\<close>

record PolicySelector =
  ps_target :: "TargetId option"
  ps_object :: "ObjectId option"
  ps_path_prefix :: "FieldPath option"

record SeverityRule =
  sr_selector :: PolicySelector
  sr_klass :: "DriftClass option"
  sr_min_severity :: "Severity option"
  sr_severity :: Severity

record FreshnessRule =
  fr_selector :: PolicySelector
  fr_ttl_nanos :: int

record FieldClassRule =
  fc_selector :: PolicySelector
  fc_comparability :: FieldComparability

record SuppressionRule =
  su_id :: SuppressionId
  su_selector :: PolicySelector
  su_klass :: "DriftClass option"
  su_min_severity :: "Severity option"
  su_author :: ActorId
  su_reason :: string
  su_created_at :: NdoTime
  su_expires_at :: "NdoTime option"

record ObservatoryPolicy =
  po_id :: PolicyId
  po_format_version :: u16
  po_freshness :: FreshnessPolicy
  po_resolution_confirmations :: u32
  po_require_complete_coverage :: bool
  po_require_absence_authority :: bool
  po_numeric_equivalence :: NumericEquivalence
  po_default_severity :: Severity
  po_severity_rules :: "SeverityRule list"
  po_freshness_rules :: "FreshnessRule list"
  po_field_class_rules :: "FieldClassRule list"
  po_suppressions :: "SuppressionRule list"
  po_source_priority :: "SourceId list"
  po_required_targets :: "TargetId list"
  po_evidence :: EvidenceClass

definition kMaxPolicyRules :: nat where
  "kMaxPolicyRules = 4096"

definition kPolicySchemaTag :: u64 where
  "kPolicySchemaTag = 1"

definition kPolicyFormatVersion :: u16 where
  "kPolicyFormatVersion = 1"

definition kPolicyTag :: string where
  "kPolicyTag = ''ndo/policy/v1''"

section \<open>Selectors\<close>

definition SelectorSpecificity :: "PolicySelector \<Rightarrow> int" where
  "SelectorSpecificity selector =
     (if ps_target selector \<noteq> None then 8 else 0) +
     (if ps_object selector \<noteq> None then 4 else 0) +
     (if ps_path_prefix selector \<noteq> None then 2 else 0)"

definition Matches :: "PolicySelector \<Rightarrow> TargetId \<Rightarrow> ObjectId \<Rightarrow> FieldPath \<Rightarrow> bool" where
  "Matches selector target object path \<longleftrightarrow>
     (case ps_target selector of None \<Rightarrow> True | Some t \<Rightarrow> t = target) \<and>
     (case ps_object selector of None \<Rightarrow> True | Some ob \<Rightarrow> ob = object) \<and>
     (case ps_path_prefix selector of None \<Rightarrow> True | Some p \<Rightarrow> IsPrefixOf p path)"

definition IsSubsetOf :: "PolicySelector \<Rightarrow> PolicySelector \<Rightarrow> bool" where
  "IsSubsetOf selector other \<longleftrightarrow>
     (case ps_target other of None \<Rightarrow> True | Some t \<Rightarrow> ps_target selector = Some t) \<and>
     (case ps_object other of None \<Rightarrow> True | Some ob \<Rightarrow> ps_object selector = Some ob) \<and>
     (case ps_path_prefix other of
        None \<Rightarrow> True
      | Some p \<Rightarrow> (case ps_path_prefix selector of None \<Rightarrow> False | Some q \<Rightarrow> IsPrefixOf p q))"

definition is_expired_at :: "SuppressionRule \<Rightarrow> NdoTime \<Rightarrow> bool" where
  "is_expired_at rule now \<longleftrightarrow> (case su_expires_at rule of None \<Rightarrow> False | Some e \<Rightarrow> now \<ge> e)"

section \<open>The digest\<close>

definition hash_selector :: "PolicySelector \<Rightarrow> Sha256 \<Rightarrow> Sha256" where
  "hash_selector selector h =
     (let h = UpdateLengthPrefixed (case ps_target selector of None \<Rightarrow> '''' | Some t \<Rightarrow> t) h;
          h = UpdateLengthPrefixed (case ps_object selector of None \<Rightarrow> '''' | Some ob \<Rightarrow> ob) h
      in UpdateLengthPrefixed
           (case ps_path_prefix selector of None \<Rightarrow> '''' | Some p \<Rightarrow> FieldPath_ToText p) h)"

definition hash_klass :: "DriftClass option \<Rightarrow> Sha256 \<Rightarrow> Sha256" where
  "hash_klass klass = UpdateLengthPrefixed (case klass of None \<Rightarrow> '''' | Some k \<Rightarrow> ToText_DriftClass k)"

definition hash_min_severity :: "Severity option \<Rightarrow> Sha256 \<Rightarrow> Sha256" where
  "hash_min_severity m = UpdateByte (case m of None \<Rightarrow> 0 | Some s \<Rightarrow> of_nat (SeverityRank s) + 1)"

definition hash_severity_rule :: "SeverityRule \<Rightarrow> Sha256 \<Rightarrow> Sha256" where
  "hash_severity_rule rule h =
     UpdateByte (of_nat (SeverityRank (sr_severity rule)))
       (hash_min_severity (sr_min_severity rule) (hash_klass (sr_klass rule) (hash_selector (sr_selector rule) h)))"

definition hash_freshness_rule :: "FreshnessRule \<Rightarrow> Sha256 \<Rightarrow> Sha256" where
  "hash_freshness_rule rule h = UpdateU64 (word_of_int (fr_ttl_nanos rule)) (hash_selector (fr_selector rule) h)"

definition hash_field_class_rule :: "FieldClassRule \<Rightarrow> Sha256 \<Rightarrow> Sha256" where
  "hash_field_class_rule rule h =
     UpdateByte (of_nat (comparability_value (fc_comparability rule))) (hash_selector (fc_selector rule) h)"

definition hash_suppression_rule :: "SuppressionRule \<Rightarrow> Sha256 \<Rightarrow> Sha256" where
  "hash_suppression_rule rule h =
     (let h = UpdateLengthPrefixed (su_id rule) h;
          h = hash_selector (su_selector rule) h;
          h = hash_klass (su_klass rule) h;
          h = hash_min_severity (su_min_severity rule) h;
          h = UpdateLengthPrefixed (su_author rule) h;
          h = UpdateLengthPrefixed (su_reason rule) h;
          h = UpdateU64 (word_of_int (su_created_at rule)) h
      in UpdateU64 (word_of_int (case su_expires_at rule of None \<Rightarrow> 0 | Some e \<Rightarrow> e)) h)"

definition hash_sequence :: "('a \<Rightarrow> Sha256 \<Rightarrow> Sha256) \<Rightarrow> 'a list \<Rightarrow> Sha256 \<Rightarrow> Sha256" where
  "hash_sequence item xs h = fold item xs (UpdateU64 (of_nat (length xs)) h)"

definition Policy_ComputeDigest :: "ObservatoryPolicy \<Rightarrow> Digest" where
  "Policy_ComputeDigest p =
     (let h = UpdateTag kPolicyTag Sha256_new;
          h = UpdateU64 kPolicySchemaTag h;
          h = UpdateLengthPrefixed (po_id p) h;
          h = UpdateU64 (ucast (po_format_version p)) h;
          h = UpdateU64 (word_of_int (fp_ttl_nanos (po_freshness p))) h;
          h = UpdateU64 (word_of_int (fp_aging_threshold_percent (po_freshness p))) h;
          h = UpdateU64 (word_of_int (fp_max_clock_skew_nanos (po_freshness p))) h;
          h = UpdateByte (bool_byte (fp_ttl_applies_to_receive_time (po_freshness p))) h;
          h = UpdateU64 (ucast (po_resolution_confirmations p)) h;
          h = UpdateByte (bool_byte (po_require_complete_coverage p)) h;
          h = UpdateByte (bool_byte (po_require_absence_authority p)) h;
          h = UpdateByte (case po_numeric_equivalence p of NE_Exact \<Rightarrow> 0 | NE_Numeric \<Rightarrow> 1) h;
          h = UpdateByte (of_nat (SeverityRank (po_default_severity p))) h;
          h = UpdateByte (evidence_value (po_evidence p)) h;
          h = hash_sequence hash_severity_rule (po_severity_rules p) h;
          h = hash_sequence hash_freshness_rule (po_freshness_rules p) h;
          h = hash_sequence hash_field_class_rule (po_field_class_rules p) h;
          h = hash_sequence hash_suppression_rule (po_suppressions p) h;
          h = hash_sequence UpdateLengthPrefixed (po_source_priority p) h;
          h = hash_sequence UpdateLengthPrefixed (po_required_targets p) h
      in Final h)"

section \<open>Validation\<close>

definition validate_severity_rule :: "RuntimeLimits \<Rightarrow> SeverityRule \<Rightarrow> Status" where
  "validate_severity_rule limits rule =
     (case ps_path_prefix (sr_selector rule) of
        Some p \<Rightarrow>
          if length p > max_path_segments limits
          then Status_Limit RC_LimitDepthExceeded ''policy path prefix is too deep'' else Status_Ok
      | None \<Rightarrow> Status_Ok)"

definition validate_freshness_rule :: "FreshnessRule \<Rightarrow> Status" where
  "validate_freshness_rule rule =
     (if fr_ttl_nanos rule \<le> 0
      then Status_Rejected RC_EncodingMalformed ''freshness rule ttl must be positive'' else Status_Ok)"

definition validate_suppression :: "SuppressionRule \<Rightarrow> Status" where
  "validate_suppression rule =
     (if su_id rule = [] then Status_Rejected RC_EncodingMalformed ''suppression identity is invalid''
      else if su_author rule = [] then Status_Rejected RC_EncodingMalformed ''suppression author is invalid''
      else Status_Ok)"

definition validate_identity :: "string \<Rightarrow> string \<Rightarrow> Status" where
  "validate_identity detail text =
     (if text = [] \<or> \<not> IsValidIdentityText text then Status_Rejected RC_EncodingMalformed detail
      else Status_Ok)"

fun and_then :: "Status \<Rightarrow> Status \<Rightarrow> Status" where
  "and_then a b = (if \<not> status_ok a then a else b)"

definition Policy_Validate :: "RuntimeLimits \<Rightarrow> ObservatoryPolicy \<Rightarrow> Status" where
  "Policy_Validate limits p =
     (if po_id p = [] \<or> \<not> IsValidIdentityText (po_id p)
      then Status_Rejected RC_EncodingMalformed ''policy identity is invalid''
      else if po_format_version p \<noteq> kPolicyFormatVersion
      then Status_Rejected RC_LedgerSchemaUnsupported ''policy format version is not supported''
      else if fp_ttl_nanos (po_freshness p) \<le> 0
      then Status_Rejected RC_EncodingMalformed ''freshness ttl must be positive''
      else if fp_aging_threshold_percent (po_freshness p) < 0 \<or> fp_aging_threshold_percent (po_freshness p) > 100
      then Status_Rejected RC_EncodingMalformed ''aging threshold percent must be within 0..100''
      else if fp_max_clock_skew_nanos (po_freshness p) < 0
      then Status_Rejected RC_EncodingMalformed ''clock skew tolerance must not be negative''
      else if po_resolution_confirmations p = 0
      then Status_Rejected RC_EncodingMalformed ''resolution confirmations must be at least one''
      else if length (po_severity_rules p) > kMaxPolicyRules \<or> length (po_freshness_rules p) > kMaxPolicyRules \<or>
              length (po_field_class_rules p) > kMaxPolicyRules
      then Status_Limit RC_LimitFieldsExceeded ''policy rule count exceeds the envelope''
      else if length (po_suppressions p) > max_suppressions limits
      then Status_Limit RC_LimitFieldsExceeded ''policy suppression count exceeds the envelope''
      else if length (po_source_priority p) > max_sources limits
      then Status_Limit RC_LimitObjectsExceeded ''policy source order exceeds the envelope''
      else if length (po_required_targets p) > max_targets limits
      then Status_Limit RC_LimitObjectsExceeded ''policy target list exceeds the envelope''
      else and_then (first_failure (validate_severity_rule limits) (po_severity_rules p))
           (and_then (first_failure validate_freshness_rule (po_freshness_rules p))
           (and_then (first_failure validate_suppression (po_suppressions p))
           (and_then (first_failure (validate_identity ''source priority identity is invalid'') (po_source_priority p))
             (first_failure (validate_identity ''required target identity is invalid'') (po_required_targets p))))))"

section \<open>Decisions\<close>

text \<open>The loop-carried pair of \<open>TtlFor\<close>: the specificity of the rule in force and its lifetime.\<close>

definition ttl_step :: "TargetId \<Rightarrow> ObjectId \<Rightarrow> FieldPath \<Rightarrow> FreshnessRule \<Rightarrow> int \<times> int \<Rightarrow> int \<times> int" where
  "ttl_step target object path rule carry =
     (if \<not> Matches (fr_selector rule) target object path then carry
      else let specificity = SelectorSpecificity (fr_selector rule)
           in if specificity \<ge> fst carry then (specificity, fr_ttl_nanos rule) else carry)"

definition TtlFor :: "ObservatoryPolicy \<Rightarrow> TargetId \<Rightarrow> ObjectId \<Rightarrow> FieldPath \<Rightarrow> int" where
  "TtlFor p target object path =
     snd (fold (ttl_step target object path) (po_freshness_rules p) (- 1, fp_ttl_nanos (po_freshness p)))"

definition severity_step ::
    "TargetId \<Rightarrow> ObjectId \<Rightarrow> FieldPath \<Rightarrow> DriftClass \<Rightarrow> SeverityRule \<Rightarrow> int \<times> Severity \<Rightarrow> int \<times> Severity" where
  "severity_step target object path klass rule carry =
     (if \<not> Matches (sr_selector rule) target object path then carry
      else if (case sr_klass rule of None \<Rightarrow> False | Some k \<Rightarrow> k \<noteq> klass) then carry
      else if (case sr_min_severity rule of None \<Rightarrow> False | Some m \<Rightarrow> SeverityRank (snd carry) < SeverityRank m)
      then carry
      else
        let specificity = SelectorSpecificity (sr_selector rule) * 4 +
              (if sr_klass rule \<noteq> None then 1 else 0) + (if sr_min_severity rule \<noteq> None then 1 else 0)
        in if specificity \<ge> fst carry then (specificity, sr_severity rule) else carry)"

definition SeverityFor :: "ObservatoryPolicy \<Rightarrow> TargetId \<Rightarrow> ObjectId \<Rightarrow> FieldPath \<Rightarrow> DriftClass \<Rightarrow> Severity" where
  "SeverityFor p target object path klass =
     snd (fold (severity_step target object path klass) (po_severity_rules p) (- 1, po_default_severity p))"

definition comparability_of_rank :: "nat \<Rightarrow> FieldComparability" where
  "comparability_of_rank r =
     (if r = 0 then FC_Managed else if r = 1 then FC_ObserveOnly else if r = 2 then FC_Unmanaged
      else if r = 3 then FC_Unobservable else FC_Unsupported)"

definition ClassifyField ::
    "ObservatoryPolicy \<Rightarrow> TargetId \<Rightarrow> ObjectId \<Rightarrow> FieldPath \<Rightarrow> FieldComparability \<Rightarrow> FieldComparability" where
  "ClassifyField p target object path intent_view =
     comparability_of_rank
       (fold (\<lambda>rule rank. if Matches (fc_selector rule) target object path
                          then max rank (comparability_value (fc_comparability rule)) else rank)
         (po_field_class_rules p) (comparability_value intent_view))"

definition suppression_applies ::
    "TargetId \<Rightarrow> ObjectId \<Rightarrow> FieldPath \<Rightarrow> DriftClass \<Rightarrow> Severity \<Rightarrow> NdoTime \<Rightarrow> SuppressionRule \<Rightarrow> bool" where
  "suppression_applies target object path klass severity now rule \<longleftrightarrow>
     \<not> is_expired_at rule now \<and>
     Matches (su_selector rule) target object path \<and>
     \<not> (case su_klass rule of None \<Rightarrow> False | Some k \<Rightarrow> k \<noteq> klass) \<and>
     \<not> (case su_min_severity rule of None \<Rightarrow> False | Some m \<Rightarrow> SeverityRank severity < SeverityRank m)"

definition FindSuppression ::
    "ObservatoryPolicy \<Rightarrow> TargetId \<Rightarrow> ObjectId \<Rightarrow> FieldPath \<Rightarrow> DriftClass \<Rightarrow> Severity \<Rightarrow> NdoTime
       \<Rightarrow> SuppressionRule option" where
  "FindSuppression p target object path klass severity now =
     List.find (suppression_applies target object path klass severity now) (po_suppressions p)"

definition Policy_Default :: ObservatoryPolicy where
  "Policy_Default =
     \<lparr>po_id = ''policy/default'', po_format_version = kPolicyFormatVersion,
      po_freshness = default_freshness_policy, po_resolution_confirmations = 1,
      po_require_complete_coverage = True, po_require_absence_authority = True,
      po_numeric_equivalence = NE_Numeric, po_default_severity = SV_Medium, po_severity_rules = [],
      po_freshness_rules = [], po_field_class_rules = [], po_suppressions = [], po_source_priority = [],
      po_required_targets = [], po_evidence = EC_Unknown\<rparr>"

section \<open>Selectors as sets of locations\<close>

lemma IsPrefixOf_iff: "IsPrefixOf p q \<longleftrightarrow> (\<exists>r. q = p @ r)"
  by (induction p q rule: IsPrefixOf.induct) auto

lemma IsPrefixOf_trans: "IsPrefixOf p q \<Longrightarrow> IsPrefixOf q r \<Longrightarrow> IsPrefixOf p r"
  by (auto simp: IsPrefixOf_iff)

text \<open>
  A selector that is syntactically no broader than another matches no location the other does
  not match, and is at least as specific; a longer path prefix narrows, never widens.
\<close>

theorem selector_subset_sound:
  assumes "IsSubsetOf a b"
  shows "(Matches a target object path \<longrightarrow> Matches b target object path) \<and>
    SelectorSpecificity b \<le> SelectorSpecificity a"
proof -
  have "Matches b target object path" if "Matches a target object path"
    using assms that by (auto simp: IsSubsetOf_def Matches_def intro: IsPrefixOf_trans split: option.splits)
  moreover have "SelectorSpecificity b \<le> SelectorSpecificity a"
    using assms by (auto simp: IsSubsetOf_def SelectorSpecificity_def split: option.splits)
  ultimately show ?thesis by blast
qed

theorem selector_subset_sound_witness:
  "Matches \<lparr>ps_target = None, ps_object = None, ps_path_prefix = Some [PS_Key ''x'']\<rparr>
      ''a'' ''o'' [PS_Key ''x'', PS_Index 0] \<and>
   SelectorSpecificity \<lparr>ps_target = None, ps_object = None, ps_path_prefix = Some [PS_Key ''x'']\<rparr>
   \<le> SelectorSpecificity \<lparr>ps_target = Some ''a'', ps_object = None, ps_path_prefix = Some [PS_Key ''x'', PS_Index 0]\<rparr>"
  using selector_subset_sound
    [of "\<lparr>ps_target = Some ''a'', ps_object = None, ps_path_prefix = Some [PS_Key ''x'', PS_Index 0]\<rparr>"
      "\<lparr>ps_target = None, ps_object = None, ps_path_prefix = Some [PS_Key ''x'']\<rparr>"
      "''a''" "''o''" "[PS_Key ''x'', PS_Index 0]"]
  by (simp add: IsSubsetOf_def Matches_def)

section \<open>Policy only narrows comparison\<close>

lemma comparability_rank_inverse: "comparability_of_rank (comparability_value c) = c"
  by (cases c) (simp_all add: comparability_of_rank_def)

lemma comparability_value_le: "comparability_value c \<le> 4"
  by (cases c) simp_all

lemma comparability_value_of_rank: "r \<le> 4 \<Longrightarrow> comparability_value (comparability_of_rank r) = r"
  by (auto simp: comparability_of_rank_def)

lemma rank_fold:
  fixes select :: "'r \<Rightarrow> bool" and rank :: "'r \<Rightarrow> nat"
  shows "fold (\<lambda>r acc. if select r then max acc (rank r) else acc) rules start
    = Max (insert start (rank ` {r \<in> set rules. select r}))"
proof (induction rules arbitrary: start)
  case (Cons r rules)
  have sets: "{x \<in> set (r # rules). select x}
      = (if select r then insert r {x \<in> set rules. select x} else {x \<in> set rules. select x})"
    by auto
  have fin: "finite (rank ` {x \<in> set rules. select x})" by simp
  show ?case
  proof (cases "select r")
    case True
    have "Max (insert (max start (rank r)) S) = Max (insert start (insert (rank r) S))"
      if "finite S" for S
      using that by (cases "S = {}") (simp_all add: max.assoc)
    with fin have "Max (insert (max start (rank r)) (rank ` {x \<in> set rules. select x}))
        = Max (insert start (insert (rank r) (rank ` {x \<in> set rules. select x})))" by blast
    with True Cons [of "max start (rank r)"] sets show ?thesis by simp
  qed (use Cons sets in simp)
qed simp

text \<open>
  Field classification is the maximum of the intent author's view and every matching rule, so
  policy can only narrow what is compared: a field the author excluded is never managed again, and the
  result does not depend on the order of the rules.
\<close>

theorem classify_field_narrows:
  "comparability_value (ClassifyField p target object path view) =
     Max (insert (comparability_value view)
       ((\<lambda>r. comparability_value (fc_comparability r)) `
         {r \<in> set (po_field_class_rules p). Matches (fc_selector r) target object path}))"
  (is "_ = Max ?ranks")
proof -
  have "fold (\<lambda>rule rank. if Matches (fc_selector rule) target object path
      then max rank (comparability_value (fc_comparability rule)) else rank)
      (po_field_class_rules p) (comparability_value view) = Max ?ranks"
    by (rule rank_fold)
  moreover have "Max ?ranks \<le> 4"
    by (subst Max_le_iff) (auto simp: comparability_value_le)
  ultimately show ?thesis by (simp add: ClassifyField_def comparability_value_of_rank)
qed

section \<open>The most specific rule wins\<close>

text \<open>
  The reference: among the matching rules those of the greatest specificity, and of these the last.
\<close>

definition last_most_specific :: "('r \<Rightarrow> bool) \<Rightarrow> ('r \<Rightarrow> int) \<Rightarrow> 'r list \<Rightarrow> 'r option" where
  "last_most_specific select rank rules =
     (let matching = filter select rules;
          best = filter (\<lambda>r. list_all (\<lambda>s. rank s \<le> rank r) matching) matching
      in if best = [] then None else Some (last best))"

lemma last_most_specific_snoc:
  "last_most_specific select rank (rules @ [r]) =
     (if \<not> select r then last_most_specific select rank rules
      else if list_all (\<lambda>s. rank s \<le> rank r) (filter select rules) then Some r
      else last_most_specific select rank rules)"
proof (cases "select r \<and> \<not> list_all (\<lambda>s. rank s \<le> rank r) (filter select rules)")
  case True
  then obtain m where m: "m \<in> set (filter select rules)" "rank r < rank m"
    by (auto simp: list_all_iff not_le)
  have "list_all (\<lambda>s. rank s \<le> rank x) (filter select rules @ [r]) \<longleftrightarrow>
      list_all (\<lambda>s. rank s \<le> rank x) (filter select rules)" for x
    using m by (auto simp: list_all_iff)
  with True show ?thesis by (simp add: last_most_specific_def Let_def)
qed (auto simp: last_most_specific_def Let_def)

lemma most_specific_attained:
  assumes "filter select rules \<noteq> []"
  shows "\<exists>m. last_most_specific select rank rules = Some m \<and> m \<in> set (filter select rules) \<and>
    list_all (\<lambda>s. rank s \<le> rank m) (filter select rules)"
proof -
  define M where "M = Max (rank ` set (filter select rules))"
  have "M \<in> rank ` set (filter select rules)" unfolding M_def
    by (rule Max_in) (use assms in \<open>auto simp: filter_empty_conv\<close>)
  then obtain m where "m \<in> set (filter select rules)" "rank m = M" by auto
  moreover have "rank s \<le> M" if "s \<in> set (filter select rules)" for s
    using that unfolding M_def by (intro Max_ge) auto
  ultimately have ne: "filter (\<lambda>r. list_all (\<lambda>s. rank s \<le> rank r) (filter select rules)) (filter select rules) \<noteq> []"
    by (auto simp: filter_empty_conv list_all_iff)
  from last_in_set [OF ne] ne show ?thesis by (auto simp: last_most_specific_def Let_def)
qed

text \<open>The loops carry the specificity and the decision of exactly that rule.\<close>

lemma carried_rule:
  fixes rank :: "'r \<Rightarrow> int" and out :: "'r \<Rightarrow> 'v"
  assumes "\<And>r. 0 \<le> rank r"
  shows "fold (\<lambda>r carry. if \<not> select r then carry
      else if rank r \<ge> fst carry then (rank r, out r) else carry) rules (- 1, dflt)
    = (case last_most_specific select rank rules of None \<Rightarrow> (- 1, dflt) | Some m \<Rightarrow> (rank m, out m))"
proof (induction rules rule: rev_induct)
  case Nil
  show ?case by (simp add: last_most_specific_def)
next
  case (snoc r rules)
  show ?case
  proof (cases "filter select rules = []")
    case True
    then have "last_most_specific select rank rules = None" by (simp add: last_most_specific_def)
    moreover have "- 1 \<le> rank r" using assms [of r] by linarith
    ultimately show ?thesis using snoc True by (auto simp: last_most_specific_snoc)
  next
    case False
    then obtain m where m: "last_most_specific select rank rules = Some m" "m \<in> set (filter select rules)"
      "list_all (\<lambda>s. rank s \<le> rank m) (filter select rules)"
      using most_specific_attained by blast
    then have "rank m \<le> rank r \<longleftrightarrow> list_all (\<lambda>s. rank s \<le> rank r) (filter select rules)"
      by (auto simp: list_all_iff)
    with snoc m show ?thesis by (auto simp: last_most_specific_snoc)
  qed
qed

text \<open>
  The lifetime of evidence at a location is set by the most specific freshness rule that matches
  it, the last one declared among equals, and by the policy default when no rule matches.
\<close>

theorem ttl_for_most_specific:
  "TtlFor p target object path =
     (case last_most_specific (\<lambda>r. Matches (fr_selector r) target object path)
             (\<lambda>r. SelectorSpecificity (fr_selector r)) (po_freshness_rules p) of
        None \<Rightarrow> fp_ttl_nanos (po_freshness p)
      | Some rule \<Rightarrow> fr_ttl_nanos rule)"
proof -
  have "0 \<le> SelectorSpecificity s" for s by (simp add: SelectorSpecificity_def)
  then show ?thesis
    unfolding TtlFor_def ttl_step_def [abs_def] Let_def
    by (subst carried_rule [where select = "\<lambda>r. Matches (fr_selector r) target object path"])
      (simp_all split: option.splits)
qed

lemma TtlFor_positive:
  assumes "status_ok (Policy_Validate limits p)"
  shows "0 < TtlFor p target object path"
proof -
  have rules: "\<forall>r \<in> set (po_freshness_rules p). 0 < fr_ttl_nanos r" and "0 < fp_ttl_nanos (po_freshness p)"
    using assms
    by (auto simp: Policy_Validate_def first_failure_ok list_all_iff validate_freshness_rule_def split: if_splits)
  moreover have "0 < snd (fold (ttl_step target object path) rules carry)"
    if "0 < snd carry" "\<forall>r \<in> set rules. 0 < fr_ttl_nanos r" for rules carry
    using that by (induction rules arbitrary: carry) (auto simp: ttl_step_def Let_def)
  ultimately show ?thesis by (simp add: TtlFor_def)
qed

section \<open>A limitation of the policy digest\<close>

text \<open>
  The policy digest does not separate a rule without a path prefix from a rule whose prefix is
  the root path, although the second is more specific and so may win where the first does not: two
  policies that decide a lifetime differently can carry the same digest.
\<close>

theorem policy_digest_ambiguous:
  "\<exists>p q. Policy_ComputeDigest p = Policy_ComputeDigest q \<and> TtlFor p ''t'' ''o'' [] \<noteq> TtlFor q ''t'' ''o'' []"
proof -
  define rule where "rule prefix ttl =
    \<lparr>fr_selector = \<lparr>ps_target = None, ps_object = None, ps_path_prefix = prefix\<rparr>, fr_ttl_nanos = ttl\<rparr>"
    for prefix and ttl :: int
  define p where "p = Policy_Default\<lparr>po_freshness_rules := [rule None 1, rule None 2]\<rparr>"
  define q where "q = Policy_Default\<lparr>po_freshness_rules := [rule (Some []) 1, rule None 2]\<rparr>"
  have "Policy_ComputeDigest p = Policy_ComputeDigest q"
    by (simp add: p_def q_def Policy_ComputeDigest_def hash_sequence_def hash_freshness_rule_def rule_def
        hash_selector_def FieldPath_ToText_def Policy_Default_def)
  moreover have "TtlFor p ''t'' ''o'' [] = 2" and "TtlFor q ''t'' ''o'' [] = 1"
    by (simp_all add: p_def q_def TtlFor_def ttl_step_def rule_def Matches_def SelectorSpecificity_def
        Policy_Default_def)
  ultimately show ?thesis by (metis one_eq_numeral_iff semiring_norm(85))
qed

end
