(* ===== verification/NDO_Comparison.thy ===== *)
theory NDO_Comparison
  imports NDO_Policy
begin

text \<open>
  The comparison of one target's committed intent with its evidence (\<^verbatim>\<open>comparison.hpp\<close>,
  \<^verbatim>\<open>comparison.cpp\<close>).  \<open>CompareTarget\<close> is composed of the phases the source marks with comments, one
  definition per phase; a phase that appends drafts is a function to the list it appends.
\<close>

section \<open>Data\<close>

definition kTargetScopeObjectId :: string where
  "kTargetScopeObjectId = ''@target''"

definition kAppliedGenerationPath :: string where
  "kAppliedGenerationPath = ''@applied-generation''"

record EvidenceRef =
  er_source :: SourceId
  er_snapshot :: SnapshotId
  er_epoch :: FabricEpoch
  er_incarnation :: Incarnation
  er_sequence :: SourceSequence
  er_collected_at :: NdoTime
  er_received_at :: NdoTime
  er_freshness :: FreshnessState
  er_content_digest :: Digest
  er_coverage :: ObservationCoverage
  er_evidence :: EvidenceClass

record FindingDraft =
  fd_target :: TargetId
  fd_object :: ObjectId
  fd_path :: FieldPath
  fd_klass :: DriftClass
  fd_raw_class :: DriftClass
  fd_severity :: Severity
  fd_reason :: ReasonCode
  fd_baseline_generation :: IntentGeneration
  fd_baseline_epoch :: FabricEpoch
  fd_baseline_authority :: IntentAuthority
  fd_has_intended :: bool
  fd_intended :: Value
  fd_has_observed :: bool
  fd_observed :: Value
  fd_evidence :: "EvidenceRef list"
  fd_qualifier :: Digest
  fd_compliance_relevant :: bool
  fd_rationale :: "string list"

record TargetEvaluation =
  tv_target :: TargetId
  tv_has_baseline :: bool
  tv_baseline_generation :: IntentGeneration
  tv_baseline_epoch :: FabricEpoch
  tv_baseline_authority :: IntentAuthority
  tv_best_freshness :: FreshnessState
  tv_sources_considered :: nat
  tv_fresh_sources :: nat
  tv_compliance_decidable :: bool
  tv_compliant :: bool
  tv_decision_reason :: ReasonCode
  tv_drafts :: "FindingDraft list"
  tv_trace :: "string list"

record EvaluationOutcome =
  eo_now :: NdoTime
  eo_epoch :: FabricEpoch
  eo_incarnation :: Incarnation
  eo_policy :: PolicyId
  eo_policy_digest :: Digest
  eo_resolution_confirmations :: u32
  eo_sequence :: u64
  eo_targets :: "TargetEvaluation list"

text \<open>A null snapshot pointer is \<open>None\<close>.\<close>

record TargetComparisonInput =
  ci_target :: TargetId
  ci_baseline :: "IntentBaseline option"
  ci_snapshots :: "ObservationSnapshot option list"
  ci_freshness :: "FreshnessVerdict list"

record EvidenceView =
  ev_snapshot :: ObservationSnapshot
  ev_verdict :: FreshnessVerdict
  ev_usable :: bool
  ev_complete :: bool
  ev_absence_authority :: bool
  ev_priority :: nat
  ev_content_digest :: Digest

section \<open>Evidence views and their order\<close>

definition kMaxConflictSources :: nat where
  "kMaxConflictSources = 8"

fun index_of :: "'a \<Rightarrow> 'a list \<Rightarrow> nat" where
  "index_of x [] = 0"
| "index_of x (y # ys) = (if y = x then 0 else Suc (index_of x ys))"

definition PriorityOf :: "ObservatoryPolicy \<Rightarrow> SourceId \<Rightarrow> nat" where
  "PriorityOf policy source = index_of source (po_source_priority policy)"

definition ViewLess :: "EvidenceView \<Rightarrow> EvidenceView \<Rightarrow> bool" where
  "ViewLess lhs rhs =
     (if ev_usable lhs \<noteq> ev_usable rhs then ev_usable lhs
      else if ev_priority lhs \<noteq> ev_priority rhs then ev_priority lhs < ev_priority rhs
      else if ev_complete lhs \<noteq> ev_complete rhs then ev_complete lhs
      else if sn_epoch (ev_snapshot lhs) \<noteq> sn_epoch (ev_snapshot rhs)
      then sn_epoch (ev_snapshot rhs) < sn_epoch (ev_snapshot lhs)
      else if sn_incarnation (ev_snapshot lhs) \<noteq> sn_incarnation (ev_snapshot rhs)
      then sn_incarnation (ev_snapshot rhs) < sn_incarnation (ev_snapshot lhs)
      else if sn_sequence (ev_snapshot lhs) \<noteq> sn_sequence (ev_snapshot rhs)
      then sn_sequence (ev_snapshot rhs) < sn_sequence (ev_snapshot lhs)
      else sn_source (ev_snapshot lhs) < sn_source (ev_snapshot rhs))"

text \<open>The order of the first sort: by source, newest first.\<close>

definition NewestFirst :: "EvidenceView \<Rightarrow> EvidenceView \<Rightarrow> bool" where
  "NewestFirst lhs rhs =
     (if sn_source (ev_snapshot lhs) \<noteq> sn_source (ev_snapshot rhs)
      then sn_source (ev_snapshot lhs) < sn_source (ev_snapshot rhs)
      else if sn_epoch (ev_snapshot lhs) \<noteq> sn_epoch (ev_snapshot rhs)
      then sn_epoch (ev_snapshot rhs) < sn_epoch (ev_snapshot lhs)
      else if sn_incarnation (ev_snapshot lhs) \<noteq> sn_incarnation (ev_snapshot rhs)
      then sn_incarnation (ev_snapshot rhs) < sn_incarnation (ev_snapshot lhs)
      else sn_sequence (ev_snapshot rhs) < sn_sequence (ev_snapshot lhs))"

definition MakeRef :: "EvidenceView \<Rightarrow> EvidenceRef" where
  "MakeRef view =
     (let s = ev_snapshot view in
      \<lparr>er_source = sn_source s, er_snapshot = sn_snapshot_id s, er_epoch = sn_epoch s,
       er_incarnation = sn_incarnation s, er_sequence = sn_sequence s,
       er_collected_at = sn_collected_at s, er_received_at = sn_received_at s,
       er_freshness = fv_state (ev_verdict view), er_content_digest = ev_content_digest view,
       er_coverage = sn_coverage s, er_evidence = sn_evidence s\<rparr>)"

definition make_view :: "ObservatoryPolicy \<Rightarrow> ObservationSnapshot \<times> FreshnessVerdict \<Rightarrow> EvidenceView" where
  "make_view policy sv =
     \<lparr>ev_snapshot = fst sv, ev_verdict = snd sv,
      ev_usable = fv_may_support_compliance (snd sv),
      ev_complete = declares_complete_coverage (fst sv),
      ev_absence_authority = sc_asserts_absence (sn_capabilities (fst sv)),
      ev_priority = PriorityOf policy (sn_source (fst sv)),
      ev_content_digest = Snapshot_ComputeContentDigest (fst sv)\<rparr>"

definition candidate_views :: "ObservatoryPolicy \<Rightarrow> TargetComparisonInput \<Rightarrow> EvidenceView list" where
  "candidate_views policy input =
     map (make_view policy)
       (List.map_filter (\<lambda>(s, v). map_option (\<lambda>s. (s, v)) s) (zip (ci_snapshots input) (ci_freshness input)))"

text \<open>The loop that keeps the first view of each run of equal sources.\<close>

fun newest_per_source :: "EvidenceView list \<Rightarrow> EvidenceView list" where
  "newest_per_source [] = []"
| "newest_per_source [v] = [v]"
| "newest_per_source (v # w # vs) =
     (if sn_source (ev_snapshot v) = sn_source (ev_snapshot w) then newest_per_source (v # vs)
      else v # newest_per_source (w # vs))"

definition ordered_views :: "ObservatoryPolicy \<Rightarrow> TargetComparisonInput \<Rightarrow> EvidenceView list" where
  "ordered_views policy input =
     sort_by ViewLess (newest_per_source (sort_by NewestFirst (candidate_views policy input)))"

section \<open>Helpers\<close>

definition UintValue :: "u64 \<Rightarrow> Value" where
  "UintValue v = (if v \<le> 9223372036854775807 then V_Int (uint v) else MakeUint v)"

definition TryReadAppliedGeneration :: "ObservedObject \<Rightarrow> IntentGeneration option" where
  "TryReadAppliedGeneration object =
     (case FieldPath_TryParse kAppliedGenerationPath 4 128 of
        None \<Rightarrow> None
      | Some path \<Rightarrow>
          (case map_of (oo_fields object) path of
             Some (V_Int i) \<Rightarrow> if i \<ge> 0 then Some (word_of_int i) else None
           | Some (V_Uint u) \<Rightarrow> Some u
           | _ \<Rightarrow> None))"

definition IsReservedObjectId :: "ObjectId \<Rightarrow> bool" where
  "IsReservedObjectId oid \<longleftrightarrow> oid \<noteq> [] \<and> hd oid = CHR ''@''"

definition IsReservedPath :: "FieldPath \<Rightarrow> bool" where
  "IsReservedPath path \<longleftrightarrow>
     (case path of PS_Key k # _ \<Rightarrow> k \<noteq> [] \<and> hd k = CHR ''@'' | _ \<Rightarrow> False)"

definition ObjectFullyVisible :: "EvidenceView \<Rightarrow> ObjectId \<Rightarrow> bool" where
  "ObjectFullyVisible view oid \<longleftrightarrow> \<not> declares_unobserved (ev_snapshot view) oid \<and> ev_complete view"

definition FieldVisible :: "EvidenceView \<Rightarrow> ObjectId \<Rightarrow> FieldPath \<Rightarrow> bool" where
  "FieldVisible view oid path \<longleftrightarrow>
     ObjectFullyVisible view oid \<and>
     \<not> (length path > 1 \<and> \<not> sc_reports_nested_paths (sn_capabilities (ev_snapshot view)))"

definition ConflictQualifier :: "SourceId \<Rightarrow> SourceId \<Rightarrow> Digest" where
  "ConflictQualifier a b =
     (let low = (if a < b then a else b);
          high = (if a < b then b else a)
      in Final (UpdateLengthPrefixed high (UpdateLengthPrefixed low
           (UpdateTag ''ndo/source-conflict/v1'' Sha256_new))))"

definition GenerationQualifier :: "string \<Rightarrow> IntentGeneration \<Rightarrow> u64 list \<Rightarrow> Digest" where
  "GenerationQualifier kind intended applied =
     Final (fold UpdateU64 applied (UpdateU64 (of_nat (length applied)) (UpdateU64 intended
       (UpdateLengthPrefixed kind (UpdateTag ''ndo/generation-divergence/v1'' Sha256_new)))))"

definition AttachEvidence :: "RuntimeLimits \<Rightarrow> EvidenceView \<Rightarrow> FindingDraft \<Rightarrow> FindingDraft" where
  "AttachEvidence limits view d =
     (if length (fd_evidence d) \<ge> max_evidence_refs_per_finding limits then d
      else d\<lparr>fd_evidence := fd_evidence d @ [MakeRef view]\<rparr>)"

definition MakeDraft ::
    "TargetId \<Rightarrow> ObjectId \<Rightarrow> FieldPath \<Rightarrow> DriftClass \<Rightarrow> IntentBaseline \<Rightarrow> ObservatoryPolicy \<Rightarrow> FindingDraft" where
  "MakeDraft target object path klass baseline policy =
     \<lparr>fd_target = target, fd_object = object, fd_path = path, fd_klass = klass, fd_raw_class = klass,
      fd_severity = SeverityFor policy target object path klass, fd_reason = RC_None,
      fd_baseline_generation = ib_generation baseline, fd_baseline_epoch = ib_epoch baseline,
      fd_baseline_authority = ib_authority baseline,
      fd_has_intended = False, fd_intended = V_Null, fd_has_observed = False, fd_observed = V_Null,
      fd_evidence = [], fd_qualifier = Digest_unset, fd_compliance_relevant = True, fd_rationale = []\<rparr>"

record GenerationScan =
  gs_any_applied :: bool
  gs_any_matches_baseline :: bool
  gs_applied :: "u64 list"

definition scan_step :: "EvidenceView \<Rightarrow> IntentGeneration \<Rightarrow> ObjectId \<times> IntentObject \<Rightarrow> GenerationScan \<Rightarrow> GenerationScan" where
  "scan_step view baseline entry scan =
     (case Snapshot_FindObject (ev_snapshot view) (fst entry) of
        None \<Rightarrow> scan
      | Some observed \<Rightarrow>
          if oo_presence observed \<noteq> OP_Present then scan
          else (case TryReadAppliedGeneration observed of
                  None \<Rightarrow> scan
                | Some applied \<Rightarrow>
                    scan\<lparr>gs_any_applied := True, gs_applied := gs_applied scan @ [applied],
                      gs_any_matches_baseline :=
                        gs_any_matches_baseline scan \<or> (uint_is_set baseline \<and> applied = baseline)\<rparr>))"

definition ScanAppliedGenerations ::
    "EvidenceView \<Rightarrow> (ObjectId, IntentObject) omap \<Rightarrow> IntentGeneration \<Rightarrow> GenerationScan" where
  "ScanAppliedGenerations view objects baseline =
     (let scan = fold (scan_step view baseline) objects
            \<lparr>gs_any_applied = False, gs_any_matches_baseline = False, gs_applied = []\<rparr>
      in scan\<lparr>gs_applied := sort_unique (gs_applied scan)\<rparr>)"

definition kMaxTraceEntries :: nat where
  "kMaxTraceEntries = 64"

definition AppendTrace :: "string \<Rightarrow> TargetEvaluation \<Rightarrow> TargetEvaluation" where
  "AppendTrace text evaluation =
     (if length (tv_trace evaluation) \<ge> kMaxTraceEntries then evaluation
      else evaluation\<lparr>tv_trace := tv_trace evaluation @ [text]\<rparr>)"

section \<open>Cross-source conflicts\<close>

definition conflict_draft ::
    "TargetId \<Rightarrow> IntentBaseline \<Rightarrow> ObservatoryPolicy \<Rightarrow> RuntimeLimits \<Rightarrow> EvidenceView \<Rightarrow> EvidenceView
       \<Rightarrow> ObjectId \<Rightarrow> FieldPath \<Rightarrow> Value \<Rightarrow> Value \<Rightarrow> string \<Rightarrow> FindingDraft" where
  "conflict_draft target baseline policy limits lhs rhs object path observed other what =
     (let draft = MakeDraft target object path DC_SourceConflict baseline policy;
          draft = draft\<lparr>fd_reason := RC_ObservationSourcesDisagree,
            fd_qualifier := ConflictQualifier (sn_source (ev_snapshot lhs)) (sn_source (ev_snapshot rhs)),
            fd_has_observed := True, fd_observed := observed,
            fd_has_intended := True, fd_intended := other,
            fd_rationale := [''sources '' @ sn_source (ev_snapshot lhs) @ '' and '' @
              sn_source (ev_snapshot rhs) @ '' disagree about '' @ what]\<rparr>
      in AttachEvidence limits rhs (AttachEvidence limits lhs draft))"

definition object_conflicts ::
    "TargetId \<Rightarrow> IntentBaseline \<Rightarrow> ObservatoryPolicy \<Rightarrow> RuntimeLimits \<Rightarrow> EvidenceView \<Rightarrow> EvidenceView
       \<Rightarrow> ObjectId \<times> ObservedObject \<Rightarrow> FindingDraft list" where
  "object_conflicts target baseline policy limits lhs rhs entry =
     (case Snapshot_FindObject (ev_snapshot rhs) (fst entry) of
        None \<Rightarrow> []
      | Some other \<Rightarrow>
          if oo_presence (snd entry) \<noteq> oo_presence other
          then (if oo_presence (snd entry) = OP_Unknown \<or> oo_presence other = OP_Unknown then []
                else [conflict_draft target baseline policy limits lhs rhs (fst entry) []
                        (V_String (ToText_ObjectPresence (oo_presence (snd entry))))
                        (V_String (ToText_ObjectPresence (oo_presence other))) ''object presence''])
          else concat (map (\<lambda>(path, field).
                 case map_of (oo_fields other) path of
                   None \<Rightarrow> []
                 | Some other_field \<Rightarrow>
                     if RelateValues field other_field (po_numeric_equivalence policy) \<noteq> VR_Different then []
                     else [conflict_draft target baseline policy limits lhs rhs (fst entry) path
                             field other_field ''this field'']) (oo_fields (snd entry))))"

definition conflict_drafts ::
    "TargetId \<Rightarrow> IntentBaseline \<Rightarrow> ObservatoryPolicy \<Rightarrow> RuntimeLimits \<Rightarrow> EvidenceView list \<Rightarrow> FindingDraft list" where
  "conflict_drafts target baseline policy limits views =
     concat (map (\<lambda>i.
       if \<not> ev_usable (views ! i) then []
       else concat (map (\<lambda>j.
              if \<not> ev_usable (views ! j) then []
              else concat (map (object_conflicts target baseline policy limits (views ! i) (views ! j))
                     (sn_objects (ev_snapshot (views ! i)))))
            [Suc i..<min (length views) kMaxConflictSources]))
       [0..<min (length views) kMaxConflictSources])"

section \<open>Objects and fields against the primary source\<close>

definition observed_presence :: "EvidenceView \<Rightarrow> ObjectId \<Rightarrow> ObjectPresence" where
  "observed_presence primary oid =
     (case Snapshot_FindObject (ev_snapshot primary) oid of
        Some observed \<Rightarrow> oo_presence observed
      | None \<Rightarrow>
          if declares_unobserved (ev_snapshot primary) oid then OP_Unknown
          else if ObjectFullyVisible primary oid then OP_Absent
          else OP_Unknown)"

definition field_draft ::
    "TargetId \<Rightarrow> IntentBaseline \<Rightarrow> ObservatoryPolicy \<Rightarrow> RuntimeLimits \<Rightarrow> EvidenceView \<Rightarrow> ObjectId
       \<Rightarrow> ObservedObject \<Rightarrow> FieldPath \<times> IntentField \<Rightarrow> FindingDraft list" where
  "field_draft target baseline policy limits primary object observed entry =
     (let path = fst entry;
          field = snd entry;
          draft = (\<lambda>klass. MakeDraft target object path klass baseline policy);
          comparability = ClassifyField policy target object path (if_comparability field)
      in if IsReservedPath path then []
         else if comparability = FC_Unmanaged \<or> comparability = FC_ObserveOnly then []
         else if comparability = FC_Unobservable
         then [AttachEvidence limits primary ((draft DC_Unknown)\<lparr>fd_reason := RC_ClassifiedNotObservable,
                 fd_rationale := [''intent declares this field unobservable'']\<rparr>)]
         else if comparability = FC_Unsupported
         then [AttachEvidence limits primary ((draft DC_Unsupported)\<lparr>fd_reason := RC_ClassifiedUnsupportedField,
                 fd_rationale := [''intent declares this field outside the supported class'']\<rparr>)]
         else case map_of (oo_fields observed) path of
           None \<Rightarrow>
             if FieldVisible primary object path
             then [AttachEvidence limits primary ((draft DC_FieldMissing)\<lparr>fd_reason := RC_ClassifiedFieldMissing,
                     fd_has_intended := True, fd_intended := if_intended field,
                     fd_rationale := [''a complete fresh observation does not report this managed field'']\<rparr>)]
             else [AttachEvidence limits primary ((draft DC_Unknown)\<lparr>fd_reason := RC_ObservationCoveragePartial,
                     fd_rationale := [''the primary source cannot prove the absence of this field'']\<rparr>)]
         | Some value \<Rightarrow>
             (case RelateValues (if_intended field) value (po_numeric_equivalence policy) of
                VR_Equal \<Rightarrow> []
              | VR_Incomparable \<Rightarrow>
                  [AttachEvidence limits primary ((draft DC_Unsupported)\<lparr>fd_reason := RC_ClassifiedFieldNotComparable,
                     fd_has_intended := True, fd_intended := if_intended field,
                     fd_has_observed := True, fd_observed := value,
                     fd_rationale := [''intended and observed values are not in the same comparison class'']\<rparr>)]
              | VR_Different \<Rightarrow>
                  [AttachEvidence limits primary ((draft DC_ValueMismatch)\<lparr>fd_reason := RC_ClassifiedValueMismatch,
                     fd_has_intended := True, fd_intended := if_intended field,
                     fd_has_observed := True, fd_observed := value,
                     fd_rationale := [''intended and observed values differ'']\<rparr>)]))"

definition unexpected_field_draft ::
    "TargetId \<Rightarrow> IntentBaseline \<Rightarrow> ObservatoryPolicy \<Rightarrow> RuntimeLimits \<Rightarrow> EvidenceView \<Rightarrow> ObjectId
       \<Rightarrow> IntentObject \<Rightarrow> FieldPath \<times> Value \<Rightarrow> FindingDraft list" where
  "unexpected_field_draft target baseline policy limits primary object intended entry =
     (if IsReservedPath (fst entry) then []
      else if map_of (io_fields intended) (fst entry) \<noteq> None then []
      else [AttachEvidence limits primary
              ((MakeDraft target object (fst entry) DC_FieldUnexpected baseline policy)\<lparr>
                 fd_reason := RC_ClassifiedFieldUnexpected, fd_has_observed := True, fd_observed := snd entry,
                 fd_rationale := [''the observation reports a field the intent does not declare'']\<rparr>)])"

definition object_drafts ::
    "TargetId \<Rightarrow> IntentBaseline \<Rightarrow> ObservatoryPolicy \<Rightarrow> RuntimeLimits \<Rightarrow> EvidenceView
       \<Rightarrow> ObjectId \<times> IntentObject \<Rightarrow> FindingDraft list" where
  "object_drafts target baseline policy limits primary entry =
     (let object = fst entry;
          intended = snd entry;
          presence = observed_presence primary object;
          draft = (\<lambda>klass. MakeDraft target object [] klass baseline policy);
          fields = (case Snapshot_FindObject (ev_snapshot primary) object of
              None \<Rightarrow> []
            | Some observed \<Rightarrow>
                if presence \<noteq> OP_Present then []
                else concat (map (field_draft target baseline policy limits primary object observed) (io_fields intended)) @
                     concat (map (unexpected_field_draft target baseline policy limits primary object intended)
                       (oo_fields observed)))
      in if io_existence intended = OE_Required
         then (if presence = OP_Absent
               then (if po_require_absence_authority policy \<and> \<not> ev_absence_authority primary
                     then [AttachEvidence limits primary ((draft DC_Unknown)\<lparr>
                             fd_reason := RC_ObservationSourceCannotAssertAbsence,
                             fd_rationale := [''the primary source cannot assert absence'']\<rparr>)]
                     else [AttachEvidence limits primary ((draft DC_Missing)\<lparr>
                             fd_reason := RC_ClassifiedObjectMissing,
                             fd_has_intended := True, fd_intended := V_String ''required'',
                             fd_has_observed := True, fd_observed := V_String ''absent'',
                             fd_rationale := [''intent requires this object to exist'',
                               ''fresh evidence reports it absent'']\<rparr>)])
               else if presence = OP_Unknown
               then [AttachEvidence limits primary ((draft DC_Unknown)\<lparr>
                       fd_reason := (if declares_unobserved (ev_snapshot primary) object
                         then RC_ObservationCoveragePartial else RC_ObservationCoverageUnknown),
                       fd_rationale := [''the primary source did not observe this object and cannot assert its absence'']\<rparr>)]
               else fields)
         else if presence = OP_Present
         then [AttachEvidence limits primary ((draft DC_Unexpected)\<lparr>
                 fd_reason := RC_ClassifiedObjectUnexpected,
                 fd_has_intended := True, fd_intended := V_String ''forbidden'',
                 fd_has_observed := True, fd_observed := V_String ''present'',
                 fd_rationale := [''intent forbids this object'', ''fresh evidence reports it present'']\<rparr>)]
         else fields)"

definition unexpected_object_draft ::
    "TargetId \<Rightarrow> IntentBaseline \<Rightarrow> ObservatoryPolicy \<Rightarrow> RuntimeLimits \<Rightarrow> EvidenceView
       \<Rightarrow> ObjectId \<times> ObservedObject \<Rightarrow> FindingDraft list" where
  "unexpected_object_draft target baseline policy limits primary entry =
     (if IsReservedObjectId (fst entry) then []
      else if map_of (ib_objects baseline) (fst entry) \<noteq> None then []
      else if oo_presence (snd entry) \<noteq> OP_Present then []
      else [AttachEvidence limits primary
              ((MakeDraft target (fst entry) [] DC_Unexpected baseline policy)\<lparr>
                 fd_reason := RC_ClassifiedObjectUnexpected,
                 fd_has_observed := True, fd_observed := V_String ''present'',
                 fd_rationale := [''fresh evidence reports an object the committed intent does not declare'']\<rparr>)])"

definition comparison_drafts ::
    "TargetId \<Rightarrow> IntentBaseline \<Rightarrow> ObservatoryPolicy \<Rightarrow> RuntimeLimits \<Rightarrow> EvidenceView list \<Rightarrow> EvidenceView \<Rightarrow> FindingDraft list" where
  "comparison_drafts target baseline policy limits views primary =
     conflict_drafts target baseline policy limits views @
     concat (map (object_drafts target baseline policy limits primary) (ib_objects baseline)) @
     concat (map (unexpected_object_draft target baseline policy limits primary)
       (sn_objects (ev_snapshot primary)))"

section \<open>Generation divergence\<close>

definition is_deviation :: "FindingDraft \<Rightarrow> bool" where
  "is_deviation d \<longleftrightarrow> fd_klass d = DC_ValueMismatch \<or> fd_klass d = DC_FieldMissing \<or> fd_klass d = DC_Missing"

definition regroup_draft :: "ObservatoryPolicy \<Rightarrow> bool \<Rightarrow> Digest \<Rightarrow> FindingDraft \<Rightarrow> FindingDraft" where
  "regroup_draft policy partial qualifier d =
     (if \<not> is_deviation d then d
      else
        let klass = (if partial then DC_PartialApplication else DC_GenerationMismatch) in
        d\<lparr>fd_klass := klass,
          fd_reason := (if partial then RC_ClassifiedPartialApplication else RC_ClassifiedGenerationMismatch),
          fd_qualifier := qualifier,
          fd_severity := SeverityFor policy (fd_target d) (fd_object d) (fd_path d) klass,
          fd_rationale := fd_rationale d @
            [if partial then ''some objects report the intended generation and others do not''
             else ''the target reports a generation older than the committed baseline'']\<rparr>)"

text \<open>The regrouped drafts and the trace line, when the regrouping happens.\<close>

definition regroup ::
    "ObservatoryPolicy \<Rightarrow> IntentBaseline \<Rightarrow> EvidenceView \<Rightarrow> FindingDraft list \<Rightarrow> FindingDraft list \<times> string option" where
  "regroup policy baseline primary drafts =
     (let scan = ScanAppliedGenerations primary (ib_objects baseline) (ib_generation baseline) in
      if \<not> gs_any_applied scan \<or> \<not> list_ex is_deviation drafts then (drafts, None)
      else
        let partial = gs_any_matches_baseline scan;
            regressed = (\<not> partial \<and> gs_applied scan \<noteq> [] \<and> last (gs_applied scan) \<noteq> ib_generation baseline)
        in if \<not> (partial \<or> regressed) then (drafts, None)
           else
             let qualifier = GenerationQualifier (if partial then ''partial'' else ''not-applied'')
                               (ib_generation baseline) (gs_applied scan)
             in (map (regroup_draft policy partial qualifier) drafts,
                 Some (if partial then ''divergence regrouped as a partial application''
                       else ''divergence regrouped as an unapplied generation'')))"

section \<open>The decision\<close>

record Decision =
  dn_indeterminate :: bool
  dn_actionable :: bool
  dn_first :: ReasonCode

definition decision_step :: "FindingDraft \<Rightarrow> Decision \<Rightarrow> Decision" where
  "decision_step d c =
     (let first = (if dn_first c = RC_None then fd_reason d else dn_first c) in
      if IsIndeterminateDrift (fd_klass d) \<or> fd_klass d = DC_Unsupported
      then c\<lparr>dn_indeterminate := True, dn_first := first\<rparr>
      else if IsActionableDrift (fd_klass d) \<or> fd_klass d = DC_IntentMissing
      then c\<lparr>dn_actionable := True, dn_first := first\<rparr>
      else c)"

definition decide_drafts :: "FindingDraft list \<Rightarrow> Decision" where
  "decide_drafts drafts =
     fold decision_step drafts \<lparr>dn_indeterminate = False, dn_actionable = False, dn_first = RC_None\<rparr>"

definition conclude :: "ObservatoryPolicy \<Rightarrow> EvidenceView \<Rightarrow> TargetEvaluation \<Rightarrow> TargetEvaluation" where
  "conclude policy primary evaluation =
     (let decision = decide_drafts (tv_drafts evaluation);
          coverage_ok = (\<not> po_require_complete_coverage policy \<or> ev_complete primary);
          decidable = (\<not> dn_indeterminate decision \<and> coverage_ok);
          compliant = (decidable \<and> \<not> dn_actionable decision);
          evaluation = evaluation\<lparr>tv_compliance_decidable := decidable, tv_compliant := compliant,
            tv_decision_reason :=
              (if compliant then RC_ClassifiedConverged
               else if dn_first decision \<noteq> RC_None then dn_first decision
               else RC_ObservationCoveragePartial)\<rparr>;
          evaluation = (if coverage_ok then evaluation
            else AppendTrace ''evidence does not cover the whole target; compliance is not decidable'' evaluation)
      in AppendTrace (if compliant then ''target complies with the committed intent''
                      else ''target does not comply with the committed intent'') evaluation)"

section \<open>The whole comparison\<close>

definition scope_object :: ObjectId where
  "scope_object = (case StringId_TryParse kTargetScopeObjectId of Some oid \<Rightarrow> oid | None \<Rightarrow> ''@target'')"

definition empty_baseline :: IntentBaseline where
  "empty_baseline =
     \<lparr>ib_target = [], ib_generation = 0, ib_epoch = 0, ib_authority = IA_Unknown, ib_policy = [],
      ib_committed_at = 0, ib_content_digest = Digest_unset, ib_evidence = EC_Unknown, ib_objects = []\<rparr>"

definition blank_evaluation :: "TargetComparisonInput \<Rightarrow> TargetEvaluation" where
  "blank_evaluation input =
     (let evaluation =
        \<lparr>tv_target = ci_target input, tv_has_baseline = False, tv_baseline_generation = 0,
         tv_baseline_epoch = 0, tv_baseline_authority = IA_Unknown, tv_best_freshness = FR_Unknown,
         tv_sources_considered = 0, tv_fresh_sources = 0, tv_compliance_decidable = False,
         tv_compliant = False, tv_decision_reason = RC_NoFreshEvidence, tv_drafts = [], tv_trace = []\<rparr>
      in case ci_baseline input of
           None \<Rightarrow> evaluation
         | Some b \<Rightarrow> evaluation\<lparr>tv_has_baseline := True, tv_baseline_generation := ib_generation b,
                       tv_baseline_epoch := ib_epoch b, tv_baseline_authority := ib_authority b\<rparr>)"

definition compare_without_intent ::
    "TargetComparisonInput \<Rightarrow> ObservatoryPolicy \<Rightarrow> RuntimeLimits \<Rightarrow> EvidenceView list \<Rightarrow> TargetEvaluation \<Rightarrow> TargetEvaluation" where
  "compare_without_intent input policy limits views evaluation =
     (let evaluation =
        (if ci_target input \<in> set (po_required_targets policy)
         then
           let root = (case FieldPath_TryParse '''' (max_path_segments limits) (max_path_key_bytes limits) of
                         Some p \<Rightarrow> p | None \<Rightarrow> []);
               draft = (MakeDraft (ci_target input) scope_object root DC_IntentMissing empty_baseline policy)\<lparr>
                 fd_reason := RC_ClassifiedNoIntent,
                 fd_rationale := [''policy requires this target to be managed'',
                   ''no intent generation is committed for this target'']\<rparr>;
               draft = (case views of
                   [] \<Rightarrow> draft
                 | v # _ \<Rightarrow> (AttachEvidence limits v draft)\<lparr>fd_compliance_relevant := ev_usable v\<rparr>)
           in AppendTrace ''target is required by policy and has no committed intent''
                (evaluation\<lparr>tv_drafts := tv_drafts evaluation @ [draft]\<rparr>)
         else AppendTrace ''no intent is committed and policy does not require one'' evaluation)
      in evaluation\<lparr>tv_compliance_decidable := False, tv_compliant := False,
           tv_decision_reason := RC_ClassifiedNoIntent\<rparr>)"

definition compare_without_evidence ::
    "TargetComparisonInput \<Rightarrow> IntentBaseline \<Rightarrow> ObservatoryPolicy \<Rightarrow> RuntimeLimits \<Rightarrow> EvidenceView list
       \<Rightarrow> TargetEvaluation \<Rightarrow> TargetEvaluation" where
  "compare_without_evidence input baseline policy limits views evaluation =
     (let reason = (case views of [] \<Rightarrow> RC_NoFreshEvidence | v # _ \<Rightarrow> fv_reason (ev_verdict v));
          draft = (MakeDraft (ci_target input) scope_object [] DC_StaleObservation baseline policy)\<lparr>
            fd_reason := reason,
            fd_rationale := [''no fresh evidence is available for this target'',
              ''best available evidence state: '' @ ToText_FreshnessState (tv_best_freshness evaluation)]\<rparr>;
          draft = fold (AttachEvidence limits) views draft
      in AppendTrace ''freshness policy refused every available observation''
           (evaluation\<lparr>tv_drafts := tv_drafts evaluation @ [draft], tv_compliance_decidable := False,
              tv_compliant := False, tv_decision_reason := reason\<rparr>))"

definition compare_with_evidence ::
    "TargetComparisonInput \<Rightarrow> IntentBaseline \<Rightarrow> ObservatoryPolicy \<Rightarrow> RuntimeLimits \<Rightarrow> EvidenceView list
       \<Rightarrow> EvidenceView \<Rightarrow> TargetEvaluation \<Rightarrow> TargetEvaluation" where
  "compare_with_evidence input baseline policy limits views primary evaluation =
     (let evaluation = AppendTrace (''primary source: '' @ sn_source (ev_snapshot primary)) evaluation;
          evaluation = AppendTrace (''baseline generation: '' @ nat_text (unat (ib_generation baseline))) evaluation;
          evaluation = (if length (filter ev_usable views) > kMaxConflictSources
            then AppendTrace ''cross-source scan bounded; further sources not compared'' evaluation else evaluation);
          (drafts, line) = regroup policy baseline primary
            (comparison_drafts (ci_target input) baseline policy limits views primary);
          evaluation = evaluation\<lparr>tv_drafts := tv_drafts evaluation @ drafts\<rparr>;
          evaluation = (case line of None \<Rightarrow> evaluation | Some l \<Rightarrow> AppendTrace l evaluation)
      in conclude policy primary evaluation)"

definition CompareTarget :: "TargetComparisonInput \<Rightarrow> ObservatoryPolicy \<Rightarrow> RuntimeLimits \<Rightarrow> TargetEvaluation" where
  "CompareTarget input policy limits =
     (let evaluation = blank_evaluation input in
      if length (ci_snapshots input) \<noteq> length (ci_freshness input)
      then AppendTrace ''evidence and verdict counts disagree; no comparison performed''
             (evaluation\<lparr>tv_compliance_decidable := False, tv_compliant := False,
                tv_decision_reason := RC_ComparisonBaselineUnavailable\<rparr>)
      else
        let views = ordered_views policy input;
            evaluation = (if length views \<noteq> length (candidate_views policy input)
              then AppendTrace ''older snapshots from the same source were superseded by newer ones'' evaluation
              else evaluation);
            evaluation = evaluation\<lparr>tv_sources_considered := length views,
              tv_fresh_sources := length (filter ev_usable views),
              tv_best_freshness := (case views of [] \<Rightarrow> FR_Unknown | v # _ \<Rightarrow> fv_state (ev_verdict v))\<rparr>
        in case ci_baseline input of
             None \<Rightarrow> compare_without_intent input policy limits views evaluation
           | Some baseline \<Rightarrow>
               if \<not> list_ex ev_usable views
               then compare_without_evidence input baseline policy limits views evaluation
               else compare_with_evidence input baseline policy limits views (hd views) evaluation)"

section \<open>Outcomes and explanations\<close>

definition DraftCount :: "EvaluationOutcome \<Rightarrow> nat" where
  "DraftCount outcome = sum_list (map (\<lambda>e. length (tv_drafts e)) (eo_targets outcome))"

definition hash_draft :: "FindingDraft \<Rightarrow> Sha256 \<Rightarrow> Sha256" where
  "hash_draft d h =
     (let h = UpdateLengthPrefixed (fd_object d) h;
          h = UpdateLengthPrefixed (FieldPath_ToText (fd_path d)) h;
          h = UpdateLengthPrefixed (ToText_DriftClass (fd_klass d)) h;
          h = UpdateLengthPrefixed (ToText_DriftClass (fd_raw_class d)) h;
          h = UpdateU64 (if Digest_is_set (fd_qualifier d) then 1 else 0) h;
          h = (if Digest_is_set (fd_qualifier d) then Update (fd_qualifier d) h else h);
          h = UpdateByte (bool_byte (fd_has_intended d)) h;
          h = (if fd_has_intended d then HashInto (fd_intended d) h else h);
          h = UpdateByte (bool_byte (fd_has_observed d)) h
      in if fd_has_observed d then HashInto (fd_observed d) h else h)"

definition hash_evaluation :: "TargetEvaluation \<Rightarrow> Sha256 \<Rightarrow> Sha256" where
  "hash_evaluation e h =
     (let h = UpdateLengthPrefixed (tv_target e) h;
          h = UpdateLengthPrefixed (if tv_baseline_generation e = 0 then '''' else ''baseline'') h;
          h = UpdateU64 (tv_baseline_generation e) h;
          h = UpdateU64 (tv_baseline_epoch e) h;
          h = UpdateByte (bool_byte (tv_compliance_decidable e)) h;
          h = UpdateByte (bool_byte (tv_compliant e)) h;
          h = UpdateLengthPrefixed (ToText_ReasonCode (tv_decision_reason e)) h
      in hash_sequence hash_draft (tv_drafts e) h)"

definition Outcome_ComputeDigest :: "EvaluationOutcome \<Rightarrow> Digest" where
  "Outcome_ComputeDigest outcome =
     (let h = UpdateTag ''ndo/evaluation-outcome/v1'' Sha256_new;
          h = UpdateU64 (word_of_int (eo_now outcome)) h;
          h = UpdateU64 (eo_epoch outcome) h;
          h = UpdateU64 (eo_incarnation outcome) h;
          h = UpdateLengthPrefixed (eo_policy outcome) h;
          h = Update (eo_policy_digest outcome) h
      in Final (hash_sequence hash_evaluation (eo_targets outcome) h))"

definition ExplainDraft :: "(u64 \<Rightarrow> string) \<Rightarrow> FindingDraft \<Rightarrow> ObservatoryPolicy \<Rightarrow> string" where
  "ExplainDraft fd d policy =
     (let text = ToText_DriftClass (fd_klass d) @ '' at '' @ fd_target d @ '' '' @ fd_object d @ '' '' @
            Describe (fd_path d) @ ''; severity '' @ ToText_Severity (fd_severity d) @ '' under policy '' @
            po_id policy @ ''; reason '' @ ToText_ReasonCode (fd_reason d) @
            (if fd_has_intended d then ''; intended '' @ ToDisplayText fd (fd_intended d) 64 else []) @
            (if fd_has_observed d then ''; observed '' @ ToDisplayText fd (fd_observed d) 64 else []) @
            concat (map (\<lambda>step. ''; '' @ step) (fd_rationale d))
      in if length text > 512 then take 512 text @ ''...'' else text)"

section \<open>The orders are strict weak orders\<close>

text \<open>Both comparators compare tuples lexicographically; the keys make that explicit.\<close>

definition view_key :: "EvidenceView \<Rightarrow> bool \<times> nat \<times> bool \<times> int \<times> int \<times> int \<times> string" where
  "view_key v =
     (\<not> ev_usable v, ev_priority v, \<not> ev_complete v, - uint (sn_epoch (ev_snapshot v)),
      - uint (sn_incarnation (ev_snapshot v)), - uint (sn_sequence (ev_snapshot v)), sn_source (ev_snapshot v))"

definition claim_key :: "ObservationSnapshot \<Rightarrow> string \<times> int \<times> int \<times> int" where
  "claim_key s = (sn_source s, - uint (sn_epoch s), - uint (sn_incarnation s), - uint (sn_sequence s))"

lemma neq_word_uint: "a \<noteq> b \<longleftrightarrow> uint a \<noteq> uint b" for a b :: "'a::len word"
  by (auto intro: word_uint_eqI)

lemma ViewLess_key: "ViewLess a b \<longleftrightarrow> view_key a < view_key b"
  by (simp add: ViewLess_def view_key_def less_prod_simp word_less_def neq_word_uint less_bool_def) force

lemma NewestFirst_key: "NewestFirst a b \<longleftrightarrow> claim_key (ev_snapshot a) < claim_key (ev_snapshot b)"
  by (simp add: NewestFirst_def claim_key_def less_prod_simp word_less_def neq_word_uint) force

interpretation view_order: strict_weak_order ViewLess
  by unfold_locales (auto simp: ViewLess_key)

interpretation claim_order: strict_weak_order NewestFirst
  by unfold_locales (auto simp: NewestFirst_key)

section \<open>The views that are compared\<close>

lemma newest_per_source_subset: "set (newest_per_source vs) \<subseteq> set vs"
  by (induction vs rule: newest_per_source.induct) auto

lemma newest_per_source_distinct:
  assumes "sorted_wrt (\<lambda>x y. \<not> NewestFirst y x) vs"
  shows "distinct (map (\<lambda>v. sn_source (ev_snapshot v)) (newest_per_source vs))"
  using assms
proof (induction vs rule: newest_per_source.induct)
  case (3 v w vs)
  show ?case
  proof (cases "sn_source (ev_snapshot v) = sn_source (ev_snapshot w)")
    case False
    have "\<not> NewestFirst w v" using 3(3) by simp
    then have vw: "sn_source (ev_snapshot v) < sn_source (ev_snapshot w)"
      using False by (auto simp: NewestFirst_def)
    have "sn_source (ev_snapshot v) \<noteq> sn_source (ev_snapshot u)" if "u \<in> set (newest_per_source (w # vs))" for u
    proof -
      have "u \<in> set (w # vs)" using newest_per_source_subset that by blast
      then have "\<not> NewestFirst u w \<or> u = w" using 3(3) by auto
      then have "sn_source (ev_snapshot w) \<le> sn_source (ev_snapshot u)"
        by (auto simp: NewestFirst_def split: if_splits)
      with vw show ?thesis by auto
    qed
    with False 3 show ?thesis by auto
  qed (use 3 in auto)
qed simp_all

lemma set_candidate_views:
  "set (candidate_views policy input) =
     make_view policy ` {(s, v). (Some s, v) \<in> set (zip (ci_snapshots input) (ci_freshness input))}"
  by (force simp: candidate_views_def List.map_filter_def image_iff split: option.splits)

lemma ordered_views_subset: "set (ordered_views policy input) \<subseteq> set (candidate_views policy input)"
  using newest_per_source_subset by (fastforce simp: ordered_views_def)

lemma ordered_view_cases:
  assumes "v \<in> set (ordered_views policy input)"
  obtains s f where "(Some s, f) \<in> set (zip (ci_snapshots input) (ci_freshness input))" and "v = make_view policy (s, f)"
  using assms ordered_views_subset [of policy input] by (force simp: set_candidate_views)

text \<open>Usable evidence comes first, so the primary view is usable whenever any view is.\<close>

lemma primary_usable:
  assumes "list_ex ev_usable (ordered_views policy input)"
  shows "ordered_views policy input \<noteq> [] \<and> ev_usable (hd (ordered_views policy input))"
proof -
  obtain u where u: "u \<in> set (ordered_views policy input)" "ev_usable u"
    using assms by (auto simp: list_ex_iff)
  then obtain p ps where ps: "ordered_views policy input = p # ps" by (cases "ordered_views policy input") auto
  have "\<not> ViewLess u p"
    by (rule view_order.head_is_least [OF ps [unfolded ordered_views_def]])
      (use u(1) in \<open>simp add: ordered_views_def\<close>)
  then show ?thesis using ps u(2) by (auto simp: ViewLess_def split: if_splits)
qed

section \<open>Bookkeeping\<close>

lemma AppendTrace_frame [frame_simps]:
  "tv_compliant (AppendTrace t e) = tv_compliant e"
  "tv_compliance_decidable (AppendTrace t e) = tv_compliance_decidable e"
  "tv_drafts (AppendTrace t e) = tv_drafts e"
  "tv_target (AppendTrace t e) = tv_target e"
  "tv_decision_reason (AppendTrace t e) = tv_decision_reason e"
  by (simp_all add: AppendTrace_def)

lemma blank_evaluation_frame [frame_simps]:
  "tv_drafts (blank_evaluation input) = []" "\<not> tv_compliant (blank_evaluation input)"
  "\<not> tv_compliance_decidable (blank_evaluation input)" "tv_trace (blank_evaluation input) = []"
  by (simp_all add: blank_evaluation_def Let_def split: option.splits)

lemma AttachEvidence_frame [frame_simps]:
  "fd_klass (AttachEvidence limits v d) = fd_klass d"
  "fd_raw_class (AttachEvidence limits v d) = fd_raw_class d"
  "fd_object (AttachEvidence limits v d) = fd_object d"
  "fd_path (AttachEvidence limits v d) = fd_path d"
  "fd_target (AttachEvidence limits v d) = fd_target d"
  "fd_intended (AttachEvidence limits v d) = fd_intended d"
  "fd_observed (AttachEvidence limits v d) = fd_observed d"
  "fd_has_intended (AttachEvidence limits v d) = fd_has_intended d"
  "fd_has_observed (AttachEvidence limits v d) = fd_has_observed d"
  by (simp_all add: AttachEvidence_def)

lemma MakeDraft_frame [frame_simps]:
  "fd_klass (MakeDraft t ob p k b pol) = k" "fd_raw_class (MakeDraft t ob p k b pol) = k"
  "fd_object (MakeDraft t ob p k b pol) = ob" "fd_path (MakeDraft t ob p k b pol) = p"
  "fd_target (MakeDraft t ob p k b pol) = t" "fd_evidence (MakeDraft t ob p k b pol) = []"
  by (simp_all add: MakeDraft_def)

section \<open>Order independence\<close>

lemma mset_candidate_views:
  assumes "mset (zip (ci_snapshots a) (ci_freshness a)) = mset (zip (ci_snapshots b) (ci_freshness b))"
  shows "mset (candidate_views policy a) = mset (candidate_views policy b)"
  using assms by (simp add: candidate_views_def List.map_filter_def mset_filter)

text \<open>A source states one claim per epoch, incarnation and sequence.\<close>

definition claims_distinct :: "TargetComparisonInput \<Rightarrow> bool" where
  "claims_distinct input \<longleftrightarrow>
     (\<forall>(s, v) \<in> set (zip (ci_snapshots input) (ci_freshness input)).
      \<forall>(t, w) \<in> set (zip (ci_snapshots input) (ci_freshness input)).
        s \<noteq> None \<and> t \<noteq> None \<and> claim_key (the s) = claim_key (the t) \<longrightarrow> s = t \<and> v = w)"

lemma ordered_views_cong:
  assumes "mset (zip (ci_snapshots a) (ci_freshness a)) = mset (zip (ci_snapshots b) (ci_freshness b))"
    and "claims_distinct a"
  shows "ordered_views policy a = ordered_views policy b"
proof -
  have total: "NewestFirst x y \<or> NewestFirst y x"
    if in_x: "x \<in> set (candidate_views policy a)" and in_y: "y \<in> set (candidate_views policy a)"
      and differ: "x \<noteq> y" for x y
  proof -
    obtain s v t w where x: "(Some s, v) \<in> set (zip (ci_snapshots a) (ci_freshness a))" "x = make_view policy (s, v)"
      and y: "(Some t, w) \<in> set (zip (ci_snapshots a) (ci_freshness a))" "y = make_view policy (t, w)"
      using in_x in_y by (auto simp: set_candidate_views)
    have "claim_key s \<noteq> claim_key t"
      using assms(2) x y differ unfolding claims_distinct_def by fastforce
    then show ?thesis using x(2) y(2) by (auto simp: NewestFirst_key make_view_def)
  qed
  have "sort_by NewestFirst (candidate_views policy a) = sort_by NewestFirst (candidate_views policy b)"
    using mset_candidate_views [OF assms(1)] total by (rule claim_order.sort_by_permutation)
  then show ?thesis by (simp add: ordered_views_def)
qed



section \<open>No fresh evidence, no compliance\<close>

lemma unusable_views:
  assumes "\<forall>v \<in> set (ci_freshness input). \<not> fv_may_support_compliance v"
  shows "\<not> list_ex ev_usable (ordered_views policy input)"
proof -
  have "\<not> ev_usable u" if "u \<in> set (ordered_views policy input)" for u
    using that assms by (elim ordered_view_cases) (auto simp: make_view_def dest: set_zip_rightD)
  then show ?thesis by (auto simp: list_ex_iff)
qed

text \<open>
  Without fresh evidence nothing is decided: if no candidate verdict may support compliance, the
  target is neither decidable nor compliant, and when intent is committed the only draft is one that
  says the evidence is stale.
\<close>

theorem no_fresh_evidence_undecided:
  assumes "\<forall>v \<in> set (ci_freshness input). \<not> fv_may_support_compliance v"
  shows "\<not> tv_compliance_decidable (CompareTarget input policy limits) \<and>
    \<not> tv_compliant (CompareTarget input policy limits) \<and>
    (ci_baseline input \<noteq> None \<and> length (ci_snapshots input) = length (ci_freshness input) \<longrightarrow>
      map fd_klass (tv_drafts (CompareTarget input policy limits)) = [DC_StaleObservation])"
proof -
  have klass: "fd_klass (fold (AttachEvidence limits) vs d) = fd_klass d" for vs d
    by (induction vs arbitrary: d) (simp_all add: frame_simps)
  show ?thesis
    using unusable_views [OF assms, of policy]
    by (simp add: CompareTarget_def compare_without_intent_def compare_without_evidence_def Let_def
        frame_simps klass split: option.splits)
qed

theorem no_fresh_evidence_undecided_witness:
  "\<not> tv_compliant (CompareTarget \<lparr>ci_target = ''dev'', ci_baseline = Some empty_baseline,
     ci_snapshots = [Some example_snapshot], ci_freshness = [default_verdict]\<rparr> Policy_Default default_limits)"
  using no_fresh_evidence_undecided [of "\<lparr>ci_target = ''dev'', ci_baseline = Some empty_baseline,
     ci_snapshots = [Some example_snapshot], ci_freshness = [default_verdict]\<rparr>"]
  by (simp add: default_verdict_def)

section \<open>Compliance, exactly\<close>

text \<open>What compliance is meant to say of a snapshot, independently of how drafts are produced.\<close>

definition field_satisfied ::
    "ObservatoryPolicy \<Rightarrow> TargetId \<Rightarrow> ObjectId \<Rightarrow> ObservedObject \<Rightarrow> FieldPath \<times> IntentField \<Rightarrow> bool" where
  "field_satisfied policy target oid observed entry \<longleftrightarrow>
     IsReservedPath (fst entry) \<or>
     ClassifyField policy target oid (fst entry) (if_comparability (snd entry)) \<in> {FC_Unmanaged, FC_ObserveOnly} \<or>
     ClassifyField policy target oid (fst entry) (if_comparability (snd entry)) = FC_Managed \<and>
       (\<exists>value. map_of (oo_fields observed) (fst entry) = Some value \<and>
          RelateValues (if_intended (snd entry)) value (po_numeric_equivalence policy) = VR_Equal)"

definition object_satisfied ::
    "ObservatoryPolicy \<Rightarrow> TargetId \<Rightarrow> ObservationSnapshot \<Rightarrow> ObjectId \<times> IntentObject \<Rightarrow> bool" where
  "object_satisfied policy target s entry \<longleftrightarrow>
     (case io_existence (snd entry) of
        OE_Required \<Rightarrow>
          (\<exists>observed. Snapshot_FindObject s (fst entry) = Some observed \<and> oo_presence observed = OP_Present \<and>
             (\<forall>f \<in> set (io_fields (snd entry)). field_satisfied policy target (fst entry) observed f) \<and>
             (\<forall>(path, value) \<in> set (oo_fields observed).
                IsReservedPath path \<or> map_of (io_fields (snd entry)) path \<noteq> None))
      | OE_Forbidden \<Rightarrow>
          (\<forall>observed. Snapshot_FindObject s (fst entry) = Some observed \<longrightarrow> oo_presence observed \<noteq> OP_Present))"

definition target_satisfied ::
    "ObservatoryPolicy \<Rightarrow> TargetId \<Rightarrow> IntentBaseline \<Rightarrow> ObservationSnapshot \<Rightarrow> bool" where
  "target_satisfied policy target baseline s \<longleftrightarrow>
     (\<forall>entry \<in> set (ib_objects baseline). object_satisfied policy target s entry) \<and>
     (\<forall>(oid, observed) \<in> set (sn_objects s).
        IsReservedObjectId oid \<or> map_of (ib_objects baseline) oid \<noteq> None \<or> oo_presence observed \<noteq> OP_Present)"

lemma comparability_cases:
  "c \<noteq> FC_Unmanaged \<Longrightarrow> c \<noteq> FC_ObserveOnly \<Longrightarrow> c \<noteq> FC_Unobservable \<Longrightarrow> c \<noteq> FC_Unsupported \<Longrightarrow> c = FC_Managed"
  by (cases c) simp_all

lemma field_draft_none:
  "field_draft target baseline policy limits primary oid observed entry = [] \<longleftrightarrow>
     field_satisfied policy target oid observed entry"
  by (auto simp: field_draft_def field_satisfied_def Let_def dest: comparability_cases
      split: option.splits ValueRelation.splits if_splits)

lemma unexpected_field_draft_none:
  "unexpected_field_draft target baseline policy limits primary oid intended entry = [] \<longleftrightarrow>
     IsReservedPath (fst entry) \<or> map_of (io_fields intended) (fst entry) \<noteq> None"
  by (simp add: unexpected_field_draft_def)

lemma unexpected_object_draft_none:
  "unexpected_object_draft target baseline policy limits primary entry = [] \<longleftrightarrow>
     IsReservedObjectId (fst entry) \<or> map_of (ib_objects baseline) (fst entry) \<noteq> None \<or>
     oo_presence (snd entry) \<noteq> OP_Present"
  by (simp add: unexpected_object_draft_def)

lemma observed_presence_present:
  "observed_presence primary oid = OP_Present \<longleftrightarrow>
     (\<exists>observed. Snapshot_FindObject (ev_snapshot primary) oid = Some observed \<and> oo_presence observed = OP_Present)"
  by (auto simp: observed_presence_def split: option.splits)

lemma object_drafts_none:
  "object_drafts target baseline policy limits primary entry = [] \<longleftrightarrow>
     object_satisfied policy target (ev_snapshot primary) entry"
proof (cases "observed_presence primary (fst entry) = OP_Present")
  case True
  then obtain observed where "Snapshot_FindObject (ev_snapshot primary) (fst entry) = Some observed"
    "oo_presence observed = OP_Present"
    by (auto simp: observed_presence_present)
  with True show ?thesis
    by (auto simp: object_drafts_def object_satisfied_def Let_def field_draft_none unexpected_field_draft_none
        split: ObjectExistence.splits)
next
  case False
  then have "\<not> (\<exists>observed. Snapshot_FindObject (ev_snapshot primary) (fst entry) = Some observed \<and>
      oo_presence observed = OP_Present)"
    by (simp add: observed_presence_present)
  with False show ?thesis
    by (cases "observed_presence primary (fst entry)")
      (auto simp: object_drafts_def object_satisfied_def Let_def split: ObjectExistence.splits option.splits)
qed

lemma comparison_drafts_none:
  "comparison_drafts target baseline policy limits views primary = [] \<longleftrightarrow>
     conflict_drafts target baseline policy limits views = [] \<and>
     target_satisfied policy target baseline (ev_snapshot primary)"
  by (auto simp: comparison_drafts_def target_satisfied_def object_drafts_none unexpected_object_draft_none)

text \<open>Every draft counts against compliance: its class is actionable, indeterminate or unsupported.\<close>

definition counts :: "DriftClass \<Rightarrow> bool" where
  "counts k \<longleftrightarrow> IsIndeterminateDrift k \<or> k = DC_Unsupported \<or> IsActionableDrift k \<or> k = DC_IntentMissing"

lemma counts_iff: "counts k \<longleftrightarrow> k \<noteq> DC_None"
  by (cases k) (simp_all add: counts_def IsIndeterminateDrift_def IsActionableDrift_def)

lemma decide_drafts_flags:
  "dn_indeterminate (fold decision_step drafts c) \<or> dn_actionable (fold decision_step drafts c) \<longleftrightarrow>
     dn_indeterminate c \<or> dn_actionable c \<or> (\<exists>d \<in> set drafts. counts (fd_klass d))"
proof (induction drafts arbitrary: c)
  case (Cons d drafts)
  show ?case unfolding fold_simps comp_apply Cons
    by (auto simp: decision_step_def Let_def counts_def)
qed simp

lemma field_draft_class: "d \<in> set (field_draft t b p l v ob obs e) \<Longrightarrow> fd_klass d \<noteq> DC_None"
  by (auto simp: field_draft_def Let_def frame_simps split: if_splits option.splits ValueRelation.splits)

lemma object_drafts_class: "d \<in> set (object_drafts t b p l v e) \<Longrightarrow> fd_klass d \<noteq> DC_None"
  by (auto simp: object_drafts_def unexpected_field_draft_def Let_def frame_simps
      dest: field_draft_class split: if_splits option.splits)

lemma object_conflicts_class: "d \<in> set (object_conflicts t b p l v w e) \<Longrightarrow> fd_klass d = DC_SourceConflict"
  by (auto simp: object_conflicts_def conflict_draft_def Let_def frame_simps split: if_splits option.splits)

lemma comparison_drafts_class: "d \<in> set (comparison_drafts t b p l vs v) \<Longrightarrow> fd_klass d \<noteq> DC_None"
  by (auto simp: comparison_drafts_def conflict_drafts_def unexpected_object_draft_def frame_simps
      dest: object_drafts_class object_conflicts_class split: if_splits)

lemma regroup_draft_class: "fd_klass d \<noteq> DC_None \<Longrightarrow> fd_klass (regroup_draft p part q d) \<noteq> DC_None"
  by (simp add: regroup_draft_def Let_def)

lemma regroup_class:
  "(\<And>d. d \<in> set drafts \<Longrightarrow> fd_klass d \<noteq> DC_None) \<Longrightarrow> d \<in> set (fst (regroup p b v drafts)) \<Longrightarrow> fd_klass d \<noteq> DC_None"
  by (auto simp: regroup_def Let_def regroup_draft_class split: if_splits)

lemma regroup_none: "fst (regroup p b v drafts) = [] \<longleftrightarrow> drafts = []"
  by (auto simp: regroup_def Let_def)

lemma conclude_frame [frame_simps]:
  "tv_compliant (conclude policy primary e) \<longleftrightarrow>
     \<not> dn_indeterminate (decide_drafts (tv_drafts e)) \<and> \<not> dn_actionable (decide_drafts (tv_drafts e)) \<and>
     (if po_require_complete_coverage policy then ev_complete primary else True)"
  "tv_compliance_decidable (conclude policy primary e) \<longleftrightarrow>
     \<not> dn_indeterminate (decide_drafts (tv_drafts e)) \<and>
     (if po_require_complete_coverage policy then ev_complete primary else True)"
  "tv_drafts (conclude policy primary e) = tv_drafts e"
  by (auto simp: conclude_def Let_def AppendTrace_frame)

lemma compare_with_evidence_drafts:
  "tv_drafts (compare_with_evidence input b policy limits views primary e) =
     tv_drafts e @ fst (regroup policy b primary (comparison_drafts (ci_target input) b policy limits views primary))"
  by (simp add: compare_with_evidence_def Let_def frame_simps case_prod_unfold split: option.splits)

lemma compare_with_evidence_compliant:
  assumes "tv_drafts e = []"
  shows "tv_compliant (compare_with_evidence input b policy limits views primary e) \<longleftrightarrow>
    comparison_drafts (ci_target input) b policy limits views primary = [] \<and>
    (if po_require_complete_coverage policy then ev_complete primary else True)"
proof -
  define drafts where "drafts = comparison_drafts (ci_target input) b policy limits views primary"
  define R where "R = fst (regroup policy b primary drafts)"
  have "\<not> dn_indeterminate (decide_drafts R) \<and> \<not> dn_actionable (decide_drafts R) \<longleftrightarrow>
      \<not> (\<exists>d \<in> set R. counts (fd_klass d))"
    using decide_drafts_flags [of R "\<lparr>dn_indeterminate = False, dn_actionable = False, dn_first = RC_None\<rparr>"]
    by (auto simp: decide_drafts_def)
  also have "\<dots> \<longleftrightarrow> R = []"
  proof -
    have "counts (fd_klass d)" if "d \<in> set R" for d
      using that regroup_class comparison_drafts_class unfolding R_def drafts_def counts_iff by blast
    then show ?thesis by (cases R) auto
  qed
  finally show ?thesis
    using assms
    by (auto simp: compare_with_evidence_def Let_def frame_simps case_prod_unfold R_def regroup_none
        simp flip: drafts_def split: option.splits)
qed


section \<open>No silent drift\<close>

text \<open>Regrouping relabels a deviation but keeps where it is and what it says.\<close>

lemma regroup_draft_keeps [frame_simps]:
  "fd_object (regroup_draft p part q d) = fd_object d" "fd_path (regroup_draft p part q d) = fd_path d"
  "fd_raw_class (regroup_draft p part q d) = fd_raw_class d"
  "fd_intended (regroup_draft p part q d) = fd_intended d"
  "fd_observed (regroup_draft p part q d) = fd_observed d"
  "fd_evidence (regroup_draft p part q d) = fd_evidence d"
  by (simp_all add: regroup_draft_def Let_def)

lemma regroup_deviation:
  assumes "d \<in> set drafts" and "fd_klass d = DC_ValueMismatch"
  shows "\<exists>r \<in> set (fst (regroup p b v drafts)). fd_object r = fd_object d \<and> fd_path r = fd_path d \<and>
    fd_raw_class r = fd_raw_class d \<and> fd_intended r = fd_intended d \<and> fd_observed r = fd_observed d \<and>
    fd_klass r \<in> {DC_ValueMismatch, DC_PartialApplication, DC_GenerationMismatch}"
proof -
  have klass: "fd_klass (regroup_draft p part q d) \<in> {DC_ValueMismatch, DC_PartialApplication, DC_GenerationMismatch}"
    for part q
    using assms(2) by (simp add: regroup_draft_def Let_def)
  have "fst (regroup p b v drafts) = drafts \<or> (\<exists>part q. fst (regroup p b v drafts) = map (regroup_draft p part q) drafts)"
    by (auto simp: regroup_def Let_def)
  then show ?thesis
  proof
    assume "fst (regroup p b v drafts) = drafts"
    then show ?thesis using assms by (intro bexI [of _ d]) auto
  next
    assume "\<exists>part q. fst (regroup p b v drafts) = map (regroup_draft p part q) drafts"
    then obtain part q where "fst (regroup p b v drafts) = map (regroup_draft p part q) drafts" by blast
    then show ?thesis
      using assms(1) klass [of part q] by (intro bexI [of _ "regroup_draft p part q d"]) (auto simp: frame_simps)
  qed
qed

lemma compare_evidence_case:
  assumes "length (ci_snapshots input) = length (ci_freshness input)" and "ci_baseline input = Some baseline"
    and "ordered_views policy input = primary # rest" and "ev_usable primary"
  shows "tv_drafts (CompareTarget input policy limits) =
    fst (regroup policy baseline primary
      (comparison_drafts (ci_target input) baseline policy limits (primary # rest) primary))"
  using assms by (simp add: CompareTarget_def Let_def compare_with_evidence_drafts frame_simps)


definition example_verdict :: FreshnessVerdict where
  "example_verdict = default_verdict\<lparr>fv_state := FR_Fresh, fv_may_support_compliance := True\<rparr>"

definition example_intent_object :: "ObjectExistence \<Rightarrow> IntentObject" where
  "example_intent_object existence =
     \<lparr>io_id = ''port/1'', io_existence = existence,
      io_fields = [([PS_Key ''mtu''],
        \<lparr>if_path = [PS_Key ''mtu''], if_intended = V_Int 9000, if_comparability = FC_Managed\<rparr>)]\<rparr>"

definition example_baseline :: "ObjectExistence \<Rightarrow> IntentBaseline" where
  "example_baseline existence =
     empty_baseline\<lparr>ib_target := ''dev'', ib_generation := 1, ib_epoch := 1,
       ib_objects := [(''port/1'', example_intent_object existence)]\<rparr>"

definition example_observed :: ObservedObject where
  "example_observed = \<lparr>oo_id = ''port/1'', oo_presence = OP_Present, oo_fields = [([PS_Key ''mtu''], V_Int 1500)]\<rparr>"

definition example_input :: TargetComparisonInput where
  "example_input =
     \<lparr>ci_target = ''dev'', ci_baseline = Some (example_baseline OE_Required),
      ci_snapshots = [Some (example_snapshot\<lparr>sn_objects := [(''port/1'', example_observed)], sn_unobserved := []\<rparr>)],
      ci_freshness = [example_verdict]\<rparr>"

lemma ordered_views_single:
  "ci_snapshots input = [Some s] \<Longrightarrow> ci_freshness input = [v] \<Longrightarrow> ordered_views policy input = [make_view policy (s, v)]"
  by (simp add: ordered_views_def candidate_views_def List.map_filter_def sort_by_def)


section \<open>A forbidden object that was not looked at\<close>

text \<open>
  A forbidden object whose presence the primary source declares unobserved produces no draft at
  all, so where the policy does not insist on complete coverage the target is declared compliant
  although nobody has looked for the object it must not have.
\<close>

theorem unobserved_forbidden_object_compliant:
  "\<exists>input policy baseline s. ci_baseline input = Some baseline \<and> ci_snapshots input = [Some s] \<and>
     (''port/1'', example_intent_object OE_Forbidden) \<in> set (ib_objects baseline) \<and>
     declares_unobserved s ''port/1'' \<and> tv_compliant (CompareTarget input policy default_limits)"
proof -
  define s where "s = example_snapshot\<lparr>sn_coverage := OC_Partial, sn_unobserved := [''port/1'']\<rparr>"
  define input where "input = \<lparr>ci_target = ''dev'', ci_baseline = Some (example_baseline OE_Forbidden),
    ci_snapshots = [Some s], ci_freshness = [example_verdict]\<rparr>"
  define policy where "policy = Policy_Default\<lparr>po_require_complete_coverage := False\<rparr>"
  have views: "ordered_views policy input = [make_view policy (s, example_verdict)]"
    by (rule ordered_views_single) (simp_all add: input_def)
  have drafts: "comparison_drafts ''dev'' (example_baseline OE_Forbidden) policy default_limits
      [make_view policy (s, example_verdict)] (make_view policy (s, example_verdict)) = []"
    by (simp add: comparison_drafts_none target_satisfied_def object_satisfied_def example_baseline_def
        example_intent_object_def Snapshot_FindObject_def s_def example_snapshot_def make_view_def
        conflict_drafts_def kMaxConflictSources_def)
  have "tv_compliant (CompareTarget input policy default_limits)"
    using views drafts
    by (simp add: CompareTarget_def Let_def compare_with_evidence_compliant frame_simps)
       (simp add: input_def make_view_def example_verdict_def compare_with_evidence_compliant frame_simps
         drafts [unfolded make_view_def example_verdict_def] policy_def)
  then show ?thesis
    by (intro exI [of _ input] exI [of _ policy] exI [of _ "example_baseline OE_Forbidden"] exI [of _ s])
      (simp add: input_def example_baseline_def declares_unobserved_def s_def)
qed

section \<open>Bounds\<close>

lemma AttachEvidence_bound:
  "length (fd_evidence d) \<le> max_evidence_refs_per_finding limits \<Longrightarrow>
     length (fd_evidence (AttachEvidence limits v d)) \<le> max_evidence_refs_per_finding limits"
  by (simp add: AttachEvidence_def)

lemma evidence_bounds:
  "d \<in> set (field_draft t b p limits v ob obs e) \<Longrightarrow> length (fd_evidence d) \<le> max_evidence_refs_per_finding limits"
  "d \<in> set (unexpected_field_draft t b p limits v ob io fe) \<Longrightarrow> length (fd_evidence d) \<le> max_evidence_refs_per_finding limits"
  "d \<in> set (unexpected_object_draft t b p limits v oe) \<Longrightarrow> length (fd_evidence d) \<le> max_evidence_refs_per_finding limits"
  "d \<in> set (object_conflicts t b p limits v w oe) \<Longrightarrow> length (fd_evidence d) \<le> max_evidence_refs_per_finding limits"
  by (auto simp: field_draft_def unexpected_field_draft_def unexpected_object_draft_def object_conflicts_def
      conflict_draft_def Let_def frame_simps intro!: AttachEvidence_bound
      split: if_splits option.splits ValueRelation.splits)

lemma object_drafts_bound:
  "d \<in> set (object_drafts t b p limits v e) \<Longrightarrow> length (fd_evidence d) \<le> max_evidence_refs_per_finding limits"
  by (auto simp: object_drafts_def Let_def frame_simps evidence_bounds intro!: AttachEvidence_bound
      split: if_splits option.splits)

lemma comparison_drafts_bound:
  "d \<in> set (comparison_drafts t b p limits vs v) \<Longrightarrow> length (fd_evidence d) \<le> max_evidence_refs_per_finding limits"
  by (auto simp: comparison_drafts_def conflict_drafts_def evidence_bounds object_drafts_bound split: if_splits)

lemma regroup_bound:
  "(\<And>d. d \<in> set drafts \<Longrightarrow> length (fd_evidence d) \<le> n) \<Longrightarrow> d \<in> set (fst (regroup p b v drafts)) \<Longrightarrow> length (fd_evidence d) \<le> n"
  by (auto simp: regroup_def Let_def frame_simps split: if_splits)

lemma attach_all_bound:
  "length (fd_evidence d) \<le> max_evidence_refs_per_finding limits \<Longrightarrow>
     length (fd_evidence (fold (AttachEvidence limits) vs d)) \<le> max_evidence_refs_per_finding limits"
  by (induction vs arbitrary: d) (simp_all add: AttachEvidence_bound)

text \<open>
  Every draft a comparison produces, on every path through it, carries at most the configured
  number of evidence references, whatever the number of sources.
\<close>

theorem draft_evidence_bounded:
  assumes "d \<in> set (tv_drafts (CompareTarget input policy limits))"
  shows "length (fd_evidence d) \<le> max_evidence_refs_per_finding limits"
proof -
  have "length (fd_evidence x) \<le> max_evidence_refs_per_finding limits"
    if "x \<in> set (fst (regroup policy b v (comparison_drafts t b policy limits vs v)))" for x b v t vs
    using that by (rule regroup_bound [rotated]) (rule comparison_drafts_bound)
  then show ?thesis
    using assms
    by (auto simp: CompareTarget_def Let_def compare_without_intent_def compare_without_evidence_def
        compare_with_evidence_drafts frame_simps intro!: attach_all_bound AttachEvidence_bound
        split: option.splits if_splits list.splits)
qed

theorem draft_evidence_bounded_witness:
  "length (fd_evidence (hd (tv_drafts (CompareTarget \<lparr>ci_target = ''dev'', ci_baseline = Some empty_baseline,
     ci_snapshots = [], ci_freshness = []\<rparr> Policy_Default default_limits))))
   \<le> max_evidence_refs_per_finding default_limits"
  by (rule draft_evidence_bounded [where input = "\<lparr>ci_target = ''dev'', ci_baseline = Some empty_baseline,
      ci_snapshots = [], ci_freshness = []\<rparr>" and policy = Policy_Default])
    (simp add: CompareTarget_def Let_def compare_without_evidence_def frame_simps ordered_views_def
      candidate_views_def List.map_filter_def sort_by_def)

end
