(* ===== verification/NDO_Finding.thy ===== *)
theory NDO_Finding
  imports NDO_Comparison
begin

text \<open>
  Findings (\<^verbatim>\<open>finding.hpp\<close>, \<^verbatim>\<open>finding.cpp\<close>): lifecycle states, timeline entries, root-cause groups,
  the identity a finding is keyed by, and its one-line explanation.  The bytes a finding's identity
  is hashed from are shown to determine the identity.
\<close>

datatype FindingState = FS_Open | FS_Acknowledged | FS_Suppressed | FS_Resolved | FS_Superseded | FS_Retired

fun finding_state_value :: "FindingState \<Rightarrow> nat" where
  "finding_state_value FS_Open = 0"
| "finding_state_value FS_Acknowledged = 1"
| "finding_state_value FS_Suppressed = 2"
| "finding_state_value FS_Resolved = 3"
| "finding_state_value FS_Superseded = 4"
| "finding_state_value FS_Retired = 5"

definition kFindingStateNames :: "(nat \<times> string) list" where
  "kFindingStateNames =
     [(0, ''open''), (1, ''acknowledged''), (2, ''suppressed''), (3, ''resolved''), (4, ''superseded''),
      (5, ''retired'')]"

definition ToText_FindingState :: "FindingState \<Rightarrow> string" where
  "ToText_FindingState v = lookup_name kFindingStateNames (finding_state_value v) ''invalid''"

definition TryParseFindingState :: "string \<Rightarrow> FindingState option" where
  "TryParseFindingState wanted =
     Option.bind (lookup_code kFindingStateNames wanted)
       (\<lambda>c. List.find (\<lambda>v. finding_state_value v = c)
         [FS_Open, FS_Acknowledged, FS_Suppressed, FS_Resolved, FS_Superseded, FS_Retired])"

definition IsLiveState :: "FindingState \<Rightarrow> bool" where
  "IsLiveState v \<longleftrightarrow> v = FS_Open \<or> v = FS_Acknowledged \<or> v = FS_Suppressed"

datatype SuppressionOrigin = SO_None | SO_Policy | SO_Operator

fun suppression_origin_value :: "SuppressionOrigin \<Rightarrow> nat" where
  "suppression_origin_value SO_None = 0"
| "suppression_origin_value SO_Policy = 1"
| "suppression_origin_value SO_Operator = 2"

definition kSuppressionOriginNames :: "(nat \<times> string) list" where
  "kSuppressionOriginNames = [(0, ''none''), (1, ''policy''), (2, ''operator'')]"

definition ToText_SuppressionOrigin :: "SuppressionOrigin \<Rightarrow> string" where
  "ToText_SuppressionOrigin v = lookup_name kSuppressionOriginNames (suppression_origin_value v) ''invalid''"

definition TryParseSuppressionOrigin :: "string \<Rightarrow> SuppressionOrigin option" where
  "TryParseSuppressionOrigin wanted =
     Option.bind (lookup_code kSuppressionOriginNames wanted)
       (\<lambda>c. List.find (\<lambda>v. suppression_origin_value v = c) [SO_None, SO_Policy, SO_Operator])"

datatype TimelineEventKind =
    TK_Created | TK_Updated | TK_Reopened | TK_Resolved | TK_Suppressed | TK_SuppressionExpired
  | TK_SuppressionCleared | TK_Acknowledged | TK_AcknowledgementCleared | TK_Reclassified | TK_Rebased
  | TK_EvidenceRecovered | TK_Grouped | TK_Retired

fun event_value :: "TimelineEventKind \<Rightarrow> nat" where
  "event_value TK_Created = 0"
| "event_value TK_Updated = 1"
| "event_value TK_Reopened = 2"
| "event_value TK_Resolved = 3"
| "event_value TK_Suppressed = 4"
| "event_value TK_SuppressionExpired = 5"
| "event_value TK_SuppressionCleared = 6"
| "event_value TK_Acknowledged = 7"
| "event_value TK_AcknowledgementCleared = 8"
| "event_value TK_Reclassified = 9"
| "event_value TK_Rebased = 10"
| "event_value TK_EvidenceRecovered = 11"
| "event_value TK_Grouped = 12"
| "event_value TK_Retired = 13"

definition all_events :: "TimelineEventKind list" where
  "all_events =
     [TK_Created, TK_Updated, TK_Reopened, TK_Resolved, TK_Suppressed, TK_SuppressionExpired,
      TK_SuppressionCleared, TK_Acknowledged, TK_AcknowledgementCleared, TK_Reclassified, TK_Rebased,
      TK_EvidenceRecovered, TK_Grouped, TK_Retired]"

definition kEventNames :: "(nat \<times> string) list" where
  "kEventNames =
     [(0, ''created''), (1, ''updated''), (2, ''reopened''), (3, ''resolved''), (4, ''suppressed''),
      (5, ''suppression-expired''), (6, ''suppression-cleared''), (7, ''acknowledged''),
      (8, ''acknowledgement-cleared''), (9, ''reclassified''), (10, ''rebased''),
      (11, ''evidence-recovered''), (12, ''grouped''), (13, ''retired'')]"

definition ToText_TimelineEventKind :: "TimelineEventKind \<Rightarrow> string" where
  "ToText_TimelineEventKind v = lookup_name kEventNames (event_value v) ''invalid''"

definition TryParseTimelineEventKind :: "string \<Rightarrow> TimelineEventKind option" where
  "TryParseTimelineEventKind wanted =
     Option.bind (lookup_code kEventNames wanted) (\<lambda>c. List.find (\<lambda>v. event_value v = c) all_events)"

datatype RootCauseKind =
    CK_None | CK_SingleField | CK_GenerationNotApplied | CK_PartialApplication | CK_SourceConflict
  | CK_StaleEvidence | CK_InsufficientCoverage | CK_MissingIntent | CK_UnsupportedField

fun cause_value :: "RootCauseKind \<Rightarrow> nat" where
  "cause_value CK_None = 0"
| "cause_value CK_SingleField = 1"
| "cause_value CK_GenerationNotApplied = 2"
| "cause_value CK_PartialApplication = 3"
| "cause_value CK_SourceConflict = 4"
| "cause_value CK_StaleEvidence = 5"
| "cause_value CK_InsufficientCoverage = 6"
| "cause_value CK_MissingIntent = 7"
| "cause_value CK_UnsupportedField = 8"

definition kCauseNames :: "(nat \<times> string) list" where
  "kCauseNames =
     [(0, ''none''), (1, ''single-field''), (2, ''generation-not-applied''), (3, ''partial-application''),
      (4, ''source-conflict''), (5, ''stale-evidence''), (6, ''insufficient-coverage''),
      (7, ''missing-intent''), (8, ''unsupported-field'')]"

definition ToText_RootCauseKind :: "RootCauseKind \<Rightarrow> string" where
  "ToText_RootCauseKind v = lookup_name kCauseNames (cause_value v) ''invalid''"

record TimelineEntry =
  te_kind :: TimelineEventKind
  te_target :: TargetId
  te_object :: ObjectId
  te_finding :: FindingId
  te_sequence :: u64
  te_at :: NdoTime
  te_state_after :: FindingState
  te_klass :: DriftClass
  te_severity :: Severity
  te_reason :: ReasonCode
  te_baseline_generation :: IntentGeneration
  te_baseline_epoch :: FabricEpoch
  te_evidence_digest :: Digest
  te_actor :: ActorId
  te_detail :: string

record RootCauseGroup =
  rg_id :: GroupId
  rg_target :: TargetId
  rg_baseline_generation :: IntentGeneration
  rg_baseline_epoch :: FabricEpoch
  rg_cause :: RootCauseKind
  rg_discriminator :: Digest
  rg_members :: "FindingId list"
  rg_objects :: "ObjectId list"
  rg_summary :: string
  rg_observation_count :: u64
  rg_first_seen :: NdoTime
  rg_last_seen :: NdoTime

record FindingIdentity =
  id_target :: TargetId
  id_object :: ObjectId
  id_path :: FieldPath
  id_klass :: DriftClass
  id_baseline_generation :: IntentGeneration
  id_qualifier :: Digest

record Finding =
  f_id :: FindingId
  f_identity :: FindingIdentity
  f_klass :: DriftClass
  f_raw_class :: DriftClass
  f_severity :: Severity
  f_state :: FindingState
  f_reason :: ReasonCode
  f_baseline_generation :: IntentGeneration
  f_baseline_epoch :: FabricEpoch
  f_baseline_authority :: IntentAuthority
  f_policy :: PolicyId
  f_policy_digest :: Digest
  f_has_intended :: bool
  f_intended :: Value
  f_has_observed :: bool
  f_observed :: Value
  f_evidence :: "EvidenceRef list"
  f_evidence_freshness :: FreshnessState
  f_group :: GroupId
  f_group_cause :: RootCauseKind
  f_observation_count :: u64
  f_reopen_count :: u64
  f_resolution_confirmations :: u32
  f_first_seen :: NdoTime
  f_last_seen :: NdoTime
  f_last_evaluated :: NdoTime
  f_resolved_at :: NdoTime
  f_suppression :: "SuppressionId option"
  f_suppression_origin :: SuppressionOrigin
  f_suppressed_by :: ActorId
  f_suppression_reason :: string
  f_suppression_expires_at :: "NdoTime option"
  f_acknowledged_by :: ActorId
  f_acknowledged_at :: NdoTime
  f_acknowledgement_reason :: string
  f_summary :: string
  f_compliance_relevant :: bool
  f_timeline :: "TimelineEntry list"

definition is_live :: "Finding \<Rightarrow> bool" where
  "is_live f \<longleftrightarrow> IsLiveState (f_state f)"

section \<open>Identity\<close>

definition kFindingIdentityTag :: string where
  "kFindingIdentityTag = ''ndo/finding-identity/v1''"

definition ComputeId :: "FindingIdentity \<Rightarrow> FindingId" where
  "ComputeId i =
     (let h = UpdateTag kFindingIdentityTag Sha256_new;
          h = UpdateLengthPrefixed (id_target i) h;
          h = UpdateLengthPrefixed (id_object i) h;
          h = UpdateLengthPrefixed (FieldPath_ToText (id_path i)) h;
          h = UpdateLengthPrefixed (ToText_DriftClass (id_klass i)) h;
          h = UpdateU64 (id_baseline_generation i) h;
          h = UpdateU64 (if Digest_is_set (id_qualifier i) then 1 else 0) h;
          h = (if Digest_is_set (id_qualifier i) then Update (id_qualifier i) h else h)
      in Final h)"

definition AgeNanos :: "Finding \<Rightarrow> NdoTime \<Rightarrow> int" where
  "AgeNanos f now = (case TryDifference now (f_first_seen f) of None \<Rightarrow> 0 | Some age \<Rightarrow> age)"

section \<open>Explanation\<close>

definition ExplainFinding :: "(u64 \<Rightarrow> string) \<Rightarrow> Finding \<Rightarrow> string" where
  "ExplainFinding fd f =
     (let text = ToText_DriftClass (f_klass f) @ '' at '' @ id_target (f_identity f) @ '' '' @
            id_object (f_identity f) @ '' '' @ Describe (id_path (f_identity f)) @ ''; baseline generation '' @
            nat_text (unat (f_baseline_generation f)) @ '' ('' @ ToText_IntentAuthority (f_baseline_authority f) @
            '')'' @
            (if f_has_intended f then ''; intended '' @ ToDisplayText fd (f_intended f) 96 else []) @
            (if f_has_observed f then ''; observed '' @ ToDisplayText fd (f_observed f) 96 else []) @
            ''; evidence '' @ ToText_FreshnessState (f_evidence_freshness f) @
            (case f_evidence f of
               [] \<Rightarrow> []
             | e # _ \<Rightarrow> '' from '' @ er_source e @ '' snapshot '' @ take 12 (er_snapshot e) @ '' collected '' @
                 FormatTime (er_collected_at e)) @
            ''; state '' @ ToText_FindingState (f_state f) @ ''; severity '' @ ToText_Severity (f_severity f) @
            ''; reason '' @ ToText_ReasonCode (f_reason f) @
            (if f_raw_class f \<noteq> f_klass f then ''; raw class '' @ ToText_DriftClass (f_raw_class f) else []) @
            (case f_suppression f of
               None \<Rightarrow> []
             | Some s \<Rightarrow> ''; suppressed by '' @ f_suppressed_by f @ '' ('' @ s @ '') reason '' @ f_suppression_reason f) @
            ''; observed '' @ nat_text (unat (f_observation_count f)) @ '' time(s); reopened '' @
            nat_text (unat (f_reopen_count f)) @ '' time(s)''
      in if length text > 1024 then take 1024 text @ ''...'' else text)"

section \<open>Equality of stored values\<close>

text \<open>\<^verbatim>\<open>Value::operator==\<close>: structural, doubles by their numeric value.\<close>

fun value_eq :: "Value \<Rightarrow> Value \<Rightarrow> bool"
  and values_eq :: "Value list \<Rightarrow> Value list \<Rightarrow> bool"
  and members_eq :: "(string \<times> Value) list \<Rightarrow> (string \<times> Value) list \<Rightarrow> bool" where
  "value_eq V_Null v = (v = V_Null)"
| "value_eq (V_Bool a) v = (v = V_Bool a)"
| "value_eq (V_Int a) v = (v = V_Int a)"
| "value_eq (V_Uint a) v = (v = V_Uint a)"
| "value_eq (V_Double a) v = (case v of V_Double b \<Rightarrow> double_scaled a = double_scaled b | _ \<Rightarrow> False)"
| "value_eq (V_String a) v = (v = V_String a)"
| "value_eq (V_Bytes a) v = (v = V_Bytes a)"
| "value_eq (V_List a) v = (case v of V_List b \<Rightarrow> values_eq a b | _ \<Rightarrow> False)"
| "value_eq (V_Map a) v = (case v of V_Map b \<Rightarrow> members_eq a b | _ \<Rightarrow> False)"
| "values_eq [] bs = (bs = [])"
| "values_eq (a # as) bs = (case bs of [] \<Rightarrow> False | b # bs' \<Rightarrow> value_eq a b \<and> values_eq as bs')"
| "members_eq [] bs = (bs = [])"
| "members_eq (m # as) bs =
     (case bs of [] \<Rightarrow> False
      | b # bs' \<Rightarrow> fst m = fst b \<and> value_eq (snd m) (snd b) \<and> members_eq as bs')"

section \<open>The bytes of an identity\<close>

definition qualifier_bytes :: "FindingIdentity \<Rightarrow> bytes" where
  "qualifier_bytes i = (if Digest_is_set (id_qualifier i) then be_bytes 1 @ id_qualifier i else be_bytes 0)"

definition identity_bytes :: "FindingIdentity \<Rightarrow> bytes" where
  "identity_bytes i =
     lp_bytes kFindingIdentityTag @ lp_bytes (id_target i) @ lp_bytes (id_object i) @
     lp_bytes (FieldPath_ToText (id_path i)) @ lp_bytes (ToText_DriftClass (id_klass i)) @
     be_bytes (id_baseline_generation i) @ qualifier_bytes i"

lemma ComputeId_bytes: "ComputeId i = sha256 (identity_bytes i)"
  by (simp add: ComputeId_def Let_def Sha256_new_absorbed stream_simps Final_absorbed identity_bytes_def
      qualifier_bytes_def)

lemma FieldPath_ToText_inj:
  assumes "path_within ms mk p" and "path_within ms mk q" and "FieldPath_ToText p = FieldPath_ToText q"
  shows "p = q"
proof -
  have "parse_segments ms mk 0 (path_text True r) = Some r" if "path_within ms mk r" for r
    using parse_segments_complete [of mk r 0 ms] that unfolding path_within_def by simp
  from this [OF assms(1)] this [OF assms(2)] assms(3) have "Some p = Some q"
    unfolding FieldPath_ToText_def by (elim subst) (rule refl)
  then show ?thesis by (rule option.inject [THEN iffD1])
qed

text \<open>
  An identity as the runtime builds it: admitted texts (shorter than a 64-bit length), a path within
  some bounds and a qualifier that is a digest.
\<close>

definition identity_formed :: "nat \<Rightarrow> nat \<Rightarrow> FindingIdentity \<Rightarrow> bool" where
  "identity_formed ms mk i \<longleftrightarrow>
     length (id_target i) < 2 ^ 64 \<and> length (id_object i) < 2 ^ 64 \<and>
     length (FieldPath_ToText (id_path i)) < 2 ^ 64 \<and> path_within ms mk (id_path i) \<and>
     length (id_qualifier i) = kDigestBytes"

lemma unset_digest: "length d = kDigestBytes \<Longrightarrow> \<not> Digest_is_set d \<Longrightarrow> d = Digest_unset"
  by (auto simp: Digest_is_set_def Digest_unset_def list_ex_iff intro: replicate_eqI)

lemma drift_text_short: "length (ToText_DriftClass k) < 2 ^ 64"
  by (cases k) (simp_all add: ToText_DriftClass_def kDriftClassNames_def)

lemma qualifier_bytes_inj:
  assumes "qualifier_bytes i = qualifier_bytes j"
    and "length (id_qualifier i) = kDigestBytes" and "length (id_qualifier j) = kDigestBytes"
  shows "id_qualifier i = id_qualifier j"
proof -
  have len: "length (qualifier_bytes k) = (if Digest_is_set (id_qualifier k) then 40 else 8)"
    if "length (id_qualifier k) = kDigestBytes" for k
    using that by (simp add: qualifier_bytes_def kDigestBytes_def)
  have "Digest_is_set (id_qualifier i) = Digest_is_set (id_qualifier j)"
    using len [OF assms(2)] len [OF assms(3)] assms(1) by (simp split: if_splits)
  then show ?thesis
    using assms unset_digest [of "id_qualifier i"] unset_digest [of "id_qualifier j"]
    by (cases "Digest_is_set (id_qualifier j)") (simp_all add: qualifier_bytes_def)
qed

lemma identity_bytes_inj:
  assumes i: "identity_formed ms mk i" and j: "identity_formed ms mk j"
    and eq: "identity_bytes i = identity_bytes j"
  shows "i = j"
proof -
  note i = i [unfolded identity_formed_def] and j = j [unfolded identity_formed_def]
  from eq [unfolded identity_bytes_def same_append_eq]
  obtain "id_target i = id_target j" and
    r1: "lp_bytes (id_object i) @ lp_bytes (FieldPath_ToText (id_path i)) @
        lp_bytes (ToText_DriftClass (id_klass i)) @ be_bytes (id_baseline_generation i) @ qualifier_bytes i
      = lp_bytes (id_object j) @ lp_bytes (FieldPath_ToText (id_path j)) @
        lp_bytes (ToText_DriftClass (id_klass j)) @ be_bytes (id_baseline_generation j) @ qualifier_bytes j"
    using lp_bytes_unique i j by blast
  moreover from r1 obtain "id_object i = id_object j" and
    r2: "lp_bytes (FieldPath_ToText (id_path i)) @
        lp_bytes (ToText_DriftClass (id_klass i)) @ be_bytes (id_baseline_generation i) @ qualifier_bytes i
      = lp_bytes (FieldPath_ToText (id_path j)) @
        lp_bytes (ToText_DriftClass (id_klass j)) @ be_bytes (id_baseline_generation j) @ qualifier_bytes j"
    using lp_bytes_unique i j by blast
  moreover from r2 obtain p: "FieldPath_ToText (id_path i) = FieldPath_ToText (id_path j)" and
    r3: "lp_bytes (ToText_DriftClass (id_klass i)) @ be_bytes (id_baseline_generation i) @ qualifier_bytes i
      = lp_bytes (ToText_DriftClass (id_klass j)) @ be_bytes (id_baseline_generation j) @ qualifier_bytes j"
    using lp_bytes_unique i j by blast
  moreover from p have "id_path i = id_path j" using FieldPath_ToText_inj i j by blast
  moreover from r3 obtain k: "ToText_DriftClass (id_klass i) = ToText_DriftClass (id_klass j)" and
    r4: "be_bytes (id_baseline_generation i) @ qualifier_bytes i
      = be_bytes (id_baseline_generation j) @ qualifier_bytes j"
    using lp_bytes_unique drift_text_short by blast
  moreover from k have "id_klass i = id_klass j" by (simp only: ToText_DriftClass_inj)
  moreover from r4 obtain "id_baseline_generation i = id_baseline_generation j"
    and r5: "qualifier_bytes i = qualifier_bytes j" by (simp only: be_bytes_split)
  moreover from r5 i j have "id_qualifier i = id_qualifier j" using qualifier_bytes_inj by blast
  ultimately show ?thesis by (intro FindingIdentity.equality) simp_all
qed

text \<open>
  A finding's identity digest determines the finding's identity: it is the SHA-256 of a byte
  string from which target, object, path, drift class, generation and qualifier can be read back, so
  two different divergences never feed the hash the same bytes.
\<close>

theorem finding_identity_unambiguous:
  assumes "identity_formed ms mk i" and "identity_formed ms mk j"
  shows "ComputeId i = sha256 (identity_bytes i) \<and> (identity_bytes i = identity_bytes j \<longleftrightarrow> i = j)"
  using ComputeId_bytes identity_bytes_inj [OF assms] by blast

definition example_identity :: "DriftClass \<Rightarrow> FindingIdentity" where
  "example_identity k =
     \<lparr>id_target = ''dev'', id_object = ''port/1'', id_path = [PS_Key ''mtu''], id_klass = k,
      id_baseline_generation = 1, id_qualifier = Digest_unset\<rparr>"

theorem finding_identity_unambiguous_witness:
  "ComputeId (example_identity DC_Missing) = sha256 (identity_bytes (example_identity DC_Missing)) \<and>
   (identity_bytes (example_identity DC_Missing) = identity_bytes (example_identity DC_Unknown)
     \<longleftrightarrow> example_identity DC_Missing = example_identity DC_Unknown)"
  by (rule finding_identity_unambiguous [where ms = 4 and mk = 64])
    (simp_all add: identity_formed_def example_identity_def path_within_def FieldPath_ToText_def
      Digest_unset_def is_control_def IsEscapable_def)

section \<open>Names\<close>

lemma finding_state_text_roundtrip: "TryParseFindingState (ToText_FindingState v) = Some v"
  by (cases v) (simp_all add: TryParseFindingState_def ToText_FindingState_def kFindingStateNames_def)

lemma event_text_roundtrip: "TryParseTimelineEventKind (ToText_TimelineEventKind v) = Some v"
  by (cases v)
    (simp_all add: TryParseTimelineEventKind_def ToText_TimelineEventKind_def kEventNames_def all_events_def)

lemma suppression_origin_text_roundtrip: "TryParseSuppressionOrigin (ToText_SuppressionOrigin v) = Some v"
  by (cases v)
    (simp_all add: TryParseSuppressionOrigin_def ToText_SuppressionOrigin_def kSuppressionOriginNames_def)

end
