(* ===== verification/NDO_Ledger.thy ===== *)
theory NDO_Ledger
  imports NDO_Finding
begin

text \<open>
  The finding ledger (\<^verbatim>\<open>ledger.hpp\<close>, \<^verbatim>\<open>ledger.cpp\<close>) without the evaluation pass: committed intent
  baselines, the retained evidence windows, the operator actions, recovery and inspection.  An
  operation takes the ledger and returns its status, its report and the ledger it leaves behind; a
  report the code leaves untouched on an early refusal is the blank one the callers pass in.  The
  parameter \<open>dt\<close> is \<^verbatim>\<open>FormatDouble\<close>, the library's shortest printing of a double, which only reaches
  the explanation text.
\<close>

section \<open>State and reports\<close>

record IntentCommitReport =
  ic_target :: TargetId
  ic_previous_generation :: IntentGeneration
  ic_committed_generation :: IntentGeneration
  ic_epoch :: FabricEpoch
  ic_findings_rebased :: nat
  ic_findings_retired :: nat
  ic_duplicate_identical :: bool

definition blank_commit_report :: IntentCommitReport where
  "blank_commit_report =
     \<lparr>ic_target = [], ic_previous_generation = 0, ic_committed_generation = 0, ic_epoch = 0,
      ic_findings_rebased = 0, ic_findings_retired = 0, ic_duplicate_identical = False\<rparr>"

record ObservationAdmission =
  oa_snapshot :: SnapshotId
  oa_source :: SourceId
  oa_target :: TargetId
  oa_sequence :: SourceSequence
  oa_freshness :: FreshnessState
  oa_duplicate_identical :: bool
  oa_superseded_older :: bool

definition blank_admission :: ObservationAdmission where
  "blank_admission =
     \<lparr>oa_snapshot = [], oa_source = [], oa_target = [], oa_sequence = 0, oa_freshness = FR_Unknown,
      oa_duplicate_identical = False, oa_superseded_older = False\<rparr>"

record LedgerApplyReport =
  la_created :: nat
  la_updated :: nat
  la_reopened :: nat
  la_resolved :: nat
  la_suppressed :: nat
  la_superseded :: nat
  la_retired :: nat
  la_unchanged :: nat
  la_fenced_targets :: nat
  la_groups_touched :: nat
  la_created_ids :: "FindingId list"
  la_resolved_ids :: "FindingId list"

definition blank_apply_report :: LedgerApplyReport where
  "blank_apply_report =
     \<lparr>la_created = 0, la_updated = 0, la_reopened = 0, la_resolved = 0, la_suppressed = 0,
      la_superseded = 0, la_retired = 0, la_unchanged = 0, la_fenced_targets = 0, la_groups_touched = 0,
      la_created_ids = [], la_resolved_ids = []\<rparr>"

record RetainedObservation =
  ro_snapshot :: ObservationSnapshot
  ro_freshness :: FreshnessVerdict
  ro_recovered :: bool

datatype SuppressionEndReason = SE_Cleared | SE_Expired | SE_FindingResolved | SE_FindingSuperseded

fun ToText_SuppressionEndReason :: "SuppressionEndReason \<Rightarrow> string" where
  "ToText_SuppressionEndReason SE_Cleared = ''cleared''"
| "ToText_SuppressionEndReason SE_Expired = ''expired''"
| "ToText_SuppressionEndReason SE_FindingResolved = ''finding-resolved''"
| "ToText_SuppressionEndReason SE_FindingSuperseded = ''finding-superseded''"

record LedgerStats =
  ls_targets :: nat
  ls_baselines :: nat
  ls_observations :: nat
  ls_sources :: nat
  ls_findings :: nat
  ls_live_findings :: nat
  ls_resolved_findings :: nat
  ls_superseded_findings :: nat
  ls_suppressed_findings :: nat
  ls_acknowledged_findings :: nat
  ls_groups :: nat
  ls_timeline_entries :: nat
  ls_suppressions_active :: nat
  ls_suppressions_expired :: nat

text \<open>The key of an evidence window orders by target, then by source, as the pair does.\<close>

type_synonym SourceWindowKey = "TargetId \<times> SourceId"

record Ledger =
  l_limits :: RuntimeLimits
  l_revision :: LedgerRevision
  l_timeline_sequence :: u64
  l_baselines :: "(TargetId, IntentBaseline) omap"
  l_windows :: "(SourceWindowKey, RetainedObservation list) omap"
  l_findings :: "(FindingId, Finding) omap"
  l_groups :: "(GroupId, RootCauseGroup) omap"
  l_global_timeline :: "TimelineEntry list"
  l_resolution_streak :: "(FindingId, u32) omap"
  l_suppressions_active :: nat
  l_suppressions_expired :: nat

definition FindingLedger :: "RuntimeLimits \<Rightarrow> Ledger" where
  "FindingLedger lim =
     \<lparr>l_limits = lim, l_revision = 0, l_timeline_sequence = 0, l_baselines = [], l_windows = [],
      l_findings = [], l_groups = [], l_global_timeline = [], l_resolution_streak = [],
      l_suppressions_active = 0, l_suppressions_expired = 0\<rparr>"

definition SetLimits :: "RuntimeLimits \<Rightarrow> Ledger \<Rightarrow> Ledger" where
  "SetLimits lim l = l\<lparr>l_limits := lim\<rparr>"

section \<open>Timelines\<close>

definition BoundedDetail :: "string \<Rightarrow> string" where
  "BoundedDetail s = (if length s \<le> 240 then s else take 240 s @ ''...'')"

text \<open>Erasing the excess from the front of a vector.\<close>

definition keep_last :: "nat \<Rightarrow> 'a list \<Rightarrow> 'a list" where
  "keep_last n xs = (if length xs > n then drop (length xs - n) xs else xs)"

definition AppendTimeline :: "TimelineEntry \<Rightarrow> Ledger \<Rightarrow> Ledger" where
  "AppendTimeline e l =
     (let n = l_timeline_sequence l + 1
      in l\<lparr>l_timeline_sequence := n, l_global_timeline := l_global_timeline l @ [e\<lparr>te_sequence := n\<rparr>]\<rparr>)"

definition TrimTimelineIfNeeded :: "Ledger \<Rightarrow> Ledger" where
  "TrimTimelineIfNeeded l =
     l\<lparr>l_global_timeline := keep_last (max_global_timeline_entries (l_limits l)) (l_global_timeline l)\<rparr>"

definition bump_revision :: "Ledger \<Rightarrow> Ledger" where
  "bump_revision l = l\<lparr>l_revision := l_revision l + 1\<rparr>"

definition RecordEvent :: "TimelineEntry \<Rightarrow> Ledger \<Rightarrow> Ledger" where
  "RecordEvent e l = bump_revision (TrimTimelineIfNeeded (AppendTimeline e l))"

text \<open>
  Every transition of a finding is described by an entry with the finding's own coordinates; the
  entry joins the finding's history as built and the global timeline with the next sequence number.
\<close>

definition finding_event :: "TimelineEventKind \<Rightarrow> NdoTime \<Rightarrow> ReasonCode \<Rightarrow> string \<Rightarrow> Finding \<Rightarrow> TimelineEntry" where
  "finding_event kind now reason detail f =
     \<lparr>te_kind = kind, te_target = id_target (f_identity f), te_object = id_object (f_identity f),
      te_finding = f_id f, te_sequence = 0, te_at = now, te_state_after = f_state f, te_klass = f_klass f,
      te_severity = f_severity f, te_reason = reason, te_baseline_generation = f_baseline_generation f,
      te_baseline_epoch = f_baseline_epoch f, te_evidence_digest = Digest_unset, te_actor = [],
      te_detail = detail\<rparr>"

definition push_event :: "TimelineEntry \<Rightarrow> Finding \<Rightarrow> Finding" where
  "push_event e f = f\<lparr>f_timeline := f_timeline f @ [e]\<rparr>"

definition RecomputeSummary :: "(u64 \<Rightarrow> string) \<Rightarrow> RuntimeLimits \<Rightarrow> Finding \<Rightarrow> Finding" where
  "RecomputeSummary dt lim f =
     (let f = f\<lparr>f_timeline := keep_last (max_timeline_entries_per_finding lim) (f_timeline f)\<rparr>
      in f\<lparr>f_summary := ExplainFinding dt f\<rparr>)"

section \<open>Intent\<close>

definition FindBaseline :: "TargetId \<Rightarrow> Ledger \<Rightarrow> IntentBaseline option" where
  "FindBaseline target l = map_of (l_baselines l) target"

definition target_event ::
    "TimelineEventKind \<Rightarrow> NdoTime \<Rightarrow> ReasonCode \<Rightarrow> string \<Rightarrow> IntentGenerationDocument \<Rightarrow> TimelineEntry" where
  "target_event kind now reason detail d =
     \<lparr>te_kind = kind, te_target = ig_target d,
      te_object = (case StringId_TryParse kTargetScopeObjectId of None \<Rightarrow> ''@target'' | Some s \<Rightarrow> s),
      te_finding = Digest_unset, te_sequence = 0, te_at = now, te_state_after = FS_Open,
      te_klass = DC_None, te_severity = SV_Info, te_reason = reason,
      te_baseline_generation = ig_generation d, te_baseline_epoch = ig_epoch d,
      te_evidence_digest = Digest_unset, te_actor = [], te_detail = BoundedDetail detail\<rparr>"

definition baseline_of_document :: "IntentGenerationDocument \<Rightarrow> NdoTime \<Rightarrow> IntentBaseline" where
  "baseline_of_document d now =
     \<lparr>ib_target = ig_target d, ib_generation = ig_generation d, ib_epoch = ig_epoch d,
      ib_authority = ig_authority d, ib_policy = ig_policy d, ib_committed_at = now,
      ib_content_digest = Intent_ComputeContentDigest d, ib_evidence = ig_evidence d,
      ib_objects = ig_objects d\<rparr>"

definition still_managed :: "IntentBaseline option \<Rightarrow> Finding \<Rightarrow> bool" where
  "still_managed baseline f =
     (case baseline of
        None \<Rightarrow> False
      | Some b \<Rightarrow>
          if id_object (f_identity f) = kTargetScopeObjectId then True
          else (case Baseline_FindObject b (id_object (f_identity f)) of
              None \<Rightarrow> False
            | Some ob \<Rightarrow> if id_path (f_identity f) \<noteq> [] then map_of (io_fields ob) (id_path (f_identity f)) \<noteq> None else True))"

definition leave_group :: "Finding \<Rightarrow> Finding" where
  "leave_group f =
     (if Digest_is_set (f_group f) then f\<lparr>f_group := Digest_unset, f_group_cause := CK_None\<rparr> else f)"

definition group_left :: "Finding \<Rightarrow> GroupId list" where
  "group_left f = (if Digest_is_set (f_group f) then [f_group f] else [])"

record RebasePass =
  rp_ledger :: Ledger
  rp_report :: IntentCommitReport
  rp_drop :: "GroupId list"

definition rebase_finding ::
    "(u64 \<Rightarrow> string) \<Rightarrow> TargetId \<Rightarrow> IntentGeneration \<Rightarrow> NdoTime \<Rightarrow> RebasePass \<Rightarrow> FindingId \<times> Finding
       \<Rightarrow> RebasePass \<times> (FindingId \<times> Finding)" where
  "rebase_finding dt target generation now s entry =
     (let f = snd entry in
      if id_target (f_identity f) \<noteq> target \<or> \<not> IsLiveState (f_state f) \<or> f_baseline_generation f = generation
      then (s, entry)
      else
        let managed = still_managed (FindBaseline target (rp_ledger s)) f;
            g = (if managed
                 then f\<lparr>f_state := FS_Superseded, f_reason := RC_FindingRebasedToNewGeneration\<rparr>
                 else f\<lparr>f_state := FS_Retired, f_reason := RC_FindingRetired\<rparr>);
            rep = rp_report s;
            rep = (if managed then rep\<lparr>ic_findings_rebased := ic_findings_rebased rep + 1\<rparr>
                   else rep\<lparr>ic_findings_retired := ic_findings_retired rep + 1\<rparr>);
            h = leave_group (g\<lparr>f_last_evaluated := now\<rparr>);
            e = (finding_event (if managed then TK_Rebased else TK_Retired) now (f_reason h)
                   (BoundedDetail
                     (if managed
                      then ''baseline advanced to generation '' @ nat_text (unat generation) @
                           ''; finding is superseded until the next evaluation''
                      else ''the new baseline no longer manages this location; the finding is retired'')) h)
                \<lparr>te_baseline_generation := generation, te_evidence_digest := f_policy_digest h\<rparr>
        in (\<lparr>rp_ledger = AppendTimeline e (rp_ledger s), rp_report = rep, rp_drop = group_left f @ rp_drop s\<rparr>,
            (fst entry, RecomputeSummary dt (l_limits (rp_ledger s)) (push_event e h))))"

definition RebaseFindingsForTarget ::
    "(u64 \<Rightarrow> string) \<Rightarrow> TargetId \<Rightarrow> IntentGeneration \<Rightarrow> NdoTime \<Rightarrow> IntentCommitReport \<Rightarrow> Ledger
       \<Rightarrow> Status \<times> IntentCommitReport \<times> Ledger" where
  "RebaseFindingsForTarget dt target generation now report l =
     (let (s, findings) = map_accum (rebase_finding dt target generation now)
            \<lparr>rp_ledger = l, rp_report = report, rp_drop = []\<rparr> (l_findings l);
          l = (rp_ledger s)\<lparr>l_findings := findings\<rparr>
      in (Status_Ok, rp_report s, l\<lparr>l_groups := fold map_erase (rp_drop s) (l_groups l)\<rparr>))"

definition commit_first ::
    "IntentGenerationDocument \<Rightarrow> NdoTime \<Rightarrow> IntentCommitReport \<Rightarrow> Ledger \<Rightarrow> Status \<times> IntentCommitReport \<times> Ledger" where
  "commit_first d now report l =
     (if length (l_baselines l) \<ge> max_targets (l_limits l)
      then (Status_Limit RC_LimitObjectsExceeded ''committed intent target count exceeds the envelope'', report, l)
      else
        let l = l\<lparr>l_baselines := map_emplace (ig_target d) (baseline_of_document d now) (l_baselines l)\<rparr>;
            e = target_event TK_Created now RC_None
                  (''intent generation '' @ nat_text (unat (ig_generation d)) @ '' committed from '' @
                   ToText_IntentAuthority (ig_authority d)) d
        in (Status_Ok, report\<lparr>ic_committed_generation := ig_generation d\<rparr>, bump_revision (AppendTimeline e l)))"

definition commit_next ::
    "(u64 \<Rightarrow> string) \<Rightarrow> IntentGenerationDocument \<Rightarrow> NdoTime \<Rightarrow> IntentCommitReport \<Rightarrow> IntentBaseline \<Rightarrow> Ledger
       \<Rightarrow> Status \<times> IntentCommitReport \<times> Ledger" where
  "commit_next dt d now report existing l =
     (let report = report\<lparr>ic_previous_generation := ib_generation existing\<rparr>;
          b = (baseline_of_document d now)\<lparr>ib_target := ib_target existing\<rparr>;
          l = l\<lparr>l_baselines := map_put (ig_target d) b (l_baselines l)\<rparr>;
          report = report\<lparr>ic_committed_generation := ig_generation d\<rparr>;
          (status, report, l) = RebaseFindingsForTarget dt (ig_target d) (ig_generation d) now report l
      in if \<not> status_ok status then (status, report, l)
         else
           let e = target_event TK_Rebased now RC_FindingRebasedToNewGeneration
                     (''intent generation advanced to '' @ nat_text (unat (ig_generation d)) @ '' from '' @
                      ToText_IntentAuthority (ig_authority d)) d
           in (Status_Ok, report, bump_revision (AppendTimeline e l)))"

definition CommitIntent ::
    "(u64 \<Rightarrow> string) \<Rightarrow> IntentGenerationDocument \<Rightarrow> NdoTime \<Rightarrow> Ledger \<Rightarrow> Status \<times> IntentCommitReport \<times> Ledger" where
  "CommitIntent dt d now l =
     (let status = Intent_Validate (l_limits l) d in
      if \<not> status_ok status then (status, blank_commit_report, l)
      else
        let report = blank_commit_report\<lparr>ic_target := ig_target d, ic_epoch := ig_epoch d\<rparr>
        in case map_of (l_baselines l) (ig_target d) of
             None \<Rightarrow> commit_first d now report l
           | Some existing \<Rightarrow>
               if ig_epoch d < ib_epoch existing
               then (Status_Stale RC_FencedStaleEpoch ''intent epoch is older than the committed baseline epoch'', report, l)
               else if ig_generation d < ib_generation existing
               then (Status_Conflict RC_IntentGenerationRegressed ''intent generation is older than the committed baseline'',
                     report, l)
               else if ig_generation d = ib_generation existing
               then (if Intent_ComputeContentDigest d = ib_content_digest existing
                     then (Status_Ok, report\<lparr>ic_duplicate_identical := True,
                             ic_committed_generation := ib_generation existing\<rparr>, l)
                     else (Status_Conflict RC_IntentGenerationConflicting
                             ''divergent re-publication of the committed intent generation'', report, l))
               else commit_next dt d now report existing l)"

definition Targets :: "Ledger \<Rightarrow> TargetId list" where
  "Targets l =
     sort_unique (map fst (l_baselines l) @
       map (fst \<circ> fst) (filter (\<lambda>e. map_of (l_baselines l) (fst (fst e)) = None) (l_windows l)))"

section \<open>Observations\<close>

definition observation_before :: "RetainedObservation \<Rightarrow> RetainedObservation \<Rightarrow> bool" where
  "observation_before a b =
     (let x = ro_snapshot a; y = ro_snapshot b in
      if sn_epoch x \<noteq> sn_epoch y then sn_epoch x < sn_epoch y
      else if sn_incarnation x \<noteq> sn_incarnation y then sn_incarnation x < sn_incarnation y
      else sn_sequence x < sn_sequence y)"

text \<open>The first recovered record that is not the newest one, else the front.\<close>

fun first_recovered :: "nat \<Rightarrow> RetainedObservation list \<Rightarrow> nat" where
  "first_recovered i (o1 # o2 # w) = (if ro_recovered o1 then i else first_recovered (Suc i) (o2 # w))"
| "first_recovered i w = 0"

definition erase_at :: "nat \<Rightarrow> 'a list \<Rightarrow> 'a list" where
  "erase_at i xs = take i xs @ drop (Suc i) xs"

definition retain :: "nat \<Rightarrow> RetainedObservation \<Rightarrow> RetainedObservation list \<Rightarrow> RetainedObservation list" where
  "retain bound r window =
     (let w = insert_by observation_before r window
      in if length w > bound then erase_at (first_recovered 0 w) w else w)"

definition RecordObservation ::
    "ObservationSnapshot \<Rightarrow> FreshnessVerdict \<Rightarrow> bool \<Rightarrow> Ledger \<Rightarrow> Status \<times> ObservationAdmission \<times> Ledger" where
  "RecordObservation s verdict recovered l =
     (let status = Snapshot_Validate (l_limits l) s in
      if \<not> status_ok status then (status, blank_admission, l)
      else
        let report = blank_admission\<lparr>oa_snapshot := sn_snapshot_id s, oa_source := sn_source s,
              oa_target := sn_target s, oa_sequence := sn_sequence s, oa_freshness := fv_state verdict\<rparr>;
            key = (sn_target s, sn_source s);
            window = (case map_of (l_windows l) key of None \<Rightarrow> [] | Some w \<Rightarrow> w);
            store = (\<lambda>report. (Status_Ok, report,
              bump_revision (l\<lparr>l_windows := map_put key
                (retain (max_retained_snapshots_per_source (l_limits l))
                   \<lparr>ro_snapshot = s, ro_freshness = verdict, ro_recovered = recovered\<rparr> window) (l_windows l)\<rparr>)))
        in if window = [] then store report
           else
             let newest = ro_snapshot (last window) in
             if sn_incarnation s < sn_incarnation newest
             then (Status_Stale RC_FencedStaleIncarnation
                     ''observation incarnation predates the newest retained observation'', report, l)
             else if sn_epoch s < sn_epoch newest
             then (Status_Stale RC_FencedStaleEpoch
                     ''observation epoch predates the newest retained observation'', report, l)
             else if sn_incarnation s = sn_incarnation newest \<and> sn_sequence s = sn_sequence newest
             then (if Snapshot_ComputeContentDigest s = Snapshot_ComputeContentDigest newest
                   then (Status_Ok, report\<lparr>oa_duplicate_identical := True\<rparr>, l)
                   else (Status_Conflict RC_ObservationDuplicateConflicting
                           ''two observations claim the same source sequence with different content'', report, l))
             else store (if sn_sequence s < sn_sequence newest then report\<lparr>oa_superseded_older := True\<rparr> else report))"

definition ObservationsFor :: "TargetId \<Rightarrow> Ledger \<Rightarrow> RetainedObservation list" where
  "ObservationsFor target l = concat (map snd (filter (\<lambda>e. fst (fst e) = target) (l_windows l)))"

definition invalidated :: "ReasonCode \<Rightarrow> NdoTime \<Rightarrow> RetainedObservation \<Rightarrow> RetainedObservation" where
  "invalidated reason now r =
     r\<lparr>ro_recovered := True,
       ro_freshness := default_verdict\<lparr>fv_state := FR_RecoveredNotFresh, fv_reason := reason,
         fv_effective_ttl_nanos := 0, fv_may_support_compliance := False, fv_may_assert_absence := False,
         fv_age_nanos := (case TryDifference now (sn_collected_at (ro_snapshot r)) of None \<Rightarrow> 0 | Some age \<Rightarrow> age)\<rparr>\<rparr>"

definition InvalidateRetainedEvidence :: "ReasonCode \<Rightarrow> NdoTime \<Rightarrow> Ledger \<Rightarrow> nat \<times> Ledger" where
  "InvalidateRetainedEvidence reason now l =
     (let n = sum_list (map (length \<circ> snd) (l_windows l));
          l = l\<lparr>l_windows := map (\<lambda>(k, w). (k, map (invalidated reason now) w)) (l_windows l)\<rparr>
      in (n, if n > 0 then bump_revision l else l))"

section \<open>Operator actions\<close>

definition clear_suppression :: "Finding \<Rightarrow> Finding" where
  "clear_suppression f =
     (let f = f\<lparr>f_suppression := None, f_suppression_origin := SO_None, f_suppressed_by := [],
                f_suppression_reason := [], f_suppression_expires_at := None\<rparr>
      in if f_state f = FS_Suppressed
         then f\<lparr>f_state := (if f_acknowledged_by f = [] then FS_Open else FS_Acknowledged)\<rparr> else f)"

text \<open>The common end of an operator action: history, global timeline, summary, store, revision.\<close>

definition record_action ::
    "(u64 \<Rightarrow> string) \<Rightarrow> FindingId \<Rightarrow> TimelineEntry \<Rightarrow> Finding \<Rightarrow> Ledger \<Rightarrow> Ledger" where
  "record_action dt fid e f l =
     (let l = AppendTimeline e l
      in bump_revision (l\<lparr>l_findings := map_put fid (RecomputeSummary dt (l_limits l) (push_event e f)) (l_findings l)\<rparr>))"

definition Suppress ::
    "(u64 \<Rightarrow> string) \<Rightarrow> FindingId \<Rightarrow> ActorId \<Rightarrow> string \<Rightarrow> NdoTime option \<Rightarrow> NdoTime \<Rightarrow> Ledger \<Rightarrow> Status \<times> Ledger" where
  "Suppress dt fid actor reason expires_at now l =
     (case map_of (l_findings l) fid of
        None \<Rightarrow> (Status_NotFound RC_FindingNotFound ''no finding exists with the supplied identity'', l)
      | Some f \<Rightarrow>
          if actor = [] \<or> \<not> IsValidIdentityText actor
          then (Status_Rejected RC_EncodingMalformed ''suppression actor is invalid'', l)
          else if l_suppressions_active l \<ge> max_suppressions (l_limits l) \<and> f_suppression f = None
          then (Status_Limit RC_LimitFieldsExceeded ''suppression count exceeds the envelope'', l)
          else case StringId_TryParse (''suppression/'' @ take 24 (Digest_ToHex (f_id f))) of
            None \<Rightarrow> (Status_Internal RC_EncodingMalformed ''generated suppression identity is invalid'', l)
          | Some sid \<Rightarrow>
              let l = (if f_suppression f = None then l\<lparr>l_suppressions_active := l_suppressions_active l + 1\<rparr> else l);
                  f = f\<lparr>f_suppression := Some sid, f_suppression_origin := SO_Operator, f_suppressed_by := actor,
                        f_suppression_reason := BoundedDetail reason, f_suppression_expires_at := expires_at\<rparr>;
                  f = (if IsLiveState (f_state f) then f\<lparr>f_state := FS_Suppressed\<rparr> else f);
                  e = (finding_event TK_Suppressed now RC_SuppressedByOperator
                        (BoundedDetail (''suppressed by '' @ actor @ '': '' @ f_suppression_reason f)) f)\<lparr>te_actor := actor\<rparr>
              in (Status_Ok, record_action dt fid e f l))"

definition ClearSuppression ::
    "(u64 \<Rightarrow> string) \<Rightarrow> FindingId \<Rightarrow> ActorId \<Rightarrow> NdoTime \<Rightarrow> Ledger \<Rightarrow> Status \<times> Ledger" where
  "ClearSuppression dt fid actor now l =
     (case map_of (l_findings l) fid of
        None \<Rightarrow> (Status_NotFound RC_SuppressionNotFound ''no finding exists with that identity'', l)
      | Some f \<Rightarrow>
          if f_suppression f = None
          then (Status_NotFound RC_SuppressionNotFound ''the finding is not suppressed'', l)
          else
            let f = clear_suppression f;
                l = (if l_suppressions_active l > 0
                     then l\<lparr>l_suppressions_active := l_suppressions_active l - 1\<rparr> else l);
                e = (finding_event TK_SuppressionCleared now RC_None
                      ''suppression cleared; the underlying evidence is unchanged'' f)\<lparr>te_actor := actor\<rparr>
            in (Status_Ok, record_action dt fid e f l))"

definition Acknowledge ::
    "(u64 \<Rightarrow> string) \<Rightarrow> FindingId \<Rightarrow> ActorId \<Rightarrow> string \<Rightarrow> NdoTime \<Rightarrow> Ledger \<Rightarrow> Status \<times> Ledger" where
  "Acknowledge dt fid actor reason now l =
     (case map_of (l_findings l) fid of
        None \<Rightarrow> (Status_NotFound RC_FindingNotFound ''no finding exists with that identity'', l)
      | Some f \<Rightarrow>
          if actor = [] \<or> \<not> IsValidIdentityText actor
          then (Status_Rejected RC_EncodingMalformed ''acknowledgement actor is invalid'', l)
          else
            let f = f\<lparr>f_acknowledged_by := actor, f_acknowledged_at := now,
                      f_acknowledgement_reason := BoundedDetail reason\<rparr>;
                f = (if f_state f = FS_Open then f\<lparr>f_state := FS_Acknowledged\<rparr> else f);
                e = (finding_event TK_Acknowledged now RC_AcknowledgementRecorded
                      (BoundedDetail (''acknowledged by '' @ actor @ '': '' @ f_acknowledgement_reason f)) f)\<lparr>te_actor := actor\<rparr>
            in (Status_Ok, record_action dt fid e f l))"

definition ClearAcknowledgement ::
    "(u64 \<Rightarrow> string) \<Rightarrow> FindingId \<Rightarrow> ActorId \<Rightarrow> NdoTime \<Rightarrow> Ledger \<Rightarrow> Status \<times> Ledger" where
  "ClearAcknowledgement dt fid actor now l =
     (case map_of (l_findings l) fid of
        None \<Rightarrow> (Status_NotFound RC_FindingNotFound ''no finding exists with that identity'', l)
      | Some f \<Rightarrow>
          if f_acknowledged_by f = []
          then (Status_NotFound RC_AcknowledgementRecorded ''the finding is not acknowledged'', l)
          else
            let f = f\<lparr>f_acknowledged_by := [], f_acknowledged_at := 0, f_acknowledgement_reason := []\<rparr>;
                f = (if f_state f = FS_Acknowledged then f\<lparr>f_state := FS_Open\<rparr> else f);
                e = (finding_event TK_AcknowledgementCleared now RC_None ''acknowledgement cleared'' f)\<lparr>te_actor := actor\<rparr>
            in (Status_Ok, record_action dt fid e f l))"

definition expire_finding ::
    "(u64 \<Rightarrow> string) \<Rightarrow> NdoTime \<Rightarrow> nat \<times> Ledger \<Rightarrow> FindingId \<times> Finding \<Rightarrow> (nat \<times> Ledger) \<times> (FindingId \<times> Finding)" where
  "expire_finding dt now s entry =
     (let (expired, l) = s; f = snd entry in
      case (f_suppression f, f_suppression_expires_at f) of
        (Some sid, Some at) \<Rightarrow>
          if now < at then (s, entry)
          else
            let f = clear_suppression f;
                l = l\<lparr>l_suppressions_active := l_suppressions_active l - 1,
                      l_suppressions_expired := l_suppressions_expired l + 1\<rparr>;
                e = finding_event TK_SuppressionExpired now RC_SuppressionExpired
                      (BoundedDetail (''suppression expired at '' @ FormatTime at)) f
            in ((expired + 1, AppendTimeline e l),
                (fst entry, RecomputeSummary dt (l_limits l) (push_event e f)))
      | _ \<Rightarrow> (s, entry))"

definition ExpireSuppressions :: "(u64 \<Rightarrow> string) \<Rightarrow> NdoTime \<Rightarrow> Ledger \<Rightarrow> nat \<times> Ledger" where
  "ExpireSuppressions dt now l =
     (let ((expired, l), findings) = map_accum (expire_finding dt now) (0, l) (l_findings l);
          l = l\<lparr>l_findings := findings\<rparr>
      in (expired, if expired > 0 then bump_revision l else l))"

section \<open>Inspection\<close>

definition FindFinding :: "FindingId \<Rightarrow> Ledger \<Rightarrow> Finding option" where
  "FindFinding fid l = map_of (l_findings l) fid"

definition Findings :: "Ledger \<Rightarrow> Finding list" where
  "Findings l = map snd (l_findings l)"

definition Groups :: "Ledger \<Rightarrow> RootCauseGroup list" where
  "Groups l = map snd (l_groups l)"

definition GlobalTimeline :: "Ledger \<Rightarrow> TimelineEntry list" where
  "GlobalTimeline l = l_global_timeline l"

definition count_if :: "('a \<Rightarrow> bool) \<Rightarrow> 'a list \<Rightarrow> nat" where
  "count_if P xs = length (filter P xs)"

definition Stats :: "Ledger \<Rightarrow> LedgerStats" where
  "Stats l =
     \<lparr>ls_targets = length (Targets l), ls_baselines = length (l_baselines l),
      ls_observations = sum_list (map (length \<circ> snd) (l_windows l)),
      ls_sources = length (remdups (map (snd \<circ> fst) (l_windows l))),
      ls_findings = length (l_findings l),
      ls_live_findings = count_if (\<lambda>f. IsLiveState (f_state f)) (Findings l),
      ls_resolved_findings = count_if (\<lambda>f. f_state f = FS_Resolved) (Findings l),
      ls_superseded_findings = count_if (\<lambda>f. f_state f = FS_Superseded) (Findings l),
      ls_suppressed_findings = count_if (\<lambda>f. f_state f = FS_Suppressed) (Findings l),
      ls_acknowledged_findings = count_if (\<lambda>f. f_state f = FS_Acknowledged) (Findings l),
      ls_groups = length (l_groups l), ls_timeline_entries = length (l_global_timeline l),
      ls_suppressions_active = l_suppressions_active l, ls_suppressions_expired = l_suppressions_expired l\<rparr>"

definition kContentTag :: string where
  "kContentTag = ''ndo/ledger-content/v1''"

definition hash_baseline_object :: "ObjectId \<times> IntentObject \<Rightarrow> Sha256 \<Rightarrow> Sha256" where
  "hash_baseline_object entry h =
     fold (\<lambda>field h. HashInto (if_intended (snd field)) (UpdateLengthPrefixed (FieldPath_ToText (fst field)) h))
       (io_fields (snd entry))
       (UpdateU64 (of_nat (length (io_fields (snd entry)))) (UpdateLengthPrefixed (fst entry) h))"

definition hash_baseline :: "TargetId \<times> IntentBaseline \<Rightarrow> Sha256 \<Rightarrow> Sha256" where
  "hash_baseline entry h =
     (let b = snd entry;
          h = UpdateLengthPrefixed (fst entry) h;
          h = UpdateU64 (ib_generation b) h;
          h = UpdateU64 (ib_epoch b) h;
          h = Update (ib_content_digest b) h
      in hash_sequence hash_baseline_object (ib_objects b) h)"

definition hash_retained :: "RetainedObservation \<Rightarrow> Sha256 \<Rightarrow> Sha256" where
  "hash_retained r h =
     UpdateByte (of_nat (freshness_value (fv_state (ro_freshness r))))
       (UpdateByte (bool_byte (ro_recovered r)) (UpdateLengthPrefixed (sn_snapshot_id (ro_snapshot r)) h))"

definition hash_window :: "SourceWindowKey \<times> RetainedObservation list \<Rightarrow> Sha256 \<Rightarrow> Sha256" where
  "hash_window entry h =
     hash_sequence hash_retained (snd entry)
       (UpdateLengthPrefixed (snd (fst entry)) (UpdateLengthPrefixed (fst (fst entry)) h))"

definition hash_finding :: "FindingId \<times> Finding \<Rightarrow> Sha256 \<Rightarrow> Sha256" where
  "hash_finding entry h =
     (let f = snd entry;
          h = Update (fst entry) h;
          h = UpdateByte (of_nat (finding_state_value (f_state f))) h;
          h = UpdateByte (of_nat (drift_value (f_klass f))) h;
          h = UpdateByte (of_nat (SeverityRank (f_severity f))) h;
          h = UpdateU64 (f_baseline_generation f) h;
          h = UpdateU64 (f_observation_count f) h;
          h = UpdateU64 (f_reopen_count f) h;
          h = UpdateU64 (word_of_int (f_first_seen f)) h;
          h = UpdateU64 (word_of_int (f_last_seen f)) h;
          h = UpdateLengthPrefixed (FieldPath_ToText (id_path (f_identity f))) h
      in if Digest_is_set (f_group f) then Update (f_group f) h else h)"

definition hash_group :: "GroupId \<times> RootCauseGroup \<Rightarrow> Sha256 \<Rightarrow> Sha256" where
  "hash_group entry h =
     hash_sequence Update (rg_members (snd entry)) (UpdateLengthPrefixed (rg_target (snd entry)) (Update (fst entry) h))"

definition ContentDigest :: "Ledger \<Rightarrow> Digest" where
  "ContentDigest l =
     (let h = UpdateTag kContentTag Sha256_new;
          h = UpdateU64 (l_revision l) h;
          h = hash_sequence hash_baseline (l_baselines l) h;
          h = hash_sequence hash_window (l_windows l) h;
          h = hash_sequence hash_finding (l_findings l) h;
          h = hash_sequence hash_group (l_groups l) h
      in Final (UpdateU64 (of_nat (length (l_global_timeline l))) h))"

section \<open>Recovery\<close>

definition RestoreBaseline :: "IntentBaseline \<Rightarrow> Ledger \<Rightarrow> Status \<times> Ledger" where
  "RestoreBaseline b l =
     (if length (l_baselines l) \<ge> max_targets (l_limits l) \<and> map_of (l_baselines l) (ib_target b) = None
      then (Status_Limit RC_LimitObjectsExceeded ''restored baseline count exceeds the envelope'', l)
      else (Status_Ok, l\<lparr>l_baselines := map_put (ib_target b) b (l_baselines l)\<rparr>))"

definition recovered_observation :: "RetainedObservation \<Rightarrow> RetainedObservation" where
  "recovered_observation r =
     r\<lparr>ro_recovered := True,
       ro_freshness := default_verdict\<lparr>fv_state := FR_RecoveredNotFresh, fv_reason := RC_EvidenceRecoveredNotFresh,
         fv_may_support_compliance := False, fv_may_assert_absence := False\<rparr>\<rparr>"

text \<open>
  A full window loses its front.  Under a bound of zero the code would erase from an empty vector,
  which C++ leaves undefined; the model then keeps the vector empty.
\<close>

definition RestoreObservation :: "RetainedObservation \<Rightarrow> Ledger \<Rightarrow> Status \<times> Ledger" where
  "RestoreObservation r l =
     (let key = (sn_target (ro_snapshot r), sn_source (ro_snapshot r));
          window = (case map_of (l_windows l) key of None \<Rightarrow> [] | Some w \<Rightarrow> w);
          window = (if length window \<ge> max_retained_snapshots_per_source (l_limits l) then tl window else window)
      in (Status_Ok, l\<lparr>l_windows := map_put key (window @ [recovered_observation r]) (l_windows l)\<rparr>))"

definition RestoreFinding :: "Finding \<Rightarrow> Ledger \<Rightarrow> Status \<times> Ledger" where
  "RestoreFinding f l =
     (if length (l_findings l) \<ge> max_findings (l_limits l) \<and> map_of (l_findings l) (f_id f) = None
      then (Status_Limit RC_LimitFindingsExceeded ''restored finding count exceeds the envelope'', l)
      else if \<not> Digest_is_set (f_id f)
      then (Status_Rejected RC_LedgerDecodeFailed ''restored finding has no identity'', l)
      else
        let already = (f_evidence_freshness f = FR_RecoveredNotFresh);
            f = f\<lparr>f_evidence_freshness := FR_RecoveredNotFresh\<rparr>;
            (f, l) =
              (if IsLiveState (f_state f) \<and> \<not> already
               then let n = l_timeline_sequence l + 1;
                        e = (finding_event TK_EvidenceRecovered (f_last_evaluated f) RC_EvidenceRecoveredNotFresh
                              ''evidence recovered from durable state is not current'' f)\<lparr>te_sequence := n\<rparr>
                    in (push_event e f, l\<lparr>l_timeline_sequence := n\<rparr>)
               else (f, l));
            f = f\<lparr>f_timeline := keep_last (max_timeline_entries_per_finding (l_limits l)) (f_timeline f)\<rparr>;
            l = (if f_suppression f \<noteq> None then l\<lparr>l_suppressions_active := l_suppressions_active l + 1\<rparr> else l)
        in (Status_Ok, l\<lparr>l_findings := map_put (f_id f) f (l_findings l)\<rparr>))"

definition RestoreGroup :: "RootCauseGroup \<Rightarrow> Ledger \<Rightarrow> Status \<times> Ledger" where
  "RestoreGroup g l =
     (if length (l_groups l) \<ge> max_groups (l_limits l) \<and> map_of (l_groups l) (rg_id g) = None
      then (Status_Limit RC_LimitObjectsExceeded ''restored group count exceeds the envelope'', l)
      else (Status_Ok, l\<lparr>l_groups := map_put (rg_id g) g (l_groups l)\<rparr>))"

definition RestoreTimeline :: "TimelineEntry \<Rightarrow> Ledger \<Rightarrow> Status \<times> Ledger" where
  "RestoreTimeline e l = (Status_Ok, TrimTimelineIfNeeded (l\<lparr>l_global_timeline := l_global_timeline l @ [e]\<rparr>))"

definition RestoreRevision :: "LedgerRevision \<Rightarrow> Ledger \<Rightarrow> Status \<times> Ledger" where
  "RestoreRevision r l = (Status_Ok, l\<lparr>l_revision := r\<rparr>)"

definition RestoreSuppressionSequence :: "u64 \<Rightarrow> Ledger \<Rightarrow> Status \<times> Ledger" where
  "RestoreSuppressionSequence n l = (Status_Ok, l\<lparr>l_timeline_sequence := n\<rparr>)"

section \<open>What the bookkeeping leaves alone\<close>

text \<open>
  \<open>same_store l l'\<close>: the two ledgers differ at most in their timelines and suppression counters.
\<close>

definition same_store :: "Ledger \<Rightarrow> Ledger \<Rightarrow> bool" where
  "same_store l l' \<longleftrightarrow>
     l_limits l' = l_limits l \<and> l_revision l' = l_revision l \<and> l_baselines l' = l_baselines l \<and>
     l_windows l' = l_windows l \<and> l_findings l' = l_findings l \<and> l_groups l' = l_groups l \<and>
     l_resolution_streak l' = l_resolution_streak l"

lemma same_store_refl [simp]: "same_store l l"
  by (simp add: same_store_def)

lemma same_store_trans: "same_store a b \<Longrightarrow> same_store b c \<Longrightarrow> same_store a c"
  by (simp add: same_store_def)

lemma AppendTimeline_frame [frame_simps]:
  "l_limits (AppendTimeline e l) = l_limits l"
  "l_revision (AppendTimeline e l) = l_revision l"
  "l_baselines (AppendTimeline e l) = l_baselines l"
  "l_windows (AppendTimeline e l) = l_windows l"
  "l_findings (AppendTimeline e l) = l_findings l"
  "l_groups (AppendTimeline e l) = l_groups l"
  "l_resolution_streak (AppendTimeline e l) = l_resolution_streak l"
  "l_suppressions_active (AppendTimeline e l) = l_suppressions_active l"
  by (simp_all add: AppendTimeline_def Let_def)

lemma TrimTimeline_frame [frame_simps]:
  "l_limits (TrimTimelineIfNeeded l) = l_limits l"
  "l_baselines (TrimTimelineIfNeeded l) = l_baselines l"
  "l_windows (TrimTimelineIfNeeded l) = l_windows l"
  "l_findings (TrimTimelineIfNeeded l) = l_findings l"
  "l_groups (TrimTimelineIfNeeded l) = l_groups l"
  "l_resolution_streak (TrimTimelineIfNeeded l) = l_resolution_streak l"
  by (simp_all add: TrimTimelineIfNeeded_def)

lemma bump_revision_frame [frame_simps]:
  "l_limits (bump_revision l) = l_limits l"
  "l_baselines (bump_revision l) = l_baselines l"
  "l_windows (bump_revision l) = l_windows l"
  "l_findings (bump_revision l) = l_findings l"
  "l_groups (bump_revision l) = l_groups l"
  "l_resolution_streak (bump_revision l) = l_resolution_streak l"
  "l_global_timeline (bump_revision l) = l_global_timeline l"
  "l_timeline_sequence (bump_revision l) = l_timeline_sequence l"
  by (simp_all add: bump_revision_def)

section \<open>The timeline invariant\<close>

text \<open>
  The global timeline holds consecutive sequence numbers, the last one being the ledger's counter;
  the numbering wraps with the 64-bit counter.  The flag says whether this is claimed: a ledger read
  back from disk has spent numbers on notes that are only in the histories of its findings.
\<close>

definition timeline_ok :: "bool \<Rightarrow> Ledger \<Rightarrow> bool" where
  "timeline_ok gapless l \<longleftrightarrow>
     (gapless \<longrightarrow>
        map te_sequence (l_global_timeline l) =
          rev (map (\<lambda>i. l_timeline_sequence l - of_nat i) [0..<length (l_global_timeline l)]))"

lemma timeline_ok_cong:
  "l_global_timeline l' = l_global_timeline l \<Longrightarrow> l_timeline_sequence l' = l_timeline_sequence l \<Longrightarrow>
     timeline_ok gapless l' = timeline_ok gapless l"
  by (simp add: timeline_ok_def)

lemma timeline_ok_append: "timeline_ok gapless l \<Longrightarrow> timeline_ok gapless (AppendTimeline e l)"
  by (simp add: timeline_ok_def AppendTimeline_def Let_def map_upt_Suc del: upt_Suc)

lemma timeline_ok_trim: "timeline_ok gapless l \<Longrightarrow> timeline_ok gapless (TrimTimelineIfNeeded l)"
  by (simp add: timeline_ok_def TrimTimelineIfNeeded_def keep_last_def drop_map [symmetric] drop_rev take_map)

section \<open>The invariant of a stored finding\<close>

text \<open>
  A finding is stored under its own identity digest; a suppressed one carries its suppression, an
  acknowledged one names who acknowledged it, and one that is no longer live belongs to no group.
\<close>

definition finding_ok :: "FindingId \<Rightarrow> Finding \<Rightarrow> bool" where
  "finding_ok fid f \<longleftrightarrow>
     f_id f = fid \<and> fid = ComputeId (f_identity f) \<and>
     (f_state f = FS_Suppressed \<longrightarrow> f_suppression f \<noteq> None) \<and>
     (f_state f = FS_Acknowledged \<longrightarrow> f_acknowledged_by f \<noteq> []) \<and>
     (\<not> IsLiveState (f_state f) \<longrightarrow> \<not> Digest_is_set (f_group f))"

lemma Digest_unset_not_set [simp]: "\<not> Digest_is_set Digest_unset"
  by (simp add: Digest_is_set_def Digest_unset_def list_ex_iff)

lemma IsLiveState_simps [simp]:
  "IsLiveState FS_Open" "IsLiveState FS_Acknowledged" "IsLiveState FS_Suppressed"
  "\<not> IsLiveState FS_Resolved" "\<not> IsLiveState FS_Superseded" "\<not> IsLiveState FS_Retired"
  by (simp_all add: IsLiveState_def)

lemma leave_group_unset [simp]: "\<not> Digest_is_set (f_group (leave_group f))"
  by (simp add: leave_group_def)

lemma leave_group_frame [frame_simps]:
  "f_id (leave_group f) = f_id f" "f_identity (leave_group f) = f_identity f"
  "f_state (leave_group f) = f_state f" "f_reason (leave_group f) = f_reason f"
  "f_suppression (leave_group f) = f_suppression f" "f_acknowledged_by (leave_group f) = f_acknowledged_by f"
  by (simp_all add: leave_group_def)

lemma finding_ok_push [simp]: "finding_ok fid (push_event e f) = finding_ok fid f"
  by (simp add: finding_ok_def push_event_def)

lemma finding_ok_summary [simp]: "finding_ok fid (RecomputeSummary dt lim f) = finding_ok fid f"
  by (simp add: finding_ok_def RecomputeSummary_def Let_def)

lemma finding_ok_clear: "finding_ok fid f \<Longrightarrow> finding_ok fid (clear_suppression f)"
  by (auto simp: finding_ok_def clear_suppression_def Let_def)

lemma finding_ok_close:
  "finding_ok fid f \<Longrightarrow> \<not> IsLiveState st \<Longrightarrow>
     finding_ok fid (leave_group (f\<lparr>f_state := st, f_reason := r, f_last_evaluated := now\<rparr>))"
  by (auto simp: finding_ok_def leave_group_def IsLiveState_def)

section \<open>The invariant of an evidence window\<close>

definition window_ok :: "nat \<Rightarrow> SourceWindowKey \<Rightarrow> RetainedObservation list \<Rightarrow> bool" where
  "window_ok bound key w \<longleftrightarrow>
     length w \<le> bound \<and> list_all (\<lambda>r. (sn_target (ro_snapshot r), sn_source (ro_snapshot r)) = key) w \<and>
     sorted_wrt (\<lambda>a b. \<not> observation_before b a) w"

definition observation_key :: "RetainedObservation \<Rightarrow> u64 \<times> u64 \<times> u64" where
  "observation_key r =
     (sn_epoch (ro_snapshot r), sn_incarnation (ro_snapshot r), sn_sequence (ro_snapshot r))"

lemma observation_before_key: "observation_before a b \<longleftrightarrow> observation_key a < observation_key b"
  by (auto simp: observation_before_def observation_key_def Let_def)

interpretation window_order: strict_weak_order observation_before
  by unfold_locales (auto simp: observation_before_key)

lemma set_erase_at: "set (erase_at i xs) \<subseteq> set xs"
  by (auto simp: erase_at_def dest: in_set_takeD in_set_dropD)

lemma length_erase_at: "i < length xs \<Longrightarrow> length (erase_at i xs) = length xs - 1"
  by (simp add: erase_at_def)

lemma sorted_erase_at: "sorted_wrt P xs \<Longrightarrow> sorted_wrt P (erase_at i xs)"
proof -
  assume sorted: "sorted_wrt P xs"
  have "sorted_wrt P (take i xs @ drop i xs)" using sorted by simp
  moreover have "drop (Suc i) xs = tl (drop i xs)" by (simp add: drop_Suc tl_drop)
  ultimately show ?thesis
    by (cases "drop i xs") (auto simp: erase_at_def sorted_wrt_append)
qed

lemma first_recovered_less: "w \<noteq> [] \<Longrightarrow> first_recovered i w < i + length w"
  by (induction i w rule: first_recovered.induct) auto

lemma first_recovered_not_last: "length w > 1 \<Longrightarrow> first_recovered i w < i + length w - 1"
proof (induction i w rule: first_recovered.induct)
  case (1 i o1 o2 w)
  then show ?case by (cases w) auto
qed auto

lemma last_erase_at: "Suc i < length xs \<Longrightarrow> last (erase_at i xs) = last xs"
  by (simp add: erase_at_def)

lemma insert_by_nonempty [simp]: "insert_by lt x xs \<noteq> []"
  by (cases xs) auto

lemma retain_ok:
  assumes "window_ok bound key w" and "(sn_target (ro_snapshot r), sn_source (ro_snapshot r)) = key"
  shows "window_ok bound key (retain bound r w)"
proof -
  let ?w = "insert_by observation_before r w"
  have len: "length ?w = Suc (length w)" by simp
  have keys: "list_all (\<lambda>r. (sn_target (ro_snapshot r), sn_source (ro_snapshot r)) = key) ?w"
    using assms by (simp add: window_ok_def list_all_iff)
  have sorted: "sorted_wrt (\<lambda>a b. \<not> observation_before b a) ?w"
    using assms(1) by (intro window_order.insert_by_in_order) (simp add: window_ok_def)
  have victim: "first_recovered 0 ?w < length ?w"
    using first_recovered_less [of ?w 0] len by (cases ?w) auto
  have "set (erase_at (first_recovered 0 ?w) ?w) \<subseteq> set ?w" by (rule set_erase_at)
  with keys sorted victim assms(1) len show ?thesis
    by (auto simp: retain_def Let_def window_ok_def length_erase_at sorted_erase_at list_all_iff)
qed

text \<open>The newest observation of a window survives any later retention that is not newer than it.\<close>

lemma last_insert_by:
  assumes "sorted_wrt (\<lambda>a b. \<not> observation_before b a) w"
  shows "last (insert_by observation_before r w) =
           (if w = [] \<or> observation_before (last w) r then r else last w)"
  using assms
proof (induction w)
  case Nil
  show ?case by simp
next
  case (Cons a w)
  show ?case
  proof (cases "observation_before a r")
    case True
    with Cons show ?thesis by (auto simp: insert_by_nonempty)
  next
    case False
    have "\<not> observation_before (last (a # w)) a" if "w \<noteq> []"
      using Cons.prems that window_order.lt_asym by auto
    then have "\<not> observation_before (last (a # w)) r"
      using False window_order.lt_neg_trans by (cases "w = []") auto
    with False show ?thesis by simp
  qed
qed

lemma last_retain:
  assumes "window_ok bound key w" and "bound > 0"
  shows "last (retain bound r w) = (if w = [] \<or> observation_before (last w) r then r else last w)"
proof -
  let ?w = "insert_by observation_before r w"
  have "last (retain bound r w) = last ?w"
  proof (cases "length ?w > bound")
    case True
    with assms(2) have "length ?w > 1" by linarith
    then have "Suc (first_recovered 0 ?w) < length ?w"
      using first_recovered_not_last [of ?w 0] by simp
    then show ?thesis using True by (simp add: retain_def Let_def last_erase_at)
  qed (simp add: retain_def Let_def)
  then show ?thesis using assms(1) by (simp add: last_insert_by window_ok_def)
qed

section \<open>The ledger invariant\<close>

definition baselines_ok :: "Ledger \<Rightarrow> bool" where
  "baselines_ok l \<longleftrightarrow>
     keys_ascending (l_baselines l) \<and> length (l_baselines l) \<le> max_targets (l_limits l) \<and>
     list_all (\<lambda>(k, b). ib_target b = k) (l_baselines l)"

definition windows_ok :: "Ledger \<Rightarrow> bool" where
  "windows_ok l \<longleftrightarrow>
     keys_ascending (l_windows l) \<and>
     list_all (\<lambda>(k, w). window_ok (max_retained_snapshots_per_source (l_limits l)) k w) (l_windows l)"

definition findings_ok :: "Ledger \<Rightarrow> bool" where
  "findings_ok l \<longleftrightarrow>
     keys_ascending (l_findings l) \<and> length (l_findings l) \<le> max_findings (l_limits l) \<and>
     list_all (\<lambda>(k, f). finding_ok k f) (l_findings l)"

definition groups_ok :: "Ledger \<Rightarrow> bool" where
  "groups_ok l \<longleftrightarrow>
     keys_ascending (l_groups l) \<and> length (l_groups l) \<le> max_groups (l_limits l) \<and>
     list_all (\<lambda>(k, g). rg_id g = k) (l_groups l)"

definition ledger_ok :: "bool \<Rightarrow> Ledger \<Rightarrow> bool" where
  "ledger_ok gapless l \<longleftrightarrow>
     baselines_ok l \<and> windows_ok l \<and> findings_ok l \<and> groups_ok l \<and> timeline_ok gapless l"

lemmas ledger_ok_parts = ledger_ok_def baselines_ok_def windows_ok_def findings_ok_def groups_ok_def

lemma list_all_map_put:
  "list_all (\<lambda>(k, v). P k v) m \<Longrightarrow> P k v \<Longrightarrow> list_all (\<lambda>(k, v). P k v) (map_put k v m)"
  by (induction m) (auto simp: list_all_iff)

lemma list_all_map_of: "list_all (\<lambda>(k, v). P k v) m \<Longrightarrow> map_of m k = Some v \<Longrightarrow> P k v"
  by (auto simp: list_all_iff dest: map_of_SomeD)

lemma list_all_map_erase_all:
  "list_all P m \<Longrightarrow> list_all P (fold map_erase ks m)"
proof (induction ks arbitrary: m)
  case (Cons k ks)
  have "list_all P (map_erase k m)" using Cons.prems by (auto simp: map_erase_def list_all_iff)
  then show ?case using Cons.IH by simp
qed simp

lemma length_map_erase_all: "length (fold map_erase ks m) \<le> length m"
  by (induction ks arbitrary: m) (auto intro: order_trans length_map_erase_le)

lemma groups_ok_drop: "groups_ok l \<Longrightarrow> groups_ok (l\<lparr>l_groups := fold map_erase ks (l_groups l)\<rparr>)"
  using length_map_erase_all [of ks "l_groups l"]
  by (auto simp: groups_ok_def std_map.valid_erase_all list_all_map_erase_all)

text \<open>
  A pass over the finding map rewrites entries in place while it appends to the timeline.  The
  interface states what a pass owes the ledger; the ledger's loops discharge it below.
\<close>

locale finding_pass =
  fixes step :: "'s \<Rightarrow> FindingId \<times> Finding \<Rightarrow> 's \<times> (FindingId \<times> Finding)"
    and ledger :: "'s \<Rightarrow> Ledger"
  assumes step_key: "fst (snd (step s e)) = fst e"
    and step_ok: "finding_ok (fst e) (snd e) \<Longrightarrow> finding_ok (fst e) (snd (snd (step s e)))"
    and step_store: "same_store (ledger s) (ledger (fst (step s e)))"
    and step_timeline: "timeline_ok gapless (ledger s) \<Longrightarrow> timeline_ok gapless (ledger (fst (step s e)))"
begin

lemma pass_store: "same_store (ledger s) (ledger (fst (map_accum step s m)))"
  by (rule map_accum_invariant) (auto intro: same_store_trans step_store)

lemma pass_timeline: "timeline_ok gapless (ledger s) \<Longrightarrow> timeline_ok gapless (ledger (fst (map_accum step s m)))"
  by (rule map_accum_invariant) (auto intro: step_timeline)

lemma pass_keys: "map fst (snd (map_accum step s m)) = map fst m"
  by (rule map_accum_keys) (rule step_key)

lemma pass_findings:
  assumes "list_all (\<lambda>(k, f). finding_ok k f) m"
  shows "list_all (\<lambda>(k, f). finding_ok k f) (snd (map_accum step s m))"
  using assms
proof (induction m arbitrary: s)
  case (Cons e m)
  then show ?case using step_key [of s e] step_ok [of e s] by (auto simp: case_prod_beta)
qed simp

lemma pass_ok:
  assumes "ledger_ok gapless (ledger s)"
  shows "ledger_ok gapless ((ledger (fst (map_accum step s (l_findings (ledger s)))))
           \<lparr>l_findings := snd (map_accum step s (l_findings (ledger s)))\<rparr>)"
proof -
  let ?s = "fst (map_accum step s (l_findings (ledger s)))"
  let ?m = "snd (map_accum step s (l_findings (ledger s)))"
  have store: "same_store (ledger s) (ledger ?s)" by (rule pass_store)
  have "timeline_ok gapless (ledger ?s)" using assms by (intro pass_timeline) (simp add: ledger_ok_def)
  moreover have "list_all (\<lambda>(k, f). finding_ok k f) ?m"
    using assms by (intro pass_findings) (simp add: ledger_ok_def findings_ok_def)
  moreover have "length ?m = length (l_findings (ledger s))" by (rule length_map_accum)
  moreover have "keys_ascending ?m = keys_ascending (l_findings (ledger s))"
    by (simp add: keys_ascending_def pass_keys)
  ultimately show ?thesis using assms store
    by (simp add: ledger_ok_parts same_store_def timeline_ok_def)
qed

end

lemma same_store_append [simp]: "same_store l (AppendTimeline e l)"
  by (simp add: same_store_def frame_simps)

interpretation rebase: finding_pass "rebase_finding dt target generation now" rp_ledger
  for dt target generation now
proof
  fix s e gapless
  show "fst (snd (rebase_finding dt target generation now s e)) = fst e"
    by (simp add: rebase_finding_def Let_def)
  show "same_store (rp_ledger s) (rp_ledger (fst (rebase_finding dt target generation now s e)))"
    by (simp add: rebase_finding_def Let_def)
  show "timeline_ok gapless (rp_ledger (fst (rebase_finding dt target generation now s e)))" if "timeline_ok gapless (rp_ledger s)"
    using that by (simp add: rebase_finding_def Let_def timeline_ok_append)
  show "finding_ok (fst e) (snd (snd (rebase_finding dt target generation now s e)))" if "finding_ok (fst e) (snd e)"
    using that by (simp add: rebase_finding_def Let_def finding_ok_close)
qed

interpretation expiry: finding_pass "expire_finding dt now" snd for dt now
proof
  fix s e gapless
  show "fst (snd (expire_finding dt now s e)) = fst e"
    by (auto simp: expire_finding_def Let_def split: option.splits prod.splits)
  show "same_store (snd s) (snd (fst (expire_finding dt now s e)))"
    by (auto simp: expire_finding_def Let_def same_store_def frame_simps split: option.splits prod.splits)
  show "timeline_ok gapless (snd (fst (expire_finding dt now s e)))" if "timeline_ok gapless (snd s)"
    using that
    by (auto simp: expire_finding_def Let_def intro!: timeline_ok_append split: option.splits prod.splits)
      (simp add: timeline_ok_def)
  show "finding_ok (fst e) (snd (snd (expire_finding dt now s e)))" if "finding_ok (fst e) (snd e)"
    using that finding_ok_clear [OF that]
    by (auto simp: expire_finding_def Let_def split: option.splits prod.splits)
qed

end
