(* ===== verification/NDO_Operations.thy ===== *)
theory NDO_Operations
  imports NDO_Ledger
begin

text \<open>
  The ledger's single operations against its invariant: what committing intent, admitting an
  observation, invalidating evidence and the operator actions keep and change.
\<close>

section \<open>Committing intent\<close>

lemma RebaseFindings_result:
  assumes "RebaseFindingsForTarget dt target generation now report l = (st, rep, l')"
  shows "st = Status_Ok \<and> l_baselines l' = l_baselines l \<and> l_windows l' = l_windows l \<and> l_limits l' = l_limits l"
  using assms rebase.pass_store [of "\<lparr>rp_ledger = l, rp_report = report, rp_drop = []\<rparr>" dt target generation now "l_findings l"]
  by (auto simp: RebaseFindingsForTarget_def Let_def same_store_def split: prod.splits)

lemma RebaseFindings_ok:
  assumes "RebaseFindingsForTarget dt target generation now report l = (st, rep, l')" and "ledger_ok gapless l"
  shows "ledger_ok gapless l'"
proof -
  let ?s = "\<lparr>rp_ledger = l, rp_report = report, rp_drop = []\<rparr>"
  obtain s m where pass: "map_accum (rebase_finding dt target generation now) ?s (l_findings l) = (s, m)"
    by (cases "map_accum (rebase_finding dt target generation now) ?s (l_findings l)")
  have ok: "ledger_ok gapless ((rp_ledger s)\<lparr>l_findings := m\<rparr>)"
    using rebase.pass_ok [of gapless ?s dt target generation now] assms(2) pass by simp
  have l': "l' = (rp_ledger s)\<lparr>l_findings := m, l_groups := fold map_erase (rp_drop s) (l_groups (rp_ledger s))\<rparr>"
    using assms(1) pass by (simp add: RebaseFindingsForTarget_def Let_def)
  have "groups_ok l'"
    using ok groups_ok_drop [of "(rp_ledger s)\<lparr>l_findings := m\<rparr>" "rp_drop s"] by (simp add: ledger_ok_def l')
  then show ?thesis using ok
    by (simp add: l' ledger_ok_def baselines_ok_def windows_ok_def findings_ok_def timeline_ok_def)
qed

lemma ledger_ok_append: "ledger_ok gapless l \<Longrightarrow> ledger_ok gapless (AppendTimeline e l)"
  by (simp add: ledger_ok_parts frame_simps timeline_ok_append)

lemma ledger_ok_bump: "ledger_ok gapless l \<Longrightarrow> ledger_ok gapless (bump_revision l)"
  by (simp add: ledger_ok_parts frame_simps timeline_ok_def)

lemma ledger_ok_trim: "ledger_ok gapless l \<Longrightarrow> ledger_ok gapless (TrimTimelineIfNeeded l)"
  by (simp add: ledger_ok_parts frame_simps timeline_ok_trim)

lemma ledger_ok_counters:
  "ledger_ok gapless (l\<lparr>l_suppressions_active := n\<rparr>) = ledger_ok gapless l"
  "ledger_ok gapless (l\<lparr>l_resolution_streak := m\<rparr>) = ledger_ok gapless l"
  by (simp_all add: ledger_ok_parts timeline_ok_def)

lemma ledger_ok_put_baseline:
  assumes "ledger_ok gapless l" and "ib_target b = t"
    and "map_of (l_baselines l) t \<noteq> None \<or> length (l_baselines l) < max_targets (l_limits l)"
  shows "ledger_ok gapless (l\<lparr>l_baselines := map_put t b (l_baselines l)\<rparr>)"
  using assms
  by (auto simp: ledger_ok_parts keys_ascending_map_put length_map_put list_all_map_put timeline_ok_def)

lemma CommitIntent_ok:
  assumes "CommitIntent dt d now l = (st, rep, l')" and ok: "ledger_ok gapless l"
  shows "ledger_ok gapless l'"
proof (cases "l' = l")
  case changed: False
  show ?thesis
  proof (cases "map_of (l_baselines l) (ig_target d)")
    case None
    with assms(1) changed show ?thesis
      by (auto simp: CommitIntent_def commit_first_def Let_def map_emplace_def baseline_of_document_def
          intro!: ledger_ok_bump ledger_ok_append ledger_ok_put_baseline ok split: if_splits)
  next
    case (Some b)
    then have "ib_target b = ig_target d"
      using ok by (auto simp: ledger_ok_def baselines_ok_def dest: list_all_map_of)
    with Some assms(1) changed show ?thesis
      by (auto simp: CommitIntent_def commit_next_def Let_def baseline_of_document_def
          intro!: ledger_ok_bump ledger_ok_append
          intro: RebaseFindings_ok [OF _ ledger_ok_put_baseline [OF ok]] split: if_splits prod.splits)
  qed
qed (simp add: ok)

text \<open>The four ways a commit ends.\<close>

lemma CommitIntent_cases:
  assumes "CommitIntent dt d now l = (st, rep, l')"
  obtains (refused) "\<not> status_ok st" and "l' = l"
  | (duplicate) b where "status_ok st" and "l' = l" and "map_of (l_baselines l) (ig_target d) = Some b"
      and "ib_generation b = ig_generation d" and "ib_content_digest b = Intent_ComputeContentDigest d"
  | (first) "status_ok st" and "map_of (l_baselines l) (ig_target d) = None"
      and "l_baselines l' = map_put (ig_target d) (baseline_of_document d now) (l_baselines l)"
  | (advance) b where "status_ok st" and "map_of (l_baselines l) (ig_target d) = Some b"
      and "ib_generation b < ig_generation d" and "ib_epoch b \<le> ig_epoch d"
      and "l_baselines l' = map_put (ig_target d) ((baseline_of_document d now)\<lparr>ib_target := ib_target b\<rparr>) (l_baselines l)"
proof -
  consider (invalid) "\<not> status_ok (Intent_Validate (l_limits l) d)"
    | (fresh) "status_ok (Intent_Validate (l_limits l) d)" "map_of (l_baselines l) (ig_target d) = None"
    | (known) b where "status_ok (Intent_Validate (l_limits l) d)" "map_of (l_baselines l) (ig_target d) = Some b"
    by (cases "map_of (l_baselines l) (ig_target d)") auto
  then show thesis
  proof cases
    case invalid
    with assms have "\<not> status_ok st" and "l' = l" by (auto simp: CommitIntent_def)
    then show thesis by (rule refused)
  next
    case fresh
    with assms have "commit_first d now (blank_commit_report\<lparr>ic_target := ig_target d, ic_epoch := ig_epoch d\<rparr>) l = (st, rep, l')"
      by (simp add: CommitIntent_def Let_def)
    then consider "\<not> status_ok st" "l' = l"
      | "status_ok st" "l_baselines l' = map_put (ig_target d) (baseline_of_document d now) (l_baselines l)"
      using fresh
      by (auto simp: commit_first_def Let_def frame_simps map_emplace_def status_ok_def mk_status_def split: if_splits)
    then show thesis using fresh(2) by cases (auto intro: refused first)
  next
    case (known b)
    let ?rep = "blank_commit_report\<lparr>ic_target := ig_target d, ic_epoch := ig_epoch d\<rparr>"
    consider (stay) "\<not> status_ok st" "l' = l"
      | (same) "status_ok st" "l' = l" "ig_generation d = ib_generation b" "Intent_ComputeContentDigest d = ib_content_digest b"
      | (next_one) "commit_next dt d now ?rep b l = (st, rep, l')" "\<not> ig_epoch d < ib_epoch b"
          "\<not> ig_generation d < ib_generation b" "ig_generation d \<noteq> ib_generation b"
      using assms known by (auto simp: CommitIntent_def Let_def status_ok_def mk_status_def split: if_splits)
    then show thesis
    proof cases
      case stay
      then show thesis by (rule refused)
    next
      case same
      show thesis by (rule duplicate [OF same(1,2) known(2)]) (simp_all add: same)
    next
      case next_one
      then show thesis using known(2)
        by (intro advance)
          (auto simp: commit_next_def Let_def status_ok_def mk_status_def frame_simps dest!: RebaseFindings_result
            split: if_splits prod.splits)
    qed
  qed
qed

lemma commit_intent_step:
  assumes "CommitIntent dt d now l = (st, rep, l')" and "FindBaseline t l = Some b"
  shows "\<exists>b'. FindBaseline t l' = Some b' \<and> ib_generation b \<le> ib_generation b' \<and> ib_epoch b \<le> ib_epoch b' \<and>
           (ib_generation b' = ib_generation b \<longrightarrow> b' = b)"
  using assms
  by (cases rule: CommitIntent_cases) (auto simp: FindBaseline_def store_simps baseline_of_document_def)


text \<open>A document that passes validation, for the examples.\<close>

definition example_document :: "u64 \<Rightarrow> IntentGenerationDocument" where
  "example_document g =
     \<lparr>ig_target = ''dev'', ig_generation = g, ig_epoch = 1, ig_authority = IA_LocalPolicy,
      ig_policy = ''policy/default'', ig_authored_at = 0, ig_objects = [], ig_evidence = EC_Real\<rparr>"

definition example_ledger :: Ledger where
  "example_ledger = (FindingLedger default_limits)\<lparr>l_baselines := [(''dev'', baseline_of_document (example_document 1) 0)]\<rparr>"

lemma example_document_valid: "g \<noteq> 0 \<Longrightarrow> status_ok (Intent_Validate default_limits (example_document g))"
proof -
  have "IsValidIdentityText ''dev''" "IsValidIdentityText ''policy/default''" by code_simp+
  then show "g \<noteq> 0 \<Longrightarrow> ?thesis"
    by (simp add: Intent_Validate_def example_document_def uint_is_set_def status_ok_def mk_status_def)
qed

lemma example_commit: "status_ok (fst (CommitIntent (\<lambda>_. []) (example_document 2) 0 example_ledger))"
proof -
  have base: "map_of (l_baselines example_ledger) ''dev'' = Some (baseline_of_document (example_document 1) 0)"
    and lim: "l_limits example_ledger = default_limits"
    by (simp_all add: example_ledger_def FindingLedger_def)
  show ?thesis
    unfolding CommitIntent_def Let_def lim
    using base example_document_valid [of 2]
    by (auto simp: baseline_of_document_def commit_next_def Let_def RebaseFindingsForTarget_def status_ok_def mk_status_def
        example_document_def split: prod.splits)
qed


section \<open>Admitting observations\<close>

lemma ledger_ok_put_window:
  assumes "ledger_ok gapless l" and "window_ok (max_retained_snapshots_per_source (l_limits l)) key w"
  shows "ledger_ok gapless (l\<lparr>l_windows := map_put key w (l_windows l)\<rparr>)"
  using assms by (auto simp: ledger_ok_parts keys_ascending_map_put list_all_map_put timeline_ok_def)

definition window_of :: "SourceWindowKey \<Rightarrow> Ledger \<Rightarrow> RetainedObservation list" where
  "window_of key l = (case map_of (l_windows l) key of None \<Rightarrow> [] | Some w \<Rightarrow> w)"

lemma window_of_ok:
  "ledger_ok gapless l \<Longrightarrow> window_ok (max_retained_snapshots_per_source (l_limits l)) key (window_of key l)"
  by (auto simp: window_of_def window_ok_def [of _ _ "[]"] ledger_ok_def windows_ok_def dest: list_all_map_of
      split: option.splits)

text \<open>The two ways an admission ends: the ledger is left alone, or exactly one window is rewritten.\<close>

lemma RecordObservation_cases:
  assumes "RecordObservation s v recovered l = (st, rep, l')"
  obtains (unchanged) "l' = l" and "status_ok st = oa_duplicate_identical rep"
  | (stored) "status_ok st" and "\<not> oa_duplicate_identical rep"
      and "l' = bump_revision (l\<lparr>l_windows := map_put (sn_target s, sn_source s)
             (retain (max_retained_snapshots_per_source (l_limits l))
               \<lparr>ro_snapshot = s, ro_freshness = v, ro_recovered = recovered\<rparr> (window_of (sn_target s, sn_source s) l))
             (l_windows l)\<rparr>)"
      and "window_of (sn_target s, sn_source s) l = [] \<or>
           sn_incarnation (ro_snapshot (last (window_of (sn_target s, sn_source s) l))) \<le> sn_incarnation s \<and>
           sn_epoch (ro_snapshot (last (window_of (sn_target s, sn_source s) l))) \<le> sn_epoch s"
  using assms
  by (auto simp: RecordObservation_def window_of_def [symmetric] Let_def blank_admission_def status_ok_def mk_status_def
      not_less split: if_splits)

lemma RecordObservation_ok:
  assumes "RecordObservation s v recovered l = (st, rep, l')" and ok: "ledger_ok gapless l"
  shows "ledger_ok gapless l'"
  using assms(1)
proof (cases rule: RecordObservation_cases)
  case stored
  then show ?thesis
    by (auto intro!: ledger_ok_bump ledger_ok_put_window ok retain_ok window_of_ok)
qed (simp add: ok)

text \<open>
  C24. The newest evidence of a source is never lost and never displaced by older evidence.  An
  admission that is refused or recognised as a duplicate leaves the ledger as it was.  One that is
  stored touches only its own window, never outgrows the envelope, and afterwards the newest
  observation of the window is the admitted one exactly when it is later than everything retained
  before, and otherwise the one that was newest before.
\<close>

theorem evidence_window_keeps_newest:
  assumes "ledger_ok gapless l" and "max_retained_snapshots_per_source (l_limits l) > 0"
    and "RecordObservation s v recovered l = (st, rep, l')"
    and "w = window_of (sn_target s, sn_source s) l" and "w' = window_of (sn_target s, sn_source s) l'"
    and "r = \<lparr>ro_snapshot = s, ro_freshness = v, ro_recovered = recovered\<rparr>"
  shows "if status_ok st \<and> \<not> oa_duplicate_identical rep
         then w' \<noteq> [] \<and> length w' \<le> max_retained_snapshots_per_source (l_limits l) \<and>
              sorted_wrt (\<lambda>a b. \<not> observation_before b a) w' \<and>
              last w' = (if w = [] \<or> observation_before (last w) r then r else last w) \<and>
              (\<forall>key. key = (sn_target s, sn_source s) \<or> window_of key l' = window_of key l)
         else l' = l"
  using assms(3)
proof (cases rule: RecordObservation_cases)
  case unchanged
  then show ?thesis by simp
next
  case stored
  let ?key = "(sn_target s, sn_source s)"
  let ?bound = "max_retained_snapshots_per_source (l_limits l)"
  have w: "window_ok ?bound ?key w" using assms(1,4) by (simp add: window_of_ok)
  have w': "w' = retain ?bound r w"
    using stored(3) assms(4-6) by (simp add: window_of_def frame_simps store_simps)
  have "window_ok ?bound ?key w'" using retain_ok [OF w] assms(6) by (simp add: w')
  moreover have "w' \<noteq> []"
  proof -
    have "length (retain ?bound r w) > 0"
      using assms(2) first_recovered_less [of "insert_by observation_before r w" 0]
      by (cases "length w < ?bound") (simp_all add: retain_def Let_def length_erase_at del: length_greater_0_conv)
    then show ?thesis by (simp add: w')
  qed
  moreover have "window_of key l' = window_of key l" if "key \<noteq> ?key" for key
    using that stored(3) by (simp add: window_of_def frame_simps store_simps)
  ultimately show ?thesis using stored(1,2) last_retain [OF w assms(2)]
    by (auto simp: window_ok_def w')
qed

definition admitted_snapshot :: ObservationSnapshot where
  "admitted_snapshot = example_snapshot\<lparr>sn_snapshot_id := ComputeSnapshotId example_snapshot\<rparr>"

lemma admitted_snapshot_valid: "status_ok (Snapshot_Validate default_limits admitted_snapshot)"
proof -
  have names: "IsValidIdentityText ''src''" "IsValidIdentityText ''dev''" "IsValidIdentityText ''a''"
    "IsValidIdentityText ''b''" by code_simp+
  have same: "Snapshot_ComputeContentDigest admitted_snapshot = Snapshot_ComputeContentDigest example_snapshot"
    by (simp add: admitted_snapshot_def Snapshot_ComputeContentDigest_def Let_def)
  have "\<exists>m. Snapshot_ComputeContentDigest example_snapshot = sha256 m"
    by (simp add: Snapshot_ComputeContentDigest_def example_snapshot_def Let_def Sha256_new_absorbed stream_simps
        Final_absorbed sort_unique_def; blast)
  then have "length (Snapshot_ComputeContentDigest example_snapshot) = kDigestBytes"
    using length_sha256 by auto
  then have "ComputeSnapshotId example_snapshot \<noteq> []"
    by (cases "Snapshot_ComputeContentDigest example_snapshot")
      (simp_all add: ComputeSnapshotId_def Digest_ToHex_def ToHex_def kDigestBytes_def)
  then have "status_ok (validate_snapshot_id admitted_snapshot)"
    using same by (simp add: validate_snapshot_id_def admitted_snapshot_def ComputeSnapshotId_def status_ok_def mk_status_def)
  then show ?thesis
    using names
    by (simp add: Snapshot_Validate_def admitted_snapshot_def example_snapshot_def uint_is_set_def time_is_set_def
        validate_unobserved_def default_limits_def status_ok_def mk_status_def Let_def)
qed

lemma empty_ledger_ok: "ledger_ok gapless (FindingLedger lim)"
  by (simp add: ledger_ok_parts FindingLedger_def timeline_ok_def)

theorem evidence_window_keeps_newest_witness:
  "let result = RecordObservation admitted_snapshot default_verdict False (FindingLedger default_limits);
       w' = window_of (''dev'', ''src'') (snd (snd result))
   in status_ok (fst result) \<and> w' \<noteq> [] \<and> ro_snapshot (last w') = admitted_snapshot"
proof -
  let ?l = "FindingLedger default_limits"
  obtain st rep l' where c: "RecordObservation admitted_snapshot default_verdict False ?l = (st, rep, l')"
    by (metis prod_cases3)
  have lim: "l_limits ?l = default_limits" and win: "l_windows ?l = []" by (simp_all add: FindingLedger_def)
  have "max_retained_snapshots_per_source default_limits > 0" by (simp add: default_limits_def)
  then have bound: "max_retained_snapshots_per_source (l_limits ?l) > 0" by (simp add: lim)
  have key: "sn_target admitted_snapshot = ''dev''" "sn_source admitted_snapshot = ''src''"
    by (simp_all add: admitted_snapshot_def example_snapshot_def)
  have "status_ok st \<and> \<not> oa_duplicate_identical rep"
    using c admitted_snapshot_valid
    by (auto simp: RecordObservation_def Let_def lim win blank_admission_def status_ok_def mk_status_def)
  moreover have "window_of (''dev'', ''src'') ?l = []" by (simp add: window_of_def win)
  ultimately show ?thesis
    using evidence_window_keeps_newest [OF empty_ledger_ok bound c refl refl refl] c by (simp add: key)
qed

section \<open>Invalidation\<close>

lemma InvalidateRetainedEvidence_frame:
  assumes "InvalidateRetainedEvidence reason now l = (n, l')"
  shows "l_windows l' = map (\<lambda>(k, w). (k, map (invalidated reason now) w)) (l_windows l) \<and>
         l_limits l' = l_limits l \<and> l_baselines l' = l_baselines l \<and> l_findings l' = l_findings l \<and>
         l_groups l' = l_groups l \<and> l_global_timeline l' = l_global_timeline l \<and>
         l_timeline_sequence l' = l_timeline_sequence l"
  using assms by (auto simp: InvalidateRetainedEvidence_def Let_def frame_simps)

lemma invalidated_snapshot [simp]: "ro_snapshot (invalidated reason now r) = ro_snapshot r"
  by (simp add: invalidated_def)

lemma window_ok_invalidated: "window_ok bound key (map (invalidated reason now) w) = window_ok bound key w"
  by (simp add: window_ok_def list_all_iff sorted_wrt_map observation_before_def Let_def)

lemma Invalidate_ok:
  assumes "InvalidateRetainedEvidence reason now l = (n, l')" and "ledger_ok gapless l"
  shows "ledger_ok gapless l'"
proof -
  note frame = InvalidateRetainedEvidence_frame [OF assms(1)]
  have "windows_ok l'"
    using frame assms(2)
    by (auto simp: ledger_ok_def windows_ok_def keys_ascending_def list_all_iff window_ok_invalidated o_def case_prod_beta)
  then show ?thesis using frame assms(2)
    by (simp add: ledger_ok_def baselines_ok_def findings_ok_def groups_ok_def timeline_ok_def)
qed

lemma ObservationsFor_invalidated:
  assumes "InvalidateRetainedEvidence reason now l = (n, l')"
  shows "ObservationsFor target l' = map (invalidated reason now) (ObservationsFor target l)"
  using InvalidateRetainedEvidence_frame [OF assms]
  by (simp add: ObservationsFor_def filter_map o_def case_prod_beta map_concat)

section \<open>Operator actions\<close>

text \<open>
  What the observatory knows about a divergence, as opposed to what an operator has said about it:
  everything in the record but the lifecycle state, suppression, acknowledgement, summary and history.
\<close>

definition assessment :: "Finding \<Rightarrow> Finding" where
  "assessment f =
     f\<lparr>f_state := FS_Open, f_suppression := None, f_suppression_origin := SO_None, f_suppressed_by := [],
       f_suppression_reason := [], f_suppression_expires_at := None, f_acknowledged_by := [],
       f_acknowledged_at := 0, f_acknowledgement_reason := [], f_summary := [], f_timeline := []\<rparr>"

datatype OperatorAction =
    Act_Suppress FindingId ActorId string "NdoTime option" NdoTime
  | Act_ClearSuppression FindingId ActorId NdoTime
  | Act_Acknowledge FindingId ActorId string NdoTime
  | Act_ClearAcknowledgement FindingId ActorId NdoTime

fun act :: "(u64 \<Rightarrow> string) \<Rightarrow> OperatorAction \<Rightarrow> Ledger \<Rightarrow> Status \<times> Ledger" where
  "act dt (Act_Suppress fid actor reason expires now) l = Suppress dt fid actor reason expires now l"
| "act dt (Act_ClearSuppression fid actor now) l = ClearSuppression dt fid actor now l"
| "act dt (Act_Acknowledge fid actor reason now) l = Acknowledge dt fid actor reason now l"
| "act dt (Act_ClearAcknowledgement fid actor now) l = ClearAcknowledgement dt fid actor now l"

lemma assessment_push [simp]: "assessment (push_event e f) = assessment f"
  by (simp add: assessment_def push_event_def)

lemma assessment_summary [simp]: "assessment (RecomputeSummary dt lim f) = assessment f"
  by (simp add: assessment_def RecomputeSummary_def Let_def)

lemma assessment_clear [simp]: "assessment (clear_suppression f) = assessment f"
  by (simp add: assessment_def clear_suppression_def Let_def)

lemma state_push [simp]: "f_state (push_event e f) = f_state f"
  by (simp add: push_event_def)

lemma state_summary [simp]: "f_state (RecomputeSummary dt lim f) = f_state f"
  by (simp add: RecomputeSummary_def Let_def)

lemma live_clear [simp]: "IsLiveState (f_state (clear_suppression f)) = IsLiveState (f_state f)"
  by (simp add: clear_suppression_def Let_def)

text \<open>Every action either leaves the ledger alone or records one rewritten finding.\<close>

definition annotates :: "FindingId \<Rightarrow> Finding \<Rightarrow> Finding \<Rightarrow> bool" where
  "annotates fid f f' \<longleftrightarrow>
     assessment f' = assessment f \<and> IsLiveState (f_state f') = IsLiveState (f_state f) \<and>
     (finding_ok fid f \<longrightarrow> finding_ok fid f')"

definition action_result :: "(u64 \<Rightarrow> string) \<Rightarrow> Ledger \<Rightarrow> Status \<times> Ledger \<Rightarrow> bool" where
  "action_result dt l r \<longleftrightarrow>
     (\<not> status_ok (fst r) \<and> snd r = l) \<or>
     (status_ok (fst r) \<and> (\<exists>fid f f' e n. map_of (l_findings l) fid = Some f \<and> annotates fid f f' \<and>
        snd r = record_action dt fid e f' (l\<lparr>l_suppressions_active := n\<rparr>)))"

lemma action_resultI:
  assumes "map_of (l_findings l) fid = Some f" and "annotates fid f f'"
  shows "action_result dt l (Status_Ok, record_action dt fid e f' (l\<lparr>l_suppressions_active := n\<rparr>))"
  unfolding action_result_def
  by (intro disjI2 conjI exI) (use assms in \<open>simp_all add: status_ok_def mk_status_def\<close>)

lemma action_resultI':
  assumes "map_of (l_findings l) fid = Some f" and "annotates fid f f'"
  shows "action_result dt l (Status_Ok, record_action dt fid e f' l)"
  using action_resultI [OF assms, of dt e "l_suppressions_active l"] by simp

lemma action_result_refused: "c \<noteq> SC_Ok \<Longrightarrow> action_result dt l (mk_status c r d, l)"
  by (simp add: action_result_def status_ok_def mk_status_def)

lemma Suppress_result: "action_result dt l (Suppress dt fid actor reason expires now l)"
proof (cases "map_of (l_findings l) fid")
  case (Some f)
  have "annotates fid f (let f = f\<lparr>f_suppression := Some sid, f_suppression_origin := SO_Operator, f_suppressed_by := actor,
      f_suppression_reason := r, f_suppression_expires_at := expires\<rparr>
    in if IsLiveState (f_state f) then f\<lparr>f_state := FS_Suppressed\<rparr> else f)" for sid r
    by (auto simp: annotates_def assessment_def finding_ok_def Let_def IsLiveState_def)
  with Some show ?thesis
    by (auto simp: Suppress_def Let_def intro!: action_result_refused action_resultI action_resultI' split: option.splits)
qed (simp add: Suppress_def action_result_refused)

lemma ClearSuppression_result: "action_result dt l (ClearSuppression dt fid actor now l)"
proof (cases "map_of (l_findings l) fid")
  case (Some f)
  have "annotates fid f (clear_suppression f)" by (simp add: annotates_def finding_ok_clear)
  with Some show ?thesis
    by (auto simp: ClearSuppression_def Let_def intro!: action_result_refused action_resultI action_resultI')
qed (simp add: ClearSuppression_def action_result_refused)

lemma Acknowledge_result: "action_result dt l (Acknowledge dt fid actor reason now l)"
proof (cases "map_of (l_findings l) fid")
  case (Some f)
  have "annotates fid f (let f = f\<lparr>f_acknowledged_by := actor, f_acknowledged_at := now, f_acknowledgement_reason := r\<rparr>
    in if f_state f = FS_Open then f\<lparr>f_state := FS_Acknowledged\<rparr> else f)" if "actor \<noteq> []" for r
    using that by (auto simp: annotates_def assessment_def finding_ok_def Let_def)
  with Some show ?thesis
    by (auto simp: Acknowledge_def Let_def intro!: action_result_refused action_resultI')
qed (simp add: Acknowledge_def action_result_refused)

lemma ClearAcknowledgement_result: "action_result dt l (ClearAcknowledgement dt fid actor now l)"
proof (cases "map_of (l_findings l) fid")
  case (Some f)
  have "annotates fid f (let f = f\<lparr>f_acknowledged_by := [], f_acknowledged_at := 0, f_acknowledgement_reason := []\<rparr>
    in if f_state f = FS_Acknowledged then f\<lparr>f_state := FS_Open\<rparr> else f)"
    by (auto simp: annotates_def assessment_def finding_ok_def Let_def)
  with Some show ?thesis
    by (auto simp: ClearAcknowledgement_def Let_def intro!: action_result_refused action_resultI')
qed (simp add: ClearAcknowledgement_def action_result_refused)

lemma act_result: "action_result dt l (act dt a l)"
  by (cases a)
    (simp_all add: Suppress_result ClearSuppression_result Acknowledge_result ClearAcknowledgement_result)

lemma record_action_frame [frame_simps]:
  "l_limits (record_action dt fid e f l) = l_limits l"
  "l_baselines (record_action dt fid e f l) = l_baselines l"
  "l_windows (record_action dt fid e f l) = l_windows l"
  "l_groups (record_action dt fid e f l) = l_groups l"
  "l_findings (record_action dt fid e f l) =
     map_put fid (RecomputeSummary dt (l_limits l) (push_event e f)) (l_findings l)"
  by (simp_all add: record_action_def Let_def frame_simps)

lemma ledger_ok_put_finding:
  assumes "ledger_ok gapless l" and "finding_ok fid f"
    and "map_of (l_findings l) fid \<noteq> None \<or> length (l_findings l) < max_findings (l_limits l)"
  shows "ledger_ok gapless (l\<lparr>l_findings := map_put fid f (l_findings l)\<rparr>)"
  using assms
  by (auto simp: ledger_ok_parts keys_ascending_map_put length_map_put list_all_map_put timeline_ok_def)

lemma act_ok:
  assumes "act dt a l = (st, l')" and ok: "ledger_ok gapless l"
  shows "ledger_ok gapless l'"
proof (cases "l' = l")
  case False
  then obtain fid f f' e n where f: "map_of (l_findings l) fid = Some f" and r: "annotates fid f f'"
    and l': "l' = record_action dt fid e f' (l\<lparr>l_suppressions_active := n\<rparr>)"
    using act_result [of dt l a] assms(1) by (auto simp: action_result_def)
  have "finding_ok fid f" using ok f by (auto simp: ledger_ok_def findings_ok_def dest: list_all_map_of)
  then have "finding_ok fid f'" using r by (simp add: annotates_def)
  then have g: "finding_ok fid (RecomputeSummary dt (l_limits l) (push_event e f'))" by simp
  have "ledger_ok gapless (AppendTimeline e (l\<lparr>l_suppressions_active := n\<rparr>))"
    using ok by (simp add: ledger_ok_append ledger_ok_counters)
  from ledger_ok_put_finding [OF this g] f show ?thesis
    by (simp add: l' record_action_def Let_def frame_simps ledger_ok_bump)
qed (simp add: ok)

lemma act_frame:
  assumes "act dt a l = (st, l')"
  shows "(status_ok st \<or> l' = l) \<and> l_baselines l' = l_baselines l \<and> l_windows l' = l_windows l \<and> l_groups l' = l_groups l \<and>
         map_option (\<lambda>f. (assessment f, IsLiveState (f_state f))) (FindFinding fid l')
           = map_option (\<lambda>f. (assessment f, IsLiveState (f_state f))) (FindFinding fid l)"
  using act_result [of dt l a] assms
  by (auto simp: action_result_def annotates_def FindFinding_def frame_simps store_simps)

text \<open>
  C25. An operator can annotate a finding but cannot change what was observed.  Suppressing,
  acknowledging or clearing either leaves the ledger exactly as it was, or succeeds; in every case
  the same findings exist, each with the same assessment (identity, class, severity, values,
  evidence, counters, compliance relevance and the rest), live exactly when it was live before, and
  the baselines, the evidence windows and the groups are untouched.
\<close>

theorem operator_actions_keep_evidence:
  assumes "act dt a l = (st, l')"
  shows "(if status_ok st then True else l' = l) \<and>
         l_baselines l' = l_baselines l \<and> l_windows l' = l_windows l \<and> l_groups l' = l_groups l \<and>
         (\<forall>fid. map_option (\<lambda>f. (assessment f, IsLiveState (f_state f))) (FindFinding fid l')
              = map_option (\<lambda>f. (assessment f, IsLiveState (f_state f))) (FindFinding fid l))"
  using act_frame [OF assms] by auto

definition example_finding :: "FindingState \<Rightarrow> Finding" where
  "example_finding st =
     \<lparr>f_id = ComputeId (example_identity DC_Missing), f_identity = example_identity DC_Missing,
      f_klass = DC_Missing, f_raw_class = DC_Missing, f_severity = SV_High, f_state = st,
      f_reason = RC_None, f_baseline_generation = 1, f_baseline_epoch = 1,
      f_baseline_authority = IA_LocalPolicy, f_policy = ''policy/default'', f_policy_digest = Digest_unset,
      f_has_intended = False, f_intended = V_Null, f_has_observed = False, f_observed = V_Null,
      f_evidence = [], f_evidence_freshness = FR_Fresh, f_group = Digest_unset, f_group_cause = CK_None,
      f_observation_count = 1, f_reopen_count = 0, f_resolution_confirmations = 0, f_first_seen = 0,
      f_last_seen = 0, f_last_evaluated = 0, f_resolved_at = 0, f_suppression = None,
      f_suppression_origin = SO_None, f_suppressed_by = [], f_suppression_reason = [],
      f_suppression_expires_at = None, f_acknowledged_by = [], f_acknowledged_at = 0,
      f_acknowledgement_reason = [], f_summary = [], f_compliance_relevant = True, f_timeline = []\<rparr>"

definition ledger_with :: "Finding \<Rightarrow> Ledger" where
  "ledger_with f = (FindingLedger default_limits)\<lparr>l_findings := [(f_id f, f)]\<rparr>"

theorem operator_actions_keep_evidence_witness:
  "let f = example_finding FS_Open;
       result = act (\<lambda>_. []) (Act_Acknowledge (f_id f) ''ops'' ''known'' 5) (ledger_with f)
   in status_ok (fst result) \<and>
      map_option assessment (FindFinding (f_id f) (snd result)) = Some (assessment f)"
proof -
  let ?f = "example_finding FS_Open"
  obtain st l' where c: "act (\<lambda>_. []) (Act_Acknowledge (f_id ?f) ''ops'' ''known'' 5) (ledger_with ?f) = (st, l')"
    by (metis surj_pair)
  have "IsValidIdentityText ''ops''" by code_simp
  then have "status_ok st"
    using c by (auto simp: Acknowledge_def ledger_with_def status_ok_def mk_status_def Let_def)
  moreover have "FindFinding (f_id ?f) (ledger_with ?f) = Some ?f"
    by (simp add: FindFinding_def ledger_with_def)
  moreover have "map_option (\<lambda>f. (assessment f, IsLiveState (f_state f))) (FindFinding (f_id ?f) l')
      = map_option (\<lambda>f. (assessment f, IsLiveState (f_state f))) (FindFinding (f_id ?f) (ledger_with ?f))"
    using operator_actions_keep_evidence [OF c] by simp
  ultimately show ?thesis using c by (cases "FindFinding (f_id ?f) l'") (simp_all add: Let_def)
qed

section \<open>Expiry and events\<close>

lemma ExpireSuppressions_ok: "ledger_ok gapless l \<Longrightarrow> ledger_ok gapless (snd (ExpireSuppressions dt now l))"
  using expiry.pass_ok [of gapless "(0, l)" dt now]
  by (auto simp: ExpireSuppressions_def Let_def ledger_ok_bump split: prod.splits)

lemma RecordEvent_ok: "ledger_ok gapless l \<Longrightarrow> ledger_ok gapless (RecordEvent e l)"
  by (simp add: RecordEvent_def ledger_ok_bump ledger_ok_trim ledger_ok_append)

end
