(* ===== verification/NDO_Apply.thy ===== *)
theory NDO_Apply
  imports NDO_Operations
begin

text \<open>
  Applying an evaluation to the ledger (\<^verbatim>\<open>FindingLedger::ApplyEvaluation\<close> and \<^verbatim>\<open>RefreshGroups\<close> of
  \<^verbatim>\<open>ledger.cpp\<close>): fencing and bounding, creation, refresh and reopening of findings, resolution and
  reclassification of the ones no draft explains any more, and root-cause grouping.
\<close>

section \<open>Root causes\<close>

definition CauseFor :: "DriftClass \<Rightarrow> RootCauseKind" where
  "CauseFor k =
     (case k of
        DC_GenerationMismatch \<Rightarrow> CK_GenerationNotApplied
      | DC_PartialApplication \<Rightarrow> CK_PartialApplication
      | DC_SourceConflict \<Rightarrow> CK_SourceConflict
      | DC_StaleObservation \<Rightarrow> CK_StaleEvidence
      | DC_Unknown \<Rightarrow> CK_InsufficientCoverage
      | DC_Unsupported \<Rightarrow> CK_UnsupportedField
      | DC_IntentMissing \<Rightarrow> CK_MissingIntent
      | _ \<Rightarrow> CK_SingleField)"

definition CauseFormsGroup :: "RootCauseKind \<Rightarrow> nat \<Rightarrow> bool" where
  "CauseFormsGroup cause members =
     (if members \<ge> 2 then cause \<noteq> CK_None
      else cause = CK_GenerationNotApplied \<or> cause = CK_PartialApplication)"

definition GroupDiscriminator :: "Finding list \<Rightarrow> Digest" where
  "GroupDiscriminator members =
     (let qualifiers = sort_unique (map (\<lambda>f.
            if Digest_is_set (id_qualifier (f_identity f)) then Digest_ToHex (id_qualifier (f_identity f))
            else Digest_ToHex (f_id f)) members)
      in Final (hash_sequence UpdateLengthPrefixed qualifiers
           (UpdateTag ''ndo/group-discriminator/v1'' Sha256_new)))"

definition kGroupTag :: string where
  "kGroupTag = ''ndo/root-cause-group/v1''"

definition GroupIdentity :: "TargetId \<Rightarrow> IntentGeneration \<Rightarrow> RootCauseKind \<Rightarrow> Digest \<Rightarrow> GroupId" where
  "GroupIdentity target generation cause discriminator =
     (let h = UpdateTag kGroupTag Sha256_new;
          h = UpdateLengthPrefixed target h;
          h = UpdateU64 generation h;
          h = UpdateLengthPrefixed (ToText_RootCauseKind cause) h
      in Final (Update discriminator h))"

definition all_causes :: "RootCauseKind list" where
  "all_causes =
     [CK_None, CK_SingleField, CK_GenerationNotApplied, CK_PartialApplication, CK_SourceConflict,
      CK_StaleEvidence, CK_InsufficientCoverage, CK_MissingIntent, CK_UnsupportedField]"

text \<open>A bucket is keyed by generation value and cause code, and holds findings in id order.\<close>

type_synonym Bucket = "(nat \<times> nat) \<times> Finding list"

definition add_to_bucket :: "Finding \<Rightarrow> (nat \<times> nat, Finding list) omap \<Rightarrow> (nat \<times> nat, Finding list) omap" where
  "add_to_bucket f buckets =
     (let key = (unat (f_baseline_generation f), cause_value (CauseFor (f_klass f)));
          members = (case map_of buckets key of None \<Rightarrow> [] | Some fs \<Rightarrow> fs)
      in map_put key (members @ [f]) buckets)"

definition buckets_for :: "TargetId \<Rightarrow> Ledger \<Rightarrow> Bucket list" where
  "buckets_for target l =
     fold add_to_bucket
       (filter (\<lambda>f. id_target (f_identity f) = target \<and> IsLiveState (f_state f)) (Findings l)) []"

record GroupPass =
  gp_groups :: "(GroupId, RootCauseGroup) omap"
  gp_touched :: nat
  gp_produced :: "GroupId list"
  gp_assignment :: "(FindingId, GroupId) omap"

definition fill_group :: "TargetId \<Rightarrow> Finding list \<Rightarrow> RootCauseKind \<Rightarrow> RootCauseGroup \<Rightarrow> RootCauseGroup" where
  "fill_group target members cause g =
     g\<lparr>rg_members := map f_id members,
       rg_objects := sort_unique (map (\<lambda>f. id_object (f_identity f)) members),
       rg_summary := BoundedDetail (ToText_RootCauseKind cause @ '' explains '' @ nat_text (length members) @
         '' finding(s) on target '' @ target)\<rparr>"

definition assign_members :: "Finding list \<Rightarrow> GroupId \<Rightarrow> (FindingId, GroupId) omap \<Rightarrow> (FindingId, GroupId) omap" where
  "assign_members members gid = fold (\<lambda>f. map_put (f_id f) gid) members"

definition group_bucket :: "RuntimeLimits \<Rightarrow> TargetId \<Rightarrow> NdoTime \<Rightarrow> Bucket \<Rightarrow> GroupPass \<Rightarrow> Status \<times> GroupPass" where
  "group_bucket lim target now bucket p =
     (let cause = all_causes ! snd (fst bucket) in
      if cause = CK_None \<or> \<not> CauseFormsGroup cause (length (snd bucket)) then (Status_Ok, p)
      else
        let members = sort_by (\<lambda>a b. f_id a < f_id b) (snd bucket);
            discriminator = GroupDiscriminator members;
            generation = f_baseline_generation (hd members);
            gid = GroupIdentity target generation cause discriminator;
            p = p\<lparr>gp_produced := gid # gp_produced p\<rparr>
        in case map_of (gp_groups p) gid of
             None \<Rightarrow>
               if length (gp_groups p) \<ge> max_groups lim
               then (Status_Limit RC_LimitObjectsExceeded ''root-cause group count exceeds the envelope'', p)
               else
                 let g = \<lparr>rg_id = gid, rg_target = target, rg_baseline_generation = generation,
                          rg_baseline_epoch = f_baseline_epoch (hd members), rg_cause = cause,
                          rg_discriminator = discriminator, rg_members = [], rg_objects = [], rg_summary = [],
                          rg_observation_count = 1, rg_first_seen = now, rg_last_seen = now\<rparr>
                 in (Status_Ok, p\<lparr>gp_groups := map_emplace gid (fill_group target members cause g) (gp_groups p),
                       gp_assignment := assign_members members gid (gp_assignment p),
                       gp_touched := gp_touched p + 1\<rparr>)
           | Some g \<Rightarrow>
               let g = g\<lparr>rg_last_seen := now, rg_observation_count := rg_observation_count g + 1\<rparr>
               in (Status_Ok, p\<lparr>gp_groups := map_put gid (fill_group target members cause g) (gp_groups p),
                     gp_assignment := assign_members members gid (gp_assignment p),
                     gp_touched := gp_touched p + 1\<rparr>))"

fun group_buckets :: "RuntimeLimits \<Rightarrow> TargetId \<Rightarrow> NdoTime \<Rightarrow> Bucket list \<Rightarrow> GroupPass \<Rightarrow> Status \<times> GroupPass" where
  "group_buckets lim target now [] p = (Status_Ok, p)"
| "group_buckets lim target now (b # bs) p =
     (let (status, p) = group_bucket lim target now b p
      in if status_ok status then group_buckets lim target now bs p else (status, p))"

definition attribute_finding ::
    "TargetId \<Rightarrow> NdoTime \<Rightarrow> (FindingId, GroupId) omap \<Rightarrow> Ledger \<Rightarrow> FindingId \<times> Finding \<Rightarrow> Ledger \<times> (FindingId \<times> Finding)" where
  "attribute_finding target now assignment l entry =
     (let f = snd entry in
      if id_target (f_identity f) \<noteq> target \<or> \<not> IsLiveState (f_state f) then (l, entry)
      else case map_of assignment (f_id f) of
          Some gid \<Rightarrow>
            if f_group f \<noteq> gid
            then let f = f\<lparr>f_group := gid, f_group_cause := CauseFor (f_klass f)\<rparr>;
                     e = finding_event TK_Grouped now RC_None
                           (BoundedDetail (''attributed to root-cause group '' @ ToShortHex gid)) f
                 in (AppendTimeline e l, (fst entry, push_event e f))
            else (l, entry)
        | None \<Rightarrow>
            let f = (if Digest_is_set (f_group f) then f\<lparr>f_group := Digest_unset\<rparr> else f)
            in (l, (fst entry, f\<lparr>f_group_cause := CauseFor (f_klass f)\<rparr>)))"

definition RefreshGroups :: "TargetId \<Rightarrow> NdoTime \<Rightarrow> LedgerApplyReport \<Rightarrow> Ledger \<Rightarrow> Status \<times> LedgerApplyReport \<times> Ledger" where
  "RefreshGroups target now report l =
     (let (status, p) = group_buckets (l_limits l) target now (buckets_for target l)
            \<lparr>gp_groups = l_groups l, gp_touched = 0, gp_produced = [], gp_assignment = []\<rparr>;
          report = report\<lparr>la_groups_touched := la_groups_touched report + gp_touched p\<rparr>;
          l = l\<lparr>l_groups := gp_groups p\<rparr>
      in if \<not> status_ok status then (status, report, l)
         else
           let (l, findings) = map_accum (attribute_finding target now (gp_assignment p)) l (l_findings l)
           in (Status_Ok, report, l\<lparr>l_findings := findings,
                 l_groups := filter (\<lambda>g. \<not> (rg_target (snd g) = target \<and> fst g \<notin> set (gp_produced p))) (l_groups l)\<rparr>))"

section \<open>Phase one: fencing and bounding\<close>

definition draft_identity :: "FindingDraft \<Rightarrow> FindingIdentity" where
  "draft_identity d =
     \<lparr>id_target = fd_target d, id_object = fd_object d, id_path = fd_path d, id_klass = fd_klass d,
      id_baseline_generation = fd_baseline_generation d, id_qualifier = fd_qualifier d\<rparr>"

definition accepted :: "Ledger \<Rightarrow> TargetEvaluation \<Rightarrow> bool" where
  "accepted l ev =
     (case FindBaseline (tv_target ev) l of
        None \<Rightarrow> \<not> tv_has_baseline ev
      | Some b \<Rightarrow> tv_has_baseline ev \<and> ib_generation b = tv_baseline_generation ev)"

definition new_findings :: "Ledger \<Rightarrow> TargetEvaluation list \<Rightarrow> nat" where
  "new_findings l evs =
     sum_list (map (\<lambda>ev. count_if (\<lambda>d. map_of (l_findings l) (ComputeId (draft_identity d)) = None) (tv_drafts ev)) evs)"

section \<open>Phase two: drafts\<close>

record ApplyPass =
  ap_ledger :: Ledger
  ap_report :: LedgerApplyReport
  ap_drop :: "GroupId list"

definition draft_map :: "FindingDraft list \<Rightarrow> (FindingId, FindingDraft) omap" where
  "draft_map ds = fold (\<lambda>d. map_emplace (ComputeId (draft_identity d)) d) ds []"

definition front_digest :: "Finding \<Rightarrow> Digest" where
  "front_digest f = (case f_evidence f of [] \<Rightarrow> Digest_unset | e # _ \<Rightarrow> er_content_digest e)"

definition new_finding :: "EvaluationOutcome \<Rightarrow> TargetEvaluation \<Rightarrow> NdoTime \<Rightarrow> FindingId \<Rightarrow> FindingDraft \<Rightarrow> Finding" where
  "new_finding outcome ev now fid d =
     \<lparr>f_id = fid, f_identity = draft_identity d, f_klass = fd_klass d, f_raw_class = fd_raw_class d,
      f_severity = fd_severity d, f_state = FS_Open, f_reason = fd_reason d,
      f_baseline_generation = fd_baseline_generation d, f_baseline_epoch = fd_baseline_epoch d,
      f_baseline_authority = fd_baseline_authority d, f_policy = eo_policy outcome,
      f_policy_digest = eo_policy_digest outcome, f_has_intended = fd_has_intended d,
      f_intended = fd_intended d, f_has_observed = fd_has_observed d, f_observed = fd_observed d,
      f_evidence = fd_evidence d, f_evidence_freshness = tv_best_freshness ev, f_group = Digest_unset,
      f_group_cause = CK_None, f_observation_count = 1, f_reopen_count = 0, f_resolution_confirmations = 0,
      f_first_seen = now, f_last_seen = now, f_last_evaluated = now, f_resolved_at = 0,
      f_suppression = None, f_suppression_origin = SO_None, f_suppressed_by = [], f_suppression_reason = [],
      f_suppression_expires_at = None, f_acknowledged_by = [], f_acknowledged_at = 0,
      f_acknowledgement_reason = [], f_summary = [], f_compliance_relevant = fd_compliance_relevant d,
      f_timeline = []\<rparr>"

definition policy_suppressed :: "SuppressionRule \<Rightarrow> Finding \<Rightarrow> Finding" where
  "policy_suppressed rule f =
     f\<lparr>f_state := FS_Suppressed, f_suppression_origin := SO_Policy, f_suppression := Some (su_id rule),
       f_suppressed_by := su_author rule, f_suppression_reason := su_reason rule,
       f_suppression_expires_at := su_expires_at rule\<rparr>"

definition create_finding ::
    "(u64 \<Rightarrow> string) \<Rightarrow> EvaluationOutcome \<Rightarrow> ObservatoryPolicy \<Rightarrow> TargetEvaluation \<Rightarrow> NdoTime \<Rightarrow> FindingId \<Rightarrow> FindingDraft
       \<Rightarrow> ApplyPass \<Rightarrow> ApplyPass" where
  "create_finding dt outcome policy ev now fid d s =
     (let l = ap_ledger s;
          rep = ap_report s;
          f = new_finding outcome ev now fid d;
          (f, e, rep) =
            (case FindSuppression policy (fd_target d) (fd_object d) (fd_path d) (fd_klass d) (fd_severity d) now of
               Some rule \<Rightarrow>
                 let f = policy_suppressed rule f
                 in (f, finding_event TK_Suppressed now RC_SuppressedByPolicy
                          (BoundedDetail (''suppressed by policy rule '' @ su_id rule @ '': '' @ su_reason rule)) f,
                     rep\<lparr>la_suppressed := la_suppressed rep + 1\<rparr>)
             | None \<Rightarrow>
                 (f, finding_event TK_Created now RC_FindingCreated
                       (BoundedDetail (''finding created: '' @ ToText_ReasonCode (fd_reason d))) f, rep));
          e = e\<lparr>te_evidence_digest := front_digest f\<rparr>;
          f = RecomputeSummary dt (l_limits l) (push_event e f);
          l = AppendTimeline e l
      in s\<lparr>ap_ledger := l\<lparr>l_findings := map_emplace fid f (l_findings l)\<rparr>,
           ap_report := rep\<lparr>la_created := la_created rep + 1, la_created_ids := la_created_ids rep @ [fid]\<rparr>\<rparr>)"

definition refreshed :: "EvaluationOutcome \<Rightarrow> TargetEvaluation \<Rightarrow> NdoTime \<Rightarrow> FindingDraft \<Rightarrow> Finding \<Rightarrow> Finding" where
  "refreshed outcome ev now d f =
     f\<lparr>f_klass := fd_klass d, f_raw_class := fd_raw_class d, f_severity := fd_severity d, f_reason := fd_reason d,
       f_baseline_generation := fd_baseline_generation d, f_baseline_epoch := fd_baseline_epoch d,
       f_baseline_authority := fd_baseline_authority d, f_policy := eo_policy outcome,
       f_policy_digest := eo_policy_digest outcome, f_has_intended := fd_has_intended d,
       f_intended := fd_intended d, f_has_observed := fd_has_observed d, f_observed := fd_observed d,
       f_evidence := fd_evidence d, f_evidence_freshness := tv_best_freshness ev,
       f_compliance_relevant := fd_compliance_relevant d, f_last_seen := now, f_last_evaluated := now,
       f_observation_count := f_observation_count f + 1\<rparr>"

definition is_closed :: "Finding \<Rightarrow> bool" where
  "is_closed f \<longleftrightarrow> f_state f = FS_Resolved \<or> f_state f = FS_Superseded \<or> f_state f = FS_Retired"

definition material_change :: "Finding \<Rightarrow> Finding \<Rightarrow> bool" where
  "material_change before after \<longleftrightarrow>
     is_closed before \<or> f_severity after \<noteq> f_severity before \<or>
     f_evidence_freshness after \<noteq> f_evidence_freshness before \<or>
     f_has_observed after \<noteq> f_has_observed before \<or> \<not> value_eq (f_observed after) (f_observed before)"

text \<open>The reopening or the update of a finding that is drafted again, with its event.\<close>

definition advance_finding :: "NdoTime \<Rightarrow> Finding \<Rightarrow> Finding \<Rightarrow> Finding \<times> TimelineEntry option" where
  "advance_finding now before f =
     (if is_closed before
      then let f = f\<lparr>f_state := FS_Open, f_resolved_at := 0, f_resolution_confirmations := 0,
                     f_reopen_count := f_reopen_count f + 1\<rparr>;
               e = (finding_event TK_Reopened now RC_FindingReopened
                     (BoundedDetail ''drift is present again under the current baseline'') f)
                   \<lparr>te_evidence_digest := front_digest f\<rparr>
           in (push_event e f, Some e)
      else if material_change before f
      then let e = (finding_event TK_Updated now RC_FindingUpdated
                     (BoundedDetail (''evidence changed: '' @ ToText_ReasonCode (f_reason f))) f)
                   \<lparr>te_evidence_digest := front_digest f\<rparr>
           in (push_event e f, Some e)
      else (f, None))"

definition lapse_policy_suppression :: "ObservatoryPolicy \<Rightarrow> NdoTime \<Rightarrow> Finding \<Rightarrow> Finding \<times> TimelineEntry option" where
  "lapse_policy_suppression policy now f =
     (if f_suppression f \<noteq> None \<and> f_suppression_origin f = SO_Policy \<and>
         FindSuppression policy (id_target (f_identity f)) (id_object (f_identity f)) (id_path (f_identity f))
           (f_klass f) (f_severity f) now = None
      then let f = clear_suppression f;
               e = finding_event TK_SuppressionExpired now RC_SuppressionExpired
                     ''the governing suppression no longer applies'' f
           in (push_event e f, Some e)
      else (f, None))"

definition append_if :: "TimelineEntry option \<Rightarrow> Ledger \<Rightarrow> Ledger" where
  "append_if e l = (case e of None \<Rightarrow> l | Some x \<Rightarrow> AppendTimeline x l)"

definition update_finding ::
    "(u64 \<Rightarrow> string) \<Rightarrow> EvaluationOutcome \<Rightarrow> ObservatoryPolicy \<Rightarrow> TargetEvaluation \<Rightarrow> NdoTime \<Rightarrow> FindingId \<Rightarrow> FindingDraft
       \<Rightarrow> Finding \<Rightarrow> ApplyPass \<Rightarrow> ApplyPass" where
  "update_finding dt outcome policy ev now fid d before s =
     (let l = ap_ledger s;
          rep = ap_report s;
          (f, e) = advance_finding now before (refreshed outcome ev now d before);
          l = append_if e l;
          rep = (if is_closed before then rep\<lparr>la_reopened := la_reopened rep + 1\<rparr> else rep);
          l = l\<lparr>l_resolution_streak := map_put fid 0 (l_resolution_streak l)\<rparr>;
          (f, e) = lapse_policy_suppression policy now f;
          l = append_if e l;
          f = RecomputeSummary dt (l_limits l) f
      in s\<lparr>ap_ledger := l\<lparr>l_findings := map_put fid f (l_findings l)\<rparr>,
           ap_report := rep\<lparr>la_updated := la_updated rep + 1\<rparr>\<rparr>)"

definition apply_draft ::
    "(u64 \<Rightarrow> string) \<Rightarrow> EvaluationOutcome \<Rightarrow> ObservatoryPolicy \<Rightarrow> TargetEvaluation \<Rightarrow> NdoTime \<Rightarrow> FindingId \<times> FindingDraft
       \<Rightarrow> ApplyPass \<Rightarrow> ApplyPass" where
  "apply_draft dt outcome policy ev now entry s =
     (case map_of (l_findings (ap_ledger s)) (fst entry) of
        None \<Rightarrow> create_finding dt outcome policy ev now (fst entry) (snd entry) s
      | Some f \<Rightarrow> update_finding dt outcome policy ev now (fst entry) (snd entry) f s)"

section \<open>Phase two: findings that were not drafted\<close>

definition undrafted_live :: "TargetId \<Rightarrow> (FindingId, FindingDraft) omap \<Rightarrow> Ledger \<Rightarrow> FindingId list" where
  "undrafted_live target drafts l =
     map fst (filter (\<lambda>e. id_target (f_identity (snd e)) = target \<and> IsLiveState (f_state (snd e)) \<and>
       map_of drafts (fst e) = None) (l_findings l))"

definition reclassified_by :: "(FindingId, FindingDraft) omap \<Rightarrow> Ledger \<Rightarrow> Finding \<Rightarrow> bool" where
  "reclassified_by drafts l f =
     list_ex (\<lambda>entry. case map_of (l_findings l) (fst entry) of
         None \<Rightarrow> False
       | Some other \<Rightarrow> id_object (f_identity other) = id_object (f_identity f) \<and>
           id_path (f_identity other) = id_path (f_identity f) \<and>
           f_baseline_generation other = f_baseline_generation f) drafts"

definition reclassify_finding :: "NdoTime \<Rightarrow> FindingId \<Rightarrow> Finding \<Rightarrow> ApplyPass \<Rightarrow> ApplyPass" where
  "reclassify_finding now fid f s =
     (let l = ap_ledger s;
          rep = ap_report s;
          g = leave_group (f\<lparr>f_state := FS_Superseded, f_reason := RC_FindingReclassified, f_last_evaluated := now\<rparr>);
          e = finding_event TK_Reclassified now RC_FindingReclassified
                ''the same location is now explained by a differently classified finding'' g;
          l = AppendTimeline e l
      in \<lparr>ap_ledger = l\<lparr>l_findings := map_put fid (push_event e g) (l_findings l)\<rparr>,
          ap_report = rep\<lparr>la_superseded := la_superseded rep + 1\<rparr>,
          ap_drop = group_left f @ ap_drop s\<rparr>)"

definition confirm_agreement ::
    "(u64 \<Rightarrow> string) \<Rightarrow> EvaluationOutcome \<Rightarrow> NdoTime \<Rightarrow> FindingId \<Rightarrow> Finding \<Rightarrow> ApplyPass \<Rightarrow> ApplyPass" where
  "confirm_agreement dt outcome now fid f s =
     (let l = ap_ledger s;
          rep = ap_report s;
          streak = (case map_of (l_resolution_streak l) fid of None \<Rightarrow> 0 | Some n \<Rightarrow> n) + 1;
          l = l\<lparr>l_resolution_streak := map_put fid streak (l_resolution_streak l)\<rparr>;
          f = f\<lparr>f_resolution_confirmations := streak\<rparr>;
          required = (if eo_resolution_confirmations outcome = 0 then 1 else eo_resolution_confirmations outcome)
      in if streak \<ge> required
         then let g = leave_group (f\<lparr>f_state := FS_Resolved, f_reason := RC_FindingResolved, f_resolved_at := now,
                        f_last_evaluated := now\<rparr>);
                  g = RecomputeSummary dt (l_limits l) g;
                  e = finding_event TK_Resolved now RC_FindingResolved
                        (BoundedDetail (''fresh evidence agreed with intent for '' @ nat_text (unat streak) @
                          '' evaluation(s)'')) g;
                  l = AppendTimeline e l
              in \<lparr>ap_ledger = l\<lparr>l_findings := map_put fid (push_event e g) (l_findings l)\<rparr>,
                  ap_report = rep\<lparr>la_resolved := la_resolved rep + 1, la_resolved_ids := la_resolved_ids rep @ [fid]\<rparr>,
                  ap_drop = group_left f @ ap_drop s\<rparr>
         else s\<lparr>ap_ledger := l\<lparr>l_findings := map_put fid f (l_findings l)\<rparr>,
                ap_report := rep\<lparr>la_unchanged := la_unchanged rep + 1\<rparr>\<rparr>)"

definition settle_finding ::
    "(u64 \<Rightarrow> string) \<Rightarrow> EvaluationOutcome \<Rightarrow> TargetEvaluation \<Rightarrow> NdoTime \<Rightarrow> (FindingId, FindingDraft) omap \<Rightarrow> FindingId
       \<Rightarrow> ApplyPass \<Rightarrow> ApplyPass" where
  "settle_finding dt outcome ev now drafts fid s =
     (case map_of (l_findings (ap_ledger s)) fid of
        None \<Rightarrow> s
      | Some f \<Rightarrow>
          if \<not> tv_compliance_decidable ev
          then s\<lparr>ap_report := (ap_report s)\<lparr>la_unchanged := la_unchanged (ap_report s) + 1\<rparr>\<rparr>
          else if reclassified_by drafts (ap_ledger s) f then reclassify_finding now fid f s
          else confirm_agreement dt outcome now fid f s)"

section \<open>Phase two: one target, all targets\<close>

definition apply_target ::
    "(u64 \<Rightarrow> string) \<Rightarrow> EvaluationOutcome \<Rightarrow> ObservatoryPolicy \<Rightarrow> NdoTime \<Rightarrow> TargetEvaluation
       \<Rightarrow> LedgerApplyReport \<times> Ledger \<Rightarrow> Status \<times> LedgerApplyReport \<times> Ledger" where
  "apply_target dt outcome policy now ev start =
     (let drafts = draft_map (tv_drafts ev);
          s = fold (apply_draft dt outcome policy ev now) drafts
                \<lparr>ap_ledger = snd start, ap_report = fst start, ap_drop = []\<rparr>;
          s = fold (settle_finding dt outcome ev now drafts) (undrafted_live (tv_target ev) drafts (ap_ledger s)) s;
          (status, report, l) = RefreshGroups (tv_target ev) now (ap_report s) (ap_ledger s)
      in if \<not> status_ok status then (status, report, l)
         else (Status_Ok, report, l\<lparr>l_groups := fold map_erase (ap_drop s) (l_groups l)\<rparr>))"

fun apply_targets ::
    "(u64 \<Rightarrow> string) \<Rightarrow> EvaluationOutcome \<Rightarrow> ObservatoryPolicy \<Rightarrow> NdoTime \<Rightarrow> TargetEvaluation list
       \<Rightarrow> LedgerApplyReport \<times> Ledger \<Rightarrow> Status \<times> LedgerApplyReport \<times> Ledger" where
  "apply_targets dt outcome policy now [] s = (Status_Ok, s)"
| "apply_targets dt outcome policy now (ev # evs) s =
     (let (status, s) = apply_target dt outcome policy now ev s
      in if status_ok status then apply_targets dt outcome policy now evs s else (status, s))"

definition ApplyEvaluation ::
    "(u64 \<Rightarrow> string) \<Rightarrow> EvaluationOutcome \<Rightarrow> ObservatoryPolicy \<Rightarrow> NdoTime \<Rightarrow> Ledger \<Rightarrow> Status \<times> LedgerApplyReport \<times> Ledger" where
  "ApplyEvaluation dt outcome policy now l =
     (let evs = filter (accepted l) (eo_targets outcome);
          report = blank_apply_report\<lparr>la_fenced_targets := length (eo_targets outcome) - length evs\<rparr>
      in if length (l_findings l) + new_findings l evs > max_findings (l_limits l)
         then (Status_Limit RC_LimitFindingsExceeded ''applying this evaluation would exceed the finding envelope'',
               report, l)
         else
           let (status, report, l) = apply_targets dt outcome policy now evs (report, l)
           in if \<not> status_ok status then (status, report, l)
              else (Status_Ok, report,
                TrimTimelineIfNeeded (bump_revision (snd (ExpireSuppressions dt now l)))))"

section \<open>What applying one draft does\<close>

text \<open>
  \<open>carries d f\<close>: the finding states what the draft states.  \<open>continues before f\<close>: the finding is the
  same divergence seen once more, reopened when it had been closed.
\<close>

definition carries :: "FindingDraft \<Rightarrow> Finding \<Rightarrow> bool" where
  "carries d f \<longleftrightarrow>
     f_klass f = fd_klass d \<and> f_severity f = fd_severity d \<and> f_observed f = fd_observed d \<and>
     f_has_observed f = fd_has_observed d \<and> f_intended f = fd_intended d \<and> f_has_intended f = fd_has_intended d \<and>
     f_evidence f = fd_evidence d \<and> f_compliance_relevant f = fd_compliance_relevant d \<and>
     f_baseline_generation f = fd_baseline_generation d"

definition continues :: "Finding \<Rightarrow> Finding \<Rightarrow> bool" where
  "continues before f \<longleftrightarrow>
     f_identity f = f_identity before \<and> f_first_seen f = f_first_seen before \<and>
     f_observation_count f = f_observation_count before + 1 \<and>
     f_reopen_count f = (if is_closed before then f_reopen_count before + 1 else f_reopen_count before) \<and>
     IsLiveState (f_state f)"

lemma is_closed_iff: "is_closed f \<longleftrightarrow> \<not> IsLiveState (f_state f)"
  by (cases "f_state f") (simp_all add: is_closed_def)

lemma append_if_frame [frame_simps]:
  "l_limits (append_if e l) = l_limits l"
  "l_baselines (append_if e l) = l_baselines l"
  "l_windows (append_if e l) = l_windows l"
  "l_findings (append_if e l) = l_findings l"
  "l_groups (append_if e l) = l_groups l"
  "l_resolution_streak (append_if e l) = l_resolution_streak l"
  by (simp_all add: append_if_def frame_simps split: option.splits)

lemma carries_push [simp]: "carries d (push_event e f) = carries d f"
  by (simp add: carries_def push_event_def)

lemma carries_summary [simp]: "carries d (RecomputeSummary dt lim f) = carries d f"
  by (simp add: carries_def RecomputeSummary_def Let_def)

lemma carries_clear [simp]: "carries d (clear_suppression f) = carries d f"
  by (simp add: carries_def clear_suppression_def Let_def)

lemma continues_push [simp]: "continues b (push_event e f) = continues b f"
  by (simp add: continues_def push_event_def)

lemma continues_summary [simp]: "continues b (RecomputeSummary dt lim f) = continues b f"
  by (simp add: continues_def RecomputeSummary_def Let_def)

lemma continues_clear [simp]: "continues b (clear_suppression f) = continues b f"
  by (auto simp: continues_def clear_suppression_def Let_def)

lemma lapse_result:
  assumes "lapse_policy_suppression policy now f = (f', e)"
  shows "carries d f' = carries d f \<and> continues b f' = continues b f \<and> (finding_ok fid f \<longrightarrow> finding_ok fid f')"
  using assms by (auto simp: lapse_policy_suppression_def Let_def finding_ok_clear split: if_splits)

lemma advance_result:
  assumes "advance_finding now before (refreshed outcome ev now d before) = (f, e)"
  shows "carries d f \<and> continues before f \<and> (finding_ok fid before \<longrightarrow> finding_ok fid f)"
proof -
  have "carries d (refreshed outcome ev now d before)"
    by (simp add: carries_def refreshed_def)
  moreover have "continues before (refreshed outcome ev now d before)" if "\<not> is_closed before"
    using that by (simp add: continues_def refreshed_def is_closed_iff)
  moreover have "finding_ok fid (refreshed outcome ev now d before) = finding_ok fid before"
    by (simp add: finding_ok_def refreshed_def)
  moreover have "carries d (g\<lparr>f_state := FS_Open, f_resolved_at := 0, f_resolution_confirmations := 0,
      f_reopen_count := n\<rparr>) = carries d g" for g n
    by (simp add: carries_def)
  moreover have "continues before ((refreshed outcome ev now d before)\<lparr>f_state := FS_Open, f_resolved_at := 0,
      f_resolution_confirmations := 0, f_reopen_count := f_reopen_count (refreshed outcome ev now d before) + 1\<rparr>)"
    if "is_closed before"
    using that by (simp add: continues_def refreshed_def)
  moreover have "finding_ok fid (g\<lparr>f_state := FS_Open, f_resolved_at := 0, f_resolution_confirmations := 0,
      f_reopen_count := n\<rparr>)" if "finding_ok fid g" for g n
    using that by (simp add: finding_ok_def)
  ultimately show ?thesis
    using assms by (auto simp: advance_finding_def Let_def split: if_splits)
qed

lemma create_finding_result:
  obtains f e rep where "create_finding dt outcome policy ev now fid d s =
      s\<lparr>ap_ledger := (AppendTimeline e (ap_ledger s))\<lparr>l_findings := map_emplace fid f (l_findings (ap_ledger s))\<rparr>,
        ap_report := rep\<rparr>"
    and "carries d f" and "f_identity f = draft_identity d" and "IsLiveState (f_state f)"
    and "f_first_seen f = now"
    and "fid = ComputeId (draft_identity d) \<longrightarrow> finding_ok fid f"
proof -
  let ?n = "new_finding outcome ev now fid d"
  let ?r = "FindSuppression policy (fd_target d) (fd_object d) (fd_path d) (fd_klass d) (fd_severity d) now"
  define g where "g = (case ?r of None \<Rightarrow> ?n | Some rule \<Rightarrow> policy_suppressed rule ?n)"
  have "carries d g \<and> f_identity g = draft_identity d \<and> IsLiveState (f_state g) \<and> f_first_seen g = now \<and>
      (fid = ComputeId (draft_identity d) \<longrightarrow> finding_ok fid g)"
    by (cases ?r) (simp_all add: g_def new_finding_def policy_suppressed_def carries_def finding_ok_def)
  moreover obtain e0 rep0 where "create_finding dt outcome policy ev now fid d s =
      s\<lparr>ap_ledger := (AppendTimeline e0 (ap_ledger s))\<lparr>l_findings :=
          map_emplace fid (RecomputeSummary dt (l_limits (ap_ledger s)) (push_event e0 g)) (l_findings (ap_ledger s))\<rparr>,
        ap_report := rep0\<rparr>"
    by (cases ?r) (simp_all add: create_finding_def Let_def g_def frame_simps)
  moreover have "f_identity (RecomputeSummary dt lim (push_event e g)) = f_identity g"
    "f_first_seen (RecomputeSummary dt lim (push_event e g)) = f_first_seen g" for lim e
    by (simp_all add: RecomputeSummary_def push_event_def Let_def)
  ultimately show thesis
    by (intro that [where e = e0 and f = "RecomputeSummary dt (l_limits (ap_ledger s)) (push_event e0 g)" and rep = rep0]) simp_all
qed

lemma update_finding_result:
  obtains f l rep where "update_finding dt outcome policy ev now fid d before s =
      s\<lparr>ap_ledger := l\<lparr>l_findings := map_put fid f (l_findings (ap_ledger s))\<rparr>, ap_report := rep\<rparr>"
    and "carries d f" and "continues before f" and "finding_ok fid before \<longrightarrow> finding_ok fid f"
    and "same_store (ap_ledger s) (l\<lparr>l_resolution_streak := l_resolution_streak (ap_ledger s)\<rparr>)"
    and "timeline_ok gapless (ap_ledger s) \<longrightarrow> timeline_ok gapless l"
proof -
  obtain f1 e1 where a: "advance_finding now before (refreshed outcome ev now d before) = (f1, e1)"
    by (metis surj_pair)
  obtain f2 e2 where b: "lapse_policy_suppression policy now f1 = (f2, e2)" by (metis surj_pair)
  let ?l = "append_if e2 ((append_if e1 (ap_ledger s))\<lparr>l_resolution_streak := map_put fid 0 (l_resolution_streak (ap_ledger s))\<rparr>)"
  obtain rep where "update_finding dt outcome policy ev now fid d before s =
      s\<lparr>ap_ledger := ?l\<lparr>l_findings := map_put fid (RecomputeSummary dt (l_limits (ap_ledger s)) f2)
          (l_findings (ap_ledger s))\<rparr>, ap_report := rep\<rparr>"
    by (simp add: update_finding_def a b Let_def frame_simps)
  moreover have "timeline_ok gapless (append_if e m)" if "timeline_ok gapless m" for e m
    using that by (simp add: append_if_def timeline_ok_append split: option.splits)
  moreover have "timeline_ok gapless (m\<lparr>l_resolution_streak := q\<rparr>) = timeline_ok gapless m" for m q
    by (simp add: timeline_ok_def)
  moreover have "same_store (ap_ledger s) (?l\<lparr>l_resolution_streak := l_resolution_streak (ap_ledger s)\<rparr>)"
    by (simp add: same_store_def frame_simps append_if_def split: option.splits)
  ultimately show thesis
    using advance_result [OF a] lapse_result [OF b]
    by (intro that [where l = ?l and f = "RecomputeSummary dt (l_limits (ap_ledger s)) f2" and rep = rep]) simp_all
qed

section \<open>The invariant without the finding bound\<close>

text \<open>Within the pass the number of findings is bounded by phase one, not step by step.\<close>

definition ledger_formed :: "bool \<Rightarrow> Ledger \<Rightarrow> bool" where
  "ledger_formed gapless l \<longleftrightarrow>
     baselines_ok l \<and> windows_ok l \<and> groups_ok l \<and> timeline_ok gapless l \<and>
     keys_ascending (l_findings l) \<and> list_all (\<lambda>(k, f). finding_ok k f) (l_findings l)"

lemma ledger_ok_formed: "ledger_ok gapless l \<longleftrightarrow> ledger_formed gapless l \<and> length (l_findings l) \<le> max_findings (l_limits l)"
  by (auto simp: ledger_ok_def ledger_formed_def findings_ok_def)

definition same_ground :: "Ledger \<Rightarrow> Ledger \<Rightarrow> bool" where
  "same_ground l l' \<longleftrightarrow> l_limits l' = l_limits l \<and> l_baselines l' = l_baselines l \<and> l_windows l' = l_windows l"

lemma same_ground_refl [simp]: "same_ground l l"
  by (simp add: same_ground_def)

lemma same_ground_trans: "same_ground a b \<Longrightarrow> same_ground b c \<Longrightarrow> same_ground a c"
  by (simp add: same_ground_def)

lemma formed_put:
  assumes "ledger_formed gapless l" and "finding_ok fid f" and "same_ground l l'" and "l_groups l' = l_groups l"
    and "timeline_ok gapless l'" and "l_findings l' = map_put fid f (l_findings l)"
  shows "ledger_formed gapless l'"
  using assms
  by (auto simp: ledger_formed_def same_ground_def baselines_ok_def windows_ok_def groups_ok_def keys_ascending_map_put
      list_all_map_put)

lemma formed_finding: "ledger_formed gapless l \<Longrightarrow> map_of (l_findings l) fid = Some f \<Longrightarrow> finding_ok fid f"
  by (auto simp: ledger_formed_def dest: list_all_map_of)

section \<open>Applying all drafts\<close>

definition drafted_from :: "NdoTime \<Rightarrow> FindingDraft \<Rightarrow> Finding option \<Rightarrow> Finding \<Rightarrow> bool" where
  "drafted_from now d before f \<longleftrightarrow>
     carries d f \<and> IsLiveState (f_state f) \<and>
     (case before of
        None \<Rightarrow> f_identity f = draft_identity d \<and> f_first_seen f = now
      | Some b \<Rightarrow> continues b f)"

lemma apply_draft_step:
  fixes s
  defines "l \<equiv> ap_ledger s"
  assumes "s' = apply_draft dt outcome policy ev now (fid, d) s"
  shows "same_ground l (ap_ledger s')" and "l_groups (ap_ledger s') = l_groups l" and "ap_drop s' = ap_drop s"
    and "\<exists>f. drafted_from now d (map_of (l_findings l) fid) f \<and> map_of (l_findings (ap_ledger s')) fid = Some f"
    and "x \<noteq> fid \<Longrightarrow> map_of (l_findings (ap_ledger s')) x = map_of (l_findings l) x"
    and "ledger_formed gapless l \<Longrightarrow> fid = ComputeId (draft_identity d) \<Longrightarrow> ledger_formed gapless (ap_ledger s')"
proof -
  have "same_ground l (ap_ledger s') \<and> l_groups (ap_ledger s') = l_groups l \<and> ap_drop s' = ap_drop s \<and>
    (\<exists>f. drafted_from now d (map_of (l_findings l) fid) f \<and> l_findings (ap_ledger s') = map_put fid f (l_findings l) \<and>
      (ledger_formed gapless l \<longrightarrow> fid = ComputeId (draft_identity d) \<longrightarrow> finding_ok fid f)) \<and>
    (timeline_ok gapless l \<longrightarrow> timeline_ok gapless (ap_ledger s'))"
  proof (cases "map_of (l_findings l) fid")
    case None
    then have s': "s' = create_finding dt outcome policy ev now fid d s" by (simp add: assms apply_draft_def)
    show ?thesis
      by (rule create_finding_result [of dt outcome policy ev now fid d s])
        (use None in \<open>auto simp: s' same_ground_def frame_simps map_emplace_def drafted_from_def l_def
           timeline_ok_append cong: timeline_ok_cong\<close>)
  next
    case (Some b)
    then have s': "s' = update_finding dt outcome policy ev now fid d b s" by (simp add: assms apply_draft_def)
    show ?thesis
      by (rule update_finding_result [of dt outcome policy ev now fid d b s])
        (use Some in \<open>auto simp: s' same_ground_def same_store_def drafted_from_def continues_def l_def formed_finding
           cong: timeline_ok_cong\<close>)
  qed
  then obtain f where *: "same_ground l (ap_ledger s')" "l_groups (ap_ledger s') = l_groups l" "ap_drop s' = ap_drop s"
    "drafted_from now d (map_of (l_findings l) fid) f" "l_findings (ap_ledger s') = map_put fid f (l_findings l)"
    "ledger_formed gapless l \<Longrightarrow> fid = ComputeId (draft_identity d) \<Longrightarrow> finding_ok fid f"
    "timeline_ok gapless l \<Longrightarrow> timeline_ok gapless (ap_ledger s')" by blast
  show "same_ground l (ap_ledger s')" "l_groups (ap_ledger s') = l_groups l" "ap_drop s' = ap_drop s"
    by (fact *)+
  show "\<exists>f. drafted_from now d (map_of (l_findings l) fid) f \<and> map_of (l_findings (ap_ledger s')) fid = Some f"
    using *(4,5) by (auto simp: store_simps)
  show "map_of (l_findings (ap_ledger s')) x = map_of (l_findings l) x" if "x \<noteq> fid"
    using that *(5) by (simp add: store_simps)
  show "ledger_formed gapless (ap_ledger s')" if "ledger_formed gapless l" "fid = ComputeId (draft_identity d)"
    using that * formed_put [of gapless l fid f "ap_ledger s'"] by (simp add: ledger_formed_def)
qed

lemma draft_map_step:
  "list_all (\<lambda>(k, d). k = ComputeId (draft_identity d)) m \<Longrightarrow>
     list_all (\<lambda>(k, d). k = ComputeId (draft_identity d)) (map_emplace (ComputeId (draft_identity d')) d' m)"
  by (simp add: map_emplace_def list_all_map_put)

lemma draft_map_ok:
  "keys_ascending (draft_map ds) \<and> list_all (\<lambda>(k, d). k = ComputeId (draft_identity d)) (draft_map ds)"
proof -
  have "keys_ascending (fold (\<lambda>d. map_emplace (ComputeId (draft_identity d)) d) ds m) \<and>
      list_all (\<lambda>(k, d). k = ComputeId (draft_identity d)) (fold (\<lambda>d. map_emplace (ComputeId (draft_identity d)) d) ds m)"
    if "keys_ascending m" and "list_all (\<lambda>(k, d). k = ComputeId (draft_identity d)) m" for m
    using that
    by (induction ds arbitrary: m) (simp_all add: keys_ascending_map_emplace draft_map_step)
  then show ?thesis by (simp add: draft_map_def)
qed

lemma draft_map_keys: "fst ` set (draft_map ds) = (\<lambda>d. ComputeId (draft_identity d)) ` set ds"
proof -
  have "fst ` set (fold (\<lambda>d. map_emplace (ComputeId (draft_identity d)) d) ds m) =
      fst ` set m \<union> (\<lambda>d. ComputeId (draft_identity d)) ` set ds" for m
  proof (induction ds arbitrary: m)
    case (Cons d ds)
    have "fst ` set (map_emplace (ComputeId (draft_identity d)) d m) = insert (ComputeId (draft_identity d)) (fst ` set m)"
      by (auto simp: map_emplace_def set_keys_map_put map_of_eq_None_iff)
    with Cons.IH show ?case by auto
  qed simp
  then show ?thesis by (simp add: draft_map_def)
qed

lemma apply_drafts:
  fixes s
  defines "l \<equiv> ap_ledger s"
  assumes "distinct (map fst ds)" and "s' = fold (apply_draft dt outcome policy ev now) ds s"
  shows "same_ground l (ap_ledger s') \<and> l_groups (ap_ledger s') = l_groups l \<and> ap_drop s' = ap_drop s \<and>
    (ledger_formed gapless l \<longrightarrow> list_all (\<lambda>(k, d). k = ComputeId (draft_identity d)) ds \<longrightarrow> ledger_formed gapless (ap_ledger s')) \<and>
    (\<forall>x. case map_of ds x of
           None \<Rightarrow> map_of (l_findings (ap_ledger s')) x = map_of (l_findings l) x
         | Some d \<Rightarrow> \<exists>f. drafted_from now d (map_of (l_findings l) x) f \<and> map_of (l_findings (ap_ledger s')) x = Some f)"
  using assms(2-) unfolding l_def
proof (induction ds arbitrary: s)
  case Nil
  then show ?case by simp
next
  case (Cons e ds)
  obtain fid d where e: "e = (fid, d)" by (cases e)
  let ?s = "apply_draft dt outcome policy ev now (fid, d) s"
  note here = apply_draft_step [of ?s dt outcome policy ev now fid d s, OF refl]
  have fresh: "map_of ds fid = None" using Cons.prems(1) by (simp add: e map_of_eq_None_iff)
  have rest: "same_ground (ap_ledger ?s) (ap_ledger s')" "l_groups (ap_ledger s') = l_groups (ap_ledger ?s)"
    "ap_drop s' = ap_drop ?s"
    "ledger_formed gapless (ap_ledger ?s) \<Longrightarrow> list_all (\<lambda>(k, d). k = ComputeId (draft_identity d)) ds \<Longrightarrow> ledger_formed gapless (ap_ledger s')"
    "\<And>x. case map_of ds x of
           None \<Rightarrow> map_of (l_findings (ap_ledger s')) x = map_of (l_findings (ap_ledger ?s)) x
         | Some d \<Rightarrow> \<exists>f. drafted_from now d (map_of (l_findings (ap_ledger ?s)) x) f \<and> map_of (l_findings (ap_ledger s')) x = Some f"
    using Cons.IH [of ?s] Cons.prems by (simp_all add: e)
  have "case map_of (e # ds) x of
      None \<Rightarrow> map_of (l_findings (ap_ledger s')) x = map_of (l_findings (ap_ledger s)) x
    | Some d \<Rightarrow> \<exists>f. drafted_from now d (map_of (l_findings (ap_ledger s)) x) f \<and> map_of (l_findings (ap_ledger s')) x = Some f" for x
    using rest(5) [of x] here(4) here(5) [of x] fresh by (auto simp: e split: option.splits)
  then show ?case
    using rest(1-4) here(1-3,6) by (auto simp: e intro: same_ground_trans)
qed

section \<open>Settling what was not drafted\<close>

definition settled :: "TargetEvaluation \<Rightarrow> Finding \<Rightarrow> Finding \<Rightarrow> bool" where
  "settled ev f f' \<longleftrightarrow>
     f_identity f' = f_identity f \<and> f_evidence f' = f_evidence f \<and> f_klass f' = f_klass f \<and>
     (f' = f \<or> tv_compliance_decidable ev) \<and>
     (f_state f' = f_state f \<or> f_state f' = FS_Superseded \<or> f_state f' = FS_Resolved)"

lemma settled_refl [simp]: "settled ev f f"
  by (simp add: settled_def)

lemma finding_ok_leave:
  assumes "finding_ok fid f" and "g = f\<lparr>f_state := st, f_reason := r, f_resolved_at := t, f_last_evaluated := now,
      f_resolution_confirmations := n\<rparr>" and "\<not> IsLiveState st"
  shows "finding_ok fid (leave_group g)"
  using assms by (auto simp: finding_ok_def leave_group_def)

text \<open>\<open>stores fid f l l'\<close>: apart from timelines and streaks, the one change is that \<open>f\<close> is stored under \<open>fid\<close>.\<close>

definition stores :: "FindingId \<Rightarrow> Finding \<Rightarrow> Ledger \<Rightarrow> Ledger \<Rightarrow> bool" where
  "stores fid f l l' \<longleftrightarrow>
     same_ground l l' \<and> l_groups l' = l_groups l \<and> l_findings l' = map_put fid f (l_findings l) \<and>
     (\<forall>gapless. timeline_ok gapless l \<longrightarrow> timeline_ok gapless l')"

lemma reclassify_step:
  assumes "tv_compliance_decidable ev"
  shows "\<exists>f'. settled ev f f' \<and> (finding_ok fid f \<longrightarrow> finding_ok fid f') \<and>
           stores fid f' (ap_ledger s) (ap_ledger (reclassify_finding now fid f s))"
proof -
  define g where "g = leave_group (f\<lparr>f_state := FS_Superseded, f_reason := RC_FindingReclassified, f_last_evaluated := now\<rparr>)"
  define e where "e = finding_event TK_Reclassified now RC_FindingReclassified
    ''the same location is now explained by a differently classified finding'' g"
  have "settled ev f (push_event e g)"
    using assms by (simp add: settled_def g_def push_event_def leave_group_def)
  moreover have "finding_ok fid f \<longrightarrow> finding_ok fid (push_event e g)"
    by (simp add: g_def finding_ok_close)
  moreover have "stores fid (push_event e g) (ap_ledger s) (ap_ledger (reclassify_finding now fid f s))"
    by (simp add: stores_def reclassify_finding_def Let_def same_ground_def frame_simps flip: g_def e_def)
      (simp add: timeline_ok_append cong: timeline_ok_cong)
  ultimately show ?thesis by blast
qed

lemma confirm_step:
  assumes "tv_compliance_decidable ev"
  shows "\<exists>f'. settled ev f f' \<and> (finding_ok fid f \<longrightarrow> finding_ok fid f') \<and>
           stores fid f' (ap_ledger s) (ap_ledger (confirm_agreement dt outcome now fid f s))"
proof -
  define streak where "streak = (case map_of (l_resolution_streak (ap_ledger s)) fid of None \<Rightarrow> 0 | Some n \<Rightarrow> n) + 1"
  define g where "g = RecomputeSummary dt (l_limits (ap_ledger s)) (leave_group (f\<lparr>f_resolution_confirmations := streak,
    f_state := FS_Resolved, f_reason := RC_FindingResolved, f_resolved_at := now, f_last_evaluated := now\<rparr>))"
  define e where "e = finding_event TK_Resolved now RC_FindingResolved
    (BoundedDetail (''fresh evidence agreed with intent for '' @ nat_text (unat streak) @ '' evaluation(s)'')) g"
  have closed: "settled ev f (push_event e g)" "finding_ok fid f \<longrightarrow> finding_ok fid (push_event e g)"
    using assms
    by (simp_all add: settled_def g_def push_event_def leave_group_def RecomputeSummary_def Let_def finding_ok_def)
  have kept: "settled ev f (f\<lparr>f_resolution_confirmations := streak\<rparr>)"
    "finding_ok fid (f\<lparr>f_resolution_confirmations := streak\<rparr>) = finding_ok fid f"
    using assms by (simp_all add: settled_def finding_ok_def)
  have streak_only: "timeline_ok gapless (AppendTimeline e (l\<lparr>l_resolution_streak := q\<rparr>))" if "timeline_ok gapless l" for e l q gapless
    using that by (intro timeline_ok_append) (simp add: timeline_ok_def)
  let ?required = "if eo_resolution_confirmations outcome = 0 then 1 else eo_resolution_confirmations outcome"
  show ?thesis
  proof (cases "streak \<ge> ?required")
    case True
    then have "stores fid (push_event e g) (ap_ledger s) (ap_ledger (confirm_agreement dt outcome now fid f s))"
      using streak_only
      by (simp add: stores_def confirm_agreement_def Let_def same_ground_def frame_simps flip: streak_def)
        (simp add: e_def g_def [symmetric] cong: timeline_ok_cong)
    with closed show ?thesis by blast
  next
    case False
    then have "stores fid (f\<lparr>f_resolution_confirmations := streak\<rparr>) (ap_ledger s)
        (ap_ledger (confirm_agreement dt outcome now fid f s))"
      by (simp add: stores_def confirm_agreement_def Let_def same_ground_def flip: streak_def)
        (simp cong: timeline_ok_cong)
    with kept show ?thesis by blast
  qed
qed

lemma settle_finding_step:
  assumes "map_of (l_findings (ap_ledger s)) fid = Some f"
  shows "ap_ledger (settle_finding dt outcome ev now drafts fid s) = ap_ledger s \<or>
    (\<exists>f'. settled ev f f' \<and> (finding_ok fid f \<longrightarrow> finding_ok fid f') \<and>
       stores fid f' (ap_ledger s) (ap_ledger (settle_finding dt outcome ev now drafts fid s)))"
  using assms reclassify_step [of ev f fid s now] confirm_step [of ev f fid s dt outcome now]
  by (cases "tv_compliance_decidable ev"; cases "reclassified_by drafts (ap_ledger s) f")
    (simp_all add: settle_finding_def)

lemma settle_all:
  assumes "distinct ids" and "s' = fold (settle_finding dt outcome ev now drafts) ids s"
  shows "same_ground (ap_ledger s) (ap_ledger s') \<and> l_groups (ap_ledger s') = l_groups (ap_ledger s) \<and>
    (ledger_formed gapless (ap_ledger s) \<longrightarrow> ledger_formed gapless (ap_ledger s')) \<and>
    (\<forall>x. (map_of (l_findings (ap_ledger s')) x = map_of (l_findings (ap_ledger s)) x) \<or>
         (x \<in> set ids \<and> (\<exists>f f'. map_of (l_findings (ap_ledger s)) x = Some f \<and>
            map_of (l_findings (ap_ledger s')) x = Some f' \<and> settled ev f f')))"
  using assms
proof (induction ids arbitrary: s)
  case Nil
  then show ?case by simp
next
  case (Cons fid ids)
  let ?s = "settle_finding dt outcome ev now drafts fid s"
  have here: "same_ground (ap_ledger s) (ap_ledger ?s) \<and> l_groups (ap_ledger ?s) = l_groups (ap_ledger s) \<and>
    (ledger_formed gapless (ap_ledger s) \<longrightarrow> ledger_formed gapless (ap_ledger ?s)) \<and>
    (\<forall>x. (map_of (l_findings (ap_ledger ?s)) x = map_of (l_findings (ap_ledger s)) x) \<or>
         (x = fid \<and> (\<exists>f f'. map_of (l_findings (ap_ledger s)) x = Some f \<and>
            map_of (l_findings (ap_ledger ?s)) x = Some f' \<and> settled ev f f')))"
  proof (cases "map_of (l_findings (ap_ledger s)) fid")
    case None
    then show ?thesis by (simp add: settle_finding_def)
  next
    case (Some f)
    from settle_finding_step [OF Some, of dt outcome ev now drafts] show ?thesis
    proof (elim disjE exE conjE)
      fix f'
      assume "settled ev f f'" and ok: "finding_ok fid f \<longrightarrow> finding_ok fid f'"
        and st: "stores fid f' (ap_ledger s) (ap_ledger ?s)"
      moreover have "ledger_formed gapless (ap_ledger ?s)" if formed: "ledger_formed gapless (ap_ledger s)"
        using formed_put [of gapless "ap_ledger s" fid f' "ap_ledger ?s"] st ok formed formed_finding [OF formed Some]
        by (simp add: stores_def ledger_formed_def)
      ultimately show ?thesis using Some by (auto simp: stores_def store_simps)
    qed auto
  qed
  have rest: "same_ground (ap_ledger ?s) (ap_ledger s') \<and> l_groups (ap_ledger s') = l_groups (ap_ledger ?s) \<and>
    (ledger_formed gapless (ap_ledger ?s) \<longrightarrow> ledger_formed gapless (ap_ledger s')) \<and>
    (\<forall>x. (map_of (l_findings (ap_ledger s')) x = map_of (l_findings (ap_ledger ?s)) x) \<or>
         (x \<in> set ids \<and> (\<exists>f f'. map_of (l_findings (ap_ledger ?s)) x = Some f \<and>
            map_of (l_findings (ap_ledger s')) x = Some f' \<and> settled ev f f')))"
    using Cons.IH [of ?s] Cons.prems by simp
  have "fid \<notin> set ids" using Cons.prems by simp
  then have "map_of (l_findings (ap_ledger s')) x = map_of (l_findings (ap_ledger s)) x \<or>
      (x \<in> set (fid # ids) \<and> (\<exists>f f'. map_of (l_findings (ap_ledger s)) x = Some f \<and>
         map_of (l_findings (ap_ledger s')) x = Some f' \<and> settled ev f f'))" for x
    using conjunct2 [OF conjunct2 [OF conjunct2 [OF here]], rule_format, of x]
      conjunct2 [OF conjunct2 [OF conjunct2 [OF rest]], rule_format, of x]
    by (cases "x = fid") auto
  with here rest show ?case by (auto intro: same_ground_trans)
qed

section \<open>Regrouping\<close>

definition regrouped :: "TargetId \<Rightarrow> Finding \<Rightarrow> Finding \<Rightarrow> bool" where
  "regrouped target f f' \<longleftrightarrow>
     f' = f \<or> (id_target (f_identity f) = target \<and>
       (\<exists>g c t. f' = f\<lparr>f_group := g, f_group_cause := c, f_timeline := t\<rparr>))"

lemma regrouped_refl [simp]: "regrouped target f f"
  by (simp add: regrouped_def)

lemma attribute_regroups: "regrouped target (snd e) (snd (snd (attribute_finding target now assignment l e)))"
proof -
  have "regrouped target f (push_event ev (f\<lparr>f_group := g, f_group_cause := c\<rparr>))" if "id_target (f_identity f) = target" for f ev g c
    using that unfolding regrouped_def push_event_def
    by (intro disjI2 conjI exI [of _ g] exI [of _ c] exI [of _ "f_timeline f @ [ev]"]) simp_all
  moreover have "regrouped target f (f\<lparr>f_group := g, f_group_cause := c\<rparr>)" if "id_target (f_identity f) = target" for f g c
    using that unfolding regrouped_def
    by (intro disjI2 conjI exI [of _ g] exI [of _ c] exI [of _ "f_timeline f"]) simp_all
  moreover have "regrouped target f (f\<lparr>f_group_cause := c\<rparr>)" if "id_target (f_identity f) = target" for f c
    using that unfolding regrouped_def
    by (intro disjI2 conjI exI [of _ "f_group f"] exI [of _ c] exI [of _ "f_timeline f"]) simp_all
  ultimately show ?thesis by (auto simp: attribute_finding_def Let_def split: option.splits)
qed

interpretation attribution: finding_pass "attribute_finding target now assignment" "\<lambda>l. l"
  for target now assignment
proof
  fix s e gapless
  show "fst (snd (attribute_finding target now assignment s e)) = fst e"
    by (simp add: attribute_finding_def Let_def split: option.splits)
  show "same_store s (fst (attribute_finding target now assignment s e))"
    by (simp add: attribute_finding_def Let_def split: option.splits)
  show "timeline_ok gapless (fst (attribute_finding target now assignment s e))" if "timeline_ok gapless s"
    using that by (simp add: attribute_finding_def Let_def timeline_ok_append split: option.splits)
  show "finding_ok (fst e) (snd (snd (attribute_finding target now assignment s e)))" if "finding_ok (fst e) (snd e)"
    using that by (auto simp: attribute_finding_def Let_def finding_ok_def push_event_def split: option.splits)
qed

definition pass_groups_ok :: "RuntimeLimits \<Rightarrow> GroupPass \<Rightarrow> bool" where
  "pass_groups_ok lim p \<longleftrightarrow>
     keys_ascending (gp_groups p) \<and> length (gp_groups p) \<le> max_groups lim \<and>
     list_all (\<lambda>(k, g). rg_id g = k) (gp_groups p)"

lemma group_bucket_ok:
  assumes "pass_groups_ok lim p"
  shows "pass_groups_ok lim (snd (group_bucket lim target now b p))"
proof -
  have fill: "rg_id (fill_group target members cause g) = rg_id g" for members cause g
    by (simp add: fill_group_def)
  have "rg_id g = gid" if "map_of (gp_groups p) gid = Some g" for g gid
    using assms that by (auto simp: pass_groups_ok_def dest: list_all_map_of)
  then show ?thesis using assms
    by (auto simp: group_bucket_def Let_def pass_groups_ok_def map_emplace_def keys_ascending_map_put length_map_put
        fill intro!: list_all_map_put split: option.splits)
qed

lemma group_buckets_ok: "pass_groups_ok lim p \<Longrightarrow> pass_groups_ok lim (snd (group_buckets lim target now bs p))"
proof (induction bs arbitrary: p)
  case (Cons b bs)
  have "pass_groups_ok lim (snd (group_bucket lim target now b p))" using Cons.prems by (rule group_bucket_ok)
  with Cons.IH show ?case by (simp add: case_prod_beta Let_def)
qed simp

lemma keys_ascending_filter: "keys_ascending m \<Longrightarrow> keys_ascending (filter P m)"
  by (induction m) (auto simp: keys_ascending_Cons)

lemma RefreshGroups_result:
  assumes "RefreshGroups target now rep l = (st, rep', l')"
  shows "same_ground l l' \<and> (ledger_formed gapless l \<longrightarrow> ledger_formed gapless l') \<and>
    (\<forall>x. case map_of (l_findings l) x of
           None \<Rightarrow> map_of (l_findings l') x = None
         | Some f \<Rightarrow> \<exists>f'. map_of (l_findings l') x = Some f' \<and> regrouped target f f')"
proof -
  let ?p0 = "\<lparr>gp_groups = l_groups l, gp_touched = 0, gp_produced = [], gp_assignment = []\<rparr>"
  obtain st1 p where p: "group_buckets (l_limits l) target now (buckets_for target l) ?p0 = (st1, p)"
    by (metis surj_pair)
  let ?l = "l\<lparr>l_groups := gp_groups p\<rparr>"
  obtain l2 m where m: "map_accum (attribute_finding target now (gp_assignment p)) ?l (l_findings l) = (l2, m)"
    by (metis surj_pair)
  have groups: "groups_ok ?l" if "groups_ok l"
    using that group_buckets_ok [of "l_limits l" ?p0 target now "buckets_for target l"] p
    by (simp add: groups_ok_def pass_groups_ok_def)
  then have formed1: "ledger_formed gapless ?l" if "ledger_formed gapless l"
    using that by (simp add: ledger_formed_def baselines_ok_def windows_ok_def timeline_ok_def)
  show ?thesis
  proof (cases "status_ok st1")
    case False
    with assms p have "l' = ?l" by (auto simp: RefreshGroups_def Let_def)
    with formed1 show ?thesis by (auto simp: same_ground_def split: option.splits)
  next
    case True
    let ?P = "\<lambda>g. \<not> (rg_target (snd g) = target \<and> fst g \<notin> set (gp_produced p))"
    from True assms p m have l': "l' = l2\<lparr>l_findings := m, l_groups := filter ?P (l_groups l2)\<rparr>"
      by (auto simp: RefreshGroups_def Let_def)
    have store: "same_store ?l l2"
      using attribution.pass_store [of ?l target now "gp_assignment p" "l_findings l"] m by simp
    have time: "timeline_ok gapless l2" if "timeline_ok gapless ?l"
      using attribution.pass_timeline [OF that, of target now "gp_assignment p" "l_findings l"] m by simp
    have keys: "map fst m = map fst (l_findings l)"
      using attribution.pass_keys [of target now "gp_assignment p" ?l "l_findings l"] m by simp
    have fok: "list_all (\<lambda>(k, f). finding_ok k f) m" if "list_all (\<lambda>(k, f). finding_ok k f) (l_findings l)"
      using attribution.pass_findings [OF that, of target now "gp_assignment p" ?l] m by simp
    have "list_all2 (\<lambda>x y. fst y = fst x \<and> regrouped target (snd x) (snd y)) (l_findings l) m"
      using map_accum_elements [of "l_findings l" "\<lambda>x y. fst y = fst x \<and> regrouped target (snd x) (snd y)"
          "attribute_finding target now (gp_assignment p)" ?l] attribution.step_key attribute_regroups m
      by simp
    from list_all2_map_of [OF this] have
      "case map_of (l_findings l) x of None \<Rightarrow> map_of m x = None
        | Some f \<Rightarrow> \<exists>f'. map_of m x = Some f' \<and> regrouped target f f'" for x
      by (auto split: option.splits) (metis option.distinct(1) option.inject)+
    moreover have "ledger_formed gapless l'" if f: "ledger_formed gapless l"
    proof -
      have "groups_ok l'"
        using groups f store by (auto simp: l' ledger_formed_def groups_ok_def same_store_def keys_ascending_filter
            list_all_iff intro: order_trans [OF length_filter_le])
      moreover have "keys_ascending m" using f keys by (simp add: ledger_formed_def keys_ascending_def)
      moreover have "timeline_ok gapless l2" using f by (intro time) (simp add: ledger_formed_def timeline_ok_def)
      ultimately show ?thesis using f store fok
        by (simp add: l' ledger_formed_def same_store_def baselines_ok_def windows_ok_def timeline_ok_def)
    qed
    moreover have "same_ground l l'" using store by (simp add: l' same_ground_def same_store_def)
    moreover have "l_findings l' = m" by (simp add: l')
    ultimately show ?thesis by blast
  qed
qed

section \<open>One target\<close>

text \<open>What a pass over one target does to a finding its drafts do not name.\<close>

definition undrafted :: "TargetEvaluation \<Rightarrow> Finding \<Rightarrow> Finding \<Rightarrow> bool" where
  "undrafted ev f g \<longleftrightarrow>
     f_identity g = f_identity f \<and> f_evidence g = f_evidence f \<and> f_klass g = f_klass f \<and>
     (id_target (f_identity f) \<noteq> tv_target ev \<longrightarrow> g = f) \<and>
     (f_state g = f_state f \<or>
      tv_compliance_decidable ev \<and> IsLiveState (f_state f) \<and> (f_state g = FS_Superseded \<or> f_state g = FS_Resolved))"

definition target_effect :: "NdoTime \<Rightarrow> TargetEvaluation \<Rightarrow> FindingDraft option \<Rightarrow> Finding option \<Rightarrow> Finding option \<Rightarrow> bool" where
  "target_effect now ev d before after \<longleftrightarrow>
     (case d of
        Some d \<Rightarrow> \<exists>f g. after = Some g \<and> drafted_from now d before f \<and> regrouped (tv_target ev) f g
      | None \<Rightarrow> (case before of None \<Rightarrow> after = None | Some f \<Rightarrow> \<exists>g. after = Some g \<and> undrafted ev f g))"

lemma undrafted_live_ids:
  assumes "keys_ascending (l_findings l)" and "x \<in> set (undrafted_live target drafts l)"
  shows "map_of drafts x = None \<and> (\<exists>f. map_of (l_findings l) x = Some f \<and>
           id_target (f_identity f) = target \<and> IsLiveState (f_state f))"
  using assms by (auto simp: undrafted_live_def map_of_eq_Some_iff_set)

lemma distinct_undrafted_live: "keys_ascending (l_findings l) \<Longrightarrow> distinct (undrafted_live target drafts l)"
  unfolding undrafted_live_def by (intro distinct_map_filter keys_ascending_distinct)

lemma formed_drop_groups:
  "ledger_formed gapless l \<Longrightarrow> ledger_formed gapless (l\<lparr>l_groups := fold map_erase ks (l_groups l)\<rparr>)"
  using groups_ok_drop [of l ks]
  by (simp add: ledger_formed_def baselines_ok_def windows_ok_def timeline_ok_def)

lemma undrafted_settled:
  assumes "settled ev f g" and "regrouped (tv_target ev) g h"
    and "id_target (f_identity f) = tv_target ev" and "IsLiveState (f_state f)"
  shows "undrafted ev f h"
  using assms by (auto simp: settled_def regrouped_def undrafted_def)

lemma undrafted_regrouped: "regrouped (tv_target ev) f g \<Longrightarrow> undrafted ev f g"
  by (auto simp: regrouped_def undrafted_def)

lemma apply_target_result:
  assumes "apply_target dt outcome policy now ev (rep, l) = (st, rep', l')" and formed: "ledger_formed gapless l"
  shows "same_ground l l'" and "ledger_formed gapless l'"
    and "target_effect now ev (map_of (draft_map (tv_drafts ev)) x) (map_of (l_findings l) x) (map_of (l_findings l') x)"
proof -
  let ?ds = "draft_map (tv_drafts ev)"
  define s1 where "s1 = fold (apply_draft dt outcome policy ev now) ?ds \<lparr>ap_ledger = l, ap_report = rep, ap_drop = []\<rparr>"
  define ids where "ids = undrafted_live (tv_target ev) ?ds (ap_ledger s1)"
  define s2 where "s2 = fold (settle_finding dt outcome ev now ?ds) ids s1"
  obtain st3 rep3 l3 where r: "RefreshGroups (tv_target ev) now (ap_report s2) (ap_ledger s2) = (st3, rep3, l3)"
    by (metis prod_cases3)
  have l': "l' = (if status_ok st3 then l3\<lparr>l_groups := fold map_erase (ap_drop s2) (l_groups l3)\<rparr> else l3)"
    using assms(1) r by (auto simp: apply_target_def Let_def s1_def [symmetric] ids_def [symmetric] s2_def [symmetric])
  have ds: "distinct (map fst ?ds)" "list_all (\<lambda>(k, d). k = ComputeId (draft_identity d)) ?ds"
    using draft_map_ok [of "tv_drafts ev"] by (auto intro: keys_ascending_distinct)
  have one: "same_ground l (ap_ledger s1)" "ledger_formed gapless (ap_ledger s1)"
    "case map_of ?ds x of
       None \<Rightarrow> map_of (l_findings (ap_ledger s1)) x = map_of (l_findings l) x
     | Some d \<Rightarrow> \<exists>f. drafted_from now d (map_of (l_findings l) x) f \<and> map_of (l_findings (ap_ledger s1)) x = Some f"
    using apply_drafts [OF ds(1) s1_def, unfolded ApplyPass.simps] ds(2) formed by blast+
  then have keys: "keys_ascending (l_findings (ap_ledger s1))" by (simp add: ledger_formed_def)
  have two: "same_ground (ap_ledger s1) (ap_ledger s2)" "ledger_formed gapless (ap_ledger s2)"
    "map_of (l_findings (ap_ledger s2)) x = map_of (l_findings (ap_ledger s1)) x \<or>
     (x \<in> set ids \<and> (\<exists>f f'. map_of (l_findings (ap_ledger s1)) x = Some f \<and>
        map_of (l_findings (ap_ledger s2)) x = Some f' \<and> settled ev f f'))"
    using settle_all [OF distinct_undrafted_live [OF keys] s2_def [unfolded ids_def]] one(2) by (auto simp: ids_def)
  have three: "same_ground (ap_ledger s2) l3" "ledger_formed gapless l3"
    "case map_of (l_findings (ap_ledger s2)) x of
       None \<Rightarrow> map_of (l_findings l3) x = None
     | Some f \<Rightarrow> \<exists>f'. map_of (l_findings l3) x = Some f' \<and> regrouped (tv_target ev) f f'"
    using RefreshGroups_result [OF r] two(2) by blast+
  have same: "l_findings l' = l_findings l3" by (simp add: l')
  show "same_ground l l'"
    using one(1) two(1) three(1) by (auto simp: l' same_ground_def)
  show "ledger_formed gapless l'" using three(2) by (simp add: l' formed_drop_groups)
  have drop: "map_of ?ds x = None \<and> (\<exists>f. map_of (l_findings (ap_ledger s1)) x = Some f \<and>
      id_target (f_identity f) = tv_target ev \<and> IsLiveState (f_state f))" if "x \<in> set ids"
    using undrafted_live_ids [OF keys] that by (simp add: ids_def)
  show "target_effect now ev (map_of ?ds x) (map_of (l_findings l) x) (map_of (l_findings l') x)"
  proof (cases "x \<in> set ids \<and> map_of (l_findings (ap_ledger s2)) x \<noteq> map_of (l_findings (ap_ledger s1)) x")
    case True
    with drop two(3) obtain f g where none: "map_of ?ds x = None" and f: "map_of (l_findings (ap_ledger s1)) x = Some f"
      and live: "id_target (f_identity f) = tv_target ev" "IsLiveState (f_state f)"
      and g: "map_of (l_findings (ap_ledger s2)) x = Some g" "settled ev f g" by auto
    from one(3) none f have "map_of (l_findings l) x = Some f" by simp
    moreover from three(3) g obtain h where "map_of (l_findings l3) x = Some h" "regrouped (tv_target ev) g h" by auto
    ultimately show ?thesis using undrafted_settled [OF g(2) _ live] none by (simp add: target_effect_def same)
  next
    case False
    with two(3) have "map_of (l_findings (ap_ledger s2)) x = map_of (l_findings (ap_ledger s1)) x" by auto
    with one(3) three(3) show ?thesis
      by (auto simp: target_effect_def same split: option.splits intro: undrafted_regrouped)
  qed
qed

section \<open>All targets\<close>

text \<open>
  The effect of a sequence of target passes on one finding, as seen between the ledgers before and
  after.  The finding survives with its identity; when none of the passes drafts it, it keeps its
  evidence and its class, it is untouched by the passes over other targets, and a change of its state
  is the work of a decidable evaluation of its own target.
\<close>

definition draft_ids :: "TargetEvaluation \<Rightarrow> FindingId set" where
  "draft_ids ev = (\<lambda>d. ComputeId (draft_identity d)) ` set (tv_drafts ev)"

lemma draft_map_None: "map_of (draft_map (tv_drafts ev)) x = None \<longleftrightarrow> x \<notin> draft_ids ev"
  by (simp add: map_of_eq_None_iff draft_map_keys draft_ids_def)

lemma target_effect_keys:
  assumes "target_effect now ev d before after"
  shows "(after \<noteq> None) = (before \<noteq> None \<or> d \<noteq> None)"
  using assms by (auto simp: target_effect_def split: option.splits)

lemma target_effect_Some:
  assumes "target_effect now ev d (Some f) after"
  obtains g where "after = Some g" and "f_identity g = f_identity f"
    and "d = None \<Longrightarrow> undrafted ev f g"
    and "d \<noteq> None \<Longrightarrow> IsLiveState (f_state g)"
  using assms
  by (auto simp: target_effect_def undrafted_def drafted_from_def continues_def regrouped_def split: option.splits)

lemma apply_targets_formed:
  assumes "apply_targets dt outcome policy now evs (rep, l) = (st, rep', l')" and "ledger_formed gapless l"
  shows "ledger_formed gapless l' \<and> same_ground l l'"
  using assms
proof (induction evs arbitrary: rep l)
  case (Cons ev evs)
  obtain st1 rep1 l1 where a: "apply_target dt outcome policy now ev (rep, l) = (st1, rep1, l1)" by (metis prod_cases3)
  note one = apply_target_result [OF a Cons.prems(2)]
  show ?case
    using Cons.IH [of rep1 l1] Cons.prems(1) a one(1,2) by (auto intro: same_ground_trans split: if_splits)
qed simp

lemma apply_targets_keys:
  assumes "apply_targets dt outcome policy now evs (rep, l) = (st, rep', l')" and "ledger_formed gapless l"
  shows "fst ` set (l_findings l) \<subseteq> fst ` set (l_findings l')"
    and "fst ` set (l_findings l') \<subseteq> fst ` set (l_findings l) \<union> (\<Union>ev \<in> set evs. draft_ids ev)"
    and "status_ok st \<Longrightarrow> (\<Union>ev \<in> set evs. draft_ids ev) \<subseteq> fst ` set (l_findings l')"
proof -
  have "fst ` set (l_findings l) \<subseteq> fst ` set (l_findings l') \<and>
    fst ` set (l_findings l') \<subseteq> fst ` set (l_findings l) \<union> (\<Union>ev \<in> set evs. draft_ids ev) \<and>
    (status_ok st \<longrightarrow> (\<Union>ev \<in> set evs. draft_ids ev) \<subseteq> fst ` set (l_findings l'))"
    using assms
  proof (induction evs arbitrary: rep l)
    case (Cons ev evs)
    obtain st1 rep1 l1 where a: "apply_target dt outcome policy now ev (rep, l) = (st1, rep1, l1)" by (metis prod_cases3)
    note one = apply_target_result [OF a Cons.prems(2)]
    have "x \<in> fst ` set (l_findings l1) \<longleftrightarrow> x \<in> fst ` set (l_findings l) \<or> x \<in> draft_ids ev" for x
      using target_effect_keys [OF one(3) [of x]] draft_map_None [of ev x] by (simp add: map_of_eq_None_iff)
    then have keys: "fst ` set (l_findings l1) = fst ` set (l_findings l) \<union> draft_ids ev" by blast
    show ?case
    proof (cases "status_ok st1")
      case True
      with Cons.prems(1) a have "apply_targets dt outcome policy now evs (rep1, l1) = (st, rep', l')" by simp
      from Cons.IH [OF this one(2)] keys show ?thesis by auto
    next
      case False
      with Cons.prems(1) a keys show ?thesis by auto
    qed
  qed simp
  then show "fst ` set (l_findings l) \<subseteq> fst ` set (l_findings l')"
    and "fst ` set (l_findings l') \<subseteq> fst ` set (l_findings l) \<union> (\<Union>ev \<in> set evs. draft_ids ev)"
    and "status_ok st \<Longrightarrow> (\<Union>ev \<in> set evs. draft_ids ev) \<subseteq> fst ` set (l_findings l')" by blast+
qed

text \<open>A finding that is live before and not after was settled by a decidable pass over its target.\<close>

lemma apply_targets_closed:
  assumes "apply_targets dt outcome policy now evs (rep, l) = (st, rep', l')" and "ledger_formed gapless l"
    and "map_of (l_findings l) x = Some f"
  shows "\<exists>g. map_of (l_findings l') x = Some g \<and> f_identity g = f_identity f \<and>
           (IsLiveState (f_state f) \<longrightarrow> \<not> IsLiveState (f_state g) \<longrightarrow>
             (\<exists>ev \<in> set evs. tv_target ev = id_target (f_identity f) \<and> tv_compliance_decidable ev \<and> x \<notin> draft_ids ev))"
  using assms
proof (induction evs arbitrary: rep l f)
  case (Cons ev evs)
  obtain st1 rep1 l1 where a: "apply_target dt outcome policy now ev (rep, l) = (st1, rep1, l1)" by (metis prod_cases3)
  note one = apply_target_result [OF a Cons.prems(2)]
  obtain g where g: "map_of (l_findings l1) x = Some g" "f_identity g = f_identity f"
    and u: "x \<notin> draft_ids ev \<Longrightarrow> undrafted ev f g" and d: "x \<in> draft_ids ev \<Longrightarrow> IsLiveState (f_state g)"
    using one(3) [of x] Cons.prems(3) draft_map_None [of ev x] by (auto elim: target_effect_Some)
  have here: "tv_target ev = id_target (f_identity f) \<and> tv_compliance_decidable ev \<and> x \<notin> draft_ids ev"
    if "IsLiveState (f_state f)" "\<not> IsLiveState (f_state g)"
    using that u d by (cases "x \<in> draft_ids ev") (auto simp: undrafted_def)
  show ?case
  proof (cases "status_ok st1")
    case True
    with Cons.prems(1) a have "apply_targets dt outcome policy now evs (rep1, l1) = (st, rep', l')" by simp
    from Cons.IH [OF this one(2) g(1)] g(2) here show ?thesis by auto
  next
    case False
    with Cons.prems(1) a g here show ?thesis by auto
  qed
qed simp

section \<open>The whole evaluation\<close>

lemma expire_element:
  "fst (snd (expire_finding dt now s e)) = fst e \<and>
   assessment (snd (snd (expire_finding dt now s e))) = assessment (snd e) \<and>
   IsLiveState (f_state (snd (snd (expire_finding dt now s e)))) = IsLiveState (f_state (snd e))"
  by (auto simp: expire_finding_def Let_def split: option.splits prod.splits)

lemma ExpireSuppressions_findings:
  "(map_of (l_findings l) x = None \<and> map_of (l_findings (snd (ExpireSuppressions dt now l))) x = None) \<or>
   (\<exists>f g. map_of (l_findings l) x = Some f \<and> map_of (l_findings (snd (ExpireSuppressions dt now l))) x = Some g \<and>
      assessment g = assessment f \<and> IsLiveState (f_state g) = IsLiveState (f_state f))"
proof -
  let ?R = "\<lambda>k f g. assessment g = assessment f \<and> IsLiveState (f_state g) = IsLiveState (f_state f)"
  have "list_all2 (\<lambda>x y. fst y = fst x \<and> ?R (fst x) (snd x) (snd y)) (l_findings l)
      (snd (map_accum (expire_finding dt now) (0, l) (l_findings l)))"
    using map_accum_elements [of "l_findings l" "\<lambda>x y. fst y = fst x \<and> ?R (fst x) (snd x) (snd y)" "expire_finding dt now"]
      expire_element by simp
  moreover have "l_findings (snd (ExpireSuppressions dt now l)) = snd (map_accum (expire_finding dt now) (0, l) (l_findings l))"
    by (auto simp: ExpireSuppressions_def Let_def frame_simps split: prod.splits)
  ultimately show ?thesis using list_all2_map_of [of ?R "l_findings l" _ x] by simp
qed

lemma assessment_frame [frame_simps]:
  "f_identity (assessment f) = f_identity f"
  "f_evidence (assessment f) = f_evidence f"
  "f_reopen_count (assessment f) = f_reopen_count f"
  "f_first_seen (assessment f) = f_first_seen f"
  "f_observation_count (assessment f) = f_observation_count f"
  by (simp_all add: assessment_def)

lemma assessment_identity: "assessment g = assessment f \<Longrightarrow> f_identity g = f_identity f"
  by (metis assessment_frame(1))

lemma ApplyEvaluation_cases:
  assumes "ApplyEvaluation dt outcome policy now l = (st, rep, l')"
  obtains (bounded) "\<not> status_ok st" and "l' = l"
      and "max_findings (l_limits l) < length (l_findings l) + new_findings l (filter (accepted l) (eo_targets outcome))"
  | (failed) rep0 where "\<not> status_ok st"
      and "apply_targets dt outcome policy now (filter (accepted l) (eo_targets outcome)) (rep0, l) = (st, rep, l')"
      and "length (l_findings l) + new_findings l (filter (accepted l) (eo_targets outcome)) \<le> max_findings (l_limits l)"
  | (applied) rep0 st1 l1 where "status_ok st" and "status_ok st1"
      and "apply_targets dt outcome policy now (filter (accepted l) (eo_targets outcome)) (rep0, l) = (st1, rep, l1)"
      and "l' = TrimTimelineIfNeeded (bump_revision (snd (ExpireSuppressions dt now l1)))"
      and "length (l_findings l) + new_findings l (filter (accepted l) (eo_targets outcome)) \<le> max_findings (l_limits l)"
proof -
  let ?evs = "filter (accepted l) (eo_targets outcome)"
  let ?rep = "blank_apply_report\<lparr>la_fenced_targets := length (eo_targets outcome) - length ?evs\<rparr>"
  obtain st1 rep1 l1 where a: "apply_targets dt outcome policy now ?evs (?rep, l) = (st1, rep1, l1)" by (metis prod_cases3)
  show thesis
  proof (cases "max_findings (l_limits l) < length (l_findings l) + new_findings l ?evs")
    case True
    with assms have "\<not> status_ok st" and "l' = l"
      by (auto simp: ApplyEvaluation_def Let_def status_ok_def mk_status_def)
    with True show thesis by (intro bounded)
  next
    case False
    with assms a have r: "(st, rep, l') = (if \<not> status_ok st1 then (st1, rep1, l1)
        else (Status_Ok, rep1, TrimTimelineIfNeeded (bump_revision (snd (ExpireSuppressions dt now l1)))))"
      by (simp add: ApplyEvaluation_def Let_def)
    show thesis
    proof (cases "status_ok st1")
      case True
      with r False a show thesis by (intro applied [of st1 ?rep l1]) (auto simp: status_ok_def mk_status_def)
    next
      case not_ok: False
      with r False a show thesis by (intro failed [of ?rep]) auto
    qed
  qed
qed

lemma in_keys_iff: "x \<in> fst ` set m \<longleftrightarrow> map_of m x \<noteq> None"
  by (simp add: map_of_eq_None_iff)

lemma ApplyEvaluation_keys:
  assumes "ApplyEvaluation dt outcome policy now l = (st, rep, l')" and "ledger_ok gapless l"
  shows "fst ` set (l_findings l) \<subseteq> fst ` set (l_findings l') \<and>
    fst ` set (l_findings l') \<subseteq> fst ` set (l_findings l) \<union> \<Union> (draft_ids ` set (filter (accepted l) (eo_targets outcome))) \<and>
    (status_ok st \<longrightarrow> \<Union> (draft_ids ` set (filter (accepted l) (eo_targets outcome))) \<subseteq> fst ` set (l_findings l'))"
  using assms(1)
proof (cases rule: ApplyEvaluation_cases)
  case bounded
  then show ?thesis by auto
next
  case (failed rep0)
  with assms(2) show ?thesis using apply_targets_keys [OF failed(2)] by (simp add: ledger_ok_formed)
next
  case (applied rep0 st1 l1)
  have "x \<in> fst ` set (l_findings (snd (ExpireSuppressions dt now l1))) \<longleftrightarrow> x \<in> fst ` set (l_findings l1)" for x
    using ExpireSuppressions_findings [of l1 x dt now] unfolding in_keys_iff by force
  then have "fst ` set (l_findings l') = fst ` set (l_findings l1)" by (auto simp: applied(4) frame_simps)
  with assms(2) applied show ?thesis
    using apply_targets_keys [OF applied(3)] by (simp add: ledger_ok_formed)
qed

text \<open>Phase one's count bounds the identities phase two can add.\<close>

lemma card_new_ids:
  "card (\<Union> (draft_ids ` set evs) - fst ` set (l_findings l)) \<le> new_findings l evs"
proof (induction evs)
  case (Cons ev evs)
  let ?new = "filter (\<lambda>d. map_of (l_findings l) (ComputeId (draft_identity d)) = None) (tv_drafts ev)"
  have "\<Union> (draft_ids ` set (ev # evs)) - fst ` set (l_findings l) =
      (\<lambda>d. ComputeId (draft_identity d)) ` set ?new \<union> (\<Union> (draft_ids ` set evs) - fst ` set (l_findings l))"
    by (auto simp: draft_ids_def map_of_eq_None_iff) force+
  also have "card \<dots> \<le> card ((\<lambda>d. ComputeId (draft_identity d)) ` set ?new) + card (\<Union> (draft_ids ` set evs) - fst ` set (l_findings l))"
    by (rule card_Un_le)
  also have "card ((\<lambda>d. ComputeId (draft_identity d)) ` set ?new) \<le> length ?new"
    by (meson card_image_le card_length finite_set le_trans)
  finally show ?case using Cons.IH by (simp add: new_findings_def count_if_def)
qed (simp add: new_findings_def)

lemma length_keys: "keys_ascending m \<Longrightarrow> length m = card (fst ` set m)"
  by (metis distinct_card keys_ascending_distinct length_map set_map)

lemma apply_targets_ok:
  assumes "apply_targets dt outcome policy now evs (rep0, l) = (st, rep, l')" and "ledger_ok gapless l"
    and "length (l_findings l) + new_findings l evs \<le> max_findings (l_limits l)"
  shows "ledger_ok gapless l'"
proof -
  have formed: "ledger_formed gapless l" using assms(2) by (simp add: ledger_ok_formed)
  have f': "ledger_formed gapless l'" and ground: "same_ground l l'" using apply_targets_formed [OF assms(1) formed] by simp_all
  let ?K = "fst ` set (l_findings l)" and ?D = "\<Union> (draft_ids ` set evs)"
  have "length (l_findings l') = card (fst ` set (l_findings l'))"
    using f' by (intro length_keys) (simp add: ledger_formed_def)
  also have "\<dots> \<le> card (?K \<union> (?D - ?K))"
    using apply_targets_keys(2) [OF assms(1) formed]
    by (intro card_mono) (auto simp: draft_ids_def)
  also have "\<dots> \<le> card ?K + card (?D - ?K)" by (rule card_Un_le)
  also have "\<dots> \<le> length (l_findings l) + new_findings l evs"
    using formed card_new_ids [of evs l] by (simp add: length_keys ledger_formed_def)
  finally show ?thesis using f' assms(3) ground by (simp add: ledger_ok_formed same_ground_def)
qed

lemma ApplyEvaluation_ok:
  assumes "ApplyEvaluation dt outcome policy now l = (st, rep, l')" and "ledger_ok gapless l"
  shows "ledger_ok gapless l'"
  using assms(1)
proof (cases rule: ApplyEvaluation_cases)
  case bounded
  with assms(2) show ?thesis by simp
next
  case (failed rep0)
  with assms(2) show ?thesis by (intro apply_targets_ok [OF failed(2)])
next
  case (applied rep0 st1 l1)
  have "ledger_ok gapless l1" using apply_targets_ok [OF applied(3) assms(2) applied(5)] .
  then show ?thesis by (simp add: applied(4) ledger_ok_trim ledger_ok_bump ExpireSuppressions_ok)
qed

lemma ApplyEvaluation_findings:
  assumes "ApplyEvaluation dt outcome policy now l = (st, rep, l')" and "ledger_ok gapless l" and "FindFinding fid l = Some f"
  shows "\<exists>g. FindFinding fid l' = Some g \<and> f_identity g = f_identity f \<and>
           (IsLiveState (f_state f) \<longrightarrow> \<not> IsLiveState (f_state g) \<longrightarrow>
             (\<exists>ev. ev \<in> set (eo_targets outcome) \<and> accepted l ev \<and> tv_target ev = id_target (f_identity f) \<and>
                   tv_compliance_decidable ev \<and> fid \<notin> draft_ids ev))"
  using assms(1)
proof (cases rule: ApplyEvaluation_cases)
  case bounded
  with assms(3) show ?thesis by auto
next
  case (failed rep0)
  have "ledger_formed gapless l" using assms(2) by (simp add: ledger_ok_formed)
  from apply_targets_closed [OF failed(2) this assms(3) [unfolded FindFinding_def]] show ?thesis
    by (auto simp: FindFinding_def)
next
  case (applied rep0 st1 l1)
  have "ledger_formed gapless l" using assms(2) by (simp add: ledger_ok_formed)
  from apply_targets_closed [OF applied(3) this assms(3) [unfolded FindFinding_def]] obtain h where
    h: "map_of (l_findings l1) fid = Some h" "f_identity h = f_identity f"
    "IsLiveState (f_state f) \<Longrightarrow> \<not> IsLiveState (f_state h) \<Longrightarrow> \<exists>ev \<in> set (filter (accepted l) (eo_targets outcome)).
       tv_target ev = id_target (f_identity f) \<and> tv_compliance_decidable ev \<and> fid \<notin> draft_ids ev"
    by auto
  moreover from ExpireSuppressions_findings [of l1 fid dt now] h(1) obtain g where
    "map_of (l_findings l') fid = Some g" "assessment g = assessment h" "IsLiveState (f_state g) = IsLiveState (f_state h)"
    by (auto simp: applied(4) frame_simps)
  ultimately show ?thesis by (auto simp: FindFinding_def dest: assessment_identity)
qed

text \<open>
  C2. A live finding is closed only by evidence.  When applying an evaluation, whatever its status,
  leaves a finding that was live no longer live, then the evaluation holds, for the finding's own
  target and against the baseline that is still committed, a pass that could decide compliance and
  did not report the divergence any more.  Missing, stale or conflicting evidence, fenced targets and
  passes over other targets never close a finding, and no finding ever disappears.
\<close>

theorem closing_requires_decision:
  assumes "ledger_ok gapless l" and "ApplyEvaluation dt outcome policy now l = (st, rep, l')"
    and "FindFinding fid l = Some f" and "IsLiveState (f_state f)"
  shows "\<exists>g. FindFinding fid l' = Some g \<and> f_identity g = f_identity f \<and>
           (if IsLiveState (f_state g) then True
            else \<exists>ev. ev \<in> set (eo_targets outcome) \<and> accepted l ev \<and> tv_target ev = id_target (f_identity f) \<and>
                   tv_compliance_decidable ev \<and> fid \<notin> draft_ids ev)"
  using ApplyEvaluation_findings [OF assms(2,1,3)] assms(4) by auto

end
