(* ===== verification/NDO_Ledger_Safety.thy ===== *)
theory NDO_Ledger_Safety
  imports NDO_Apply
begin

text \<open>
  What the ledger promises across operations: the effect of an evaluation on drafted, undrafted and
  fenced findings, and the invariant of every ledger that a sequence of operations can reach.
\<close>

section \<open>Room for groups is enough\<close>

lemma group_buckets_succeed:
  "length (gp_groups p) + length bs \<le> max_groups lim \<Longrightarrow> keys_ascending (gp_groups p) \<Longrightarrow>
     status_ok (fst (group_buckets lim target now bs p))"
proof (induction bs arbitrary: p)
  case (Cons b bs)
  have "status_ok (fst (group_bucket lim target now b p)) \<and>
      length (gp_groups (snd (group_bucket lim target now b p))) \<le> Suc (length (gp_groups p)) \<and>
      keys_ascending (gp_groups (snd (group_bucket lim target now b p)))"
    using Cons.prems
    by (auto simp: group_bucket_def Let_def status_ok_def mk_status_def map_emplace_def length_map_put
        keys_ascending_map_put split: option.splits)
  with Cons show ?case by (simp add: case_prod_beta Let_def)
qed (simp add: status_ok_def mk_status_def)

lemma length_buckets: "length (buckets_for target l) \<le> length (l_findings l)"
proof -
  have "length (fold add_to_bucket fs m) \<le> length m + length fs \<and> keys_ascending (fold add_to_bucket fs m)"
    if "keys_ascending m" for fs m
    using that
  proof (induction fs arbitrary: m)
    case (Cons f fs)
    have "keys_ascending (add_to_bucket f m)" "length (add_to_bucket f m) \<le> Suc (length m)"
      using Cons.prems by (simp_all add: add_to_bucket_def Let_def keys_ascending_map_put length_map_put)
    with Cons.IH [of "add_to_bucket f m"] show ?case by simp
  qed simp
  from this [of "[]" "filter (\<lambda>f. id_target (f_identity f) = target \<and> IsLiveState (f_state f)) (Findings l)"]
  show ?thesis
    by (auto simp: buckets_for_def Findings_def intro: order_trans [OF _ length_filter_le [THEN order_trans]])
qed

lemma RefreshGroups_succeeds:
  assumes "length (l_groups l) + length (l_findings l) \<le> max_groups (l_limits l)" and "keys_ascending (l_groups l)"
  shows "status_ok (fst (RefreshGroups target now rep l))"
proof -
  have "status_ok (fst (group_buckets (l_limits l) target now (buckets_for target l)
      \<lparr>gp_groups = l_groups l, gp_touched = 0, gp_produced = [], gp_assignment = []\<rparr>))"
    using assms length_buckets [of target l] by (intro group_buckets_succeed) simp_all
  then show ?thesis
    by (simp add: RefreshGroups_def Let_def case_prod_beta) 
qed

lemma apply_target_succeeds:
  assumes formed: "ledger_formed gapless l"
    and room: "length (l_groups l) + card (fst ` set (l_findings l) \<union> draft_ids ev) \<le> max_groups (l_limits l)"
  shows "status_ok (fst (apply_target dt outcome policy now ev (rep, l)))"
proof -
  let ?ds = "draft_map (tv_drafts ev)"
  define s1 where "s1 = fold (apply_draft dt outcome policy ev now) ?ds \<lparr>ap_ledger = l, ap_report = rep, ap_drop = []\<rparr>"
  define s2 where "s2 = fold (settle_finding dt outcome ev now ?ds) (undrafted_live (tv_target ev) ?ds (ap_ledger s1)) s1"
  have ds: "distinct (map fst ?ds)" "list_all (\<lambda>(k, d). k = ComputeId (draft_identity d)) ?ds"
    using draft_map_ok [of "tv_drafts ev"] by (auto intro: keys_ascending_distinct)
  note one = apply_drafts [OF ds(1) s1_def, unfolded ApplyPass.simps]
  have formed1: "ledger_formed gapless (ap_ledger s1)" using one ds(2) formed by blast
  then have "keys_ascending (l_findings (ap_ledger s1))" by (simp add: ledger_formed_def)
  note two = settle_all [OF distinct_undrafted_live [OF this] s2_def]
  have formed2: "ledger_formed gapless (ap_ledger s2)" using two formed1 by blast
  have "map_of (l_findings (ap_ledger s2)) x \<noteq> None \<longleftrightarrow> map_of (l_findings l) x \<noteq> None \<or> x \<in> draft_ids ev" for x
  proof -
    have "map_of (l_findings (ap_ledger s2)) x \<noteq> None \<longleftrightarrow> map_of (l_findings (ap_ledger s1)) x \<noteq> None"
      using conjunct2 [OF conjunct2 [OF conjunct2 [OF two]], rule_format, of x]
      by (elim disjE conjE exE) simp_all
    moreover have "map_of (l_findings (ap_ledger s1)) x \<noteq> None \<longleftrightarrow> map_of (l_findings l) x \<noteq> None \<or> x \<in> draft_ids ev"
      using conjunct2 [OF conjunct2 [OF conjunct2 [OF conjunct2 [OF one]]], rule_format, of x] draft_map_None [of ev x]
      by (auto split: option.splits)
    ultimately show ?thesis by simp
  qed
  then have "fst ` set (l_findings (ap_ledger s2)) = fst ` set (l_findings l) \<union> draft_ids ev"
    by (intro set_eqI) (simp only: in_keys_iff Un_iff)
  then have "length (l_findings (ap_ledger s2)) = card (fst ` set (l_findings l) \<union> draft_ids ev)"
    using formed2 by (simp add: length_keys ledger_formed_def)
  moreover have "l_groups (ap_ledger s2) = l_groups l" "l_limits (ap_ledger s2) = l_limits l"
    using one two by (simp_all add: same_ground_def)
  ultimately have "status_ok (fst (RefreshGroups (tv_target ev) now (ap_report s2) (ap_ledger s2)))"
    using room formed2 by (intro RefreshGroups_succeeds) (simp_all add: ledger_formed_def groups_ok_def)
  then show ?thesis
    by (simp add: apply_target_def Let_def case_prod_beta s1_def [symmetric] s2_def [symmetric])
qed

section \<open>Evaluations of other targets\<close>

lemma apply_targets_other:
  assumes "apply_targets dt outcome policy now evs (rep, l) = (st, rep', l')" and "ledger_formed gapless l"
    and "\<And>ev. ev \<in> set evs \<Longrightarrow> x \<notin> draft_ids ev"
    and "\<And>ev f. ev \<in> set evs \<Longrightarrow> map_of (l_findings l) x = Some f \<Longrightarrow> tv_target ev \<noteq> id_target (f_identity f)"
  shows "map_of (l_findings l') x = map_of (l_findings l) x"
  using assms
proof (induction evs arbitrary: rep l)
  case (Cons ev evs)
  obtain st1 rep1 l1 where a: "apply_target dt outcome policy now ev (rep, l) = (st1, rep1, l1)" by (metis prod_cases3)
  note one = apply_target_result [OF a Cons.prems(2)]
  have "map_of (draft_map (tv_drafts ev)) x = None" using Cons.prems(3) by (simp add: draft_map_None)
  then have same: "map_of (l_findings l1) x = map_of (l_findings l) x"
    using one(3) [of x] Cons.prems(4) [of ev]
    by (auto simp: target_effect_def undrafted_def split: option.splits)
  show ?case
  proof (cases "status_ok st1")
    case True
    with Cons.prems(1) a have "apply_targets dt outcome policy now evs (rep1, l1) = (st, rep', l')" by simp
    from Cons.IH [OF this one(2)] Cons.prems(3,4) same show ?thesis by auto
  next
    case False
    with Cons.prems(1) a same show ?thesis by auto
  qed
qed simp

lemma apply_targets_append:
  "apply_targets dt outcome policy now (xs @ ys) s =
     (let (st, s1) = apply_targets dt outcome policy now xs s
      in if status_ok st then apply_targets dt outcome policy now ys s1 else (st, s1))"
  by (induction xs arbitrary: s) (auto simp: Let_def status_ok_def mk_status_def split: prod.splits)

lemma expired_same:
  assumes "map_of (l_findings l) x = Some f"
  obtains g where "map_of (l_findings (TrimTimelineIfNeeded (bump_revision (snd (ExpireSuppressions dt now l))))) x = Some g"
    and "assessment g = assessment f" and "IsLiveState (f_state g) = IsLiveState (f_state f)"
  using ExpireSuppressions_findings [of l x dt now] assms by (auto simp: frame_simps)


section \<open>Drafted findings\<close>

lemma drafted_from_regrouped: "drafted_from now d before f \<Longrightarrow> regrouped t f g \<Longrightarrow> drafted_from now d before g"
  by (auto simp: drafted_from_def carries_def continues_def regrouped_def split: option.splits)

lemma carries_assessment: "carries d (assessment f) = carries d f"
  by (simp add: carries_def assessment_def)

lemma drafted_from_assessment:
  assumes "drafted_from now d before f" and "assessment g = assessment f" and "IsLiveState (f_state g) = IsLiveState (f_state f)"
  shows "drafted_from now d before g"
proof -
  have "carries d g = carries d f" using assms(2) carries_assessment by metis
  moreover have "f_identity g = f_identity f" "f_first_seen g = f_first_seen f" "f_reopen_count g = f_reopen_count f"
    "f_observation_count g = f_observation_count f"
    using assms(2) assessment_frame by metis+
  ultimately show ?thesis using assms(1,3)
    by (auto simp: drafted_from_def continues_def split: option.splits)
qed


text \<open>The only way a pass fails after phase one is the bound on groups.\<close>

definition group_limit :: "Status \<Rightarrow> bool" where
  "group_limit st \<longleftrightarrow> status_ok st \<or> st_reason st = RC_LimitObjectsExceeded"

lemma group_buckets_status: "group_limit (fst (group_buckets lim target now bs p))"
proof (induction bs arbitrary: p)
  case (Cons b bs)
  have "group_limit (fst (group_bucket lim target now b p))"
    by (auto simp: group_bucket_def group_limit_def status_ok_def mk_status_def Let_def split: option.splits)
  with Cons.IH show ?case by (simp add: case_prod_beta Let_def)
qed (simp add: group_limit_def status_ok_def mk_status_def)

lemma RefreshGroups_status: "group_limit (fst (RefreshGroups target now rep l))"
  using group_buckets_status
  by (auto simp: RefreshGroups_def Let_def case_prod_beta) (simp add: group_limit_def status_ok_def mk_status_def)

lemma apply_target_status: "group_limit (fst (apply_target dt outcome policy now ev s))"
  using RefreshGroups_status
  by (auto simp: apply_target_def Let_def case_prod_beta) (simp add: group_limit_def status_ok_def mk_status_def)

lemma apply_targets_status: "group_limit (fst (apply_targets dt outcome policy now evs s))"
  by (induction evs arbitrary: s)
    (auto simp: case_prod_beta Let_def apply_target_status, simp add: group_limit_def status_ok_def mk_status_def)


text \<open>An evaluation of one target without a baseline, with the given drafts.\<close>

definition example_evaluation :: "bool \<Rightarrow> FindingDraft list \<Rightarrow> TargetEvaluation" where
  "example_evaluation decidable drafts =
     \<lparr>tv_target = ''dev'', tv_has_baseline = False, tv_baseline_generation = 0, tv_baseline_epoch = 0,
      tv_baseline_authority = IA_Unknown, tv_best_freshness = FR_Stale, tv_sources_considered = 0,
      tv_fresh_sources = 0, tv_compliance_decidable = decidable, tv_compliant = False,
      tv_decision_reason = RC_NoFreshEvidence, tv_drafts = drafts, tv_trace = []\<rparr>"

definition example_outcome :: "TargetEvaluation list \<Rightarrow> EvaluationOutcome" where
  "example_outcome evs =
     \<lparr>eo_now = 5, eo_epoch = 1, eo_incarnation = 1, eo_policy = ''policy/default'',
      eo_policy_digest = Digest_unset, eo_resolution_confirmations = 1, eo_sequence = 1, eo_targets = evs\<rparr>"

lemma ledger_with_ok: "finding_ok (f_id f) f \<Longrightarrow> ledger_ok gapless (ledger_with f)"
  by (simp add: ledger_with_def ledger_ok_parts FindingLedger_def timeline_ok_def default_limits_def
      keys_ascending_Cons)

lemma example_finding_ok: "st \<noteq> FS_Suppressed \<Longrightarrow> st \<noteq> FS_Acknowledged \<Longrightarrow> finding_ok (f_id (example_finding st)) (example_finding st)"
  by (simp add: finding_ok_def example_finding_def)

definition example_draft :: FindingDraft where
  "example_draft =
     \<lparr>fd_target = ''dev'', fd_object = ''port/1'', fd_path = [PS_Key ''mtu''], fd_klass = DC_Missing,
      fd_raw_class = DC_Missing, fd_severity = SV_High, fd_reason = RC_None, fd_baseline_generation = 1,
      fd_baseline_epoch = 1, fd_baseline_authority = IA_LocalPolicy, fd_has_intended = True,
      fd_intended = V_Uint 9000, fd_has_observed = False, fd_observed = V_Null, fd_evidence = [],
      fd_qualifier = Digest_unset, fd_compliance_relevant = True, fd_rationale = []\<rparr>"

lemma example_draft_identity: "draft_identity example_draft = example_identity DC_Missing"
  by (simp add: draft_identity_def example_draft_def example_identity_def)

lemma example_finding_fields:
  "f_id (example_finding st) = ComputeId (example_identity DC_Missing)"
  "f_identity (example_finding st) = example_identity DC_Missing"
  "f_state (example_finding st) = st" "f_reopen_count (example_finding st) = 0"
  by (simp_all add: example_finding_def)

lemma example_found: "FindFinding (f_id f) (ledger_with f) = Some f"
  by (simp add: FindFinding_def ledger_with_def)

theorem closing_requires_decision_witness:
  "let f = example_finding FS_Open;
       l' = snd (snd (ApplyEvaluation (\<lambda>_. []) (example_outcome [example_evaluation False []]) Policy_Default 5 (ledger_with f)))
   in \<exists>g. FindFinding (f_id f) l' = Some g \<and> IsLiveState (f_state g)"
proof -
  let ?f = "example_finding FS_Open"
  obtain st rep l' where a: "ApplyEvaluation (\<lambda>_. []) (example_outcome [example_evaluation False []]) Policy_Default 5
      (ledger_with ?f) = (st, rep, l')" by (metis prod_cases3)
  have ok: "ledger_ok gapless (ledger_with ?f)" by (intro ledger_with_ok example_finding_ok) simp_all
  have live: "IsLiveState (f_state ?f)" by (simp add: example_finding_fields)
  have "\<not> tv_compliance_decidable ev" if "ev \<in> set (eo_targets (example_outcome [example_evaluation False []]))" for ev
    using that by (simp add: example_outcome_def example_evaluation_def)
  then show ?thesis
    using closing_requires_decision [OF ok a example_found live] a by (auto simp: Let_def split: if_splits)
qed




section \<open>Sequences of operations\<close>

text \<open>The operations the running observatory performs on its ledger, with any arguments and outcome.\<close>

inductive ledger_step :: "(u64 \<Rightarrow> string) \<Rightarrow> Ledger \<Rightarrow> Ledger \<Rightarrow> bool" for dt where
  commit: "CommitIntent dt d now l = (st, crep, l') \<Longrightarrow> ledger_step dt l l'"
| admit: "RecordObservation s v recovered l = (st, orep, l') \<Longrightarrow> ledger_step dt l l'"
| invalidate: "InvalidateRetainedEvidence reason now l = (n, l') \<Longrightarrow> ledger_step dt l l'"
| evaluate: "ApplyEvaluation dt outcome policy now l = (st, arep, l') \<Longrightarrow> ledger_step dt l l'"
| operate: "act dt a l = (st, l') \<Longrightarrow> ledger_step dt l l'"
| expire: "ExpireSuppressions dt now l = (n, l') \<Longrightarrow> ledger_step dt l l'"
| event: "RecordEvent e l = l' \<Longrightarrow> ledger_step dt l l'"

inductive_cases ledger_stepE: "ledger_step dt l l'"

lemma ledger_step_ok: "ledger_step dt l l' \<Longrightarrow> ledger_ok gapless l \<Longrightarrow> ledger_ok gapless l'"
proof (induction rule: ledger_step.induct)
  case (expire now l n l')
  then show ?case using ExpireSuppressions_ok [of gapless l dt now] by simp
next
  case (event e l l')
  then show ?case using RecordEvent_ok by blast
qed (auto intro: CommitIntent_ok RecordObservation_ok Invalidate_ok ApplyEvaluation_ok act_ok)

text \<open>
  C3. Every ledger the running observatory can reach is well formed: the stores are ordered by key
  and within the envelope; each baseline is stored under its own target; each evidence window is in
  order, bounded and holds only its own source's observations of its own target; each finding is
  stored under the digest of its identity, is suppressed or acknowledged only with the record that
  says so, and belongs to a group only while it is live; and the global timeline is numbered without
  gaps up to the ledger's counter.
\<close>

theorem ledger_invariant:
  assumes "(ledger_step dt)\<^sup>*\<^sup>* (FindingLedger lim) l"
  shows "ledger_ok True l"
  using assms by (induction rule: rtranclp_induct) (auto intro: empty_ledger_ok ledger_step_ok)

theorem ledger_invariant_witness:
  "ledger_ok True (snd (snd (CommitIntent (\<lambda>_. []) (example_document 1) 0 (FindingLedger default_limits))))"
proof -
  obtain st rep l' where c: "CommitIntent (\<lambda>_. []) (example_document 1) 0 (FindingLedger default_limits) = (st, rep, l')"
    by (metis prod_cases3)
  have "(ledger_step (\<lambda>_. []))\<^sup>*\<^sup>* (FindingLedger default_limits) l'" using commit [OF c] by (rule r_into_rtranclp)
  from ledger_invariant [OF this] c show ?thesis by simp
qed

text \<open>What one operation may do to a committed baseline and to a recorded finding.\<close>

lemma RebaseFindings_keeps:
  assumes "RebaseFindingsForTarget dt target generation now report l = (st, rep, l')"
    and "map_of (l_findings l) x = Some f"
  shows "\<exists>g. map_of (l_findings l') x = Some g \<and> f_identity g = f_identity f"
proof -
  let ?s = "\<lparr>rp_ledger = l, rp_report = report, rp_drop = []\<rparr>"
  have "fst (snd (rebase_finding dt target generation now s e)) = fst e \<and>
      f_identity (snd (snd (rebase_finding dt target generation now s e))) = f_identity (snd e)" for s e
    by (simp add: rebase_finding_def Let_def push_event_def RecomputeSummary_def leave_group_def)
  then have "list_all2 (\<lambda>x y. fst y = fst x \<and> f_identity (snd y) = f_identity (snd x)) (l_findings l)
      (snd (map_accum (rebase_finding dt target generation now) ?s (l_findings l)))"
    by (intro map_accum_elements) simp
  moreover have "l_findings l' = snd (map_accum (rebase_finding dt target generation now) ?s (l_findings l))"
    using assms(1) by (auto simp: RebaseFindingsForTarget_def Let_def split: prod.splits)
  ultimately show ?thesis
    using list_all2_map_of [of "\<lambda>_ f g. f_identity g = f_identity f" "l_findings l" "l_findings l'" x] assms(2) by simp
qed

lemma commit_next_keeps:
  assumes "commit_next dt d now r b l = (st, rep, l')" and "map_of (l_findings l) x = Some f"
  shows "\<exists>g. map_of (l_findings l') x = Some g \<and> f_identity g = f_identity f"
proof -
  let ?l = "l\<lparr>l_baselines := map_put (ig_target d) ((baseline_of_document d now)\<lparr>ib_target := ib_target b\<rparr>) (l_baselines l)\<rparr>"
  let ?r = "r\<lparr>ic_previous_generation := ib_generation b, ic_committed_generation := ig_generation d\<rparr>"
  obtain st1 rep1 l1 where a: "RebaseFindingsForTarget dt (ig_target d) (ig_generation d) now ?r ?l = (st1, rep1, l1)"
    by (metis prod_cases3)
  then have "l_findings l' = l_findings l1"
    using assms(1) by (auto simp: commit_next_def Let_def frame_simps split: if_splits)
  then show ?thesis using RebaseFindings_keeps [OF a, of x f] assms(2) by simp
qed

lemma CommitIntent_keeps:
  assumes "CommitIntent dt d now l = (st, rep, l')" and "map_of (l_findings l) x = Some f"
  shows "\<exists>g. map_of (l_findings l') x = Some g \<and> f_identity g = f_identity f"
  using assms
  by (auto simp: CommitIntent_def commit_first_def Let_def frame_simps dest: commit_next_keeps
      split: if_splits option.splits)

lemma ApplyEvaluation_ground:
  assumes "ApplyEvaluation dt outcome policy now l = (st, rep, l')" and "ledger_ok gapless l"
  shows "l_baselines l' = l_baselines l"
  using assms(1)
proof (cases rule: ApplyEvaluation_cases)
  case (failed rep0)
  then show ?thesis using apply_targets_formed [OF failed(2), of gapless] assms(2) by (simp add: ledger_ok_formed same_ground_def)
next
  case (applied rep0 st1 l1)
  have "l_baselines (snd (ExpireSuppressions dt now l1)) = l_baselines l1"
    using expiry.pass_store [of "(0, l1)" dt now "l_findings l1"]
    by (auto simp: ExpireSuppressions_def Let_def frame_simps same_store_def split: prod.splits)
  then show ?thesis using apply_targets_formed [OF applied(3), of gapless] assms(2)
    by (simp add: applied(4) frame_simps ledger_ok_formed same_ground_def)
qed simp

lemma ledger_step_baselines:
  assumes "ledger_step dt l l'" and "ledger_ok gapless l" and "FindBaseline t l = Some b"
  shows "\<exists>b'. FindBaseline t l' = Some b' \<and> ib_generation b \<le> ib_generation b' \<and> ib_epoch b \<le> ib_epoch b'"
proof -
  have quiet: "l_baselines (snd (ExpireSuppressions dt now l)) = l_baselines l" for now
    using expiry.pass_store [of "(0, l)" dt now "l_findings l"]
    by (auto simp: ExpireSuppressions_def Let_def frame_simps same_store_def split: prod.splits)
  from assms(1) show ?thesis
  proof cases
    case (commit d now st crep)
    from commit_intent_step [OF this] assms(3) show ?thesis by blast
  next
    case (admit s v recovered st orep)
    then have "l_baselines l' = l_baselines l" by (cases rule: RecordObservation_cases) (simp_all add: frame_simps)
    then show ?thesis using assms(3) by (simp add: FindBaseline_def)
  next
    case (invalidate reason now n)
    then show ?thesis using InvalidateRetainedEvidence_frame [OF invalidate] assms(3) by (simp add: FindBaseline_def)
  next
    case (evaluate outcome policy now st arep)
    then show ?thesis using ApplyEvaluation_ground [OF evaluate assms(2)] assms(3) by (simp add: FindBaseline_def)
  next
    case (operate a st)
    then show ?thesis using act_frame [OF operate] assms(3) by (simp add: FindBaseline_def)
  next
    case (expire now n)
    then show ?thesis using quiet [of now] assms(3) by (simp add: FindBaseline_def)
  next
    case (event e)
    then show ?thesis using assms(3) by (auto simp: RecordEvent_def frame_simps FindBaseline_def)
  qed
qed

lemma ledger_step_findings:
  assumes "ledger_step dt l l'" and "ledger_ok gapless l" and "FindFinding fid l = Some f"
  shows "\<exists>g. FindFinding fid l' = Some g \<and> f_identity g = f_identity f"
  using assms(1)
proof cases
  case (commit d now st crep)
  then show ?thesis using CommitIntent_keeps assms(3) unfolding FindFinding_def by blast
next
  case (admit s v recovered st orep)
  then have "l_findings l' = l_findings l" by (cases rule: RecordObservation_cases) (simp_all add: frame_simps)
  then show ?thesis using assms(3) by (simp add: FindFinding_def)
next
  case (invalidate reason now n)
  then show ?thesis using InvalidateRetainedEvidence_frame [OF invalidate] assms(3) by (simp add: FindFinding_def)
next
  case (evaluate outcome policy now st arep)
  then show ?thesis using ApplyEvaluation_findings [OF evaluate assms(2,3)] by blast
next
  case (operate a st)
  have "map_option (\<lambda>f. (assessment f, IsLiveState (f_state f))) (FindFinding fid l') = Some (assessment f, IsLiveState (f_state f))"
    using act_frame [OF operate, of fid] assms(3) by simp
  then show ?thesis by (auto dest: assessment_identity)
next
  case (expire now n)
  then show ?thesis using ExpireSuppressions_findings [of l fid dt now] assms(3)
    by (auto simp: FindFinding_def dest: assessment_identity)
next
  case (event e)
  then show ?thesis using assms(3) by (auto simp: RecordEvent_def frame_simps FindFinding_def)
qed

text \<open>
  C5. History only grows.  Along any sequence of operations from a reachable ledger, a recorded
  finding is never erased and never becomes another divergence, and a target's committed intent never
  disappears or returns to an older generation or epoch.
\<close>

theorem history_only_grows:
  assumes "(ledger_step dt)\<^sup>*\<^sup>* (FindingLedger lim) l" and "(ledger_step dt)\<^sup>*\<^sup>* l l'"
  shows "(\<forall>fid f. FindFinding fid l = Some f \<longrightarrow>
            (\<exists>g. FindFinding fid l' = Some g \<and> f_identity g = f_identity f)) \<and>
         (\<forall>t b. FindBaseline t l = Some b \<longrightarrow>
            (\<exists>b'. FindBaseline t l' = Some b' \<and> ib_generation b \<le> ib_generation b' \<and> ib_epoch b \<le> ib_epoch b'))"
proof -
  have start: "ledger_ok gapless l"
    using assms(1) by (induction rule: rtranclp_induct) (auto intro: empty_ledger_ok ledger_step_ok)
  from assms(2) have "ledger_ok gapless l' \<and> ?thesis"
  proof (induction rule: rtranclp_induct)
    case base
    with start show ?case by auto
  next
    case (step m n)
    then have ok: "ledger_ok gapless m" and stp: "ledger_step dt m n" by simp_all
    note keep = ledger_step_findings [OF stp ok] ledger_step_baselines [OF stp ok]
    have "ledger_ok gapless n" using ledger_step_ok [OF stp ok] .
    moreover have "\<exists>g. FindFinding fid n = Some g \<and> f_identity g = f_identity f" if "FindFinding fid l = Some f" for fid f
      using step.IH keep(1) that by metis
    moreover have "\<exists>b'. FindBaseline t n = Some b' \<and> ib_generation b \<le> ib_generation b' \<and> ib_epoch b \<le> ib_epoch b'"
      if "FindBaseline t l = Some b" for t b
      using step.IH keep(2) that by (meson order_trans)
    ultimately show ?case by blast
  qed
  then show ?thesis by blast
qed

theorem history_only_grows_witness:
  "\<exists>l b. FindBaseline ''dev'' l = Some b \<and> ledger_step (\<lambda>_. []) (FindingLedger default_limits) l \<and>
     (\<exists>b'. FindBaseline ''dev'' (snd (ExpireSuppressions (\<lambda>_. []) 9 l)) = Some b' \<and> ib_generation b \<le> ib_generation b')"
proof -
  obtain st rep l where c: "CommitIntent (\<lambda>_. []) (example_document 1) 0 (FindingLedger default_limits) = (st, rep, l)"
    by (metis prod_cases3)
  have valid: "status_ok (Intent_Validate default_limits (example_document 1))" by (rule example_document_valid) simp
  have "max_targets default_limits > 0" by (simp add: default_limits_def)
  with c valid have b: "FindBaseline ''dev'' l = Some (baseline_of_document (example_document 1) 0)"
    by (auto simp: CommitIntent_def Let_def commit_first_def FindingLedger_def frame_simps FindBaseline_def map_emplace_def
        example_document_def status_ok_def mk_status_def)
  have one: "ledger_step (\<lambda>_. []) (FindingLedger default_limits) l" using commit [OF c] .
  have two: "ledger_step (\<lambda>_. []) l (snd (ExpireSuppressions (\<lambda>_. []) 9 l))"
    by (rule expire [of _ 9 _ "fst (ExpireSuppressions (\<lambda>_. []) 9 l)"]) simp
  from history_only_grows [OF r_into_rtranclp [of "ledger_step (\<lambda>_. [])", OF one] r_into_rtranclp [of "ledger_step (\<lambda>_. [])", OF two]] one b
  show ?thesis by blast
qed

end
