(* ===== verification/NDO_Query.thy ===== *)
theory NDO_Query
  imports NDO_Finding
begin

text \<open>
  Queries over findings and timelines (\<^verbatim>\<open>query.hpp\<close>, \<^verbatim>\<open>query.cpp\<close>): the filter, the five total orders
  and paging.  Offsets and limits are 64-bit; the end of a page is computed with wrap-around as the
  code does.  The orders are shown to be total, so a page is determined by the set of findings, and
  consecutive pages to tile the result.
\<close>

section \<open>Specifications and results\<close>

datatype QueryOrder =
    QO_SeverityDescending | QO_FirstSeenAscending | QO_LastSeenDescending | QO_TargetAscending | QO_IdentityAscending

fun query_order_value :: "QueryOrder \<Rightarrow> nat" where
  "query_order_value QO_SeverityDescending = 0"
| "query_order_value QO_FirstSeenAscending = 1"
| "query_order_value QO_LastSeenDescending = 2"
| "query_order_value QO_TargetAscending = 3"
| "query_order_value QO_IdentityAscending = 4"

definition kOrderNames :: "(nat \<times> string) list" where
  "kOrderNames =
     [(0, ''severity-descending''), (1, ''first-seen-ascending''), (2, ''last-seen-descending''),
      (3, ''target-ascending''), (4, ''identity-ascending'')]"

definition ToText_QueryOrder :: "QueryOrder \<Rightarrow> string" where
  "ToText_QueryOrder v = lookup_name kOrderNames (query_order_value v) ''invalid''"

definition TryParseQueryOrder :: "string \<Rightarrow> QueryOrder option" where
  "TryParseQueryOrder wanted =
     Option.bind (lookup_code kOrderNames wanted)
       (\<lambda>c. List.find (\<lambda>v. query_order_value v = c)
         [QO_SeverityDescending, QO_FirstSeenAscending, QO_LastSeenDescending, QO_TargetAscending, QO_IdentityAscending])"

record QuerySpec =
  qs_target :: "TargetId option"
  qs_object :: "ObjectId option"
  qs_path_prefix :: "FieldPath option"
  qs_generation :: "IntentGeneration option"
  qs_epoch :: "FabricEpoch option"
  qs_klass :: "DriftClass option"
  qs_min_severity :: "Severity option"
  qs_exact_severity :: "Severity option"
  qs_state :: "FindingState option"
  qs_group :: "GroupId option"
  qs_source :: "SourceId option"
  qs_root_cause :: "RootCauseKind option"
  qs_min_freshness :: "FreshnessState option"
  qs_min_age_nanos :: "int option"
  qs_max_age_nanos :: "int option"
  qs_include_resolved :: bool
  qs_include_superseded :: bool
  qs_include_retired :: bool
  qs_include_suppressed :: bool
  qs_order :: QueryOrder
  qs_limit :: u64
  qs_offset :: u64

definition default_query :: QuerySpec where
  "default_query =
     \<lparr>qs_target = None, qs_object = None, qs_path_prefix = None, qs_generation = None, qs_epoch = None,
      qs_klass = None, qs_min_severity = None, qs_exact_severity = None, qs_state = None, qs_group = None,
      qs_source = None, qs_root_cause = None, qs_min_freshness = None, qs_min_age_nanos = None,
      qs_max_age_nanos = None, qs_include_resolved = False, qs_include_superseded = False,
      qs_include_retired = False, qs_include_suppressed = True, qs_order = QO_SeverityDescending,
      qs_limit = 1000, qs_offset = 0\<rparr>"

record QueryResult =
  qr_findings :: "Finding list"
  qr_total_matched :: nat
  qr_truncated :: bool
  qr_evaluated_at :: NdoTime
  qr_spec :: QuerySpec
  qr_page_digest :: Digest

record TimelineSpec =
  ts_finding :: "FindingId option"
  ts_target :: "TargetId option"
  ts_kind :: "TimelineEventKind option"
  ts_since :: "NdoTime option"
  ts_until :: "NdoTime option"
  ts_limit :: u64
  ts_offset :: u64

record TimelinePage =
  tp_entries :: "TimelineEntry list"
  tp_total_matched :: nat
  tp_truncated :: bool

section \<open>The filter\<close>

fun FreshnessRank :: "FreshnessState \<Rightarrow> nat" where
  "FreshnessRank FR_Fresh = 4"
| "FreshnessRank FR_Aging = 3"
| "FreshnessRank FR_Stale = 2"
| "FreshnessRank FR_Future = 1"
| "FreshnessRank FR_Expired = 1"
| "FreshnessRank FR_Unknown = 0"
| "FreshnessRank FR_RecoveredNotFresh = 0"

text \<open>An optional criterion holds when it is unset or satisfied.\<close>

definition wants :: "'a option \<Rightarrow> ('a \<Rightarrow> bool) \<Rightarrow> bool" where
  "wants c p = (case c of None \<Rightarrow> True | Some x \<Rightarrow> p x)"

definition AgeMatches :: "Finding \<Rightarrow> QuerySpec \<Rightarrow> NdoTime \<Rightarrow> bool" where
  "AgeMatches f spec now =
     (let age = (case TryDifference now (f_first_seen f) of None \<Rightarrow> 0 | Some a \<Rightarrow> a)
      in wants (qs_min_age_nanos spec) (\<lambda>m. \<not> age < m) \<and> wants (qs_max_age_nanos spec) (\<lambda>m. \<not> age > m))"

definition QueryMatches :: "Finding \<Rightarrow> QuerySpec \<Rightarrow> NdoTime \<Rightarrow> bool" where
  "QueryMatches f spec now \<longleftrightarrow>
     wants (qs_target spec) (\<lambda>x. id_target (f_identity f) = x) \<and>
     wants (qs_object spec) (\<lambda>x. id_object (f_identity f) = x) \<and>
     wants (qs_path_prefix spec) (\<lambda>x. IsPrefixOf x (id_path (f_identity f))) \<and>
     wants (qs_generation spec) (\<lambda>x. f_baseline_generation f = x) \<and>
     wants (qs_epoch spec) (\<lambda>x. f_baseline_epoch f = x) \<and>
     wants (qs_klass spec) (\<lambda>x. f_klass f = x) \<and>
     wants (qs_min_severity spec) (\<lambda>x. \<not> SeverityRank (f_severity f) < SeverityRank x) \<and>
     wants (qs_exact_severity spec) (\<lambda>x. f_severity f = x) \<and>
     wants (qs_state spec) (\<lambda>x. f_state f = x) \<and>
     wants (qs_group spec) (\<lambda>x. f_group f = x) \<and>
     wants (qs_root_cause spec) (\<lambda>x. f_group_cause f = x) \<and>
     wants (qs_source spec) (\<lambda>x. list_ex (\<lambda>r. er_source r = x) (f_evidence f)) \<and>
     wants (qs_min_freshness spec) (\<lambda>x. \<not> FreshnessRank (f_evidence_freshness f) < FreshnessRank x) \<and>
     AgeMatches f spec now \<and>
     (case f_state f of
        FS_Resolved \<Rightarrow> qs_include_resolved spec
      | FS_Superseded \<Rightarrow> qs_include_superseded spec
      | FS_Retired \<Rightarrow> qs_include_retired spec
      | FS_Suppressed \<Rightarrow> qs_include_suppressed spec
      | _ \<Rightarrow> True)"

section \<open>The orders\<close>

definition OrderBefore :: "QueryOrder \<Rightarrow> Finding \<Rightarrow> Finding \<Rightarrow> bool" where
  "OrderBefore order a b =
     (case order of
        QO_SeverityDescending \<Rightarrow>
          if f_severity a \<noteq> f_severity b then SeverityRank (f_severity b) < SeverityRank (f_severity a)
          else if f_last_seen a \<noteq> f_last_seen b then f_last_seen b < f_last_seen a
          else f_id a < f_id b
      | QO_FirstSeenAscending \<Rightarrow>
          if f_first_seen a \<noteq> f_first_seen b then f_first_seen a < f_first_seen b else f_id a < f_id b
      | QO_LastSeenDescending \<Rightarrow>
          if f_last_seen a \<noteq> f_last_seen b then f_last_seen b < f_last_seen a else f_id a < f_id b
      | QO_TargetAscending \<Rightarrow>
          if id_target (f_identity a) \<noteq> id_target (f_identity b)
          then id_target (f_identity a) < id_target (f_identity b)
          else if id_object (f_identity a) \<noteq> id_object (f_identity b)
          then id_object (f_identity a) < id_object (f_identity b)
          else if id_path (f_identity a) \<noteq> id_path (f_identity b)
          then id_path (f_identity a) < id_path (f_identity b)
          else f_id a < f_id b
      | QO_IdentityAscending \<Rightarrow> f_id a < f_id b)"

section \<open>Paging\<close>

text \<open>
  The bounds of a page of a result with \<open>n\<close> entries: \<^verbatim>\<open>begin\<close> is the offset clamped to \<open>n\<close>, \<^verbatim>\<open>end\<close> is
  \<^verbatim>\<open>begin + limit\<close> in 64-bit arithmetic clamped to \<open>n\<close>.
\<close>

definition page_begin :: "u64 \<Rightarrow> nat \<Rightarrow> nat" where
  "page_begin offset n = min (unat offset) n"

definition page_end :: "u64 \<Rightarrow> u64 \<Rightarrow> nat \<Rightarrow> nat" where
  "page_end offset limit n = min ((page_begin offset n + unat limit) mod 2 ^ 64) n"

definition page_of :: "u64 \<Rightarrow> u64 \<Rightarrow> 'a list \<Rightarrow> 'a list" where
  "page_of offset limit xs =
     take (page_end offset limit (length xs) - page_begin offset (length xs)) (drop (page_begin offset (length xs)) xs)"

definition page_truncated :: "u64 \<Rightarrow> u64 \<Rightarrow> nat \<Rightarrow> bool" where
  "page_truncated offset limit n \<longleftrightarrow> page_end offset limit n < n \<or> page_begin offset n > 0"

definition hash_page_finding :: "Finding \<Rightarrow> Sha256 \<Rightarrow> Sha256" where
  "hash_page_finding f h =
     UpdateU64 (f_observation_count f) (UpdateByte (of_nat (finding_state_value (f_state f))) (Update (f_id f) h))"

definition ExecuteQuery :: "Finding list \<Rightarrow> QuerySpec \<Rightarrow> NdoTime \<Rightarrow> QueryResult Result" where
  "ExecuteQuery findings spec now =
     (if qs_limit spec = 0
      then Inl (Status_Rejected RC_LimitFindingsExceeded ''a query limit of zero would hide every finding'')
      else
        let matched = sort_by (OrderBefore (qs_order spec)) (filter (\<lambda>f. QueryMatches f spec now) findings);
            page = page_of (qs_offset spec) (qs_limit spec) matched;
            h = UpdateTag ''ndo/query-page/v1'' Sha256_new;
            h = UpdateLengthPrefixed (ToText_QueryOrder (qs_order spec)) h;
            h = UpdateU64 (of_nat (length matched)) h;
            h = UpdateU64 (of_nat (page_begin (qs_offset spec) (length matched))) h;
            h = UpdateU64 (of_nat (length page)) h
        in Inr \<lparr>qr_findings = page, qr_total_matched = length matched,
             qr_truncated = page_truncated (qs_offset spec) (qs_limit spec) (length matched),
             qr_evaluated_at = now, qr_spec = spec, qr_page_digest = Final (fold hash_page_finding page h)\<rparr>)"

definition TimelineMatches :: "TimelineSpec \<Rightarrow> TimelineEntry \<Rightarrow> bool" where
  "TimelineMatches spec e \<longleftrightarrow>
     wants (ts_finding spec) (\<lambda>x. te_finding e = x) \<and> wants (ts_target spec) (\<lambda>x. te_target e = x) \<and>
     wants (ts_kind spec) (\<lambda>x. te_kind e = x) \<and> wants (ts_since spec) (\<lambda>x. \<not> te_at e < x) \<and>
     wants (ts_until spec) (\<lambda>x. \<not> x < te_at e)"

definition TimelineBefore :: "TimelineEntry \<Rightarrow> TimelineEntry \<Rightarrow> bool" where
  "TimelineBefore a b = (if te_sequence a \<noteq> te_sequence b then te_sequence a < te_sequence b else te_at a < te_at b)"

definition ExecuteTimelineQuery :: "TimelineEntry list \<Rightarrow> TimelineSpec \<Rightarrow> TimelinePage Result" where
  "ExecuteTimelineQuery entries spec =
     (if ts_limit spec = 0
      then Inl (Status_Rejected RC_LimitTimelineExceeded ''a timeline limit of zero would hide every entry'')
      else
        let matched = sort_by TimelineBefore (filter (TimelineMatches spec) entries)
        in Inr \<lparr>tp_entries = page_of (ts_offset spec) (ts_limit spec) matched, tp_total_matched = length matched,
             tp_truncated = page_truncated (ts_offset spec) (ts_limit spec) (length matched)\<rparr>)"

section \<open>The orders are total\<close>

definition order_key :: "QueryOrder \<Rightarrow> Finding \<Rightarrow> int \<times> int \<times> string \<times> string \<times> FieldPath \<times> FindingId" where
  "order_key order f =
     (case order of
        QO_SeverityDescending \<Rightarrow> (- int (SeverityRank (f_severity f)), - f_last_seen f, [], [], [], f_id f)
      | QO_FirstSeenAscending \<Rightarrow> (0, f_first_seen f, [], [], [], f_id f)
      | QO_LastSeenDescending \<Rightarrow> (0, - f_last_seen f, [], [], [], f_id f)
      | QO_TargetAscending \<Rightarrow>
          (0, 0, id_target (f_identity f), id_object (f_identity f), id_path (f_identity f), f_id f)
      | QO_IdentityAscending \<Rightarrow> (0, 0, [], [], [], f_id f))"

lemma SeverityRank_inj: "SeverityRank a = SeverityRank b \<longleftrightarrow> a = b"
  by (cases a; cases b) simp_all

lemma OrderBefore_key: "OrderBefore order a b \<longleftrightarrow> order_key order a < order_key order b"
proof (cases order)
  case QO_SeverityDescending
  then show ?thesis by (auto simp: OrderBefore_def order_key_def SeverityRank_inj [symmetric])
qed (auto simp: OrderBefore_def order_key_def)

interpretation query_order: strict_weak_order "OrderBefore order" for order
  by unfold_locales (auto simp: OrderBefore_key)

lemma OrderBefore_total: "f_id a \<noteq> f_id b \<Longrightarrow> OrderBefore order a b \<or> OrderBefore order b a"
  unfolding OrderBefore_key by (cases order) (auto simp: order_key_def)

interpretation timeline_order: strict_weak_order TimelineBefore
  by unfold_locales (auto simp: TimelineBefore_def split: if_splits)

section \<open>Pages\<close>

lemma page_of_exact:
  assumes "unat offset + unat limit < 2 ^ 64"
  shows "page_of offset limit xs = take (unat limit) (drop (unat offset) xs)"
proof (cases "unat offset \<le> length xs")
  case True
  with assms have "(unat offset + unat limit) mod 2 ^ 64 = unat offset + unat limit" by simp
  with True have "page_end offset limit (length xs) = min (unat offset + unat limit) (length xs)"
    by (simp add: page_end_def page_begin_def min_absorb1)
  with True show ?thesis
    by (simp add: page_of_def page_begin_def min_absorb1 min_def)
next
  case False
  then show ?thesis by (simp add: page_of_def page_begin_def page_end_def min_def)
qed

lemma pages_tile:
  "concat (map (\<lambda>k. take n (drop (k * n) xs)) [0..<m]) = take (m * n) xs"
proof (induction m)
  case (Suc m)
  have "Suc m * n = m * n + n" by simp
  with Suc show ?case by (simp only: take_add upt_Suc_append map_append concat_append) simp
qed simp

lemma sorted_wrt_apart: "sorted_wrt P xs \<Longrightarrow> distinct xs \<Longrightarrow> sorted_wrt (\<lambda>x y. P x y \<and> x \<noteq> y) xs"
  by (induction xs) auto

definition query_page :: "Finding list \<Rightarrow> QuerySpec \<Rightarrow> NdoTime \<Rightarrow> u64 \<Rightarrow> Finding list" where
  "query_page findings spec now offset =
     (case ExecuteQuery findings (spec\<lparr>qs_offset := offset\<rparr>) now of Inl e \<Rightarrow> [] | Inr r \<Rightarrow> qr_findings r)"

lemma QueryMatches_offset [simp]: "QueryMatches f (spec\<lparr>qs_offset := k\<rparr>) now = QueryMatches f spec now"
  by (simp add: QueryMatches_def AgeMatches_def Let_def split: FindingState.split)

lemma query_page_exact:
  assumes "qs_limit spec \<noteq> 0" and "unat offset + unat (qs_limit spec) < 2 ^ 64"
  shows "query_page findings spec now offset = take (unat (qs_limit spec)) (drop (unat offset)
    (sort_by (OrderBefore (qs_order spec)) (filter (\<lambda>f. QueryMatches f spec now) findings)))"
  using assms by (simp add: query_page_def ExecuteQuery_def Let_def page_of_exact)

text \<open>
  C34. Paging loses nothing, repeats nothing and does not depend on storage order.  For findings with
  different identities, any arrangement of them gives the same pages, and the pages at offsets 0, L,
  2L, and so on, joined up to the end of the result, are exactly the matching findings in the
  requested total order.
\<close>

theorem query_pages_tile:
  assumes "distinct (map f_id findings)" and "mset other = mset findings"
    and "qs_limit spec \<noteq> 0" and "(m + 1) * unat (qs_limit spec) < 2 ^ 64"
    and "length findings \<le> m * unat (qs_limit spec)"
  shows "let pages = (\<lambda>fs. concat (map (\<lambda>k. query_page fs spec now (of_nat (k * unat (qs_limit spec)))) [0..<m]))
         in pages other = pages findings \<and>
            mset (pages findings) = filter_mset (\<lambda>f. QueryMatches f spec now) (mset findings) \<and>
            sorted_wrt (OrderBefore (qs_order spec)) (pages findings)"
proof -
  let ?L = "unat (qs_limit spec)" and ?lt = "OrderBefore (qs_order spec)"
  let ?sorted = "\<lambda>fs. sort_by ?lt (filter (\<lambda>f. QueryMatches f spec now) fs)"
  have page: "query_page fs spec now (of_nat (k * ?L)) = take ?L (drop (k * ?L) (?sorted fs))" if "k < m" for fs k
  proof -
    have "k * ?L + ?L \<le> (m + 1) * ?L" using that by (simp add: add_mult_distrib)
    then have bound: "k * ?L + ?L < 2 ^ 64" using assms(4) by (rule le_less_trans)
    have "unat (of_nat n :: u64) = n" if "n < 2 ^ 64" for n
      using that by (simp add: unat_of_nat take_bit_nat_eq_self)
    then have u: "unat (of_nat (k * ?L) :: u64) = k * ?L" using bound by (meson add_lessD1)
    show ?thesis using query_page_exact [OF assms(3), of "of_nat (k * ?L)" fs now, unfolded u, OF bound] .
  qed
  have tiles: "concat (map (\<lambda>k. query_page fs spec now (of_nat (k * ?L))) [0..<m]) = take (m * ?L) (?sorted fs)" for fs
  proof -
    have "map (\<lambda>k. query_page fs spec now (of_nat (k * ?L))) [0..<m] = map (\<lambda>k. take ?L (drop (k * ?L) (?sorted fs))) [0..<m]"
      by (rule map_cong [OF refl]) (rule page, simp)
    then show ?thesis by (simp only: pages_tile)
  qed
  have "length (?sorted findings) \<le> m * ?L"
    using assms(5) by (auto intro: order_trans [OF length_filter_le])
  then have all: "take (m * ?L) (?sorted findings) = ?sorted findings" by simp
  have inj: "f_id x \<noteq> f_id y" if "x \<in> set findings" "y \<in> set findings" "x \<noteq> y" for x y
    using assms(1) that by (auto simp: distinct_map dest: inj_onD)
  have same: "?sorted other = ?sorted findings"
  proof (rule query_order.sort_by_permutation)
    show "mset (filter (\<lambda>f. QueryMatches f spec now) other) = mset (filter (\<lambda>f. QueryMatches f spec now) findings)"
      using assms(2) by simp
    have "set other = set findings" using assms(2) by (metis set_mset_mset)
    then show "?lt x y \<or> ?lt y x" if "x \<in> set (filter (\<lambda>f. QueryMatches f spec now) other)"
      "y \<in> set (filter (\<lambda>f. QueryMatches f spec now) other)" "x \<noteq> y" for x y
      using that inj by (intro OrderBefore_total) auto
  qed
  have ordered: "sorted_wrt ?lt (?sorted findings)"
  proof (rule sorted_wrt_mono_rel [rotated])
    have "distinct findings" using assms(1) by (simp add: distinct_map)
    then have "distinct (?sorted findings)" by (metis distinct_filter mset_eq_imp_distinct_iff mset_sort_by)
    then show "sorted_wrt (\<lambda>x y. \<not> ?lt y x \<and> x \<noteq> y) (?sorted findings)"
      by (intro sorted_wrt_apart query_order.sort_by_in_order)
    show "?lt x y" if "x \<in> set (?sorted findings)" "y \<in> set (?sorted findings)" "\<not> ?lt y x \<and> x \<noteq> y" for x y
      using that inj OrderBefore_total [of x y "qs_order spec"] by auto
  qed
  have "mset (?sorted findings) = filter_mset (\<lambda>f. QueryMatches f spec now) (mset findings)" by simp
  with ordered show ?thesis unfolding Let_def tiles same all by (intro conjI refl)
qed

definition blank_finding :: "u8 \<Rightarrow> Finding" where
  "blank_finding n =
     \<lparr>f_id = [n], f_identity = example_identity DC_Missing, f_klass = DC_Missing, f_raw_class = DC_Missing,
      f_severity = SV_High, f_state = FS_Open, f_reason = RC_None, f_baseline_generation = 1,
      f_baseline_epoch = 1, f_baseline_authority = IA_LocalPolicy, f_policy = [], f_policy_digest = [],
      f_has_intended = False, f_intended = V_Null, f_has_observed = False, f_observed = V_Null,
      f_evidence = [], f_evidence_freshness = FR_Fresh, f_group = [], f_group_cause = CK_None,
      f_observation_count = 1, f_reopen_count = 0, f_resolution_confirmations = 0, f_first_seen = 0,
      f_last_seen = 0, f_last_evaluated = 0, f_resolved_at = 0, f_suppression = None,
      f_suppression_origin = SO_None, f_suppressed_by = [], f_suppression_reason = [],
      f_suppression_expires_at = None, f_acknowledged_by = [], f_acknowledged_at = 0,
      f_acknowledgement_reason = [], f_summary = [], f_compliance_relevant = True, f_timeline = []\<rparr>"

theorem query_pages_tile_witness:
  "let spec = default_query\<lparr>qs_limit := 1\<rparr>;
       pages = (\<lambda>fs. concat (map (\<lambda>k. query_page fs spec 0 (of_nat (k * 1))) [0..<2]))
   in pages [blank_finding 2, blank_finding 1] = pages [blank_finding 1, blank_finding 2]"
  using query_pages_tile [of "[blank_finding 1, blank_finding 2]" "[blank_finding 2, blank_finding 1]"
      "default_query\<lparr>qs_limit := 1\<rparr>" 2 0]
  by (simp add: blank_finding_def Let_def)

lemma blank_finding_matches: "QueryMatches (blank_finding n) (default_query\<lparr>qs_limit := a, qs_offset := b\<rparr>) 0"
  by (simp add: QueryMatches_def default_query_def wants_def blank_finding_def AgeMatches_def Let_def)

text \<open>
  The largest limit does not mean everything.  Asked for the page after the first finding with
  the limit set to the greatest 64-bit value, the end of the page wraps to zero and the page is
  empty, although a second finding matches.
\<close>

theorem query_limit_wraps:
  "query_page [blank_finding 1, blank_finding 2] (default_query\<lparr>qs_limit := - 1\<rparr>) 0 1 = [] \<and>
   query_page [blank_finding 1, blank_finding 2] (default_query\<lparr>qs_limit := 1\<rparr>) 0 1 = [blank_finding 2]"
proof -
  have sorted: "sort_by (OrderBefore QO_SeverityDescending) [blank_finding 1, blank_finding 2] = [blank_finding 1, blank_finding 2]"
    by (simp add: sort_by_def OrderBefore_def blank_finding_def)
  have matched: "filter (\<lambda>f. QueryMatches f (default_query\<lparr>qs_limit := a, qs_offset := 1\<rparr>) 0) [blank_finding 1, blank_finding 2]
      = [blank_finding 1, blank_finding 2]" for a
    by (simp only: filter.simps blank_finding_matches if_True)
  have order: "qs_order default_query = QO_SeverityDescending" by (simp add: default_query_def)
  have page: "query_page [blank_finding 1, blank_finding 2] (default_query\<lparr>qs_limit := a\<rparr>) 0 1 =
      page_of 1 a [blank_finding 1, blank_finding 2]" if "a \<noteq> 0" for a
    using that by (simp only: query_page_def ExecuteQuery_def Let_def QuerySpec.update_convs QuerySpec.simps matched order sorted
        if_False sum.case QueryResult.simps) (simp add: order sorted)
  have "unat (- 1 :: u64) = 2 ^ 64 - 1" by (simp add: unsigned_minus_1_eq_mask mask_eq_exp_minus_1)
  then have "page_of 1 (- 1) [blank_finding 1, blank_finding 2] = []"
    by (simp add: page_of_def page_end_def page_begin_def)
  moreover have "page_of 1 1 [blank_finding 1, blank_finding 2] = [blank_finding 2]"
    by (simp add: page_of_def page_end_def page_begin_def)
  ultimately show ?thesis by (simp add: page)
qed

end
