(* ===== verification/NDO_Engine.thy ===== *)
theory NDO_Engine
  imports NDO_Ledger_Safety NDO_Query
begin

text \<open>
  The observatory (\<^verbatim>\<open>engine.hpp\<close>, \<^verbatim>\<open>engine.cpp\<close>): lifecycle, sources, ingestion, evaluation in its
  locked and unlocked stages, operator actions, policy changes and report collection.  Every function
  that runs under the engine mutex is one atomic step; the injected clock's reading is an argument.
  An evaluation is three steps: building its input, comparing the targets (outside the lock, on one
  or more workers, each of which may see a cancellation), and publishing the outcome.
\<close>

section \<open>Configuration, counters, state\<close>

record ObservatoryConfig =
  oc_policy :: ObservatoryPolicy
  oc_limits :: RuntimeLimits
  oc_epoch :: FabricEpoch
  oc_incarnation :: Incarnation
  oc_evaluation_workers :: nat
  oc_require_started :: bool
  oc_require_registered_sources :: bool

record ObservatoryCounters =
  ct_intents_accepted :: u64
  ct_intents_rejected :: u64
  ct_intents_duplicate_identical :: u64
  ct_observations_accepted :: u64
  ct_observations_rejected :: u64
  ct_observations_duplicate_identical :: u64
  ct_observations_superseded :: u64
  ct_evaluations :: u64
  ct_evaluations_cancelled :: u64
  ct_evaluations_fenced :: u64
  ct_findings_created :: u64
  ct_findings_resolved :: u64
  ct_findings_reopened :: u64
  ct_findings_suppressed :: u64
  ct_acknowledgements :: u64
  ct_recoveries :: u64
  ct_persistence_writes :: u64
  ct_policy_changes :: u64

definition zero_counters :: ObservatoryCounters where
  "zero_counters =
     \<lparr>ct_intents_accepted = 0, ct_intents_rejected = 0, ct_intents_duplicate_identical = 0,
      ct_observations_accepted = 0, ct_observations_rejected = 0, ct_observations_duplicate_identical = 0,
      ct_observations_superseded = 0, ct_evaluations = 0, ct_evaluations_cancelled = 0,
      ct_evaluations_fenced = 0, ct_findings_created = 0, ct_findings_resolved = 0,
      ct_findings_reopened = 0, ct_findings_suppressed = 0, ct_acknowledgements = 0, ct_recoveries = 0,
      ct_persistence_writes = 0, ct_policy_changes = 0\<rparr>"

record Observatory =
  ob_config :: ObservatoryConfig
  ob_ledger :: Ledger
  ob_sources :: "(SourceId, SourceDescriptor) omap"
  ob_evaluation_sequence :: u64
  ob_started :: bool
  ob_cancelled :: bool
  ob_stopping :: bool
  ob_active_evaluations :: u64
  ob_counters :: ObservatoryCounters

definition clamp_workers :: "RuntimeLimits \<Rightarrow> nat \<Rightarrow> nat" where
  "clamp_workers lim n = (let n = (if n = 0 then 1 else n) in if n > max_evaluation_workers lim then max_evaluation_workers lim else n)"

definition Observatory_new :: "ObservatoryConfig \<Rightarrow> Observatory" where
  "Observatory_new config =
     \<lparr>ob_config = config\<lparr>oc_evaluation_workers := clamp_workers (oc_limits config) (oc_evaluation_workers config)\<rparr>,
      ob_ledger = FindingLedger (oc_limits config), ob_sources = [], ob_evaluation_sequence = 0,
      ob_started = False, ob_cancelled = False, ob_stopping = False, ob_active_evaluations = 0,
      ob_counters = zero_counters\<rparr>"

text \<open>\<open>tally f o\<close> updates the counters.\<close>

definition tally :: "(ObservatoryCounters \<Rightarrow> ObservatoryCounters) \<Rightarrow> Observatory \<Rightarrow> Observatory" where
  "tally f ob = ob\<lparr>ob_counters := f (ob_counters ob)\<rparr>"

section \<open>Lifecycle\<close>

definition Start :: "Observatory \<Rightarrow> Status \<times> Observatory" where
  "Start ob =
     (let c = ob_config ob; status = Policy_Validate (oc_limits c) (oc_policy c) in
      if ob_started ob then (Status_Precondition RC_None ''the observatory is already started'', ob)
      else if \<not> uint_is_set (oc_epoch c) \<or> \<not> uint_is_set (oc_incarnation c)
      then (Status_Rejected RC_FencedStaleEpoch ''the observatory requires an explicit epoch and incarnation'', ob)
      else if \<not> status_ok status then (status, ob)
      else if po_evidence (oc_policy c) = EC_Unknown
      then (Status_Rejected RC_EncodingMalformed ''policy must declare its evidence class'', ob)
      else (Status_Ok, ob\<lparr>ob_ledger := SetLimits (oc_limits c) (ob_ledger ob), ob_started := True,
                          ob_stopping := False, ob_cancelled := False\<rparr>))"

text \<open>Stopping closes admission at once and returns when no evaluation is in flight.\<close>

definition Stop :: "Observatory \<Rightarrow> Observatory" where
  "Stop ob = ob\<lparr>ob_stopping := True, ob_started := False\<rparr>"

definition Stop_returns :: "Observatory \<Rightarrow> bool" where
  "Stop_returns ob \<longleftrightarrow> ob_active_evaluations ob = 0"

definition RotateIncarnation :: "Incarnation \<Rightarrow> FabricEpoch \<Rightarrow> NdoTime \<Rightarrow> Observatory \<Rightarrow> Status \<times> Observatory" where
  "RotateIncarnation next_incarnation next_epoch now ob =
     (let c = ob_config ob in
      if \<not> uint_is_set next_incarnation
      then (Status_Rejected RC_FencedStaleIncarnation ''the new incarnation must be positive'', ob)
      else if next_incarnation \<le> oc_incarnation c
      then (Status_Rejected RC_FencedStaleIncarnation
              ''the new incarnation must be strictly greater than the current one'', ob)
      else if next_epoch < oc_epoch c
      then (Status_Rejected RC_FencedStaleEpoch ''the new epoch must not be older than the current one'', ob)
      else (Status_Ok, tally (\<lambda>k. k\<lparr>ct_recoveries := ct_recoveries k + 1\<rparr>)
              (ob\<lparr>ob_config := c\<lparr>oc_incarnation := next_incarnation, oc_epoch := next_epoch\<rparr>,
                  ob_ledger := snd (InvalidateRetainedEvidence RC_EvidenceRecoveredNotFresh now (ob_ledger ob))\<rparr>)))"

definition RequestCancellation :: "Observatory \<Rightarrow> Observatory" where
  "RequestCancellation ob = ob\<lparr>ob_cancelled := True\<rparr>"

definition ClearCancellation :: "Observatory \<Rightarrow> Observatory" where
  "ClearCancellation ob = ob\<lparr>ob_cancelled := False\<rparr>"

section \<open>Sources and ingestion\<close>

definition RegisterSource :: "SourceDescriptor \<Rightarrow> Observatory \<Rightarrow> Status \<times> Observatory" where
  "RegisterSource d ob =
     (if sd_id d = [] \<or> \<not> IsValidIdentityText (sd_id d)
      then (Status_Rejected RC_EncodingMalformed ''source identity is invalid'', ob)
      else if \<not> uint_is_set (sd_incarnation d) \<or> \<not> uint_is_set (sd_epoch d)
      then (Status_Rejected RC_FencedStaleIncarnation ''source must declare its epoch and incarnation'', ob)
      else
        let accept = (Status_Ok, ob\<lparr>ob_sources := map_put (sd_id d) d (ob_sources ob)\<rparr>) in
        case map_of (ob_sources ob) (sd_id d) of
          Some existing \<Rightarrow>
            if sd_incarnation d < sd_incarnation existing
            then (Status_Stale RC_FencedStaleIncarnation ''source incarnation regressed; the registration is refused'', ob)
            else accept
        | None \<Rightarrow>
            if length (ob_sources ob) \<ge> max_sources (oc_limits (ob_config ob))
            then (Status_Limit RC_LimitObjectsExceeded ''source count exceeds the envelope'', ob)
            else accept)"

definition FindSource :: "SourceId \<Rightarrow> Observatory \<Rightarrow> SourceDescriptor option" where
  "FindSource sid ob = map_of (ob_sources ob) sid"

definition not_admitting :: "Observatory \<Rightarrow> bool" where
  "not_admitting ob \<longleftrightarrow> oc_require_started (ob_config ob) \<and> \<not> ob_started ob"

definition PublishIntent ::
    "(u64 \<Rightarrow> string) \<Rightarrow> IntentGenerationDocument \<Rightarrow> NdoTime \<Rightarrow> Observatory \<Rightarrow> Status \<times> IntentCommitReport \<times> Observatory" where
  "PublishIntent dt d stamp ob =
     (if not_admitting ob
      then (Status_Precondition RC_None ''the observatory is not started'', blank_commit_report, ob)
      else if ig_epoch d \<noteq> oc_epoch (ob_config ob)
      then (Status_Stale RC_FencedStaleEpoch ''intent was authored under a different epoch'', blank_commit_report, ob)
      else
        let (status, report, l) = CommitIntent dt d stamp (ob_ledger ob);
            ob = ob\<lparr>ob_ledger := l\<rparr>
        in if \<not> status_ok status
           then (status, report, tally (\<lambda>k. k\<lparr>ct_intents_rejected := ct_intents_rejected k + 1\<rparr>) ob)
           else if ic_duplicate_identical report
           then (Status_Ok, report,
                 tally (\<lambda>k. k\<lparr>ct_intents_duplicate_identical := ct_intents_duplicate_identical k + 1\<rparr>) ob)
           else (Status_Ok, report, tally (\<lambda>k. k\<lparr>ct_intents_accepted := ct_intents_accepted k + 1\<rparr>) ob))"

definition target_freshness :: "ObservatoryPolicy \<Rightarrow> TargetId \<Rightarrow> FreshnessPolicy" where
  "target_freshness policy target = (po_freshness policy)\<lparr>fp_ttl_nanos := TtlFor policy target scope_object []\<rparr>"

definition IngestObservation ::
    "ObservationSnapshot \<Rightarrow> NdoTime \<Rightarrow> Observatory \<Rightarrow> Status \<times> ObservationAdmission \<times> Observatory" where
  "IngestObservation snapshot receive_time ob =
     (if not_admitting ob
      then (Status_Precondition RC_None ''the observatory is not started'', blank_admission, ob)
      else
        let c = ob_config ob;
            s = snapshot\<lparr>sn_received_at := receive_time\<rparr>;
            rejected = tally (\<lambda>k. k\<lparr>ct_observations_rejected := ct_observations_rejected k + 1\<rparr>)
        in if oc_require_registered_sources c \<and> map_of (ob_sources ob) (sn_source s) = None
           then (Status_NotFound RC_AuthorityMismatch ''the observation source is not registered'', blank_admission, rejected ob)
           else
             let verdict = EvaluateFreshness s (target_freshness (oc_policy c) (sn_target s)) receive_time (oc_epoch c) False;
                 (status, report, l) = RecordObservation s verdict False (ob_ledger ob);
                 ob = ob\<lparr>ob_ledger := l\<rparr>
             in if \<not> status_ok status then (status, report, rejected ob)
                else if oa_duplicate_identical report
                then (Status_Ok, report,
                      tally (\<lambda>k. k\<lparr>ct_observations_duplicate_identical := ct_observations_duplicate_identical k + 1\<rparr>) ob)
                else
                  let ob = tally (\<lambda>k. k\<lparr>ct_observations_accepted := ct_observations_accepted k + 1\<rparr>) ob
                  in (Status_Ok, report,
                      if oa_superseded_older report
                      then tally (\<lambda>k. k\<lparr>ct_observations_superseded := ct_observations_superseded k + 1\<rparr>) ob else ob))"

section \<open>Evaluation\<close>

record EvaluationInput =
  ei_now :: NdoTime
  ei_epoch :: FabricEpoch
  ei_incarnation :: Incarnation
  ei_policy :: PolicyId
  ei_policy_digest :: Digest
  ei_resolution_confirmations :: u32
  ei_sequence :: u64
  ei_targets :: "TargetComparisonInput list"

text \<open>Evidence that survived a restart is not judged again; everything else is judged at \<open>now\<close>.\<close>

definition retained_verdict ::
    "ObservatoryPolicy \<Rightarrow> FabricEpoch \<Rightarrow> NdoTime \<Rightarrow> TargetId \<Rightarrow> RetainedObservation \<Rightarrow> FreshnessVerdict" where
  "retained_verdict policy epoch now target r =
     (if ro_recovered r
      then default_verdict\<lparr>fv_state := FR_RecoveredNotFresh, fv_reason := RC_EvidenceRecoveredNotFresh,
             fv_may_support_compliance := False, fv_may_assert_absence := False,
             fv_age_nanos := (case TryDifference now (sn_collected_at (ro_snapshot r)) of None \<Rightarrow> 0 | Some age \<Rightarrow> age)\<rparr>
      else EvaluateFreshness (ro_snapshot r) (target_freshness policy target) now epoch False)"

definition evaluation_targets :: "ObservatoryPolicy \<Rightarrow> Ledger \<Rightarrow> TargetId list" where
  "evaluation_targets policy l = sort_unique (Targets l @ po_required_targets policy)"

definition comparison_input ::
    "(TargetId \<Rightarrow> RetainedObservation \<Rightarrow> FreshnessVerdict) \<Rightarrow> Ledger \<Rightarrow> TargetId \<Rightarrow> TargetComparisonInput" where
  "comparison_input verdict l target =
     \<lparr>ci_target = target, ci_baseline = FindBaseline target l,
      ci_snapshots = map (\<lambda>r. Some (ro_snapshot r)) (ObservationsFor target l),
      ci_freshness = map (verdict target) (ObservationsFor target l)\<rparr>"

definition BuildEvaluationInput :: "NdoTime \<Rightarrow> Observatory \<Rightarrow> EvaluationInput" where
  "BuildEvaluationInput now ob =
     (let c = ob_config ob in
      \<lparr>ei_now = now, ei_epoch = oc_epoch c, ei_incarnation = oc_incarnation c, ei_policy = po_id (oc_policy c),
       ei_policy_digest = Policy_ComputeDigest (oc_policy c), ei_resolution_confirmations = 1,
       ei_sequence = ob_evaluation_sequence ob + 1,
       ei_targets = map (comparison_input (retained_verdict (oc_policy c) (oc_epoch c) now) (ob_ledger ob))
         (evaluation_targets (oc_policy c) (ob_ledger ob))\<rparr>)"

definition begin_evaluation :: "NdoTime \<Rightarrow> Observatory \<Rightarrow> EvaluationInput Result \<times> Observatory" where
  "begin_evaluation now ob =
     (if not_admitting ob then (Inl (Status_Precondition RC_None ''the observatory is not started''), ob)
      else if ob_cancelled ob
      then (Inl (Status_Cancelled RC_None ''cancellation is requested''),
            tally (\<lambda>k. k\<lparr>ct_evaluations_cancelled := ct_evaluations_cancelled k + 1\<rparr>) ob)
      else (Inr ((BuildEvaluationInput now ob)
                   \<lparr>ei_resolution_confirmations := po_resolution_confirmations (oc_policy (ob_config ob))\<rparr>),
            ob\<lparr>ob_active_evaluations := ob_active_evaluations ob + 1\<rparr>))"

definition default_evaluation :: TargetEvaluation where
  "default_evaluation =
     \<lparr>tv_target = [], tv_has_baseline = False, tv_baseline_generation = 0, tv_baseline_epoch = 0,
      tv_baseline_authority = IA_Unknown, tv_best_freshness = FR_Unknown, tv_sources_considered = 0,
      tv_fresh_sources = 0, tv_compliance_decidable = False, tv_compliant = False,
      tv_decision_reason = RC_NoFreshEvidence, tv_drafts = [], tv_trace = []\<rparr>"

text \<open>
  \<open>stop i\<close> says whether the worker that reaches target \<open>i\<close> sees a cancellation or a stop there; it
  then abandons the rest of its range.
\<close>

definition write_target :: "EvaluationInput \<Rightarrow> ObservatoryPolicy \<Rightarrow> RuntimeLimits \<Rightarrow> nat \<Rightarrow> TargetEvaluation list \<Rightarrow> TargetEvaluation list" where
  "write_target input policy lim i out = out[i := CompareTarget (ei_targets input ! i) policy lim]"

definition EvaluateTargetRange ::
    "(nat \<Rightarrow> bool) \<Rightarrow> EvaluationInput \<Rightarrow> ObservatoryPolicy \<Rightarrow> RuntimeLimits \<Rightarrow> nat \<Rightarrow> nat \<Rightarrow> TargetEvaluation list \<Rightarrow> TargetEvaluation list" where
  "EvaluateTargetRange stop input policy lim lo hi out =
     fold (write_target input policy lim) (takeWhile (\<lambda>i. \<not> stop i) [lo..<hi]) out"

definition worker_count :: "ObservatoryConfig \<Rightarrow> nat \<Rightarrow> nat" where
  "worker_count c n =
     min (if oc_evaluation_workers c = 0 then 1 else oc_evaluation_workers c) (if n = 0 then 1 else n)"

definition worker_range :: "nat \<Rightarrow> nat \<Rightarrow> nat \<Rightarrow> nat \<times> nat" where
  "worker_range workers n worker =
     (let per_worker = (n + workers - 1) div workers; lo = worker * per_worker
      in (lo, min (lo + per_worker) n))"

definition evaluate_targets ::
    "(nat \<Rightarrow> bool) \<Rightarrow> ObservatoryConfig \<Rightarrow> EvaluationInput \<Rightarrow> ObservatoryPolicy \<Rightarrow> TargetEvaluation list" where
  "evaluate_targets stop c input policy =
     (let n = length (ei_targets input);
          workers = worker_count c n;
          blank = replicate n default_evaluation
      in if workers \<le> 1 then EvaluateTargetRange stop input policy (oc_limits c) 0 n blank
         else fold (\<lambda>worker out.
             let (lo, hi) = worker_range workers n worker
             in if lo \<ge> hi then out else EvaluateTargetRange stop input policy (oc_limits c) lo hi out)
           [0..<workers] blank)"

definition outcome_of :: "EvaluationInput \<Rightarrow> TargetEvaluation list \<Rightarrow> EvaluationOutcome" where
  "outcome_of input targets =
     \<lparr>eo_now = ei_now input, eo_epoch = ei_epoch input, eo_incarnation = ei_incarnation input,
      eo_policy = ei_policy input, eo_policy_digest = ei_policy_digest input,
      eo_resolution_confirmations = ei_resolution_confirmations input, eo_sequence = ei_sequence input,
      eo_targets = targets\<rparr>"

definition publish_outcome ::
    "(u64 \<Rightarrow> string) \<Rightarrow> EvaluationInput \<Rightarrow> ObservatoryPolicy \<Rightarrow> EvaluationOutcome \<Rightarrow> bool \<Rightarrow> Observatory
       \<Rightarrow> EvaluationOutcome Result \<times> Observatory" where
  "publish_outcome dt input policy outcome apply_it ob =
     (let ob = ob\<lparr>ob_active_evaluations := ob_active_evaluations ob - 1\<rparr>;
          cancelled = tally (\<lambda>k. k\<lparr>ct_evaluations_cancelled := ct_evaluations_cancelled k + 1\<rparr>);
          counted = tally (\<lambda>k. k\<lparr>ct_evaluations := ct_evaluations k + 1\<rparr>)
      in if ob_cancelled ob
         then (Inl (Status_Cancelled RC_None ''the evaluation was cancelled; no outcome was published''), cancelled ob)
         else if ob_stopping ob \<or> not_admitting ob
         then (Inl (Status_Cancelled RC_None ''the observatory stopped before the outcome was published''), cancelled ob)
         else if ei_epoch input \<noteq> oc_epoch (ob_config ob) \<or> ei_incarnation input \<noteq> oc_incarnation (ob_config ob)
         then (Inl (Status_Stale RC_FencedStaleEpoch
                 ''the epoch or incarnation changed while the evaluation was running''),
               tally (\<lambda>k. k\<lparr>ct_evaluations_fenced := ct_evaluations_fenced k + 1\<rparr>) ob)
         else if \<not> apply_it then (Inr outcome, counted ob)
         else
           let (status, report, l) = ApplyEvaluation dt outcome policy (ei_now input) (ob_ledger ob);
               ob = ob\<lparr>ob_ledger := l\<rparr>
           in if \<not> status_ok status then (Inl status, ob)
              else (Inr outcome, counted (tally (\<lambda>k. k\<lparr>
                      ct_findings_created := ct_findings_created k + of_nat (la_created report),
                      ct_findings_resolved := ct_findings_resolved k + of_nat (la_resolved report),
                      ct_findings_reopened := ct_findings_reopened k + of_nat (la_reopened report),
                      ct_findings_suppressed := ct_findings_suppressed k + of_nat (la_suppressed report)\<rparr>) ob)))"

text \<open>An evaluation nothing interferes with.\<close>

definition EvaluateAt :: "(u64 \<Rightarrow> string) \<Rightarrow> NdoTime \<Rightarrow> bool \<Rightarrow> Observatory \<Rightarrow> EvaluationOutcome Result \<times> Observatory" where
  "EvaluateAt dt now apply_it ob =
     (case begin_evaluation now ob of
        (Inl status, ob) \<Rightarrow> (Inl status, ob)
      | (Inr input, ob) \<Rightarrow>
          let policy = oc_policy (ob_config ob);
              outcome = outcome_of input (evaluate_targets (\<lambda>_. ob_cancelled ob \<or> ob_stopping ob) (ob_config ob) input policy)
          in publish_outcome dt input policy outcome apply_it ob)"

section \<open>Operator actions and policy\<close>

definition SuppressFinding ::
    "(u64 \<Rightarrow> string) \<Rightarrow> FindingId \<Rightarrow> ActorId \<Rightarrow> string \<Rightarrow> NdoTime option \<Rightarrow> NdoTime \<Rightarrow> Observatory \<Rightarrow> Status \<times> Observatory" where
  "SuppressFinding dt fid actor reason expires_at now ob =
     (let (status, l) = Suppress dt fid actor reason expires_at now (ob_ledger ob);
          ob = ob\<lparr>ob_ledger := l\<rparr>
      in (status, if status_ok status
                  then tally (\<lambda>k. k\<lparr>ct_findings_suppressed := ct_findings_suppressed k + 1\<rparr>) ob else ob))"

definition AcknowledgeFinding ::
    "(u64 \<Rightarrow> string) \<Rightarrow> FindingId \<Rightarrow> ActorId \<Rightarrow> string \<Rightarrow> NdoTime \<Rightarrow> Observatory \<Rightarrow> Status \<times> Observatory" where
  "AcknowledgeFinding dt fid actor reason now ob =
     (let (status, l) = Acknowledge dt fid actor reason now (ob_ledger ob);
          ob = ob\<lparr>ob_ledger := l\<rparr>
      in (status, if status_ok status
                  then tally (\<lambda>k. k\<lparr>ct_acknowledgements := ct_acknowledgements k + 1\<rparr>) ob else ob))"

definition ClearSuppression_engine ::
    "(u64 \<Rightarrow> string) \<Rightarrow> FindingId \<Rightarrow> ActorId \<Rightarrow> NdoTime \<Rightarrow> Observatory \<Rightarrow> Status \<times> Observatory" where
  "ClearSuppression_engine dt fid actor now ob =
     (let (status, l) = ClearSuppression dt fid actor now (ob_ledger ob) in (status, ob\<lparr>ob_ledger := l\<rparr>))"

definition ClearAcknowledgement_engine ::
    "(u64 \<Rightarrow> string) \<Rightarrow> FindingId \<Rightarrow> ActorId \<Rightarrow> NdoTime \<Rightarrow> Observatory \<Rightarrow> Status \<times> Observatory" where
  "ClearAcknowledgement_engine dt fid actor now ob =
     (let (status, l) = ClearAcknowledgement dt fid actor now (ob_ledger ob) in (status, ob\<lparr>ob_ledger := l\<rparr>))"

definition ExpireSuppressions_engine :: "(u64 \<Rightarrow> string) \<Rightarrow> NdoTime \<Rightarrow> Observatory \<Rightarrow> nat \<times> Observatory" where
  "ExpireSuppressions_engine dt now ob =
     (let (n, l) = ExpireSuppressions dt now (ob_ledger ob) in (n, ob\<lparr>ob_ledger := l\<rparr>))"

definition policy_event :: "ObservatoryPolicy \<Rightarrow> Digest \<Rightarrow> NdoTime \<Rightarrow> TimelineEntry" where
  "policy_event policy previous now =
     \<lparr>te_kind = TK_Updated, te_target = ''policy'', te_object = ''policy'', te_finding = Digest_unset,
      te_sequence = 0, te_at = now, te_state_after = FS_Open, te_klass = DC_None, te_severity = SV_Info,
      te_reason = RC_None, te_baseline_generation = 0, te_baseline_epoch = 0,
      te_evidence_digest = Digest_unset, te_actor = [],
      te_detail = ''policy '' @ po_id policy @ '' installed; previous digest '' @ ToShortHex previous\<rparr>"

definition SetPolicy :: "ObservatoryPolicy \<Rightarrow> NdoTime \<Rightarrow> Observatory \<Rightarrow> Status \<times> Observatory" where
  "SetPolicy policy now ob =
     (let c = ob_config ob; status = Policy_Validate (oc_limits c) policy in
      if \<not> status_ok status then (status, ob)
      else
        let previous = Policy_ComputeDigest (oc_policy c);
            ob = tally (\<lambda>k. k\<lparr>ct_policy_changes := ct_policy_changes k + 1\<rparr>) (ob\<lparr>ob_config := c\<lparr>oc_policy := policy\<rparr>\<rparr>)
        in (Status_Ok, ob\<lparr>ob_ledger := RecordEvent (policy_event policy previous now) (ob_ledger ob)\<rparr>))"

section \<open>Inspection\<close>

definition Query :: "QuerySpec \<Rightarrow> NdoTime \<Rightarrow> Observatory \<Rightarrow> QueryResult Result" where
  "Query spec now ob = ExecuteQuery (Findings (ob_ledger ob)) spec now"

definition QueryTimeline :: "TimelineSpec \<Rightarrow> Observatory \<Rightarrow> TimelinePage Result" where
  "QueryTimeline spec ob = ExecuteTimelineQuery (GlobalTimeline (ob_ledger ob)) spec"

record ReportSpec =
  rs_id :: string
  rs_target :: "TargetId option"
  rs_include_resolved :: bool
  rs_include_superseded :: bool
  rs_include_suppressed :: bool
  rs_include_timeline :: bool
  rs_include_evidence :: bool
  rs_include_groups :: bool
  rs_include_reconciliation_requests :: bool
  rs_max_findings :: nat
  rs_note :: string

record ReportInputs =
  ri_generated_at :: NdoTime
  ri_policy :: PolicyId
  ri_policy_digest :: Digest
  ri_epoch :: FabricEpoch
  ri_incarnation :: Incarnation
  ri_revision :: LedgerRevision
  ri_stats :: LedgerStats
  ri_counters :: ObservatoryCounters
  ri_findings :: "Finding list"
  ri_groups :: "RootCauseGroup list"
  ri_timeline :: "TimelineEntry list"
  ri_matching_findings :: nat
  ri_timeline_entries :: nat
  ri_truncated :: bool
  ri_started :: bool
  ri_state_digest :: Digest

definition report_includes :: "ReportSpec \<Rightarrow> Finding \<Rightarrow> bool" where
  "report_includes spec f \<longleftrightarrow>
     \<not> (case rs_target spec of None \<Rightarrow> False | Some t \<Rightarrow> id_target (f_identity f) \<noteq> t) \<and>
     \<not> (\<not> rs_include_resolved spec \<and> f_state f = FS_Resolved) \<and>
     \<not> (\<not> rs_include_superseded spec \<and> f_state f = FS_Superseded) \<and>
     \<not> (\<not> rs_include_suppressed spec \<and> f_state f = FS_Suppressed)"

definition CollectReportInputs :: "ReportSpec \<Rightarrow> NdoTime \<Rightarrow> Observatory \<Rightarrow> ReportInputs" where
  "CollectReportInputs spec stamp ob =
     (let c = ob_config ob; l = ob_ledger ob;
          budget = min (rs_max_findings spec) (max_report_findings (oc_limits c));
          matching = filter (report_includes spec) (Findings l);
          groups = (if rs_include_groups spec
            then filter (\<lambda>g. case rs_target spec of None \<Rightarrow> True | Some t \<Rightarrow> rg_target g = t) (Groups l) else []);
          timeline = (if rs_include_timeline spec
            then filter (\<lambda>e. case rs_target spec of None \<Rightarrow> True | Some t \<Rightarrow> te_target e = [] \<or> te_target e = t) (GlobalTimeline l)
            else [])
      in \<lparr>ri_generated_at = stamp, ri_policy = po_id (oc_policy c), ri_policy_digest = Policy_ComputeDigest (oc_policy c),
          ri_epoch = oc_epoch c, ri_incarnation = oc_incarnation c, ri_revision = l_revision l, ri_stats = Stats l,
          ri_counters = ob_counters ob, ri_findings = take budget matching, ri_groups = groups,
          ri_timeline = timeline, ri_matching_findings = length (take budget matching),
          ri_timeline_entries = length timeline, ri_truncated = (length matching > budget),
          ri_started = ob_started ob, ri_state_digest = ContentDigest l\<rparr>)"

section \<open>One evaluation without a runtime\<close>

definition once_verdict ::
    "ObservatoryPolicy \<Rightarrow> FabricEpoch \<Rightarrow> NdoTime \<Rightarrow> TargetId \<Rightarrow> RetainedObservation \<Rightarrow> FreshnessVerdict" where
  "once_verdict policy epoch now target r =
     (if ro_recovered r
      then default_verdict\<lparr>fv_state := FR_RecoveredNotFresh, fv_reason := RC_EvidenceRecoveredNotFresh\<rparr>
      else EvaluateFreshness (ro_snapshot r) (target_freshness policy target) now epoch False)"

definition EvaluateLedgerOnce ::
    "Ledger \<Rightarrow> ObservatoryPolicy \<Rightarrow> RuntimeLimits \<Rightarrow> FabricEpoch \<Rightarrow> Incarnation \<Rightarrow> NdoTime \<Rightarrow> EvaluationOutcome Result" where
  "EvaluateLedgerOnce l policy lim epoch incarnation now =
     (let status = Policy_Validate lim policy in
      if \<not> status_ok status then Inl status
      else Inr \<lparr>eo_now = now, eo_epoch = epoch, eo_incarnation = incarnation, eo_policy = po_id policy,
             eo_policy_digest = Policy_ComputeDigest policy,
             eo_resolution_confirmations = po_resolution_confirmations policy, eo_sequence = 0,
             eo_targets = map (\<lambda>t. CompareTarget (comparison_input (once_verdict policy epoch now) l t) policy lim)
               (evaluation_targets policy l)\<rparr>)"

end
