(* ===== verification/NDO_Engine_Safety.thy ===== *)
theory NDO_Engine_Safety
  imports NDO_Engine
begin

text \<open>
  What the observatory guarantees across threads and across its lifecycle: the result of a parallel
  evaluation does not depend on the workers or on how their writes interleave; an evaluation that
  overlaps a change of incarnation publishes nothing; every reachable state is well formed; after a
  restart the retained evidence closes nothing.
\<close>

section \<open>Parallel evaluation\<close>

text \<open>
  The targets each worker thread writes, in its own order, and the orders in which the writes of all
  workers can happen.
\<close>

definition worker_schedule :: "(nat \<Rightarrow> bool) \<Rightarrow> ObservatoryConfig \<Rightarrow> nat \<Rightarrow> nat list list" where
  "worker_schedule stop c n =
     (let workers = worker_count c n in
      if workers \<le> 1 then [takeWhile (\<lambda>i. \<not> stop i) [0..<n]]
      else map (\<lambda>w. let (lo, hi) = worker_range workers n w in takeWhile (\<lambda>i. \<not> stop i) [lo..<hi]) [0..<workers])"

inductive interleaves :: "nat list list \<Rightarrow> nat list \<Rightarrow> bool" where
  joined: "\<forall>xs \<in> set xss. xs = [] \<Longrightarrow> interleaves xss []"
| store: "w < length xss \<Longrightarrow> xss ! w = i # rest \<Longrightarrow> interleaves (xss[w := rest]) ys \<Longrightarrow> interleaves xss (i # ys)"

lemma interleaves_set: "interleaves xss ys \<Longrightarrow> set ys = (\<Union>xs \<in> set xss. set xs)"
proof (induction rule: interleaves.induct)
  case (joined xss)
  then show ?case by force
next
  case (store w xss i rest ys)
  have split: "xss = take w xss @ (i # rest) # drop (Suc w) xss"
    using id_take_nth_drop [OF store(1)] store(2) by simp
  have upd: "xss[w := rest] = take w xss @ rest # drop (Suc w) xss"
    using store(1) by (rule upd_conv_take_nth_drop)
  have "(\<Union>xs \<in> set xss. set xs) = insert i (\<Union>xs \<in> set (xss[w := rest]). set xs)"
    unfolding upd by (subst split) auto
  then show ?case using store.IH by simp
qed

lemma fold_write_length [simp]: "length (fold (write_target input policy lim) ys out) = length out"
  by (induction ys arbitrary: out) (simp_all add: write_target_def)

lemma fold_write_nth:
  "i < length out \<Longrightarrow> fold (write_target input policy lim) ys out ! i =
     (if i \<in> set ys then CompareTarget (ei_targets input ! i) policy lim else out ! i)"
  by (induction ys arbitrary: out) (auto simp: write_target_def nth_list_update)

lemma fold_write_cong:
  assumes "set ys = set zs"
  shows "fold (write_target input policy lim) ys out = fold (write_target input policy lim) zs out"
  using assms by (intro nth_equalityI) (simp_all add: fold_write_nth)

text \<open>The sequential model is the schedule that runs the workers one after another.\<close>

lemma fold_EvaluateTargetRange:
  "fold (\<lambda>w out. let (lo, hi) = r w in if lo \<ge> hi then out else EvaluateTargetRange stop input policy lim lo hi out) ws out =
   fold (write_target input policy lim)
     (concat (map (\<lambda>w. let (lo, hi) = r w in takeWhile (\<lambda>i. \<not> stop i) [lo..<hi]) ws)) out"
  by (induction ws arbitrary: out) (auto simp: EvaluateTargetRange_def Let_def split: prod.splits)

lemma evaluate_targets_schedule:
  "evaluate_targets stop c input policy =
     fold (write_target input policy (oc_limits c)) (concat (worker_schedule stop c (length (ei_targets input))))
       (replicate (length (ei_targets input)) default_evaluation)"
  by (simp add: evaluate_targets_def worker_schedule_def Let_def EvaluateTargetRange_def
      fold_EvaluateTargetRange [unfolded Let_def])

lemma worker_ranges_cover:
  assumes "i < n" and "workers > 0"
  shows "\<exists>w < workers. case worker_range workers n w of (lo, hi) \<Rightarrow> lo \<le> i \<and> i < hi"
proof -
  define per where "per = (n + workers - 1) div workers"
  have reach: "n \<le> workers * per"
  proof -
    have "(n + workers - 1) mod workers < workers" using assms(2) by simp
    moreover have "workers * per + (n + workers - 1) mod workers = n + workers - 1"
      by (simp add: per_def mult_div_mod_eq)
    ultimately show ?thesis using assms by linarith
  qed
  then have pos: "per > 0" using assms(1) by (cases per) simp_all
  have lo: "i div per * per \<le> i" by simp
  have hi: "i < i div per * per + per" using pos by (simp add: dividend_less_div_times add.commute)
  have "i div per < workers" using assms(1) reach pos by (simp add: div_less_iff_less_mult)
  moreover have "worker_range workers n (i div per) = (i div per * per, min (i div per * per + per) n)"
    by (simp add: worker_range_def per_def Let_def)
  ultimately show ?thesis using lo hi assms(1) by (intro exI [of _ "i div per"]) simp
qed

lemma schedule_complete:
  assumes "\<And>i. i < n \<Longrightarrow> \<not> stop i" and "i < n"
  shows "i \<in> set (concat (worker_schedule stop c n))"
proof -
  have keep: "takeWhile (\<lambda>i. \<not> stop i) [lo..<hi] = [lo..<hi]" if "hi \<le> n" for lo hi
    using that assms(1) by (simp add: takeWhile_eq_all_conv)
  have fits: "snd (worker_range workers n w) \<le> n" for workers w by (simp add: worker_range_def Let_def)
  show ?thesis
  proof (cases "worker_count c n \<le> 1")
    case True
    then have "worker_schedule stop c n = [[0..<n]]" by (simp add: worker_schedule_def keep)
    then show ?thesis using assms(2) by simp
  next
    case False
    obtain w lo hi where w: "w < worker_count c n" "worker_range (worker_count c n) n w = (lo, hi)" "lo \<le> i" "i < hi"
      using worker_ranges_cover [OF assms(2), of "worker_count c n"] False by auto
    then have "[lo..<hi] \<in> set (worker_schedule stop c n)"
      using False keep [of hi lo] fits [of "worker_count c n" w]
      by (auto simp: worker_schedule_def Let_def image_iff simp del: takeWhile_eq_all_conv intro!: bexI [of _ w])
    then show ?thesis using w by (auto intro!: bexI [of _ "[lo..<hi]"])
  qed
qed

text \<open>
  C19. Parallel evaluation is deterministic: for every worker count, and however the writes of the
  worker threads interleave, the targets' results are those of the one-after-another run, and unless
  some worker saw a cancellation they are the comparison of every target.
\<close>

theorem evaluation_worker_independent:
  assumes "interleaves (worker_schedule stop c (length (ei_targets input))) ys"
  shows "fold (write_target input policy (oc_limits c)) ys (replicate (length (ei_targets input)) default_evaluation) =
           evaluate_targets stop c input policy \<and>
         (if list_ex stop [0..<length (ei_targets input)] then True
          else evaluate_targets stop c input policy = map (\<lambda>t. CompareTarget t policy (oc_limits c)) (ei_targets input))"
proof (intro conjI)
  show "fold (write_target input policy (oc_limits c)) ys (replicate (length (ei_targets input)) default_evaluation) =
          evaluate_targets stop c input policy"
    unfolding evaluate_targets_schedule by (intro fold_write_cong) (simp add: interleaves_set [OF assms])
  show "if list_ex stop [0..<length (ei_targets input)] then True
        else evaluate_targets stop c input policy = map (\<lambda>t. CompareTarget t policy (oc_limits c)) (ei_targets input)"
    unfolding evaluate_targets_schedule
    by (auto intro!: nth_equalityI schedule_complete simp: fold_write_nth list_ex_iff simp del: set_concat)
qed

definition example_config :: "nat \<Rightarrow> ObservatoryConfig" where
  "example_config workers =
     \<lparr>oc_policy = Policy_Default\<lparr>po_evidence := EC_Real\<rparr>, oc_limits = default_limits, oc_epoch = 1, oc_incarnation = 1,
      oc_evaluation_workers = workers, oc_require_started = True, oc_require_registered_sources = False\<rparr>"

definition example_input :: "NdoTime \<Rightarrow> TargetId list \<Rightarrow> EvaluationInput" where
  "example_input now ts =
     \<lparr>ei_now = now, ei_epoch = 1, ei_incarnation = 1, ei_policy = [], ei_policy_digest = Digest_unset,
      ei_resolution_confirmations = 1, ei_sequence = 1,
      ei_targets = map (\<lambda>t. \<lparr>ci_target = t, ci_baseline = None, ci_snapshots = [], ci_freshness = []\<rparr>) ts\<rparr>"

text \<open>Three targets on two workers, the second worker writing first.\<close>

theorem evaluation_worker_independent_witness:
  "fold (write_target (example_input 0 [''a'', ''b'', ''c'']) Policy_Default default_limits) [2, 0, 1]
     (replicate 3 default_evaluation) =
   map (\<lambda>t. CompareTarget t Policy_Default default_limits) (ei_targets (example_input 0 [''a'', ''b'', ''c'']))"
proof -
  have n: "length (ei_targets (example_input 0 [''a'', ''b'', ''c''])) = 3" by (simp add: example_input_def)
  have lim: "oc_limits (example_config 2) = default_limits" by (simp add: example_config_def)
  have sched: "worker_schedule (\<lambda>_. False) (example_config 2) 3 = [[0, 1], [2]]"
    by (simp add: worker_schedule_def worker_count_def worker_range_def example_config_def Let_def upt_rec)
  have "interleaves [[0, 1], [2]] [2, 0, 1]"
    by (rule store [where w = 1 and rest = "[]"], simp, simp, rule store [where w = 0 and rest = "[1]"], simp, simp,
        rule store [where w = 0 and rest = "[]"], simp, simp, rule joined, simp)
  then show ?thesis
    using evaluation_worker_independent [of "\<lambda>_. False" "example_config 2" "example_input 0 [''a'', ''b'', ''c'']" "[2, 0, 1]" Policy_Default]
    by (simp add: n lim sched list_ex_iff)
qed

section \<open>Atomic calls\<close>

text \<open>
  Everything that changes the observatory, one critical section per step, with any arguments and
  outcome; an evaluation contributes its opening and its closing section.
\<close>

inductive engine_call :: "(u64 \<Rightarrow> string) \<Rightarrow> Observatory \<Rightarrow> Observatory \<Rightarrow> bool" for dt where
  start: "Start ob = (st, ob') \<Longrightarrow> engine_call dt ob ob'"
| stop: "Stop ob = ob' \<Longrightarrow> engine_call dt ob ob'"
| rotate: "RotateIncarnation i e now ob = (st, ob') \<Longrightarrow> engine_call dt ob ob'"
| cancel: "RequestCancellation ob = ob' \<Longrightarrow> engine_call dt ob ob'"
| uncancel: "ClearCancellation ob = ob' \<Longrightarrow> engine_call dt ob ob'"
| register: "RegisterSource d ob = (st, ob') \<Longrightarrow> engine_call dt ob ob'"
| intent: "PublishIntent dt doc now ob = (st, crep, ob') \<Longrightarrow> engine_call dt ob ob'"
| ingest: "IngestObservation s now ob = (st, orep, ob') \<Longrightarrow> engine_call dt ob ob'"
| opened: "begin_evaluation now ob = (r, ob') \<Longrightarrow> engine_call dt ob ob'"
| closed: "publish_outcome dt input policy outcome apply_it ob = (r, ob') \<Longrightarrow> engine_call dt ob ob'"
| suppress: "SuppressFinding dt fid actor reason expires now ob = (st, ob') \<Longrightarrow> engine_call dt ob ob'"
| unsuppress: "ClearSuppression_engine dt fid actor now ob = (st, ob') \<Longrightarrow> engine_call dt ob ob'"
| acknowledge: "AcknowledgeFinding dt fid actor reason now ob = (st, ob') \<Longrightarrow> engine_call dt ob ob'"
| unacknowledge: "ClearAcknowledgement_engine dt fid actor now ob = (st, ob') \<Longrightarrow> engine_call dt ob ob'"
| expire: "ExpireSuppressions_engine dt now ob = (n, ob') \<Longrightarrow> engine_call dt ob ob'"
| policy: "SetPolicy p now ob = (st, ob') \<Longrightarrow> engine_call dt ob ob'"

lemmas engine_defs = Start_def Stop_def RotateIncarnation_def RequestCancellation_def ClearCancellation_def
  RegisterSource_def PublishIntent_def IngestObservation_def begin_evaluation_def publish_outcome_def SuppressFinding_def
  ClearSuppression_engine_def AcknowledgeFinding_def ClearAcknowledgement_engine_def ExpireSuppressions_engine_def
  SetPolicy_def tally_def

text \<open>No call lowers the incarnation, and none changes the envelope.\<close>

definition later_config :: "ObservatoryConfig \<Rightarrow> ObservatoryConfig \<Rightarrow> bool" where
  "later_config c c' \<longleftrightarrow> oc_incarnation c \<le> oc_incarnation c' \<and> oc_epoch c \<le> oc_epoch c' \<and> oc_limits c' = oc_limits c \<and>
     oc_evaluation_workers c' = oc_evaluation_workers c \<and> oc_require_started c' = oc_require_started c"

lemma later_config_refl [simp]: "later_config c c"
  by (simp add: later_config_def)

lemma later_config_trans [trans]: "later_config a b \<Longrightarrow> later_config b c \<Longrightarrow> later_config a c"
  by (auto simp: later_config_def)

lemma engine_call_later: "engine_call dt ob ob' \<Longrightarrow> later_config (ob_config ob) (ob_config ob')"
proof (induction rule: engine_call.induct)
  case (rotate i e now ob st ob')
  then show ?case by (auto simp: engine_defs Let_def later_config_def split: if_splits)
next
  case (policy p now ob st ob')
  then show ?case by (auto simp: engine_defs Let_def later_config_def split: if_splits)
qed (auto simp: engine_defs Let_def case_prod_beta split: if_splits option.splits)

lemma engine_calls_later: "(engine_call dt)\<^sup>*\<^sup>* ob ob' \<Longrightarrow> later_config (ob_config ob) (ob_config ob')"
  by (induction rule: rtranclp_induct) (auto intro: later_config_trans engine_call_later)

text \<open>
  C7. An evaluation that overlaps a change of incarnation publishes nothing: once the incarnation has
  been rotated, whatever else happened before and after, closing the evaluation returns an error and
  leaves the ledger as it is.
\<close>

theorem stale_evaluation_never_published:
  assumes "begin_evaluation now ob0 = (Inr input, ob1)" and "(engine_call dt)\<^sup>*\<^sup>* ob1 ob2"
    and "RotateIncarnation i e t ob2 = (st, ob3)" and "status_ok st" and "(engine_call dt)\<^sup>*\<^sup>* ob3 ob4"
    and "publish_outcome dt input policy outcome apply_it ob4 = (r, ob5)"
  shows "\<exists>st. r = Inl st \<and> \<not> status_ok st \<and> ob_ledger ob5 = ob_ledger ob4"
proof -
  have "ei_incarnation input = oc_incarnation (ob_config ob0)" "ob_config ob1 = ob_config ob0"
    using assms(1) by (auto simp: begin_evaluation_def BuildEvaluationInput_def Let_def tally_def split: if_splits)
  then have "ei_incarnation input \<le> oc_incarnation (ob_config ob2)"
    using engine_calls_later [OF assms(2)] by (simp add: later_config_def)
  moreover have "oc_incarnation (ob_config ob2) < oc_incarnation (ob_config ob3)"
    using assms(3,4) by (auto simp: RotateIncarnation_def Let_def tally_def status_ok_def mk_status_def split: if_splits)
  ultimately have "ei_incarnation input < oc_incarnation (ob_config ob4)"
    using engine_calls_later [OF assms(5)] by (auto simp: later_config_def)
  then show ?thesis using assms(6)
    by (auto simp: publish_outcome_def Let_def tally_def status_ok_def mk_status_def split: if_splits)
qed

definition example_observatory :: "nat \<Rightarrow> Observatory" where
  "example_observatory workers = snd (Start (Observatory_new (example_config workers)))"

section \<open>The observatory's invariant\<close>

lemma ExpireSuppressions_limits: "l_limits (snd (ExpireSuppressions dt now l)) = l_limits l"
  using expiry.pass_store [of "(0, l)" dt now "l_findings l"]
  by (auto simp: ExpireSuppressions_def Let_def frame_simps same_store_def split: prod.splits)

lemma CommitIntent_limits:
  assumes "CommitIntent dt d now l = (st, rep, l')"
  shows "l_limits l' = l_limits l"
  using assms
  by (auto simp: CommitIntent_def commit_first_def commit_next_def Let_def frame_simps dest!: RebaseFindings_result
      split: if_splits option.splits prod.splits)

lemma ApplyEvaluation_limits:
  assumes "ApplyEvaluation dt outcome policy now l = (st, rep, l')" and "ledger_ok gapless l"
  shows "l_limits l' = l_limits l"
  using assms(1)
proof (cases rule: ApplyEvaluation_cases)
  case (failed rep0)
  then show ?thesis using apply_targets_formed [OF failed(2)] assms(2) by (simp add: ledger_ok_formed same_ground_def)
next
  case (applied rep0 st1 l1)
  then show ?thesis using apply_targets_formed [OF applied(3)] assms(2)
    by (simp add: applied(4) frame_simps ledger_ok_formed same_ground_def ExpireSuppressions_limits)
qed simp

lemma ledger_step_limits: "ledger_step dt l l' \<Longrightarrow> ledger_ok gapless l \<Longrightarrow> l_limits l' = l_limits l"
proof (induction rule: ledger_step.induct)
  case (admit s v recovered l st orep l')
  from admit(1) show ?case by (cases rule: RecordObservation_cases) (simp_all add: frame_simps)
next
  case (operate a l st l')
  then show ?case using act_result [of dt l a] by (auto simp: action_result_def frame_simps)
next
  case (expire now l n l')
  then show ?case using ExpireSuppressions_limits [of dt now l] by simp
next
  case (event e l l')
  then show ?case by (auto simp: RecordEvent_def frame_simps)
qed (auto dest: CommitIntent_limits InvalidateRetainedEvidence_frame ApplyEvaluation_limits)

text \<open>The observatory changes its ledger through the ledger's own operations only.\<close>

lemma engine_call_ledger:
  "engine_call dt ob ob' \<Longrightarrow>
     ob_ledger ob' \<in> {ob_ledger ob, SetLimits (oc_limits (ob_config ob)) (ob_ledger ob)} \<or> ledger_step dt (ob_ledger ob) (ob_ledger ob')"
proof (induction rule: engine_call.induct)
  case (suppress fid actor reason expires now ob st ob')
  then show ?case using operate [where a = "Act_Suppress fid actor reason expires now"]
    by (auto simp: engine_defs Let_def split: if_splits prod.splits)
next
  case (unsuppress fid actor now ob st ob')
  then show ?case using operate [where a = "Act_ClearSuppression fid actor now"]
    by (auto simp: engine_defs Let_def split: if_splits prod.splits)
next
  case (acknowledge fid actor reason now ob st ob')
  then show ?case using operate [where a = "Act_Acknowledge fid actor reason now"]
    by (auto simp: engine_defs Let_def split: if_splits prod.splits)
next
  case (unacknowledge fid actor now ob st ob')
  then show ?case using operate [where a = "Act_ClearAcknowledgement fid actor now"]
    by (auto simp: engine_defs Let_def split: if_splits prod.splits)
next
  case (rotate i e now ob st ob')
  obtain n l where "InvalidateRetainedEvidence RC_EvidenceRecoveredNotFresh now (ob_ledger ob) = (n, l)" by fastforce
  with rotate invalidate [OF this, of dt] show ?case
    by (auto simp: engine_defs Let_def split: if_splits)
qed (auto simp: engine_defs Let_def intro: commit admit evaluate ledger_step.expire event split: if_splits option.splits prod.splits)

definition admission_ok :: "Observatory \<Rightarrow> bool" where
  "admission_ok ob \<longleftrightarrow>
     (ob_started ob \<longrightarrow> uint_is_set (oc_epoch (ob_config ob)) \<and> uint_is_set (oc_incarnation (ob_config ob)) \<and>
        status_ok (Policy_Validate (oc_limits (ob_config ob)) (oc_policy (ob_config ob))) \<and> \<not> ob_stopping ob)"

definition engine_ok :: "bool \<Rightarrow> Observatory \<Rightarrow> bool" where
  "engine_ok gapless ob \<longleftrightarrow>
     (let c = ob_config ob in
      ledger_ok gapless (ob_ledger ob) \<and> l_limits (ob_ledger ob) = oc_limits c \<and>
      keys_ascending (ob_sources ob) \<and> length (ob_sources ob) \<le> max_sources (oc_limits c) \<and>
      list_all (\<lambda>(k, d). sd_id d = k \<and> IsValidIdentityText k \<and> uint_is_set (sd_incarnation d) \<and> uint_is_set (sd_epoch d))
        (ob_sources ob) \<and>
      oc_evaluation_workers c \<le> max_evaluation_workers (oc_limits c) \<and> admission_ok ob)"

lemma Observatory_new_ok: "engine_ok gapless (Observatory_new config)"
  by (simp add: engine_ok_def admission_ok_def Observatory_new_def clamp_workers_def empty_ledger_ok)
    (simp add: FindingLedger_def Let_def)

lemma SetLimits_same: "l_limits l = lim \<Longrightarrow> SetLimits lim l = l"
  by (auto simp: SetLimits_def)

lemma RegisterSource_ok:
  assumes "RegisterSource d ob = (st, ob')" and "engine_ok gapless ob"
  shows "engine_ok gapless ob'"
proof -
  have "ob' = ob \<or> ob' = ob\<lparr>ob_sources := map_put (sd_id d) d (ob_sources ob)\<rparr> \<and> IsValidIdentityText (sd_id d) \<and>
      uint_is_set (sd_incarnation d) \<and> uint_is_set (sd_epoch d) \<and>
      (map_of (ob_sources ob) (sd_id d) \<noteq> None \<or> length (ob_sources ob) < max_sources (oc_limits (ob_config ob)))"
    using assms(1) by (auto simp: RegisterSource_def Let_def split: if_splits option.splits)
  then show ?thesis using assms(2)
    by (elim disjE conjE)
      (auto simp: engine_ok_def admission_ok_def Let_def keys_ascending_map_put length_map_put list_all_map_put Suc_le_eq)
qed

lemma engine_call_sources: "engine_call dt ob ob' \<Longrightarrow> ob_sources ob' = ob_sources ob \<or> (\<exists>d st. RegisterSource d ob = (st, ob'))"
proof (induction rule: engine_call.induct)
  case (register d ob st ob')
  then show ?case by blast
qed (auto simp: engine_defs Let_def split: if_splits prod.splits)

lemma engine_call_admission: "engine_call dt ob ob' \<Longrightarrow> admission_ok ob \<Longrightarrow> admission_ok ob'"
proof (induction rule: engine_call.induct)
  case (rotate i e now ob st ob')
  then show ?case
    by (auto simp: engine_defs admission_ok_def Let_def uint_is_set_def word_neq_0_conv split: if_splits)
qed (auto simp: engine_defs admission_ok_def Let_def split: if_splits option.splits prod.splits)

lemma engine_call_ok:
  assumes "engine_call dt ob ob'" and ok: "engine_ok gapless ob"
  shows "engine_ok gapless ob'"
proof (cases "\<exists>d st. RegisterSource d ob = (st, ob')")
  case True
  then show ?thesis using RegisterSource_ok ok by blast
next
  case False
  have "ledger_ok gapless (ob_ledger ob) \<and> l_limits (ob_ledger ob) = oc_limits (ob_config ob)" using ok by (simp add: engine_ok_def Let_def)
  then have "ledger_ok gapless (ob_ledger ob') \<and> l_limits (ob_ledger ob') = oc_limits (ob_config ob)"
    using engine_call_ledger [OF assms(1)] by (auto simp: SetLimits_same dest: ledger_step_ok ledger_step_limits)
  then show ?thesis
    using engine_call_sources [OF assms(1)] False engine_call_admission [OF assms(1)] engine_call_later [OF assms(1)] ok
    by (simp add: engine_ok_def admission_ok_def later_config_def Let_def)
qed



section \<open>Restart\<close>

lemma evaluate_targets_entry:
  assumes "ev \<in> set (evaluate_targets stop c input policy)"
  shows "ev = default_evaluation \<or> (\<exists>t \<in> set (ei_targets input). ev = CompareTarget t policy (oc_limits c))"
proof -
  let ?n = "length (ei_targets input)"
  from assms obtain i where i: "i < ?n" "ev = evaluate_targets stop c input policy ! i"
    unfolding evaluate_targets_schedule by (auto simp: in_set_conv_nth)
  then show ?thesis unfolding evaluate_targets_schedule by (auto simp: fold_write_nth)
qed

lemma unusable_undecided:
  assumes "\<forall>v \<in> set (ci_freshness input). \<not> fv_may_support_compliance v"
  shows "\<not> tv_compliance_decidable (CompareTarget input policy limits)"
  using unusable_views [OF assms, of policy]
  by (simp add: CompareTarget_def compare_without_intent_def compare_without_evidence_def Let_def frame_simps split: option.splits)

text \<open>While all the evidence a ledger holds is recovered, no target of an evaluation is decided.\<close>

lemma recovered_undecided:
  assumes "\<And>t r. r \<in> set (ObservationsFor t (ob_ledger ob)) \<Longrightarrow> ro_recovered r"
    and "begin_evaluation now ob = (Inr input, ob1)" and "ev \<in> set (evaluate_targets stop c input policy)"
  shows "\<not> tv_compliance_decidable ev"
proof -
  have "\<forall>v \<in> set (ci_freshness t). \<not> fv_may_support_compliance v" if "t \<in> set (ei_targets input)" for t
    using that assms(1,2)
    by (auto simp: begin_evaluation_def BuildEvaluationInput_def comparison_input_def retained_verdict_def Let_def
        tally_def default_verdict_def split: if_splits)
  then show ?thesis using evaluate_targets_entry [OF assms(3)] unusable_undecided by (auto simp: default_evaluation_def)
qed

lemma publish_keeps_live:
  assumes "publish_outcome dt input policy outcome apply_it ob = (r, ob')" and "ledger_ok gapless (ob_ledger ob)"
    and "FindFinding fid (ob_ledger ob) = Some f" and "IsLiveState (f_state f)"
    and "\<And>ev. ev \<in> set (eo_targets outcome) \<Longrightarrow> \<not> tv_compliance_decidable ev"
  shows "\<exists>g. FindFinding fid (ob_ledger ob') = Some g \<and> f_identity g = f_identity f \<and> IsLiveState (f_state g)"
proof -
  obtain st rep l' where a: "ApplyEvaluation dt outcome policy (ei_now input) (ob_ledger ob) = (st, rep, l')" by (metis prod_cases3)
  have "ob_ledger ob' = ob_ledger ob \<or> ob_ledger ob' = l'"
    using assms(1) a by (auto simp: publish_outcome_def tally_def Let_def split: if_splits)
  then show ?thesis using ApplyEvaluation_findings [OF a assms(2,3)] assms(3-5) by auto
qed

lemma evaluation_keeps_live:
  assumes "ledger_ok gapless (ob_ledger ob)" and "\<And>t r. r \<in> set (ObservationsFor t (ob_ledger ob)) \<Longrightarrow> ro_recovered r"
    and "EvaluateAt dt now apply_it ob = (r, ob2)"
    and "FindFinding fid (ob_ledger ob) = Some f" and "IsLiveState (f_state f)"
  shows "\<exists>g. FindFinding fid (ob_ledger ob2) = Some g \<and> f_identity g = f_identity f \<and> IsLiveState (f_state g)"
proof (cases "begin_evaluation now ob")
  case (Pair b ob')
  then have same: "ob_ledger ob' = ob_ledger ob" by (auto simp: begin_evaluation_def tally_def split: if_splits)
  show ?thesis
  proof (cases b)
    case (Inl _)
    then show ?thesis using Pair assms(3-5) same by (auto simp: EvaluateAt_def)
  next
    case (Inr input)
    let ?c = "ob_config ob'"
    let ?targets = "evaluate_targets (\<lambda>_. ob_cancelled ob' \<or> ob_stopping ob') ?c input (oc_policy ?c)"
    have "publish_outcome dt input (oc_policy ?c) (outcome_of input ?targets) apply_it ob' = (r, ob2)"
      using assms(3) Pair Inr by (simp add: EvaluateAt_def Let_def)
    then show ?thesis
    proof (rule publish_keeps_live)
      fix ev assume "ev \<in> set (eo_targets (outcome_of input ?targets))"
      then show "\<not> tv_compliance_decidable ev"
        using assms(2) by (intro recovered_undecided [OF _ Pair [unfolded Inr]]) (auto simp: outcome_of_def)
    qed (use assms(1,4,5) same in simp_all)
  qed
qed

text \<open>
  C6. A restart closes nothing: after the incarnation is rotated the first evaluation, whatever policy
  is in force, leaves every live finding live, because no retained evidence may decide a target until
  a live observation replaces it.
\<close>

theorem restart_closes_nothing:
  assumes "engine_ok gapless ob" and "RotateIncarnation i e t ob = (st, ob1)" and "status_ok st"
    and "EvaluateAt dt now apply_it ob1 = (r, ob2)"
    and "FindFinding fid (ob_ledger ob) = Some f" and "IsLiveState (f_state f)"
  shows "\<exists>g. FindFinding fid (ob_ledger ob2) = Some g \<and> f_identity g = f_identity f \<and> IsLiveState (f_state g)"
proof -
  obtain n l1 where inv: "InvalidateRetainedEvidence RC_EvidenceRecoveredNotFresh t (ob_ledger ob) = (n, l1)" by fastforce
  have l1: "ob_ledger ob1 = l1"
    using assms(2,3) inv by (auto simp: RotateIncarnation_def Let_def tally_def status_ok_def mk_status_def split: if_splits)
  have "ledger_ok gapless (ob_ledger ob1)" using Invalidate_ok [OF inv] assms(1) l1 by (simp add: engine_ok_def Let_def)
  moreover have "FindFinding fid (ob_ledger ob1) = Some f"
    using InvalidateRetainedEvidence_frame [OF inv] assms(5) l1 by (simp add: FindFinding_def)
  moreover have "ro_recovered r" if "r \<in> set (ObservationsFor x (ob_ledger ob1))" for x r
    using that ObservationsFor_invalidated [OF inv] l1 by (auto simp: invalidated_def)
  ultimately show ?thesis using assms(4,6) by (intro evaluation_keeps_live)
qed

text \<open>
  A cancellation that is withdrawn too early publishes an unfinished evaluation: when the workers
  see the request and abandon their targets, and the request is cleared before the evaluation closes,
  the evaluation succeeds with every target blank.
\<close>

theorem withdrawn_cancellation_publishes_blank:
  assumes "begin_evaluation now ob = (Inr input, ob1)" and "\<not> ob_stopping ob"
  shows "\<exists>outcome ob2.
           publish_outcome dt input policy (outcome_of input (evaluate_targets (\<lambda>_. ob_cancelled (RequestCancellation ob1))
             (ob_config ob1) input policy)) False (ClearCancellation (RequestCancellation ob1)) = (Inr outcome, ob2) \<and>
           eo_targets outcome = replicate (length (ei_targets input)) default_evaluation"
proof -
  have empty: "takeWhile (\<lambda>i. False) xs = []" for xs :: "nat list" by (cases xs) simp_all
  have none: "concat (worker_schedule (\<lambda>_. True) c n) = []" for c n
    by (simp add: worker_schedule_def Let_def empty case_prod_beta)
  have "ei_epoch input = oc_epoch (ob_config ob1)" "ei_incarnation input = oc_incarnation (ob_config ob1)"
    "\<not> ob_stopping ob1" "\<not> not_admitting ob1"
    using assms by (auto simp: begin_evaluation_def BuildEvaluationInput_def Let_def not_admitting_def split: if_splits)
  then show ?thesis
    by (auto simp: publish_outcome_def Let_def RequestCancellation_def ClearCancellation_def outcome_of_def none
        evaluate_targets_schedule not_admitting_def tally_def)
qed

section \<open>Examples\<close>

text \<open>A started observatory that holds one open finding.\<close>

definition example_running :: Observatory where
  "example_running =
     (Observatory_new (example_config 1))\<lparr>ob_started := True, ob_ledger := ledger_with (example_finding FS_Open)\<rparr>"

lemma example_policy_valid: "status_ok (Policy_Validate default_limits (Policy_Default\<lparr>po_evidence := EC_Real\<rparr>))"
proof -
  have "IsValidIdentityText ''policy/default''" by code_simp
  then show ?thesis
    by (simp add: Policy_Validate_def Policy_Default_def default_freshness_policy_def)
qed

lemma example_running_ok: "engine_ok gapless example_running"
proof -
  have "ledger_ok gapless (ledger_with (example_finding FS_Open))" by (intro ledger_with_ok example_finding_ok) simp_all
  moreover have "l_limits (ledger_with (example_finding FS_Open)) = default_limits" by (simp add: ledger_with_def FindingLedger_def)
  ultimately show ?thesis
    by (simp add: engine_ok_def admission_ok_def example_running_def Observatory_new_def example_config_def clamp_workers_def
        uint_is_set_def example_policy_valid)
qed

lemma example_rotates: "status_ok (fst (RotateIncarnation 2 1 7 example_running))"
  by (simp add: RotateIncarnation_def example_running_def Observatory_new_def example_config_def uint_is_set_def status_ok_def
      mk_status_def Let_def word_le_nat_alt)

lemma example_opens:
  "begin_evaluation 5 example_running =
    (Inr ((BuildEvaluationInput 5 example_running)\<lparr>ei_resolution_confirmations := po_resolution_confirmations Policy_Default\<rparr>),
     example_running\<lparr>ob_active_evaluations := 1\<rparr>)"
  by (simp add: begin_evaluation_def not_admitting_def example_running_def Observatory_new_def example_config_def)

theorem restart_closes_nothing_witness:
  "let ob1 = snd (RotateIncarnation 2 1 7 example_running);
       ob2 = snd (EvaluateAt (\<lambda>_. []) 9 True ob1)
   in \<exists>g. FindFinding (f_id (example_finding FS_Open)) (ob_ledger ob2) = Some g \<and> IsLiveState (f_state g)"
proof -
  let ?ob1 = "snd (RotateIncarnation 2 1 7 example_running)"
  let ?r = "EvaluateAt (\<lambda>_. []) 9 True ?ob1"
  have f: "FindFinding (f_id (example_finding FS_Open)) (ob_ledger example_running) = Some (example_finding FS_Open)"
    by (simp add: example_running_def example_found)
  have live: "IsLiveState (f_state (example_finding FS_Open))" by (simp add: example_finding_fields)
  show ?thesis
    using restart_closes_nothing [OF example_running_ok _ example_rotates _ f live, of 2 1 7 ?ob1 "\<lambda>_. []" 9 True "fst ?r" "snd ?r"]
    by (auto simp: Let_def)
qed

theorem stale_evaluation_never_published_witness:
  "let (r1, ob1) = begin_evaluation 5 example_running;
       ob3 = snd (RotateIncarnation 2 1 7 ob1);
       input = (BuildEvaluationInput 5 example_running)\<lparr>ei_resolution_confirmations := po_resolution_confirmations Policy_Default\<rparr>;
       (r, ob5) = publish_outcome (\<lambda>_. []) input Policy_Default (outcome_of input []) True ob3
   in r1 = Inr input \<and> (\<exists>st. r = Inl st) \<and> ob_ledger ob5 = ob_ledger ob3"
proof -
  let ?input = "(BuildEvaluationInput 5 example_running)\<lparr>ei_resolution_confirmations := po_resolution_confirmations Policy_Default\<rparr>"
  let ?ob1 = "example_running\<lparr>ob_active_evaluations := 1\<rparr>"
  let ?ob3 = "snd (RotateIncarnation 2 1 7 ?ob1)"
  let ?p = "publish_outcome (\<lambda>_. []) ?input Policy_Default (outcome_of ?input []) True ?ob3"
  have "status_ok (fst (RotateIncarnation 2 1 7 ?ob1))"
    by (simp add: RotateIncarnation_def example_running_def Observatory_new_def example_config_def uint_is_set_def status_ok_def
        mk_status_def Let_def word_le_nat_alt)
  then show ?thesis
    using stale_evaluation_never_published [OF example_opens rtranclp.rtrancl_refl _ _ rtranclp.rtrancl_refl,
        of 2 1 7 "fst (RotateIncarnation 2 1 7 ?ob1)" ?ob3 "\<lambda>_. []" Policy_Default "outcome_of ?input []" True "fst ?p" "snd ?p"]
    by (auto simp: example_opens Let_def case_prod_beta)
qed

theorem withdrawn_cancellation_publishes_blank_witness:
  "\<exists>outcome ob2.
     publish_outcome (\<lambda>_. []) (BuildEvaluationInput 5 example_running\<lparr>ei_resolution_confirmations := po_resolution_confirmations Policy_Default\<rparr>)
       Policy_Default
       (outcome_of (BuildEvaluationInput 5 example_running\<lparr>ei_resolution_confirmations := po_resolution_confirmations Policy_Default\<rparr>)
         (evaluate_targets (\<lambda>_. True) (example_config 1)
           (BuildEvaluationInput 5 example_running\<lparr>ei_resolution_confirmations := po_resolution_confirmations Policy_Default\<rparr>) Policy_Default))
       False (ClearCancellation (RequestCancellation (example_running\<lparr>ob_active_evaluations := 1\<rparr>))) = (Inr outcome, ob2)"
proof -
  have "\<not> ob_stopping example_running" by (simp add: example_running_def Observatory_new_def)
  moreover have "ob_config example_running = example_config 1"
    by (simp add: example_running_def Observatory_new_def example_config_def clamp_workers_def default_limits_def)
  ultimately show ?thesis
    using withdrawn_cancellation_publishes_blank [OF example_opens, of "\<lambda>_. []" Policy_Default]
    by (auto simp: RequestCancellation_def)
qed

end
