(* ===== verification/NDO_Interchange.thy ===== *)
theory NDO_Interchange
  imports NDO_Codec NDO_Operations
begin

text \<open>
  The interchange documents (\<^verbatim>\<open>interchange.cpp\<close>): intent generations, observations and source descriptors
  as JSON documents.  The encoders build the member sets the code builds; the decoders check members,
  kinds, schema and every field in the order the code does, and validate the result before releasing it.
\<close>

definition RequireSchema :: "members \<Rightarrow> string \<Rightarrow> string \<Rightarrow> unit Result" where
  "RequireSchema m expected what =
     bindr (RequireString m ''schema'' what) (\<lambda>schema.
       if schema \<noteq> expected
       then Inl (Status_Rejected RC_LedgerSchemaUnsupported (what @ '': schema '' @ schema @ '' is not supported''))
       else Inr ())"

definition EncodeField :: "FieldPath \<times> Value \<Rightarrow> Value" where
  "EncodeField field = V_Map (members_of [(''path'', V_String (FieldPath_ToText (fst field))), (''value'', snd field)])"

definition DecodeFieldPath :: "members \<Rightarrow> RuntimeLimits \<Rightarrow> string \<Rightarrow> FieldPath Result" where
  "DecodeFieldPath m limits what = require_path m limits what"

text \<open>The member \<^verbatim>\<open>value\<close> of a field document, of any kind.\<close>

definition require_value :: "members \<Rightarrow> string \<Rightarrow> Value Result" where
  "require_value m what =
     (case FindMember m ''value'' of
        None \<Rightarrow> Inl (MemberError what ''value'' ''missing required member'')
      | Some raw \<Rightarrow> Inr raw)"

text \<open>The member set of an element of a sequence.\<close>

definition require_element :: "Value \<Rightarrow> string \<Rightarrow> members Result" where
  "require_element v refusal =
     (case as_map v of None \<Rightarrow> Inl (Status_Rejected RC_EncodingMalformed refusal) | Some m \<Rightarrow> Inr m)"

section \<open>Intent documents\<close>

definition encode_intent_field :: "FieldPath \<times> IntentField \<Rightarrow> Value" where
  "encode_intent_field field =
     V_Map (members_of
       [(''path'', V_String (FieldPath_ToText (fst field))), (''value'', if_intended (snd field)),
        (''comparability'', V_String (ToText_FieldComparability (if_comparability (snd field))))])"

definition encode_intent_object :: "ObjectId \<times> IntentObject \<Rightarrow> Value" where
  "encode_intent_object entry =
     V_Map (members_of
       [(''id'', V_String (fst entry)), (''existence'', V_String (ToText_ObjectExistence (io_existence (snd entry)))),
        (''fields'', V_List (map encode_intent_field (io_fields (snd entry))))])"

definition EncodeIntentDocument :: "IntentGenerationDocument \<Rightarrow> Value" where
  "EncodeIntentDocument d =
     V_Map (members_of
       [(''schema'', V_String ''ndo/intent-generation/1''), (''target'', V_String (ig_target d)),
        (''generation'', MakeUint (ig_generation d)), (''epoch'', MakeUint (ig_epoch d)),
        (''authority'', V_String (ToText_IntentAuthority (ig_authority d))), (''policy'', V_String (ig_policy d)),
        (''authored_at'', V_String (FormatTime (ig_authored_at d))),
        (''evidence'', V_String (ToText_EvidenceClass (ig_evidence d))),
        (''objects'', V_List (map encode_intent_object (ig_objects d)))])"

definition decode_intent_field :: "RuntimeLimits \<Rightarrow> Value \<Rightarrow> (FieldPath \<times> IntentField) Result" where
  "decode_intent_field limits v =
     bindr (require_element v ''intent document: field must be an object'') (\<lambda>m.
     bindr (CheckMembers m [''path'', ''value'', ''comparability''] ''intent document.field'') (\<lambda>_.
     bindr (CheckMemberKinds m [(''path'', MK_Text), (''comparability'', MK_Text)] ''intent document.field'') (\<lambda>_.
     bindr (DecodeFieldPath m limits ''intent document.field'') (\<lambda>path.
     bindr (require_value m ''intent document.field'') (\<lambda>raw.
     bindr (optional_enum m ''comparability'' ''intent document.field'' TryParseFieldComparability FC_Managed) (\<lambda>comparability.
     Inr (path, \<lparr>if_path = path, if_intended = raw, if_comparability = comparability\<rparr>)))))))"

definition decode_existence :: "members \<Rightarrow> ObjectExistence Result" where
  "decode_existence m =
     (case OptionalString m ''existence'' of
        None \<Rightarrow> Inr OE_Required
      | Some existence \<Rightarrow>
          if existence = ''required'' then Inr OE_Required
          else if existence = ''forbidden'' then Inr OE_Forbidden
          else Inl (MemberError ''intent document.object'' ''existence'' ''is not recognized''))"

definition decode_intent_object :: "RuntimeLimits \<Rightarrow> Value \<Rightarrow> (ObjectId \<times> IntentObject) Result" where
  "decode_intent_object limits v =
     bindr (require_element v ''intent document: object must be an object'') (\<lambda>m.
     bindr (CheckMembers m [''id'', ''existence'', ''fields''] ''intent document.object'') (\<lambda>_.
     bindr (CheckMemberKinds m [(''id'', MK_Text), (''existence'', MK_Text), (''fields'', MK_Sequence)]
              ''intent document.object'') (\<lambda>_.
     bindr (require_identity m ''id'' ''intent document.object'') (\<lambda>oid.
     bindr (decode_existence m) (\<lambda>existence.
     bindr (RequireList m ''fields'' ''intent document.object'') (\<lambda>fields.
     if length fields > max_fields_per_object limits
     then Inl (Status_Limit RC_LimitFieldsExceeded ''intent field count exceeds the envelope'')
     else
     bindr (emplace_loop (decode_intent_field limits) fields) (\<lambda>decoded.
     Inr (oid, \<lparr>io_id = oid, io_existence = existence, io_fields = decoded\<rparr>))))))))"

definition require_authority :: "members \<Rightarrow> IntentAuthority Result" where
  "require_authority m =
     require_parsed m ''authority'' ''intent document'' (\<lambda>s. TryParseIntentAuthority (c_str s)) ''is not recognized''"

definition decode_intent_objects :: "RuntimeLimits \<Rightarrow> members \<Rightarrow> (ObjectId, IntentObject) omap Result" where
  "decode_intent_objects limits m =
     bindr (RequireList m ''objects'' ''intent document'') (\<lambda>objects.
     if length objects > max_objects_per_target limits
     then Inl (Status_Limit RC_LimitObjectsExceeded ''intent object count exceeds the envelope'')
     else emplace_loop (decode_intent_object limits) objects)"

definition DecodeIntentDocument :: "RuntimeLimits \<Rightarrow> Value \<Rightarrow> IntentGenerationDocument Result" where
  "DecodeIntentDocument limits v =
     bindr (RequireObject v ''intent document'') (\<lambda>m.
     bindr (CheckMembers m [''schema'', ''target'', ''generation'', ''epoch'', ''authority'', ''policy'', ''authored_at'',
              ''evidence'', ''objects''] ''intent document'') (\<lambda>_.
     bindr (CheckMemberKinds m
              [(''target'', MK_Text), (''generation'', MK_Integer), (''epoch'', MK_Integer), (''authority'', MK_Text),
               (''policy'', MK_Text), (''authored_at'', MK_Text), (''evidence'', MK_Text), (''objects'', MK_Sequence)]
              ''intent document'') (\<lambda>_.
     bindr (RequireSchema m ''ndo/intent-generation/1'' ''intent document'') (\<lambda>_.
     bindr (require_identity m ''target'' ''intent document'') (\<lambda>target.
     bindr (RequireUint m ''generation'' ''intent document'') (\<lambda>generation.
     bindr (RequireUint m ''epoch'' ''intent document'') (\<lambda>epoch.
     bindr (require_authority m) (\<lambda>authority.
     bindr (require_identity m ''policy'' ''intent document'') (\<lambda>policy.
     bindr (require_time m ''authored_at'' ''intent document'') (\<lambda>authored_at.
     bindr (optional_enum m ''evidence'' ''intent document'' TryParseEvidenceClass EC_Unknown) (\<lambda>evidence.
     bindr (decode_intent_objects limits m) (\<lambda>objects.
     let document = \<lparr>ig_target = target, ig_generation = generation, ig_epoch = epoch, ig_authority = authority,
           ig_policy = policy, ig_authored_at = authored_at, ig_objects = objects, ig_evidence = evidence\<rparr>
     in released (Intent_Validate limits document) document))))))))))))"

section \<open>Observation documents\<close>

definition encode_observed_object :: "ObjectId \<times> ObservedObject \<Rightarrow> Value" where
  "encode_observed_object entry =
     V_Map (members_of
       [(''id'', V_String (fst entry)), (''presence'', V_String (ToText_ObjectPresence (oo_presence (snd entry)))),
        (''fields'', V_List (map EncodeField (oo_fields (snd entry))))])"

definition EncodeObservationDocument :: "ObservationSnapshot \<Rightarrow> Value" where
  "EncodeObservationDocument s =
     V_Map (members_of
       [(''schema'', V_String ''ndo/observation/1''), (''source'', V_String (sn_source s)),
        (''epoch'', MakeUint (sn_epoch s)), (''incarnation'', MakeUint (sn_incarnation s)),
        (''sequence'', MakeUint (sn_sequence s)), (''target'', V_String (sn_target s)),
        (''collected_at'', V_String (FormatTime (sn_collected_at s))), (''ttl_nanos'', V_Int (sn_ttl_nanos s)),
        (''coverage'', V_String (ToText_ObservationCoverage (sn_coverage s))),
        (''evidence'', V_String (ToText_EvidenceClass (sn_evidence s))),
        (''unobserved'', V_List (map V_String (sn_unobserved s))),
        (''capabilities'', encode_capabilities (sn_capabilities s)),
        (''objects'', V_List (map encode_observed_object (sn_objects s)))])"

definition decode_observed_field :: "RuntimeLimits \<Rightarrow> Value \<Rightarrow> (FieldPath \<times> Value) Result" where
  "decode_observed_field limits v =
     bindr (require_element v ''observation document: field must be an object'') (\<lambda>m.
     bindr (CheckMembers m [''path'', ''value''] ''observation document.field'') (\<lambda>_.
     bindr (CheckMemberKinds m [(''path'', MK_Text)] ''observation document.field'') (\<lambda>_.
     bindr (DecodeFieldPath m limits ''observation document.field'') (\<lambda>path.
     bindr (require_value m ''observation document.field'') (\<lambda>raw.
     Inr (path, raw))))))"

definition decode_observed_object :: "RuntimeLimits \<Rightarrow> Value \<Rightarrow> (ObjectId \<times> ObservedObject) Result" where
  "decode_observed_object limits v =
     bindr (require_element v ''observation document: object must be an object'') (\<lambda>m.
     bindr (CheckMembers m [''id'', ''presence'', ''fields''] ''observation document.object'') (\<lambda>_.
     bindr (CheckMemberKinds m [(''id'', MK_Text), (''presence'', MK_Text), (''fields'', MK_Sequence)]
              ''observation document.object'') (\<lambda>_.
     bindr (require_identity m ''id'' ''observation document.object'') (\<lambda>oid.
     bindr (optional_enum m ''presence'' ''observation document.object'' TryParseObjectPresence OP_Unknown) (\<lambda>presence.
     bindr (RequireList m ''fields'' ''observation document.object'') (\<lambda>fields.
     if length fields > max_fields_per_object limits
     then Inl (Status_Limit RC_LimitFieldsExceeded ''observed field count exceeds the envelope'')
     else
     bindr (emplace_loop (decode_observed_field limits) fields) (\<lambda>decoded.
     Inr (oid, \<lparr>oo_id = oid, oo_presence = presence, oo_fields = decoded\<rparr>))))))))"

definition decode_ttl :: "members \<Rightarrow> int Result" where
  "decode_ttl m =
     (case OptionalInt m ''ttl_nanos'' of
        None \<Rightarrow> Inr 0
      | Some ttl \<Rightarrow> if ttl < 0 then Inl (MemberError ''observation document'' ''ttl_nanos'' ''must not be negative'') else Inr ttl)"

definition decode_unobserved_entry :: "Value \<Rightarrow> ObjectId Result" where
  "decode_unobserved_entry v =
     (case as_string v of
        None \<Rightarrow> Inl (MemberError ''observation document'' ''unobserved'' ''entries must be strings'')
      | Some s \<Rightarrow>
          if StringId_TryParse s = None
          then Inl (MemberError ''observation document'' ''unobserved'' ''entry is not a valid identity'')
          else Inr s)"

definition decode_unobserved :: "members \<Rightarrow> ObjectId list Result" where
  "decode_unobserved m =
     (case FindMember m ''unobserved'' of
        None \<Rightarrow> Inr []
      | Some v \<Rightarrow>
          (case as_list v of
             None \<Rightarrow> Inl (MemberError ''observation document'' ''unobserved'' ''must be a sequence'')
           | Some l \<Rightarrow> traverse decode_unobserved_entry l))"

text \<open>The capabilities object of an observation or of a source descriptor.\<close>

definition decode_declared_capabilities :: "string \<Rightarrow> members \<Rightarrow> SourceCapabilities Result" where
  "decode_declared_capabilities what c =
     bindr (CheckMembers c [''asserts_absence'', ''complete_coverage'', ''reports_nested_paths'', ''evidence'']
              (what @ ''.capabilities'')) (\<lambda>_.
     bindr (CheckMemberKinds c
              [(''asserts_absence'', MK_Boolean), (''complete_coverage'', MK_Boolean), (''reports_nested_paths'', MK_Boolean),
               (''evidence'', MK_Text)] (what @ ''.capabilities'')) (\<lambda>_.
     bindr (optional_enum c ''evidence'' (what @ ''.capabilities'') TryParseEvidenceClass (sc_evidence default_capabilities)) (\<lambda>evidence.
     Inr \<lparr>sc_asserts_absence = or_else (OptionalBool c ''asserts_absence'') (sc_asserts_absence default_capabilities),
          sc_complete_coverage = or_else (OptionalBool c ''complete_coverage'') (sc_complete_coverage default_capabilities),
          sc_reports_nested_paths =
            or_else (OptionalBool c ''reports_nested_paths'') (sc_reports_nested_paths default_capabilities),
          sc_evidence = evidence\<rparr>)))"

definition decode_capabilities_member :: "string \<Rightarrow> members \<Rightarrow> SourceCapabilities Result" where
  "decode_capabilities_member what m =
     (case FindMember m ''capabilities'' of
        None \<Rightarrow> Inr default_capabilities
      | Some v \<Rightarrow>
          (case as_map v of
             None \<Rightarrow> Inl (MemberError what ''capabilities'' ''must be an object'')
           | Some c \<Rightarrow> decode_declared_capabilities what c))"

definition decode_observed_objects :: "RuntimeLimits \<Rightarrow> members \<Rightarrow> (ObjectId, ObservedObject) omap Result" where
  "decode_observed_objects limits m =
     bindr (RequireList m ''objects'' ''observation document'') (\<lambda>objects.
     if length objects > max_objects_per_target limits
     then Inl (Status_Limit RC_LimitObjectsExceeded ''observation object count exceeds the envelope'')
     else emplace_loop (decode_observed_object limits) objects)"

text \<open>The content address is computed here; a declared one must agree with it.\<close>

definition settle_snapshot_id :: "members \<Rightarrow> RuntimeLimits \<Rightarrow> ObservationSnapshot \<Rightarrow> ObservationSnapshot Result" where
  "settle_snapshot_id m limits s =
     (let digest = Snapshot_ComputeContentDigest s; s = s\<lparr>sn_snapshot_id := Digest_ToHex digest\<rparr>
      in if (case OptionalString m ''snapshot_id'' of None \<Rightarrow> False | Some declared \<Rightarrow> declared \<noteq> Digest_ToHex digest)
         then Inl (Status_Rejected RC_LedgerIntegrityDigestMismatch
                     ''declared snapshot identity does not match observation content'')
         else released (Snapshot_Validate limits s) s)"

definition DecodeObservationDocument :: "RuntimeLimits \<Rightarrow> Value \<Rightarrow> ObservationSnapshot Result" where
  "DecodeObservationDocument limits v =
     bindr (RequireObject v ''observation document'') (\<lambda>m.
     bindr (CheckMembers m [''schema'', ''source'', ''epoch'', ''incarnation'', ''sequence'', ''target'', ''collected_at'',
              ''ttl_nanos'', ''coverage'', ''evidence'', ''unobserved'', ''capabilities'', ''objects'', ''snapshot_id'']
              ''observation document'') (\<lambda>_.
     bindr (CheckMemberKinds m
              [(''source'', MK_Text), (''epoch'', MK_Integer), (''incarnation'', MK_Integer), (''sequence'', MK_Integer),
               (''target'', MK_Text), (''collected_at'', MK_Text), (''ttl_nanos'', MK_Integer), (''coverage'', MK_Text),
               (''evidence'', MK_Text), (''unobserved'', MK_Sequence), (''capabilities'', MK_Object), (''objects'', MK_Sequence),
               (''snapshot_id'', MK_Text)] ''observation document'') (\<lambda>_.
     bindr (RequireSchema m ''ndo/observation/1'' ''observation document'') (\<lambda>_.
     bindr (require_identity m ''source'' ''observation document'') (\<lambda>source.
     bindr (RequireUint m ''epoch'' ''observation document'') (\<lambda>epoch.
     bindr (RequireUint m ''incarnation'' ''observation document'') (\<lambda>incarnation.
     bindr (RequireUint m ''sequence'' ''observation document'') (\<lambda>sequence.
     bindr (require_identity m ''target'' ''observation document'') (\<lambda>target.
     bindr (require_time m ''collected_at'' ''observation document'') (\<lambda>collected_at.
     bindr (decode_ttl m) (\<lambda>ttl.
     bindr (optional_enum m ''coverage'' ''observation document'' TryParseObservationCoverage OC_Unknown) (\<lambda>coverage.
     bindr (optional_enum m ''evidence'' ''observation document'' TryParseEvidenceClass EC_Unknown) (\<lambda>evidence.
     bindr (decode_unobserved m) (\<lambda>unobserved.
     bindr (decode_capabilities_member ''observation document'' m) (\<lambda>capabilities.
     bindr (decode_observed_objects limits m) (\<lambda>objects.
     settle_snapshot_id m limits
       \<lparr>sn_snapshot_id = [], sn_source = source, sn_epoch = epoch, sn_incarnation = incarnation, sn_sequence = sequence,
        sn_target = target, sn_collected_at = collected_at, sn_received_at = 0, sn_ttl_nanos = ttl, sn_coverage = coverage,
        sn_unobserved = unobserved, sn_objects = objects, sn_capabilities = capabilities,
        sn_evidence = evidence\<rparr>))))))))))))))))"

section \<open>Source descriptors\<close>

definition EncodeSourceDescriptor :: "SourceDescriptor \<Rightarrow> Value" where
  "EncodeSourceDescriptor d =
     V_Map (members_of
       [(''schema'', V_String ''ndo/source/1''), (''id'', V_String (sd_id d)), (''epoch'', MakeUint (sd_epoch d)),
        (''incarnation'', MakeUint (sd_incarnation d)), (''registered_at'', V_String (FormatTime (sd_registered_at d))),
        (''provenance'', V_String (sd_provenance d)), (''evidence'', V_String (ToText_EvidenceClass (sd_evidence d))),
        (''capabilities'', encode_capabilities (sd_capabilities d))])"

definition decode_registered_at :: "members \<Rightarrow> NdoTime Result" where
  "decode_registered_at m =
     optional_parsed (OptionalString m ''registered_at'') TryParseTime
       (MemberError ''source descriptor'' ''registered_at'' ''is not an RFC 3339 timestamp'') 0"

definition decode_provenance :: "RuntimeLimits \<Rightarrow> members \<Rightarrow> string Result" where
  "decode_provenance limits m =
     (case OptionalString m ''provenance'' of
        None \<Rightarrow> Inr []
      | Some provenance \<Rightarrow>
          if length provenance > max_leaf_bytes limits
          then Inl (Status_Limit RC_LimitBytesExceeded ''provenance exceeds the envelope'')
          else Inr provenance)"

definition DecodeSourceDescriptor :: "RuntimeLimits \<Rightarrow> Value \<Rightarrow> SourceDescriptor Result" where
  "DecodeSourceDescriptor limits v =
     bindr (RequireObject v ''source descriptor'') (\<lambda>m.
     bindr (CheckMembers m [''schema'', ''id'', ''epoch'', ''incarnation'', ''registered_at'', ''provenance'', ''evidence'',
              ''capabilities''] ''source descriptor'') (\<lambda>_.
     bindr (CheckMemberKinds m
              [(''id'', MK_Text), (''epoch'', MK_Integer), (''incarnation'', MK_Integer), (''registered_at'', MK_Text),
               (''provenance'', MK_Text), (''evidence'', MK_Text), (''capabilities'', MK_Object)] ''source descriptor'') (\<lambda>_.
     bindr (RequireSchema m ''ndo/source/1'' ''source descriptor'') (\<lambda>_.
     bindr (require_identity m ''id'' ''source descriptor'') (\<lambda>sid.
     bindr (RequireUint m ''epoch'' ''source descriptor'') (\<lambda>epoch.
     bindr (RequireUint m ''incarnation'' ''source descriptor'') (\<lambda>incarnation.
     bindr (decode_registered_at m) (\<lambda>registered_at.
     bindr (decode_provenance limits m) (\<lambda>provenance.
     bindr (optional_enum m ''evidence'' ''source descriptor'' TryParseEvidenceClass EC_Unknown) (\<lambda>evidence.
     bindr (decode_capabilities_member ''source descriptor'' m) (\<lambda>capabilities.
     if \<not> uint_is_set epoch \<or> \<not> uint_is_set incarnation
     then Inl (Status_Rejected RC_FencedStaleIncarnation ''source descriptor must declare its epoch and incarnation'')
     else Inr \<lparr>sd_id = sid, sd_capabilities = capabilities, sd_registered_at = registered_at, sd_epoch = epoch,
               sd_incarnation = incarnation, sd_provenance = provenance, sd_evidence = evidence\<rparr>)))))))))))"

definition ParseIntentJson :: "(string \<Rightarrow> u64 option) \<Rightarrow> RuntimeLimits \<Rightarrow> string \<Rightarrow> IntentGenerationDocument Result" where
  "ParseIntentJson fc limits s = bindr (ParseJson fc limits s) (DecodeIntentDocument limits)"

definition ParseObservationJson :: "(string \<Rightarrow> u64 option) \<Rightarrow> RuntimeLimits \<Rightarrow> string \<Rightarrow> ObservationSnapshot Result" where
  "ParseObservationJson fc limits s = bindr (ParseJson fc limits s) (DecodeObservationDocument limits)"

section \<open>What a well-formed document is\<close>

definition intent_object_formed :: "RuntimeLimits \<Rightarrow> ObjectId \<times> IntentObject \<Rightarrow> bool" where
  "intent_object_formed limits e \<longleftrightarrow>
     IsValidIdentityText (fst e) \<and> io_id (snd e) = fst e \<and> keys_ascending (io_fields (snd e)) \<and>
     length (io_fields (snd e)) \<le> max_fields_per_object limits \<and>
     (\<forall>f \<in> set (io_fields (snd e)). if_path (snd f) = fst f \<and> path_readable limits (fst f))"

definition intent_document_formed :: "RuntimeLimits \<Rightarrow> IntentGenerationDocument \<Rightarrow> bool" where
  "intent_document_formed limits d \<longleftrightarrow>
     status_ok (Intent_Validate limits d) \<and> keys_ascending (ig_objects d) \<and>
     (\<forall>e \<in> set (ig_objects d). intent_object_formed limits e)"

definition observed_object_formed :: "RuntimeLimits \<Rightarrow> ObjectId \<times> ObservedObject \<Rightarrow> bool" where
  "observed_object_formed limits e \<longleftrightarrow>
     IsValidIdentityText (fst e) \<and> oo_id (snd e) = fst e \<and> keys_ascending (oo_fields (snd e)) \<and>
     length (oo_fields (snd e)) \<le> max_fields_per_object limits \<and>
     (\<forall>f \<in> set (oo_fields (snd e)). path_readable limits (fst f))"

definition observation_formed :: "RuntimeLimits \<Rightarrow> ObservationSnapshot \<Rightarrow> bool" where
  "observation_formed limits s \<longleftrightarrow>
     status_ok (Snapshot_Validate limits s) \<and> keys_ascending (sn_objects s) \<and>
     (\<forall>e \<in> set (sn_objects s). observed_object_formed limits e)"

section \<open>Decoding what was encoded\<close>

lemma existence_read: "OptionalString m ''existence'' = Some (ToText_ObjectExistence e) \<Longrightarrow> decode_existence m = Inr e"
  by (cases e) (simp_all add: decode_existence_def ToText_ObjectExistence_def kExistenceNames_def)

lemmas decoded_simps = RequireSchema_def require_value_def require_element_def DecodeFieldPath_def parsed_simps text_read

lemma decode_intent_field_encoded:
  "if_path (snd e) = fst e \<Longrightarrow> path_readable limits (fst e) \<Longrightarrow> decode_intent_field limits (encode_intent_field e) = Inr e"
  by (cases e) (simp add: decode_intent_field_def encode_intent_field_def decoded_simps)

lemma decode_intent_object_encoded:
  "intent_object_formed limits e \<Longrightarrow> decode_intent_object limits (encode_intent_object e) = Inr e"
  by (cases e) (simp add: decode_intent_object_def encode_intent_object_def decoded_simps existence_read
      intent_object_formed_def emplace_loop_encoded decode_intent_field_encoded)

lemma DecodeIntentDocument_encoded:
  assumes "intent_document_formed limits d" and "time_readable (ig_authored_at d)"
  shows "DecodeIntentDocument limits (EncodeIntentDocument d) = Inr d"
proof -
  have "IsValidIdentityText (ig_target d)" "IsValidIdentityText (ig_policy d)" "length (ig_objects d) \<le> max_objects_per_target limits"
    using assms(1) by (auto simp: intent_document_formed_def Intent_Validate_def split: if_splits)
  moreover have "emplace_loop (decode_intent_object limits) (map encode_intent_object (ig_objects d)) = Inr (ig_objects d)"
    using assms(1) by (intro emplace_loop_encoded decode_intent_object_encoded) (auto simp: intent_document_formed_def)
  ultimately show ?thesis
    using assms by (cases d) (simp add: DecodeIntentDocument_def EncodeIntentDocument_def decoded_simps require_authority_def
        decode_intent_objects_def intent_document_formed_def Let_def)
qed

lemma decode_observed_field_encoded:
  "path_readable limits (fst e) \<Longrightarrow> decode_observed_field limits (EncodeField e) = Inr e"
  by (cases e) (simp add: decode_observed_field_def EncodeField_def decoded_simps)

lemma decode_observed_object_encoded:
  "observed_object_formed limits e \<Longrightarrow> decode_observed_object limits (encode_observed_object e) = Inr e"
  by (cases e) (simp add: decode_observed_object_def encode_observed_object_def decoded_simps
      observed_object_formed_def emplace_loop_encoded decode_observed_field_encoded)

lemma capabilities_decoded:
  "FindMember m ''capabilities'' = Some (encode_capabilities c) \<Longrightarrow> decode_capabilities_member what m = Inr c"
  by (simp add: decode_capabilities_member_def decode_declared_capabilities_def encode_capabilities_def parsed_simps or_else_def)

lemma as_map_capabilities [simp]: "\<exists>y. as_map (encode_capabilities c) = Some y"
  by (simp add: encode_capabilities_def)

lemma unobserved_decoded:
  "FindMember m ''unobserved'' = Some (V_List (map V_String ids)) \<Longrightarrow> \<forall>x \<in> set ids. IsValidIdentityText x \<Longrightarrow>
     decode_unobserved m = Inr ids"
  by (simp add: decode_unobserved_def traverse_id decode_unobserved_entry_def identity_read)

text \<open>The part of a snapshot its document carries: the time of receipt is stamped locally.\<close>

definition as_sent :: "ObservationSnapshot \<Rightarrow> ObservationSnapshot" where
  "as_sent s = s\<lparr>sn_received_at := 0\<rparr>"

lemma content_digest_as_sent [simp]:
  "Snapshot_ComputeContentDigest (s\<lparr>sn_received_at := r\<rparr>) = Snapshot_ComputeContentDigest s"
  "Snapshot_ComputeContentDigest (s\<lparr>sn_snapshot_id := n\<rparr>) = Snapshot_ComputeContentDigest s"
  by (simp_all add: Snapshot_ComputeContentDigest_def Let_def)

lemma Snapshot_Validate_as_sent: "Snapshot_Validate limits (s\<lparr>sn_received_at := r\<rparr>) = Snapshot_Validate limits s"
  by (simp add: Snapshot_Validate_def validate_snapshot_id_def Let_def)

lemma DecodeObservationDocument_encoded:
  assumes "observation_formed limits s" and "time_readable (sn_collected_at s)"
  shows "DecodeObservationDocument limits (EncodeObservationDocument s) = Inr (as_sent s)"
proof -
  have v: "status_ok (Snapshot_Validate limits s)" using assms(1) by (simp add: observation_formed_def)
  then have ids: "IsValidIdentityText (sn_source s)" "IsValidIdentityText (sn_target s)" "\<not> sn_ttl_nanos s < 0"
    "length (sn_objects s) \<le> max_objects_per_target limits" "\<forall>x \<in> set (sn_unobserved s). IsValidIdentityText x"
    by (auto simp: Snapshot_Validate_def Let_def first_failure_ok list_all_iff validate_unobserved_def split: if_splits)
  have objects: "emplace_loop (decode_observed_object limits) (map encode_observed_object (sn_objects s)) = Inr (sn_objects s)"
    using assms(1) by (intro emplace_loop_encoded decode_observed_object_encoded) (auto simp: observation_formed_def)
  have computed: "Digest_ToHex (Snapshot_ComputeContentDigest s) = sn_snapshot_id s"
    using Snapshot_Validate_sets [OF v] by (simp add: ComputeSnapshotId_def)
  have "settle_snapshot_id m limits (s\<lparr>sn_received_at := 0, sn_snapshot_id := []\<rparr>) = Inr (as_sent s)"
    if "OptionalString m ''snapshot_id'' = None" for m
    using that v computed by (simp add: settle_snapshot_id_def released_def Let_def as_sent_def
        Snapshot_Validate_as_sent)
  note settled = this [unfolded as_sent_def]
  show ?thesis
    using ids objects assms(2) settled
    by (cases s) (simp add: DecodeObservationDocument_def EncodeObservationDocument_def decoded_simps decode_ttl_def
        capabilities_decoded unobserved_decoded decode_observed_objects_def as_sent_def)
qed

definition source_formed :: "RuntimeLimits \<Rightarrow> SourceDescriptor \<Rightarrow> bool" where
  "source_formed limits d \<longleftrightarrow>
     IsValidIdentityText (sd_id d) \<and> uint_is_set (sd_epoch d) \<and> uint_is_set (sd_incarnation d) \<and>
     length (sd_provenance d) \<le> max_leaf_bytes limits"

lemma DecodeSourceDescriptor_encoded:
  "source_formed limits d \<Longrightarrow> time_readable (sd_registered_at d) \<Longrightarrow>
     DecodeSourceDescriptor limits (EncodeSourceDescriptor d) = Inr d"
  by (cases d) (simp add: DecodeSourceDescriptor_def EncodeSourceDescriptor_def decoded_simps source_formed_def
      capabilities_decoded decode_registered_at_def decode_provenance_def)

section \<open>What is accepted is well formed\<close>

lemma DecodeFieldPath_sound: "DecodeFieldPath m limits what = Inr p \<Longrightarrow> path_readable limits p"
  by (auto simp: DecodeFieldPath_def decoding split: option.splits intro: path_parsed)

lemma decode_intent_field_sound:
  "decode_intent_field limits v = Inr e \<Longrightarrow> if_path (snd e) = fst e \<and> path_readable limits (fst e)"
  by (auto simp: decode_intent_field_def bindr_Inr_iff dest: DecodeFieldPath_sound)

lemma require_identity_sound: "require_identity m name what = Inr s \<Longrightarrow> IsValidIdentityText s"
  by (auto simp: decoding split: option.splits if_splits)

lemma require_time_sound: "require_time m name what = Inr t \<Longrightarrow> t \<le> INT64_MAX"
  by (auto simp: decoding split: option.splits dest: time_parsed)

lemma decode_intent_object_sound:
  assumes "decode_intent_object limits v = Inr e"
  shows "intent_object_formed limits e"
proof -
  obtain m oid existence fields decoded where r: "require_identity m ''id'' ''intent document.object'' = Inr oid"
    "\<not> length fields > max_fields_per_object limits" "emplace_loop (decode_intent_field limits) fields = Inr decoded"
    "e = (oid, \<lparr>io_id = oid, io_existence = existence, io_fields = decoded\<rparr>)"
    using assms unfolding decode_intent_object_def by (auto simp: bindr_Inr_iff split: if_splits)
  then show ?thesis
    using emplace_loop_result [OF r(3)] emplace_loop_length [OF r(3)] decode_intent_field_sound require_identity_sound [OF r(1)]
    by (fastforce simp: intent_object_formed_def)
qed

lemma DecodeIntentDocument_sound:
  assumes "DecodeIntentDocument limits v = Inr d"
  shows "intent_document_formed limits d \<and> ig_authored_at d \<le> INT64_MAX"
proof -
  obtain m where m: "decode_intent_objects limits m = Inr (ig_objects d)"
    "require_time m ''authored_at'' ''intent document'' = Inr (ig_authored_at d)" "status_ok (Intent_Validate limits d)"
    using assms unfolding DecodeIntentDocument_def by (auto simp: bindr_Inr_iff released_def Let_def split: if_splits)
  then obtain objects where o: "emplace_loop (decode_intent_object limits) objects = Inr (ig_objects d)"
    by (auto simp: decode_intent_objects_def bindr_Inr_iff split: if_splits)
  show ?thesis
    using emplace_loop_result [OF o] decode_intent_object_sound require_time_sound [OF m(2)] m(3)
    by (fastforce simp: intent_document_formed_def)
qed

lemma decode_observed_field_sound: "decode_observed_field limits v = Inr e \<Longrightarrow> path_readable limits (fst e)"
  by (auto simp: decode_observed_field_def bindr_Inr_iff dest: DecodeFieldPath_sound)

lemma decode_observed_object_sound:
  assumes "decode_observed_object limits v = Inr e"
  shows "observed_object_formed limits e"
proof -
  obtain m oid presence fields decoded where r: "require_identity m ''id'' ''observation document.object'' = Inr oid"
    "\<not> length fields > max_fields_per_object limits" "emplace_loop (decode_observed_field limits) fields = Inr decoded"
    "e = (oid, \<lparr>oo_id = oid, oo_presence = presence, oo_fields = decoded\<rparr>)"
    using assms unfolding decode_observed_object_def by (auto simp: bindr_Inr_iff split: if_splits)
  then show ?thesis
    using emplace_loop_result [OF r(3)] emplace_loop_length [OF r(3)] decode_observed_field_sound require_identity_sound [OF r(1)]
    by (fastforce simp: observed_object_formed_def)
qed

lemma settle_snapshot_id_sound:
  assumes "settle_snapshot_id m limits s = Inr t"
  shows "t = s\<lparr>sn_snapshot_id := ComputeSnapshotId s\<rparr> \<and> status_ok (Snapshot_Validate limits t) \<and>
    OptionalString m ''snapshot_id'' \<in> {None, Some (ComputeSnapshotId s)}"
  using assms by (auto simp: settle_snapshot_id_def Let_def released_def ComputeSnapshotId_def split: if_splits option.splits)

lemma DecodeObservationDocument_sound:
  assumes "DecodeObservationDocument limits v = Inr s"
  shows "observation_formed limits s \<and> sn_collected_at s \<le> INT64_MAX \<and> sn_received_at s = 0 \<and>
    sn_snapshot_id s = ComputeSnapshotId s \<and>
    (\<forall>m declared. as_map v = Some m \<and> OptionalString m ''snapshot_id'' = Some declared \<longrightarrow> declared = sn_snapshot_id s)"
proof -
  obtain m src ep inc sq tg at ttl cov ev un cap obs where r: "as_map v = Some m" "decode_observed_objects limits m = Inr obs"
    "require_time m ''collected_at'' ''observation document'' = Inr at"
    "settle_snapshot_id m limits
       \<lparr>sn_snapshot_id = [], sn_source = src, sn_epoch = ep, sn_incarnation = inc, sn_sequence = sq, sn_target = tg,
        sn_collected_at = at, sn_received_at = 0, sn_ttl_nanos = ttl, sn_coverage = cov, sn_unobserved = un,
        sn_objects = obs, sn_capabilities = cap, sn_evidence = ev\<rparr> = Inr s" (is "settle_snapshot_id m limits ?t = Inr s")
    using assms unfolding DecodeObservationDocument_def
    by (auto simp: bindr_Inr_iff RequireObject_def split: option.splits)
  define t where "t = ?t"
  have m: "as_map v = Some m" "decode_observed_objects limits m = Inr (sn_objects t)"
    "require_time m ''collected_at'' ''observation document'' = Inr (sn_collected_at t)" "sn_received_at t = 0"
    "settle_snapshot_id m limits t = Inr s"
    using r by (simp_all add: t_def)
  then obtain objects where o: "emplace_loop (decode_observed_object limits) objects = Inr (sn_objects t)"
    by (auto simp: decode_observed_objects_def bindr_Inr_iff split: if_splits)
  have s: "s = t\<lparr>sn_snapshot_id := ComputeSnapshotId t\<rparr>" "status_ok (Snapshot_Validate limits s)"
    "OptionalString m ''snapshot_id'' \<in> {None, Some (ComputeSnapshotId t)}"
    using settle_snapshot_id_sound [OF m(5)] by auto
  have "observation_formed limits s"
    using emplace_loop_result [OF o] decode_observed_object_sound s(1,2) by (fastforce simp: observation_formed_def)
  then show ?thesis using m(1,4) s require_time_sound [OF m(3)] by (auto simp: ComputeSnapshotId_def)
qed

section \<open>The codecs meet the contract\<close>

interpretation intent_codec: document_codec EncodeIntentDocument "DecodeIntentDocument limits"
    "\<lambda>d. intent_document_formed limits d \<and> time_readable (ig_authored_at d)" for limits
  by unfold_locales (simp add: DecodeIntentDocument_encoded)

interpretation observation_codec: document_codec EncodeObservationDocument "DecodeObservationDocument limits"
    "\<lambda>s. observation_formed limits s \<and> time_readable (sn_collected_at s) \<and> as_sent s = s" for limits
  by unfold_locales (simp add: DecodeObservationDocument_encoded)

interpretation source_codec: document_codec EncodeSourceDescriptor "DecodeSourceDescriptor limits"
    "\<lambda>d. source_formed limits d \<and> time_readable (sd_registered_at d)" for limits
  by unfold_locales (simp add: DecodeSourceDescriptor_encoded)

lemma as_sent_simps [simp]:
  "observation_formed limits (as_sent s) = observation_formed limits s" "EncodeObservationDocument (as_sent s) = EncodeObservationDocument s"
  "as_sent (as_sent s) = as_sent s" "sn_collected_at (as_sent s) = sn_collected_at s"
  by (simp_all add: as_sent_def observation_formed_def Snapshot_Validate_as_sent EncodeObservationDocument_def)


text \<open>
  What a decoder accepts is well formed and canonical: objects and fields are keyed by their own
  identity and path in ascending order, every path and identity is valid, validation holds, the snapshot
  identity is the digest of the content whatever the document declared; and encoding the result and
  decoding it again gives the same document.
\<close>

theorem accepted_documents_canonical:
  assumes "ParseObservationJson fc limits observation = Inr s" and "0 \<le> sn_collected_at s"
    and "ParseIntentJson fc limits intent = Inr d" and "0 \<le> ig_authored_at d"
  shows "observation_formed limits s \<and> sn_snapshot_id s = ComputeSnapshotId s \<and>
         DecodeObservationDocument limits (EncodeObservationDocument s) = Inr s \<and>
         intent_document_formed limits d \<and> DecodeIntentDocument limits (EncodeIntentDocument d) = Inr d"
proof -
  obtain v w where "DecodeObservationDocument limits v = Inr s" and "DecodeIntentDocument limits w = Inr d"
    using assms(1,3) by (auto simp: ParseObservationJson_def ParseIntentJson_def bindr_Inr_iff)
  with DecodeObservationDocument_sound DecodeIntentDocument_sound
  have "observation_formed limits s" "sn_collected_at s \<le> INT64_MAX" "sn_received_at s = 0" "sn_snapshot_id s = ComputeSnapshotId s"
    "intent_document_formed limits d" "ig_authored_at d \<le> INT64_MAX" by blast+
  moreover from this have "as_sent s = s" by (cases s) (simp add: as_sent_def)
  ultimately show ?thesis
    using assms(2,4) DecodeObservationDocument_encoded [of limits s] DecodeIntentDocument_encoded [of limits d]
    by (simp add: time_readable_def)
qed

definition example_source :: SourceDescriptor where
  "example_source =
     \<lparr>sd_id = ''src'', sd_capabilities = default_capabilities, sd_registered_at = 0, sd_epoch = 1, sd_incarnation = 1,
      sd_provenance = [], sd_evidence = EC_Real\<rparr>"

lemma example_times: "FormatTime 0 = ''1970-01-01T00:00:00.000000000Z''" "FormatTime 1000 = ''1970-01-01T00:00:00.000001000Z''"
  by code_simp+

lemma example_documents_writable:
  "writable (\<lambda>_. None) (\<lambda>_. None) default_limits (EncodeIntentDocument (example_document 1))"
  "writable (\<lambda>_. None) (\<lambda>_. None) default_limits (EncodeObservationDocument admitted_snapshot)"
  "writable (\<lambda>_. None) (\<lambda>_. None) default_limits (EncodeSourceDescriptor example_source)"
  subgoal by (simp add: EncodeIntentDocument_def example_document_def example_times ToText_IntentAuthority_def kAuthorityNames_def
        written_simps)
  subgoal by (simp add: EncodeObservationDocument_def admitted_snapshot_def example_snapshot_def example_times
        ToText_ObservationCoverage_def kCoverageNames_def written_simps)
  subgoal by (simp add: EncodeSourceDescriptor_def example_source_def example_times written_simps)
  done

lemma example_documents_formed:
  "intent_document_formed default_limits (example_document 1)" "time_readable (ig_authored_at (example_document 1))"
  "observation_formed default_limits admitted_snapshot" "time_readable (sn_collected_at admitted_snapshot)"
  "source_formed default_limits example_source" "time_readable (sd_registered_at example_source)"
proof -
  have "IsValidIdentityText ''src''" by code_simp
  then show "source_formed default_limits example_source" "time_readable (sd_registered_at example_source)"
    by (simp_all add: source_formed_def example_source_def uint_is_set_def time_readable_def)
qed (use example_document_valid [of 1] admitted_snapshot_valid in
      \<open>simp_all add: intent_document_formed_def observation_formed_def time_readable_def example_document_def
         admitted_snapshot_def example_snapshot_def\<close>)


lemma example_documents_accepted:
  "ParseObservationJson (\<lambda>_. None) default_limits (WriteCanonicalJson (\<lambda>_. None) (EncodeObservationDocument admitted_snapshot)) =
     Inr (as_sent admitted_snapshot)"
  "ParseIntentJson (\<lambda>_. None) default_limits (WriteCanonicalJson (\<lambda>_. None) (EncodeIntentDocument (example_document 1))) =
     Inr (example_document 1)"
  using example_documents_formed example_documents_writable
  by (simp_all add: ParseIntentJson_def ParseObservationJson_def ParseJson_Write DecodeObservationDocument_encoded DecodeIntentDocument_encoded)

theorem accepted_documents_canonical_witness:
  "DecodeObservationDocument default_limits (EncodeObservationDocument (as_sent admitted_snapshot)) = Inr (as_sent admitted_snapshot)"
proof -
  have "0 \<le> sn_collected_at (as_sent admitted_snapshot)" "0 \<le> ig_authored_at (example_document 1)"
    by (simp_all add: admitted_snapshot_def example_snapshot_def example_document_def)
  from accepted_documents_canonical [OF example_documents_accepted(1) this(1) example_documents_accepted(2) this(2)]
  show ?thesis by blast
qed

end
