(* ===== verification/NDO_Records.thy ===== *)
theory NDO_Records
  imports NDO_Interchange
begin

text \<open>
  The durable records (\<^verbatim>\<open>persistence.cpp\<close>, first half, and \<^verbatim>\<open>ledger_encode.hpp\<close>): timeline entries, evidence
  references, findings, root-cause groups and baselines as member sets.  Each codec is shown to meet the
  contract of \<open>document_codec\<close> for the records the ledger can hold.
\<close>

section \<open>Optional members of a record\<close>

definition optional_time :: "members \<Rightarrow> string \<Rightarrow> string \<Rightarrow> NdoTime Result" where
  "optional_time m name what =
     optional_parsed (OptionalString m name) TryParseTime (MemberError what name ''is not an RFC 3339 timestamp'') 0"

definition given_time :: "members \<Rightarrow> string \<Rightarrow> string \<Rightarrow> NdoTime Result" where
  "given_time m name what =
     optional_parsed (given_text m name) TryParseTime (MemberError what name ''is not an RFC 3339 timestamp'') 0"

definition given_identity :: "members \<Rightarrow> string \<Rightarrow> string \<Rightarrow> string Result" where
  "given_identity m name what =
     optional_parsed (given_text m name) StringId_TryParse (MemberError what name ''is not a valid identity'') []"

definition optional_digest :: "members \<Rightarrow> string \<Rightarrow> string \<Rightarrow> Digest Result" where
  "optional_digest m name what =
     optional_parsed (OptionalString m name) Digest_TryFromHex (MemberError what name ''is not a digest'') Digest_unset"

definition given_digest :: "members \<Rightarrow> string \<Rightarrow> string \<Rightarrow> string \<Rightarrow> Digest Result" where
  "given_digest m name what complaint =
     optional_parsed (given_text m name) Digest_TryFromHex (MemberError what name complaint) Digest_unset"

definition require_enum :: "members \<Rightarrow> string \<Rightarrow> string \<Rightarrow> (string \<Rightarrow> 'a option) \<Rightarrow> 'a Result" where
  "require_enum m name what parse = require_parsed m name what (\<lambda>s. parse (c_str s)) ''is not recognized''"

text \<open>The loop over \<^verbatim>\<open>kRootCauseKindCount\<close> values that compares with their texts.\<close>

definition all_causes :: "RootCauseKind list" where
  "all_causes = [CK_None, CK_SingleField, CK_GenerationNotApplied, CK_PartialApplication, CK_SourceConflict,
     CK_StaleEvidence, CK_InsufficientCoverage, CK_MissingIntent, CK_UnsupportedField]"

definition TryParseRootCause :: "string \<Rightarrow> RootCauseKind option" where
  "TryParseRootCause wanted = List.find (\<lambda>k. wanted = ToText_RootCauseKind k) all_causes"

section \<open>Timeline entries\<close>

definition hex_or_empty :: "Digest \<Rightarrow> string" where
  "hex_or_empty d = (if Digest_is_set d then Digest_ToHex d else [])"

definition timeline_members :: "TimelineEntry \<Rightarrow> members" where
  "timeline_members e =
     [(''kind'', V_String (ToText_TimelineEventKind (te_kind e))), (''sequence'', MakeUint (te_sequence e)),
      (''at'', V_String (FormatTime (te_at e))), (''state'', V_String (ToText_FindingState (te_state_after e))),
      (''class'', V_String (ToText_DriftClass (te_klass e))), (''severity'', V_String (ToText_Severity (te_severity e))),
      (''reason'', V_String (ToText_ReasonCode (te_reason e))), (''baseline_generation'', MakeUint (te_baseline_generation e)),
      (''baseline_epoch'', MakeUint (te_baseline_epoch e)), (''evidence_digest'', V_String (Digest_ToHex (te_evidence_digest e))),
      (''actor'', V_String (te_actor e)), (''detail'', V_String (te_detail e)), (''target'', V_String (te_target e)),
      (''object'', V_String (te_object e)), (''finding'', V_String (hex_or_empty (te_finding e)))]"

definition EncodeTimelineEntry :: "TimelineEntry \<Rightarrow> Value" where
  "EncodeTimelineEntry e = V_Map (members_of (timeline_members e))"

definition require_record :: "Value \<Rightarrow> string \<Rightarrow> members Result" where
  "require_record v refusal = (case as_map v of None \<Rightarrow> Inl (Status_Rejected RC_LedgerDecodeFailed refusal) | Some m \<Rightarrow> Inr m)"

definition DecodeTimelineEntry :: "Value \<Rightarrow> TimelineEntry Result" where
  "DecodeTimelineEntry v =
     bindr (require_record v ''timeline entry must be an object'') (\<lambda>m.
     bindr (CheckMembers m [''kind'', ''sequence'', ''at'', ''state'', ''class'', ''severity'', ''reason'', ''baseline_generation'',
              ''baseline_epoch'', ''evidence_digest'', ''actor'', ''detail'', ''target'', ''object'', ''finding'']
              ''timeline entry'') (\<lambda>_.
     bindr (require_enum m ''kind'' ''timeline entry'' TryParseTimelineEventKind) (\<lambda>kind.
     bindr (RequireUint m ''sequence'' ''timeline entry'') (\<lambda>sequence.
     bindr (require_time m ''at'' ''timeline entry'') (\<lambda>at.
     bindr (optional_enum m ''state'' ''timeline entry'' TryParseFindingState FS_Open) (\<lambda>state.
     bindr (optional_enum m ''class'' ''timeline entry'' TryParseDriftClass DC_None) (\<lambda>klass.
     bindr (optional_enum m ''severity'' ''timeline entry'' TryParseSeverity SV_Medium) (\<lambda>severity.
     bindr (optional_enum m ''reason'' ''timeline entry'' TryParseReasonCode RC_None) (\<lambda>reason.
     bindr (given_digest m ''evidence_digest'' ''timeline entry'' ''is not a digest'') (\<lambda>digest.
     bindr (given_identity m ''actor'' ''timeline entry'') (\<lambda>actor.
     bindr (given_identity m ''target'' ''timeline entry'') (\<lambda>target.
     bindr (given_identity m ''object'' ''timeline entry'') (\<lambda>object.
     bindr (given_digest m ''finding'' ''timeline entry'' ''is not a finding identity'') (\<lambda>finding.
     Inr \<lparr>te_kind = kind, te_target = target, te_object = object, te_finding = finding, te_sequence = sequence, te_at = at,
          te_state_after = state, te_klass = klass, te_severity = severity, te_reason = reason,
          te_baseline_generation = or_else (OptionalUint m ''baseline_generation'') 0,
          te_baseline_epoch = or_else (OptionalUint m ''baseline_epoch'') 0, te_evidence_digest = digest, te_actor = actor,
          te_detail = or_else (OptionalString m ''detail'') []\<rparr>))))))))))))))"

section \<open>Evidence references\<close>

definition EncodeEvidenceRef :: "EvidenceRef \<Rightarrow> Value" where
  "EncodeEvidenceRef r =
     V_Map (members_of
       [(''source'', V_String (er_source r)), (''snapshot'', V_String (er_snapshot r)), (''epoch'', MakeUint (er_epoch r)),
        (''incarnation'', MakeUint (er_incarnation r)), (''sequence'', MakeUint (er_sequence r)),
        (''collected_at'', V_String (FormatTime (er_collected_at r))), (''received_at'', V_String (FormatTime (er_received_at r))),
        (''freshness'', V_String (ToText_FreshnessState (er_freshness r))),
        (''coverage'', V_String (ToText_ObservationCoverage (er_coverage r))),
        (''evidence'', V_String (ToText_EvidenceClass (er_evidence r))),
        (''content_digest'', V_String (Digest_ToHex (er_content_digest r)))])"

definition DecodeEvidenceRef :: "Value \<Rightarrow> EvidenceRef Result" where
  "DecodeEvidenceRef v =
     bindr (require_record v ''evidence reference must be an object'') (\<lambda>m.
     bindr (CheckMembers m [''source'', ''snapshot'', ''epoch'', ''incarnation'', ''sequence'', ''collected_at'', ''received_at'',
              ''freshness'', ''coverage'', ''evidence'', ''content_digest''] ''evidence reference'') (\<lambda>_.
     bindr (require_identity m ''source'' ''evidence reference'') (\<lambda>source.
     bindr (require_identity m ''snapshot'' ''evidence reference'') (\<lambda>snapshot.
     bindr (RequireUint m ''epoch'' ''evidence reference'') (\<lambda>epoch.
     bindr (RequireUint m ''incarnation'' ''evidence reference'') (\<lambda>incarnation.
     bindr (RequireUint m ''sequence'' ''evidence reference'') (\<lambda>sequence.
     bindr (optional_time m ''collected_at'' ''evidence reference'') (\<lambda>collected.
     bindr (optional_time m ''received_at'' ''evidence reference'') (\<lambda>received.
     bindr (optional_enum m ''freshness'' ''evidence reference'' TryParseFreshnessState FR_Unknown) (\<lambda>freshness.
     bindr (optional_enum m ''coverage'' ''evidence reference'' TryParseObservationCoverage OC_Unknown) (\<lambda>coverage.
     bindr (optional_enum m ''evidence'' ''evidence reference'' TryParseEvidenceClass EC_Unknown) (\<lambda>evidence.
     bindr (optional_digest m ''content_digest'' ''evidence reference'') (\<lambda>digest.
     Inr \<lparr>er_source = source, er_snapshot = snapshot, er_epoch = epoch, er_incarnation = incarnation, er_sequence = sequence,
          er_collected_at = collected, er_received_at = received, er_freshness = freshness, er_content_digest = digest,
          er_coverage = coverage, er_evidence = evidence\<rparr>)))))))))))))"

section \<open>What a record must hold to be read back\<close>

definition identity_or_empty :: "string \<Rightarrow> bool" where
  "identity_or_empty s \<longleftrightarrow> s = [] \<or> IsValidIdentityText s"

definition full_digest :: "Digest \<Rightarrow> bool" where
  "full_digest d \<longleftrightarrow> length d = kDigestBytes"

definition timeline_recordable :: "TimelineEntry \<Rightarrow> bool" where
  "timeline_recordable e \<longleftrightarrow>
     time_readable (te_at e) \<and> full_digest (te_evidence_digest e) \<and> full_digest (te_finding e) \<and>
     identity_or_empty (te_actor e) \<and> identity_or_empty (te_target e) \<and> identity_or_empty (te_object e)"

definition evidence_recordable :: "EvidenceRef \<Rightarrow> bool" where
  "evidence_recordable r \<longleftrightarrow>
     IsValidIdentityText (er_source r) \<and> IsValidIdentityText (er_snapshot r) \<and> time_readable (er_collected_at r) \<and>
     time_readable (er_received_at r) \<and> full_digest (er_content_digest r)"

lemma record_c_str [simp]:
  "c_str (ToText_TimelineEventKind k) = ToText_TimelineEventKind k" "c_str (ToText_FindingState st) = ToText_FindingState st"
  "c_str (ToText_DriftClass c) = ToText_DriftClass c" "c_str (ToText_Severity v) = ToText_Severity v"
  "c_str (ToText_FreshnessState fr) = ToText_FreshnessState fr" "c_str (ToText_SuppressionOrigin og) = ToText_SuppressionOrigin og"
  subgoal by (cases k) (simp_all add: c_str_def ToText_TimelineEventKind_def kEventNames_def)
  subgoal by (cases st) (simp_all add: c_str_def ToText_FindingState_def kFindingStateNames_def)
  subgoal by (cases c) (simp_all add: c_str_def ToText_DriftClass_def kDriftClassNames_def)
  subgoal by (cases v) (simp_all add: c_str_def ToText_Severity_def kSeverityNames_def)
  subgoal by (cases fr) (simp_all add: c_str_def ToText_FreshnessState_def kStateNames_def)
  subgoal by (cases og) (simp_all add: c_str_def ToText_SuppressionOrigin_def kSuppressionOriginNames_def)
  done

lemma cause_read: "TryParseRootCause (ToText_RootCauseKind k) = Some k"
  by (cases k) (simp_all add: TryParseRootCause_def all_causes_def ToText_RootCauseKind_def kCauseNames_def)

lemma ToHex_full: "full_digest d \<Longrightarrow> Digest_ToHex d \<noteq> []"
  by (cases d) (simp_all add: full_digest_def Digest_ToHex_def ToHex_def kDigestBytes_def)

lemma unset_full: "full_digest d \<Longrightarrow> \<not> Digest_is_set d \<Longrightarrow> d = Digest_unset"
  by (simp add: full_digest_def Digest_is_set_def Digest_unset_def list_ex_iff replicate_eqI)

lemma digest_full_read: "full_digest d \<Longrightarrow> Digest_TryFromHex (Digest_ToHex d) = Some d"
  by (simp add: digest_read full_digest_def)

lemma given_digest_read:
  "map_of kvs name = Some (V_String (hex_or_empty d)) \<Longrightarrow> full_digest d \<Longrightarrow> given_digest (members_of kvs) name what complaint = Inr d"
  "map_of kvs name = Some (V_String (Digest_ToHex d)) \<Longrightarrow> full_digest d \<Longrightarrow> given_digest (members_of kvs) name what complaint = Inr d"
  using unset_full [of d] by (auto simp: given_digest_def parsed_simps hex_or_empty_def ToHex_full digest_full_read)

lemma given_identity_read:
  "map_of kvs name = Some (V_String s) \<Longrightarrow> identity_or_empty s \<Longrightarrow> given_identity (members_of kvs) name what = Inr s"
  by (auto simp: given_identity_def parsed_simps identity_or_empty_def identity_read)

lemmas record_simps = require_record_def given_digest_read given_identity_read require_enum_def optional_time_def optional_digest_def
  digest_full_read parsed_simps text_read or_else_def finding_state_text_roundtrip event_text_roundtrip drift_text_roundtrip
  severity_text_roundtrip suppression_origin_text_roundtrip freshness_text_roundtrip cause_read

lemma DecodeTimelineEntry_encoded: "timeline_recordable e \<Longrightarrow> DecodeTimelineEntry (EncodeTimelineEntry e) = Inr e"
  by (cases e) (simp add: DecodeTimelineEntry_def EncodeTimelineEntry_def timeline_members_def timeline_recordable_def record_simps)

lemma DecodeEvidenceRef_encoded: "evidence_recordable r \<Longrightarrow> DecodeEvidenceRef (EncodeEvidenceRef r) = Inr r"
  by (cases r) (simp add: DecodeEvidenceRef_def EncodeEvidenceRef_def evidence_recordable_def record_simps)

interpretation timeline_codec: document_codec EncodeTimelineEntry DecodeTimelineEntry timeline_recordable
  by unfold_locales (rule DecodeTimelineEntry_encoded)

interpretation evidence_codec: document_codec EncodeEvidenceRef DecodeEvidenceRef evidence_recordable
  by unfold_locales (rule DecodeEvidenceRef_encoded)

section \<open>Findings\<close>

definition default_Finding :: Finding where
  "default_Finding =
     \<lparr>f_id = Digest_unset,
      f_identity = \<lparr>id_target = [], id_object = [], id_path = [], id_klass = DC_None, id_baseline_generation = 0,
        id_qualifier = Digest_unset\<rparr>,
      f_klass = DC_None, f_raw_class = DC_None, f_severity = SV_Medium, f_state = FS_Open, f_reason = RC_None,
      f_baseline_generation = 0, f_baseline_epoch = 0, f_baseline_authority = IA_Unknown, f_policy = [],
      f_policy_digest = Digest_unset, f_has_intended = False, f_intended = V_Null, f_has_observed = False, f_observed = V_Null,
      f_evidence = [], f_evidence_freshness = FR_Unknown, f_group = Digest_unset, f_group_cause = CK_None,
      f_observation_count = 0, f_reopen_count = 0, f_resolution_confirmations = 0, f_first_seen = 0, f_last_seen = 0,
      f_last_evaluated = 0, f_resolved_at = 0, f_suppression = None, f_suppression_origin = SO_None, f_suppressed_by = [],
      f_suppression_reason = [], f_suppression_expires_at = None, f_acknowledged_by = [], f_acknowledged_at = 0,
      f_acknowledgement_reason = [], f_summary = [], f_compliance_relevant = True, f_timeline = []\<rparr>"

definition finding_members :: "Finding \<Rightarrow> members" where
  "finding_members f =
     [(''id'', V_String (Digest_ToHex (f_id f))), (''target'', V_String (id_target (f_identity f))),
      (''object'', V_String (id_object (f_identity f))), (''path'', V_String (FieldPath_ToText (id_path (f_identity f)))),
      (''class'', V_String (ToText_DriftClass (f_klass f))), (''raw_class'', V_String (ToText_DriftClass (f_raw_class f))),
      (''severity'', V_String (ToText_Severity (f_severity f))), (''state'', V_String (ToText_FindingState (f_state f))),
      (''reason'', V_String (ToText_ReasonCode (f_reason f))), (''baseline_generation'', MakeUint (f_baseline_generation f)),
      (''baseline_epoch'', MakeUint (f_baseline_epoch f)),
      (''baseline_authority'', V_String (ToText_IntentAuthority (f_baseline_authority f))), (''policy'', V_String (f_policy f)),
      (''policy_digest'', V_String (Digest_ToHex (f_policy_digest f))),
      (''qualifier'', V_String (Digest_ToHex (id_qualifier (f_identity f)))), (''has_intended'', V_Bool (f_has_intended f)),
      (''intended'', f_intended f), (''has_observed'', V_Bool (f_has_observed f)), (''observed'', f_observed f),
      (''evidence_freshness'', V_String (ToText_FreshnessState (f_evidence_freshness f))),
      (''group'', V_String (hex_or_empty (f_group f))), (''group_cause'', V_String (ToText_RootCauseKind (f_group_cause f))),
      (''observation_count'', MakeUint (f_observation_count f)), (''reopen_count'', MakeUint (f_reopen_count f)),
      (''resolution_confirmations'', MakeUint (ucast (f_resolution_confirmations f))),
      (''first_seen'', V_String (FormatTime (f_first_seen f))), (''last_seen'', V_String (FormatTime (f_last_seen f))),
      (''last_evaluated'', V_String (FormatTime (f_last_evaluated f))), (''resolved_at'', V_String (FormatTime (f_resolved_at f))),
      (''suppression'', V_String (case f_suppression f of None \<Rightarrow> [] | Some sid \<Rightarrow> sid)),
      (''suppression_origin'', V_String (ToText_SuppressionOrigin (f_suppression_origin f))),
      (''suppressed_by'', V_String (f_suppressed_by f)), (''suppression_reason'', V_String (f_suppression_reason f)),
      (''suppression_expires_at'', V_String (case f_suppression_expires_at f of None \<Rightarrow> [] | Some t \<Rightarrow> FormatTime t)),
      (''acknowledged_by'', V_String (f_acknowledged_by f)), (''acknowledged_at'', V_String (FormatTime (f_acknowledged_at f))),
      (''acknowledgement_reason'', V_String (f_acknowledgement_reason f)),
      (''compliance_relevant'', V_Bool (f_compliance_relevant f)), (''summary'', V_String (f_summary f)),
      (''evidence'', V_List (map EncodeEvidenceRef (f_evidence f))), (''timeline'', V_List (map EncodeTimelineEntry (f_timeline f)))]"

definition EncodeFinding :: "Finding \<Rightarrow> Value" where
  "EncodeFinding f = V_Map (members_of (finding_members f))"

definition decode_finding_class :: "members \<Rightarrow> Finding \<Rightarrow> Finding Result" where
  "decode_finding_class m f =
     bindr (require_enum m ''class'' ''finding'' TryParseDriftClass) (\<lambda>klass.
     bindr (optional_enum m ''raw_class'' ''finding'' TryParseDriftClass klass) (\<lambda>raw.
     bindr (optional_enum m ''severity'' ''finding'' TryParseSeverity (f_severity f)) (\<lambda>severity.
     bindr (optional_enum m ''state'' ''finding'' TryParseFindingState (f_state f)) (\<lambda>state.
     bindr (optional_enum m ''reason'' ''finding'' TryParseReasonCode (f_reason f)) (\<lambda>reason.
     Inr (f\<lparr>f_klass := klass, f_identity := (f_identity f)\<lparr>id_klass := klass\<rparr>, f_raw_class := raw, f_severity := severity,
           f_state := state, f_reason := reason\<rparr>))))))"

definition decode_finding_baseline :: "members \<Rightarrow> Finding \<Rightarrow> Finding Result" where
  "decode_finding_baseline m f =
     bindr (RequireUint m ''baseline_generation'' ''finding'') (\<lambda>generation.
     bindr (optional_enum m ''baseline_authority'' ''finding'' TryParseIntentAuthority (f_baseline_authority f)) (\<lambda>authority.
     bindr (optional_parsed (OptionalString m ''policy'') StringId_TryParse
              (MemberError ''finding'' ''policy'' ''is not a valid identity'') (f_policy f)) (\<lambda>policy.
     bindr (optional_digest m ''policy_digest'' ''finding'') (\<lambda>digest.
     bindr (given_digest m ''qualifier'' ''finding'' ''is not a digest'') (\<lambda>qualifier.
     Inr (f\<lparr>f_baseline_generation := generation,
           f_identity := (f_identity f)\<lparr>id_baseline_generation := generation, id_qualifier := qualifier\<rparr>,
           f_baseline_epoch := or_else (OptionalUint m ''baseline_epoch'') (f_baseline_epoch f),
           f_baseline_authority := authority, f_policy := policy, f_policy_digest := digest\<rparr>))))))"

text \<open>The identity of a record is recomputed from its identity members.\<close>

definition decode_finding_identity :: "RuntimeLimits \<Rightarrow> members \<Rightarrow> Finding \<Rightarrow> Finding Result" where
  "decode_finding_identity limits m f =
     bindr (require_parsed m ''id'' ''finding'' Digest_TryFromHex ''is not a finding identity'') (\<lambda>fid.
     bindr (require_identity m ''target'' ''finding'') (\<lambda>target.
     bindr (require_identity m ''object'' ''finding'') (\<lambda>object.
     bindr (require_path m limits ''finding'') (\<lambda>path.
     bindr (decode_finding_class m
              (f\<lparr>f_id := fid, f_identity := (f_identity f)\<lparr>id_target := target, id_object := object, id_path := path\<rparr>\<rparr>)) (\<lambda>f.
     bindr (decode_finding_baseline m f) (\<lambda>f.
     if ComputeId (f_identity f) \<noteq> f_id f
     then Inl (Status_Rejected RC_LedgerIntegrityDigestMismatch ''finding identity does not match its identity members'')
     else Inr f))))))"

definition decode_confirmations :: "members \<Rightarrow> u32 \<Rightarrow> u32 Result" where
  "decode_confirmations m initial =
     (case OptionalUint m ''resolution_confirmations'' of
        None \<Rightarrow> Inr initial
      | Some n \<Rightarrow>
          if n > 0xFFFFFFFF then Inl (MemberError ''finding'' ''resolution_confirmations'' ''is out of range'') else Inr (ucast n))"

definition decode_finding_assessment :: "members \<Rightarrow> Finding \<Rightarrow> Finding Result" where
  "decode_finding_assessment m f =
     bindr (optional_enum m ''evidence_freshness'' ''finding'' TryParseFreshnessState (f_evidence_freshness f)) (\<lambda>freshness.
     bindr (given_digest m ''group'' ''finding'' ''is not a group identity'') (\<lambda>group.
     bindr (optional_parsed (OptionalString m ''group_cause'') TryParseRootCause
              (MemberError ''finding'' ''group_cause'' ''is not recognized'') (f_group_cause f)) (\<lambda>cause.
     bindr (decode_confirmations m (f_resolution_confirmations f)) (\<lambda>confirmations.
     bindr (given_time m ''first_seen'' ''finding'') (\<lambda>first_seen.
     bindr (given_time m ''last_seen'' ''finding'') (\<lambda>last_seen.
     bindr (given_time m ''last_evaluated'' ''finding'') (\<lambda>last_evaluated.
     bindr (given_time m ''resolved_at'' ''finding'') (\<lambda>resolved_at.
     Inr (f\<lparr>f_has_intended := or_else (OptionalBool m ''has_intended'') (f_has_intended f),
           f_intended := or_else (FindMember m ''intended'') (f_intended f),
           f_has_observed := or_else (OptionalBool m ''has_observed'') (f_has_observed f),
           f_observed := or_else (FindMember m ''observed'') (f_observed f),
           f_evidence_freshness := freshness, f_group := group, f_group_cause := cause,
           f_observation_count := or_else (OptionalUint m ''observation_count'') (f_observation_count f),
           f_reopen_count := or_else (OptionalUint m ''reopen_count'') (f_reopen_count f),
           f_resolution_confirmations := confirmations, f_first_seen := first_seen, f_last_seen := last_seen,
           f_last_evaluated := last_evaluated, f_resolved_at := resolved_at\<rparr>)))))))))"

definition decode_finding_operator :: "members \<Rightarrow> Finding \<Rightarrow> Finding Result" where
  "decode_finding_operator m f =
     bindr (optional_parsed (given_text m ''suppression'') (\<lambda>s. map_option Some (StringId_TryParse s))
              (MemberError ''finding'' ''suppression'' ''is not a valid identity'') (f_suppression f)) (\<lambda>suppression.
     bindr (optional_enum m ''suppression_origin'' ''finding'' TryParseSuppressionOrigin (f_suppression_origin f)) (\<lambda>origin.
     bindr (given_identity m ''suppressed_by'' ''finding'') (\<lambda>suppressed_by.
     bindr (optional_parsed (given_text m ''suppression_expires_at'') (\<lambda>s. map_option Some (TryParseTime s))
              (MemberError ''finding'' ''suppression_expires_at'' ''is not an RFC 3339 timestamp'')
              (f_suppression_expires_at f)) (\<lambda>expires.
     bindr (given_identity m ''acknowledged_by'' ''finding'') (\<lambda>acknowledged_by.
     bindr (given_time m ''acknowledged_at'' ''finding'') (\<lambda>acknowledged_at.
     Inr (f\<lparr>f_suppression := suppression, f_suppression_origin := origin, f_suppressed_by := suppressed_by,
           f_suppression_reason := or_else (OptionalString m ''suppression_reason'') (f_suppression_reason f),
           f_suppression_expires_at := expires, f_acknowledged_by := acknowledged_by, f_acknowledged_at := acknowledged_at,
           f_acknowledgement_reason := or_else (OptionalString m ''acknowledgement_reason'') (f_acknowledgement_reason f),
           f_compliance_relevant := or_else (OptionalBool m ''compliance_relevant'') (f_compliance_relevant f),
           f_summary := or_else (OptionalString m ''summary'') (f_summary f)\<rparr>)))))))"

text \<open>An optional sequence of records, bounded by the envelope.\<close>

definition decode_sequence :: "members \<Rightarrow> string \<Rightarrow> string \<Rightarrow> nat \<Rightarrow> Status \<Rightarrow> (Value \<Rightarrow> 'a Result) \<Rightarrow> 'a list Result" where
  "decode_sequence m name what bound refusal decode =
     (case FindMember m name of
        None \<Rightarrow> Inr []
      | Some v \<Rightarrow>
          (case as_list v of
             None \<Rightarrow> Inl (MemberError what name ''must be a sequence'')
           | Some l \<Rightarrow> if length l > bound then Inl refusal else traverse decode l))"

definition decode_finding_history :: "RuntimeLimits \<Rightarrow> members \<Rightarrow> Finding \<Rightarrow> Finding Result" where
  "decode_finding_history limits m f =
     bindr (decode_sequence m ''evidence'' ''finding'' (max_evidence_refs_per_finding limits)
              (Status_Limit RC_LimitBytesExceeded ''evidence references exceed the envelope'') DecodeEvidenceRef) (\<lambda>evidence.
     bindr (decode_sequence m ''timeline'' ''finding'' (max_timeline_entries_per_finding limits)
              (Status_Limit RC_LimitTimelineExceeded ''finding timeline exceeds the envelope'') DecodeTimelineEntry) (\<lambda>timeline.
     Inr (f\<lparr>f_evidence := evidence, f_timeline := timeline\<rparr>)))"

definition finding_member_names :: "string list" where
  "finding_member_names =
     [''id'', ''target'', ''object'', ''path'', ''class'', ''raw_class'', ''severity'', ''state'', ''reason'', ''baseline_generation'',
      ''baseline_epoch'', ''baseline_authority'', ''policy'', ''policy_digest'', ''qualifier'', ''has_intended'', ''intended'',
      ''has_observed'', ''observed'', ''evidence_freshness'', ''group'', ''group_cause'', ''observation_count'', ''reopen_count'',
      ''resolution_confirmations'', ''first_seen'', ''last_seen'', ''last_evaluated'', ''resolved_at'', ''suppression'',
      ''suppression_origin'', ''suppressed_by'', ''suppression_reason'', ''suppression_expires_at'', ''acknowledged_by'',
      ''acknowledged_at'', ''acknowledgement_reason'', ''compliance_relevant'', ''summary'', ''evidence'', ''timeline'']"

definition DecodeFinding :: "RuntimeLimits \<Rightarrow> Value \<Rightarrow> Finding Result" where
  "DecodeFinding limits v =
     bindr (require_record v ''finding must be an object'') (\<lambda>m.
     bindr (CheckMembers m finding_member_names ''finding'') (\<lambda>_.
     bindr (decode_finding_identity limits m default_Finding) (\<lambda>f.
     bindr (decode_finding_assessment m f) (\<lambda>f.
     bindr (decode_finding_operator m f) (\<lambda>f.
     decode_finding_history limits m f)))))"

definition finding_recordable :: "RuntimeLimits \<Rightarrow> Finding \<Rightarrow> bool" where
  "finding_recordable limits f \<longleftrightarrow>
     full_digest (f_id f) \<and> f_id f = ComputeId (f_identity f) \<and> id_klass (f_identity f) = f_klass f \<and>
     id_baseline_generation (f_identity f) = f_baseline_generation f \<and> full_digest (id_qualifier (f_identity f)) \<and>
     IsValidIdentityText (id_target (f_identity f)) \<and> IsValidIdentityText (id_object (f_identity f)) \<and>
     path_readable limits (id_path (f_identity f)) \<and> IsValidIdentityText (f_policy f) \<and> full_digest (f_policy_digest f) \<and>
     full_digest (f_group f) \<and> time_readable (f_first_seen f) \<and> time_readable (f_last_seen f) \<and>
     time_readable (f_last_evaluated f) \<and> time_readable (f_resolved_at f) \<and> time_readable (f_acknowledged_at f) \<and>
     pred_option IsValidIdentityText (f_suppression f) \<and> pred_option time_readable (f_suppression_expires_at f) \<and>
     identity_or_empty (f_suppressed_by f) \<and> identity_or_empty (f_acknowledged_by f) \<and>
     length (f_evidence f) \<le> max_evidence_refs_per_finding limits \<and> list_all evidence_recordable (f_evidence f) \<and>
     length (f_timeline f) \<le> max_timeline_entries_per_finding limits \<and> list_all timeline_recordable (f_timeline f)"

lemma finding_lookup:
  "map_of (finding_members f) ''id'' = Some (V_String (Digest_ToHex (f_id f)))"
  "map_of (finding_members f) ''target'' = Some (V_String (id_target (f_identity f)))"
  "map_of (finding_members f) ''object'' = Some (V_String (id_object (f_identity f)))"
  "map_of (finding_members f) ''path'' = Some (V_String (FieldPath_ToText (id_path (f_identity f))))"
  "map_of (finding_members f) ''class'' = Some (V_String (ToText_DriftClass (f_klass f)))"
  "map_of (finding_members f) ''raw_class'' = Some (V_String (ToText_DriftClass (f_raw_class f)))"
  "map_of (finding_members f) ''severity'' = Some (V_String (ToText_Severity (f_severity f)))"
  "map_of (finding_members f) ''state'' = Some (V_String (ToText_FindingState (f_state f)))"
  "map_of (finding_members f) ''reason'' = Some (V_String (ToText_ReasonCode (f_reason f)))"
  "map_of (finding_members f) ''baseline_generation'' = Some (MakeUint (f_baseline_generation f))"
  "map_of (finding_members f) ''baseline_epoch'' = Some (MakeUint (f_baseline_epoch f))"
  "map_of (finding_members f) ''baseline_authority'' = Some (V_String (ToText_IntentAuthority (f_baseline_authority f)))"
  "map_of (finding_members f) ''policy'' = Some (V_String (f_policy f))"
  "map_of (finding_members f) ''policy_digest'' = Some (V_String (Digest_ToHex (f_policy_digest f)))"
  "map_of (finding_members f) ''qualifier'' = Some (V_String (Digest_ToHex (id_qualifier (f_identity f))))"
  "map_of (finding_members f) ''has_intended'' = Some (V_Bool (f_has_intended f))"
  "map_of (finding_members f) ''intended'' = Some (f_intended f)"
  "map_of (finding_members f) ''has_observed'' = Some (V_Bool (f_has_observed f))"
  "map_of (finding_members f) ''observed'' = Some (f_observed f)"
  "map_of (finding_members f) ''evidence_freshness'' = Some (V_String (ToText_FreshnessState (f_evidence_freshness f)))"
  "map_of (finding_members f) ''group'' = Some (V_String (hex_or_empty (f_group f)))"
  "map_of (finding_members f) ''group_cause'' = Some (V_String (ToText_RootCauseKind (f_group_cause f)))"
  "map_of (finding_members f) ''observation_count'' = Some (MakeUint (f_observation_count f))"
  "map_of (finding_members f) ''reopen_count'' = Some (MakeUint (f_reopen_count f))"
  "map_of (finding_members f) ''resolution_confirmations'' = Some (MakeUint (ucast (f_resolution_confirmations f)))"
  "map_of (finding_members f) ''first_seen'' = Some (V_String (FormatTime (f_first_seen f)))"
  "map_of (finding_members f) ''last_seen'' = Some (V_String (FormatTime (f_last_seen f)))"
  "map_of (finding_members f) ''last_evaluated'' = Some (V_String (FormatTime (f_last_evaluated f)))"
  "map_of (finding_members f) ''resolved_at'' = Some (V_String (FormatTime (f_resolved_at f)))"
  "map_of (finding_members f) ''suppression'' = Some (V_String (case f_suppression f of None \<Rightarrow> [] | Some sid \<Rightarrow> sid))"
  "map_of (finding_members f) ''suppression_origin'' = Some (V_String (ToText_SuppressionOrigin (f_suppression_origin f)))"
  "map_of (finding_members f) ''suppressed_by'' = Some (V_String (f_suppressed_by f))"
  "map_of (finding_members f) ''suppression_reason'' = Some (V_String (f_suppression_reason f))"
  "map_of (finding_members f) ''suppression_expires_at'' = Some (V_String (case f_suppression_expires_at f of None \<Rightarrow> [] | Some t \<Rightarrow> FormatTime t))"
  "map_of (finding_members f) ''acknowledged_by'' = Some (V_String (f_acknowledged_by f))"
  "map_of (finding_members f) ''acknowledged_at'' = Some (V_String (FormatTime (f_acknowledged_at f)))"
  "map_of (finding_members f) ''acknowledgement_reason'' = Some (V_String (f_acknowledgement_reason f))"
  "map_of (finding_members f) ''compliance_relevant'' = Some (V_Bool (f_compliance_relevant f))"
  "map_of (finding_members f) ''summary'' = Some (V_String (f_summary f))"
  "map_of (finding_members f) ''evidence'' = Some (V_List (map EncodeEvidenceRef (f_evidence f)))"
  "map_of (finding_members f) ''timeline'' = Some (V_List (map EncodeTimelineEntry (f_timeline f)))"
  unfolding finding_members_def by simp_all

lemma finding_members_named: "fst ` set (finding_members f) \<subseteq> set finding_member_names"
  by (simp add: finding_members_def finding_member_names_def)

lemma FormatTime_not_Nil: "time_readable t \<Longrightarrow> FormatTime t \<noteq> []"
  using time_read [of t] by (auto simp: TryParseTime_def)

lemma given_time_read:
  "map_of kvs name = Some (V_String (FormatTime t)) \<Longrightarrow> time_readable t \<Longrightarrow> given_time (members_of kvs) name what = Inr t"
  by (simp add: given_time_def parsed_simps FormatTime_not_Nil time_read)

lemma sequence_read:
  assumes "map_of kvs name = Some (V_List (map encode xs))" "length xs \<le> bound" "\<And>x. x \<in> set xs \<Longrightarrow> decode (encode x) = Inr x"
  shows "decode_sequence (members_of kvs) name what bound refusal decode = Inr xs"
  using assms by (simp add: decode_sequence_def traverse_id)

lemma confirmations_read:
  "map_of kvs ''resolution_confirmations'' = Some (MakeUint (ucast n)) \<Longrightarrow> decode_confirmations (members_of kvs) initial = Inr n"
  for n :: u32
proof -
  have "unat n < 2 ^ 64" using unat_lt2p [of n] by simp
  then have wide: "unat (ucast n :: u64) = unat n" by (simp add: unsigned_ucast_eq take_bit_nat_eq_self)
  then have "\<not> (ucast n :: u64) > 0xFFFFFFFF" using unat_lt2p [of n] by (simp add: word_less_nat_alt)
  moreover have "ucast (ucast n :: u64) = n"
    by (rule bit_word_eqI) (simp add: bit_simps)
  ultimately show "map_of kvs ''resolution_confirmations'' = Some (MakeUint (ucast n)) \<Longrightarrow> ?thesis"
    by (simp add: decode_confirmations_def reader_simps)
qed

lemmas finding_simps = finding_lookup finding_members_named given_time_read sequence_read confirmations_read record_simps

text \<open>Each step of the decoder restores its part of the record.\<close>

lemma class_restored:
  "decode_finding_class (members_of (finding_members f)) g =
    Inr (g\<lparr>f_klass := f_klass f, f_identity := (f_identity g)\<lparr>id_klass := f_klass f\<rparr>, f_raw_class := f_raw_class f,
      f_severity := f_severity f, f_state := f_state f, f_reason := f_reason f\<rparr>)"
  unfolding decode_finding_class_def by (simp add: finding_simps)

lemma baseline_restored:
  assumes "IsValidIdentityText (f_policy f)" "full_digest (f_policy_digest f)" "full_digest (id_qualifier (f_identity f))"
  shows "decode_finding_baseline (members_of (finding_members f)) g =
    Inr (g\<lparr>f_baseline_generation := f_baseline_generation f,
      f_identity := (f_identity g)\<lparr>id_baseline_generation := f_baseline_generation f, id_qualifier := id_qualifier (f_identity f)\<rparr>,
      f_baseline_epoch := f_baseline_epoch f, f_baseline_authority := f_baseline_authority f, f_policy := f_policy f,
      f_policy_digest := f_policy_digest f\<rparr>)"
  using assms unfolding decode_finding_baseline_def by (simp add: finding_simps)

lemma identity_restored:
  assumes "finding_recordable limits f"
  shows "decode_finding_identity limits (members_of (finding_members f)) g =
    Inr (g\<lparr>f_id := f_id f, f_identity := f_identity f, f_klass := f_klass f, f_raw_class := f_raw_class f,
      f_severity := f_severity f, f_state := f_state f, f_reason := f_reason f, f_baseline_generation := f_baseline_generation f,
      f_baseline_epoch := f_baseline_epoch f, f_baseline_authority := f_baseline_authority f, f_policy := f_policy f,
      f_policy_digest := f_policy_digest f\<rparr>)"
proof -
  have "(f_identity g)\<lparr>id_target := id_target (f_identity f), id_object := id_object (f_identity f),
      id_path := id_path (f_identity f), id_klass := f_klass f, id_baseline_generation := f_baseline_generation f,
      id_qualifier := id_qualifier (f_identity f)\<rparr> = f_identity f"
    using assms by (simp add: finding_recordable_def)
  moreover have "ComputeId (f_identity f) = f_id f" "full_digest (f_id f)" "IsValidIdentityText (id_target (f_identity f))"
    "IsValidIdentityText (id_object (f_identity f))" "path_readable limits (id_path (f_identity f))"
    "IsValidIdentityText (f_policy f)" "full_digest (f_policy_digest f)" "full_digest (id_qualifier (f_identity f))"
    using assms by (auto simp: finding_recordable_def)
  ultimately show ?thesis
    unfolding decode_finding_identity_def by (simp add: finding_simps class_restored baseline_restored)
qed

lemma assessment_restored:
  assumes "finding_recordable limits f"
  shows "decode_finding_assessment (members_of (finding_members f)) g =
    Inr (g\<lparr>f_has_intended := f_has_intended f, f_intended := f_intended f, f_has_observed := f_has_observed f,
      f_observed := f_observed f, f_evidence_freshness := f_evidence_freshness f, f_group := f_group f,
      f_group_cause := f_group_cause f, f_observation_count := f_observation_count f, f_reopen_count := f_reopen_count f,
      f_resolution_confirmations := f_resolution_confirmations f, f_first_seen := f_first_seen f, f_last_seen := f_last_seen f,
      f_last_evaluated := f_last_evaluated f, f_resolved_at := f_resolved_at f\<rparr>)"
  using assms unfolding decode_finding_assessment_def finding_recordable_def by (simp add: finding_simps)

lemma operator_restored:
  assumes "finding_recordable limits f" and "f_suppression g = None" and "f_suppression_expires_at g = None"
  shows "decode_finding_operator (members_of (finding_members f)) g =
    Inr (g\<lparr>f_suppression := f_suppression f, f_suppression_origin := f_suppression_origin f, f_suppressed_by := f_suppressed_by f,
      f_suppression_reason := f_suppression_reason f, f_suppression_expires_at := f_suppression_expires_at f,
      f_acknowledged_by := f_acknowledged_by f, f_acknowledged_at := f_acknowledged_at f,
      f_acknowledgement_reason := f_acknowledgement_reason f, f_compliance_relevant := f_compliance_relevant f,
      f_summary := f_summary f\<rparr>)"
proof -
  have "sid \<noteq> []" if "f_suppression f = Some sid" for sid
    using assms(1) that by (auto simp: finding_recordable_def IsValidIdentityText_def)
  moreover have "FormatTime t \<noteq> []" if "f_suppression_expires_at f = Some t" for t
    using assms(1) that by (simp add: finding_recordable_def FormatTime_not_Nil)
  ultimately show ?thesis
    using assms unfolding decode_finding_operator_def finding_recordable_def
    by (cases "f_suppression f"; cases "f_suppression_expires_at f") (simp_all add: finding_simps)
qed

lemma history_restored:
  assumes "finding_recordable limits f"
  shows "decode_finding_history limits (members_of (finding_members f)) g =
    Inr (g\<lparr>f_evidence := f_evidence f, f_timeline := f_timeline f\<rparr>)"
  using assms unfolding decode_finding_history_def finding_recordable_def
  by (simp add: finding_simps DecodeEvidenceRef_encoded DecodeTimelineEntry_encoded list_all_iff)

lemma DecodeFinding_encoded: "finding_recordable limits f \<Longrightarrow> DecodeFinding limits (EncodeFinding f) = Inr f"
  by (simp add: DecodeFinding_def EncodeFinding_def identity_restored assessment_restored operator_restored history_restored
      require_record_def finding_members_named default_Finding_def)

interpretation finding_codec: document_codec EncodeFinding "DecodeFinding limits" "finding_recordable limits" for limits
  by unfold_locales (rule DecodeFinding_encoded)

section \<open>Root-cause groups\<close>

definition EncodeGroup :: "RootCauseGroup \<Rightarrow> Value" where
  "EncodeGroup g =
     V_Map (members_of
       [(''id'', V_String (Digest_ToHex (rg_id g))), (''target'', V_String (rg_target g)),
        (''baseline_generation'', MakeUint (rg_baseline_generation g)), (''baseline_epoch'', MakeUint (rg_baseline_epoch g)),
        (''cause'', V_String (ToText_RootCauseKind (rg_cause g))),
        (''discriminator'', V_String (Digest_ToHex (rg_discriminator g))), (''summary'', V_String (rg_summary g)),
        (''observation_count'', MakeUint (rg_observation_count g)), (''first_seen'', V_String (FormatTime (rg_first_seen g))),
        (''last_seen'', V_String (FormatTime (rg_last_seen g))),
        (''members'', V_List (map (\<lambda>d. V_String (Digest_ToHex d)) (rg_members g))),
        (''objects'', V_List (map V_String (rg_objects g)))])"

text \<open>The entries of a sequence of texts.\<close>

definition decode_text_entry :: "string \<Rightarrow> (string \<Rightarrow> 'a option) \<Rightarrow> string \<Rightarrow> Value \<Rightarrow> 'a Result" where
  "decode_text_entry name parse complaint v =
     (case as_string v of
        None \<Rightarrow> Inl (MemberError ''group'' name ''entries must be strings'')
      | Some s \<Rightarrow> (case parse s of None \<Rightarrow> Inl (MemberError ''group'' name complaint) | Some x \<Rightarrow> Inr x))"

definition decode_texts :: "members \<Rightarrow> string \<Rightarrow> (string \<Rightarrow> 'a option) \<Rightarrow> string \<Rightarrow> 'a list Result" where
  "decode_texts m name parse complaint =
     (case FindMember m name of
        None \<Rightarrow> Inr []
      | Some v \<Rightarrow>
          (case as_list v of
             None \<Rightarrow> Inl (MemberError ''group'' name ''must be a sequence'')
           | Some l \<Rightarrow> traverse (decode_text_entry name parse complaint) l))"

definition DecodeGroup :: "Value \<Rightarrow> RootCauseGroup Result" where
  "DecodeGroup v =
     bindr (require_record v ''group must be an object'') (\<lambda>m.
     bindr (CheckMembers m [''id'', ''target'', ''baseline_generation'', ''baseline_epoch'', ''cause'', ''discriminator'', ''summary'',
              ''observation_count'', ''first_seen'', ''last_seen'', ''members'', ''objects''] ''group'') (\<lambda>_.
     bindr (require_parsed m ''id'' ''group'' Digest_TryFromHex ''is not a group identity'') (\<lambda>gid.
     bindr (require_identity m ''target'' ''group'') (\<lambda>target.
     bindr (RequireUint m ''baseline_generation'' ''group'') (\<lambda>generation.
     bindr (require_parsed m ''cause'' ''group'' TryParseRootCause ''is not recognized'') (\<lambda>cause.
     bindr (given_digest m ''discriminator'' ''group'' ''is not a digest'') (\<lambda>discriminator.
     bindr (given_time m ''first_seen'' ''group'') (\<lambda>first_seen.
     bindr (given_time m ''last_seen'' ''group'') (\<lambda>last_seen.
     bindr (decode_texts m ''members'' Digest_TryFromHex ''entry is not a finding identity'') (\<lambda>members.
     bindr (decode_texts m ''objects'' StringId_TryParse ''entry is not a valid identity'') (\<lambda>objects.
     Inr \<lparr>rg_id = gid, rg_target = target, rg_baseline_generation = generation,
          rg_baseline_epoch = or_else (OptionalUint m ''baseline_epoch'') 0, rg_cause = cause, rg_discriminator = discriminator,
          rg_members = members, rg_objects = objects, rg_summary = or_else (OptionalString m ''summary'') [],
          rg_observation_count = or_else (OptionalUint m ''observation_count'') 0, rg_first_seen = first_seen,
          rg_last_seen = last_seen\<rparr>)))))))))))"

definition group_recordable :: "RootCauseGroup \<Rightarrow> bool" where
  "group_recordable g \<longleftrightarrow>
     full_digest (rg_id g) \<and> IsValidIdentityText (rg_target g) \<and> full_digest (rg_discriminator g) \<and>
     time_readable (rg_first_seen g) \<and> time_readable (rg_last_seen g) \<and> list_all full_digest (rg_members g) \<and>
     list_all IsValidIdentityText (rg_objects g)"

lemma texts_read:
  assumes "map_of kvs name = Some (V_List (map (\<lambda>x. V_String (print x)) xs))" "\<And>x. x \<in> set xs \<Longrightarrow> parse (print x) = Some x"
  shows "decode_texts (members_of kvs) name parse complaint = Inr xs"
  using assms by (simp add: decode_texts_def traverse_id decode_text_entry_def)

lemma DecodeGroup_encoded: "group_recordable g \<Longrightarrow> DecodeGroup (EncodeGroup g) = Inr g"
  by (cases g) (simp add: DecodeGroup_def EncodeGroup_def group_recordable_def record_simps given_time_read list_all_iff
      texts_read [where print = Digest_ToHex] texts_read [where print = "\<lambda>s. s"])

interpretation group_codec: document_codec EncodeGroup DecodeGroup group_recordable
  by unfold_locales (rule DecodeGroup_encoded)

section \<open>Baselines\<close>

definition EncodeBaseline :: "IntentBaseline \<Rightarrow> Value" where
  "EncodeBaseline b =
     V_Map (members_of
       [(''target'', V_String (ib_target b)), (''generation'', MakeUint (ib_generation b)), (''epoch'', MakeUint (ib_epoch b)),
        (''authority'', V_String (ToText_IntentAuthority (ib_authority b))), (''policy'', V_String (ib_policy b)),
        (''committed_at'', V_String (FormatTime (ib_committed_at b))),
        (''content_digest'', V_String (Digest_ToHex (ib_content_digest b))),
        (''evidence'', V_String (ToText_EvidenceClass (ib_evidence b))),
        (''objects'', V_List (map encode_intent_object (ib_objects b)))])"

definition decode_baseline_field :: "RuntimeLimits \<Rightarrow> Value \<Rightarrow> (FieldPath \<times> IntentField) Result" where
  "decode_baseline_field limits v =
     bindr (require_record v ''baseline field must be an object'') (\<lambda>m.
     bindr (CheckMembers m [''path'', ''value'', ''comparability''] ''baseline.field'') (\<lambda>_.
     bindr (require_path m limits ''baseline.field'') (\<lambda>path.
     bindr (require_value m ''baseline.field'') (\<lambda>raw.
     bindr (optional_enum m ''comparability'' ''baseline.field'' TryParseFieldComparability FC_Managed) (\<lambda>comparability.
     Inr (path, \<lparr>if_path = path, if_intended = raw, if_comparability = comparability\<rparr>))))))"

definition decode_baseline_existence :: "members \<Rightarrow> ObjectExistence Result" where
  "decode_baseline_existence m =
     (case OptionalString m ''existence'' of
        None \<Rightarrow> Inr OE_Required
      | Some existence \<Rightarrow>
          if existence = ''required'' then Inr OE_Required
          else if existence = ''forbidden'' then Inr OE_Forbidden
          else Inl (MemberError ''baseline.object'' ''existence'' ''is not recognized''))"

definition decode_baseline_object :: "RuntimeLimits \<Rightarrow> Value \<Rightarrow> (ObjectId \<times> IntentObject) Result" where
  "decode_baseline_object limits v =
     bindr (require_record v ''baseline object must be an object'') (\<lambda>m.
     bindr (CheckMembers m [''id'', ''existence'', ''fields''] ''baseline.object'') (\<lambda>_.
     bindr (require_identity m ''id'' ''baseline.object'') (\<lambda>oid.
     bindr (decode_baseline_existence m) (\<lambda>existence.
     bindr (RequireList m ''fields'' ''baseline.object'') (\<lambda>fields.
     if length fields > max_fields_per_object limits
     then Inl (Status_Limit RC_LimitFieldsExceeded ''baseline field count exceeds the envelope'')
     else
     bindr (emplace_loop (decode_baseline_field limits) fields) (\<lambda>decoded.
     Inr (oid, \<lparr>io_id = oid, io_existence = existence, io_fields = decoded\<rparr>)))))))"

definition DecodeBaseline :: "RuntimeLimits \<Rightarrow> Value \<Rightarrow> IntentBaseline Result" where
  "DecodeBaseline limits v =
     bindr (require_record v ''baseline must be an object'') (\<lambda>m.
     bindr (CheckMembers m [''target'', ''generation'', ''epoch'', ''authority'', ''policy'', ''committed_at'', ''content_digest'',
              ''evidence'', ''objects''] ''baseline'') (\<lambda>_.
     bindr (require_identity m ''target'' ''baseline'') (\<lambda>target.
     bindr (RequireUint m ''generation'' ''baseline'') (\<lambda>generation.
     bindr (RequireUint m ''epoch'' ''baseline'') (\<lambda>epoch.
     bindr (optional_enum m ''authority'' ''baseline'' TryParseIntentAuthority IA_Unknown) (\<lambda>authority.
     bindr (optional_parsed (OptionalString m ''policy'') StringId_TryParse
              (MemberError ''baseline'' ''policy'' ''is not a valid identity'') []) (\<lambda>policy.
     bindr (optional_time m ''committed_at'' ''baseline'') (\<lambda>committed_at.
     bindr (optional_digest m ''content_digest'' ''baseline'') (\<lambda>digest.
     bindr (optional_enum m ''evidence'' ''baseline'' TryParseEvidenceClass EC_Unknown) (\<lambda>evidence.
     bindr (RequireList m ''objects'' ''baseline'') (\<lambda>objects.
     if length objects > max_objects_per_target limits
     then Inl (Status_Limit RC_LimitObjectsExceeded ''baseline object count exceeds the envelope'')
     else
     bindr (emplace_loop (decode_baseline_object limits) objects) (\<lambda>decoded.
     Inr \<lparr>ib_target = target, ib_generation = generation, ib_epoch = epoch, ib_authority = authority, ib_policy = policy,
          ib_committed_at = committed_at, ib_content_digest = digest, ib_evidence = evidence, ib_objects = decoded\<rparr>))))))))))))"

definition baseline_recordable :: "RuntimeLimits \<Rightarrow> IntentBaseline \<Rightarrow> bool" where
  "baseline_recordable limits b \<longleftrightarrow>
     IsValidIdentityText (ib_target b) \<and> IsValidIdentityText (ib_policy b) \<and> time_readable (ib_committed_at b) \<and>
     full_digest (ib_content_digest b) \<and> keys_ascending (ib_objects b) \<and> length (ib_objects b) \<le> max_objects_per_target limits \<and>
     (\<forall>e \<in> set (ib_objects b). intent_object_formed limits e)"

lemma baseline_existence_read:
  "OptionalString m ''existence'' = Some (ToText_ObjectExistence e) \<Longrightarrow> decode_baseline_existence m = Inr e"
  by (cases e) (simp_all add: decode_baseline_existence_def ToText_ObjectExistence_def kExistenceNames_def)

lemma decode_baseline_field_encoded:
  "if_path (snd e) = fst e \<Longrightarrow> path_readable limits (fst e) \<Longrightarrow> decode_baseline_field limits (encode_intent_field e) = Inr e"
  by (cases e) (simp add: decode_baseline_field_def encode_intent_field_def require_value_def record_simps)

lemma decode_baseline_object_encoded:
  "intent_object_formed limits e \<Longrightarrow> decode_baseline_object limits (encode_intent_object e) = Inr e"
  by (cases e) (simp add: decode_baseline_object_def encode_intent_object_def record_simps baseline_existence_read
      intent_object_formed_def emplace_loop_encoded decode_baseline_field_encoded)

lemma DecodeBaseline_encoded: "baseline_recordable limits b \<Longrightarrow> DecodeBaseline limits (EncodeBaseline b) = Inr b"
  by (cases b) (simp add: DecodeBaseline_def EncodeBaseline_def baseline_recordable_def record_simps emplace_loop_encoded
      decode_baseline_object_encoded)

interpretation baseline_codec: document_codec EncodeBaseline "DecodeBaseline limits" "baseline_recordable limits" for limits
  by unfold_locales (rule DecodeBaseline_encoded)

end
