(* ===== verification/NDO_Persistence.thy ===== *)
theory NDO_Persistence
  imports NDO_Records NDO_Wire
begin

text \<open>
  The durable ledger (\<^verbatim>\<open>persistence.cpp\<close>, second half): the versioned, digest-checked byte format, the
  decoder that rebuilds a ledger record by record through the recovery operations of \<^verbatim>\<open>ledger.cpp\<close>, and
  the file operations.  The file system is a map from paths to contents; what may go wrong in it is a
  parameter.  The out-parameters of the decoder are its result: nothing is released on failure.
\<close>

abbreviation Status_Integrity :: "ReasonCode \<Rightarrow> string \<Rightarrow> Status" where
  "Status_Integrity \<equiv> mk_status SC_IntegrityFailure"

definition kLedgerMagic :: bytes where
  "kLedgerMagic = bytes_of_text ''NDOLEDG1''"

definition kLedgerHeaderBytes :: nat where
  "kLedgerHeaderBytes = 8 + 2 + 2 + 8 + 32 + 8 + 8"

definition kLedgerFormatVersion :: u16 where
  "kLedgerFormatVersion = 1"

section \<open>The envelope of a payload\<close>

text \<open>One step of the loop over the record counts; 0 marks an overflow and ends the loop.\<close>

fun payload_budget :: "u64 \<Rightarrow> u64 list \<Rightarrow> u64" where
  "payload_budget budget [] = budget"
| "payload_budget budget (n # ns) =
     (case CheckedMul 128 n of
        None \<Rightarrow> 0
      | Some added \<Rightarrow>
          (case CheckedAdd budget added of
             None \<Rightarrow> 0
           | Some raised \<Rightarrow> payload_budget raised ns))"

definition LedgerPayloadLimits :: "RuntimeLimits \<Rightarrow> RuntimeLimits" where
  "LedgerPayloadLimits limits =
     (let budget = payload_budget 4096
            [of_nat (max_findings limits), of_nat (max_global_timeline_entries limits), of_nat (max_targets limits)]
      in limits\<lparr>max_value_nodes := (if budget = 0 then 100000000 else unat budget),
           max_value_depth := max_value_depth limits + 8,
           max_fields_per_object := (if max_fields_per_object limits > 256 then max_fields_per_object limits else 256),
           max_document_bytes := max_ledger_bytes limits\<rparr>)"

definition LedgerPayloadDigest :: "bytes \<Rightarrow> Digest" where
  "LedgerPayloadDigest payload = HashBytes payload"

section \<open>Encoding\<close>

definition encode_retained :: "RetainedObservation \<Rightarrow> Value" where
  "encode_retained r =
     V_Map (members_of [(''recovered'', V_Bool True), (''document'', EncodeObservationDocument (ro_snapshot r))])"

definition retained_observations :: "Ledger \<Rightarrow> RetainedObservation list" where
  "retained_observations l = concat (map (\<lambda>target. ObservationsFor target l) (Targets l))"

definition ledger_document :: "Ledger \<Rightarrow> Value" where
  "ledger_document l =
     V_Map (members_of
       [(''schema'', V_String ''ndo/ledger/1''), (''format_version'', MakeUint (ucast kLedgerFormatVersion)),
        (''revision'', MakeUint (l_revision l)), (''timeline_sequence'', MakeUint (l_timeline_sequence l)),
        (''baselines'', V_List (map EncodeBaseline (List.map_filter (\<lambda>target. map_of (l_baselines l) target) (Targets l)))),
        (''observations'', V_List (map encode_retained (retained_observations l))),
        (''findings'', V_List (map EncodeFinding (map snd (l_findings l)))),
        (''groups'', V_List (map EncodeGroup (map snd (l_groups l)))),
        (''timeline'', V_List (map EncodeTimelineEntry (l_global_timeline l)))])"

definition EncodeLedger :: "(u64 \<Rightarrow> string option) \<Rightarrow> FabricEpoch \<Rightarrow> Incarnation \<Rightarrow> Ledger \<Rightarrow> bytes" where
  "EncodeLedger tc write_epoch write_incarnation l =
     (let payload = bytes_of_text (WriteCanonicalJson tc (ledger_document l))
      in kLedgerMagic @ AppendU16 kLedgerFormatVersion @ AppendU16 0 @ AppendU64 (of_nat (length payload)) @
         LedgerPayloadDigest payload @ AppendU64 write_epoch @ AppendU64 write_incarnation @ payload)"

section \<open>Decoding\<close>

record LedgerRecoveryReport =
  lr_revision :: LedgerRevision
  lr_findings_restored :: nat
  lr_groups_restored :: nat
  lr_baselines_restored :: nat
  lr_observations_restored :: nat
  lr_conservative :: bool
  lr_reason :: ReasonCode

definition blank_recovery_report :: LedgerRecoveryReport where
  "blank_recovery_report =
     \<lparr>lr_revision = 0, lr_findings_restored = 0, lr_groups_restored = 0, lr_baselines_restored = 0,
      lr_observations_restored = 0, lr_conservative = True, lr_reason = RC_LedgerRecoveredConservatively\<rparr>"

type_synonym recovery = "Ledger \<times> LedgerRecoveryReport"

definition restoring :: "Status \<times> Ledger \<Rightarrow> LedgerRecoveryReport \<Rightarrow> recovery Result" where
  "restoring outcome report = (if \<not> status_ok (fst outcome) then Inl (fst outcome) else Inr (snd outcome, report))"

definition restore_baseline :: "RuntimeLimits \<Rightarrow> Value \<Rightarrow> recovery \<Rightarrow> recovery Result" where
  "restore_baseline payload_limits v r =
     bindr (DecodeBaseline payload_limits v) (\<lambda>b.
       restoring (RestoreBaseline b (fst r)) ((snd r)\<lparr>lr_baselines_restored := lr_baselines_restored (snd r) + 1\<rparr>))"

definition restored_observation :: "ObservationSnapshot \<Rightarrow> RetainedObservation" where
  "restored_observation s =
     \<lparr>ro_snapshot = s,
      ro_freshness = default_verdict\<lparr>fv_state := FR_RecoveredNotFresh, fv_reason := RC_EvidenceRecoveredNotFresh,
        fv_may_support_compliance := False\<rparr>,
      ro_recovered = True\<rparr>"

definition decode_retained :: "RuntimeLimits \<Rightarrow> Value \<Rightarrow> ObservationSnapshot Result" where
  "decode_retained payload_limits v =
     (case as_map v of
        None \<Rightarrow> Inl (MemberError ''ledger'' ''observations'' ''entries must be objects'')
      | Some m \<Rightarrow>
          bindr (CheckMembers m [''recovered'', ''document''] ''ledger.observation'') (\<lambda>_.
          case FindMember m ''document'' of
            None \<Rightarrow> Inl (MemberError ''ledger.observation'' ''document'' ''missing required member'')
          | Some document \<Rightarrow> DecodeObservationDocument payload_limits document))"

definition restore_observation :: "RuntimeLimits \<Rightarrow> Value \<Rightarrow> recovery \<Rightarrow> recovery Result" where
  "restore_observation payload_limits v r =
     bindr (decode_retained payload_limits v) (\<lambda>s.
       restoring (RestoreObservation (restored_observation s) (fst r))
         ((snd r)\<lparr>lr_observations_restored := lr_observations_restored (snd r) + 1\<rparr>))"

definition restore_finding :: "RuntimeLimits \<Rightarrow> Value \<Rightarrow> recovery \<Rightarrow> recovery Result" where
  "restore_finding payload_limits v r =
     bindr (DecodeFinding payload_limits v) (\<lambda>f.
       restoring (RestoreFinding f (fst r)) ((snd r)\<lparr>lr_findings_restored := lr_findings_restored (snd r) + 1\<rparr>))"

definition restore_group :: "Value \<Rightarrow> recovery \<Rightarrow> recovery Result" where
  "restore_group v r =
     bindr (DecodeGroup v) (\<lambda>g.
       restoring (RestoreGroup g (fst r)) ((snd r)\<lparr>lr_groups_restored := lr_groups_restored (snd r) + 1\<rparr>))"

definition restore_timeline :: "Value \<Rightarrow> recovery \<Rightarrow> recovery Result" where
  "restore_timeline v r = bindr (DecodeTimelineEntry v) (\<lambda>e. restoring (RestoreTimeline e (fst r)) (snd r))"

text \<open>One optional section of the payload, with its bound when it has one.\<close>

definition restore_section ::
    "members \<Rightarrow> string \<Rightarrow> (nat \<times> Status) option \<Rightarrow> (Value \<Rightarrow> recovery \<Rightarrow> recovery Result) \<Rightarrow> recovery \<Rightarrow> recovery Result" where
  "restore_section m name bound restore r =
     (case FindMember m name of
        None \<Rightarrow> Inr r
      | Some v \<Rightarrow>
          (case as_list v of
             None \<Rightarrow> Inl (MemberError ''ledger'' name ''must be a sequence'')
           | Some l \<Rightarrow>
               (case bound of
                  None \<Rightarrow> run_loop restore l r
                | Some (n, refusal) \<Rightarrow> if length l > n then Inl refusal else run_loop restore l r)))"

definition restore_revision :: "RuntimeLimits \<Rightarrow> members \<Rightarrow> recovery Result" where
  "restore_revision limits m =
     bindr (RequireUint m ''revision'' ''ledger'') (\<lambda>revision.
       let decoded = snd (RestoreRevision revision (FindingLedger limits));
           decoded = (case OptionalUint m ''timeline_sequence'' of
                        None \<Rightarrow> decoded
                      | Some n \<Rightarrow> snd (RestoreSuppressionSequence n decoded))
       in Inr (decoded, blank_recovery_report\<lparr>lr_revision := revision\<rparr>))"

definition decode_ledger_payload :: "RuntimeLimits \<Rightarrow> Value \<Rightarrow> recovery Result" where
  "decode_ledger_payload limits root =
     (let payload_limits = LedgerPayloadLimits limits in
      bindr (require_record root ''ledger payload must be an object'') (\<lambda>m.
      bindr (CheckMembers m [''schema'', ''format_version'', ''revision'', ''timeline_sequence'', ''baselines'', ''observations'',
               ''findings'', ''groups'', ''timeline''] ''ledger'') (\<lambda>_.
      bindr (RequireUint m ''format_version'' ''ledger'') (\<lambda>format.
      if format \<noteq> ucast kLedgerFormatVersion
      then Inl (Status_Rejected RC_LedgerSchemaUnsupported ''ledger payload declares an unsupported format version'')
      else
      bindr (restore_revision limits m) (\<lambda>r.
      bindr (restore_section m ''baselines'' None (restore_baseline payload_limits) r) (\<lambda>r.
      bindr (restore_section m ''observations'' None (restore_observation payload_limits) r) (\<lambda>r.
      bindr (restore_section m ''findings''
               (Some (max_findings limits, Status_Limit RC_LimitFindingsExceeded ''ledger finding count exceeds the envelope''))
               (restore_finding payload_limits) r) (\<lambda>r.
      bindr (restore_section m ''groups'' None restore_group r) (\<lambda>r.
      bindr (restore_section m ''timeline''
               (Some (max_global_timeline_entries limits,
                  Status_Limit RC_LimitTimelineExceeded ''ledger timeline exceeds the envelope''))
               restore_timeline r) (\<lambda>r.
      Inr (fst r, (snd r)\<lparr>lr_conservative := True, lr_reason := RC_LedgerRecoveredConservatively\<rparr>)))))))))))"

text \<open>The checks on the header, in their order; they end with the payload.\<close>

definition ledger_payload :: "RuntimeLimits \<Rightarrow> FabricEpoch \<Rightarrow> bytes \<Rightarrow> bytes Result" where
  "ledger_payload limits live_epoch b =
     (if length b > max_ledger_bytes limits then Inl (Status_Limit RC_LedgerPayloadTooLarge ''ledger exceeds the envelope'')
      else if length b < kLedgerHeaderBytes then Inl (Status_Rejected RC_LedgerTruncated ''ledger is shorter than its header'')
      else if take 8 b \<noteq> kLedgerMagic then Inl (Status_Rejected RC_LedgerHeaderInvalid ''ledger magic does not match'')
      else if ReadU16 (drop 8 b) \<noteq> kLedgerFormatVersion
      then Inl (Status_Rejected RC_LedgerSchemaUnsupported ''ledger format version is not supported'')
      else
        let payload_bytes = ReadU64 (drop 12 b); expected_size = of_nat kLedgerHeaderBytes + payload_bytes in
        if unat payload_bytes > max_record_payload_bytes limits
        then Inl (Status_Limit RC_LedgerPayloadTooLarge ''ledger payload exceeds the envelope'')
        else if unat expected_size > length b then Inl (Status_Rejected RC_LedgerTruncated ''ledger payload is truncated'')
        else if unat expected_size < length b
        then Inl (Status_Rejected RC_LedgerTruncated ''ledger carries bytes beyond its declared payload'')
        else
          let write_epoch = ReadU64 (drop 52 b); payload = take (unat payload_bytes) (drop kLedgerHeaderBytes b) in
          if LedgerPayloadDigest payload \<noteq> take 32 (drop 20 b)
          then Inl (Status_Integrity RC_LedgerIntegrityDigestMismatch ''ledger payload digest does not match the header'')
          else if uint_is_set live_epoch \<and> write_epoch > live_epoch
          then Inl (Status_Stale RC_LedgerVersionRegression ''ledger was written by a newer epoch than the live one'')
          else Inr payload)"

definition DecodeLedger :: "(string \<Rightarrow> u64 option) \<Rightarrow> RuntimeLimits \<Rightarrow> FabricEpoch \<Rightarrow> bytes \<Rightarrow> recovery Result" where
  "DecodeLedger fc limits live_epoch b =
     bindr (ledger_payload limits live_epoch b) (\<lambda>payload.
       case ParseJson fc (LedgerPayloadLimits limits) (text_of_bytes payload) of
         Inl status \<Rightarrow>
           Inl (Status_Integrity RC_LedgerDecodeFailed (''ledger payload did not parse: '' @ ToText_ReasonCode (st_reason status)))
       | Inr root \<Rightarrow> decode_ledger_payload limits root)"

section \<open>Files\<close>

text \<open>
  What the file system does at each step: whether the temporary file opens, whether the bytes are
  written and flushed (a failed write leaves some other content behind), whether the rename succeeds.
\<close>

record FileFaults =
  ff_opens :: bool
  ff_writes :: bool
  ff_flushes :: bool
  ff_partial :: bytes
  ff_renames :: bool
  ff_reads :: bool

type_synonym files = "string \<Rightarrow> bytes option"

definition SaveLedgerFile ::
    "(u64 \<Rightarrow> string option) \<Rightarrow> FileFaults \<Rightarrow> Ledger \<Rightarrow> string \<Rightarrow> FabricEpoch \<Rightarrow> Incarnation \<Rightarrow> nat \<Rightarrow> files \<Rightarrow> Status \<times> files" where
  "SaveLedgerFile tc faults l path write_epoch write_incarnation max_bytes files =
     (let b = EncodeLedger tc write_epoch write_incarnation l; temporary = path @ ''.tmp'' in
      if length b > max_bytes
      then (Status_Limit RC_LedgerPayloadTooLarge ''encoded ledger exceeds the file envelope'', files)
      else if \<not> ff_opens faults
      then (Status_Rejected RC_LedgerHeaderInvalid ''the ledger file could not be opened for writing'', files)
      else if \<not> ff_writes faults
      then (Status_Rejected RC_LedgerHeaderInvalid ''the ledger file could not be written'',
            files(temporary \<mapsto> ff_partial faults))
      else if \<not> ff_flushes faults
      then (Status_Rejected RC_LedgerHeaderInvalid ''the ledger file could not be flushed'',
            files(temporary \<mapsto> ff_partial faults))
      else if \<not> ff_renames faults
      then (Status_Rejected RC_LedgerHeaderInvalid ''the ledger file could not be replaced atomically'',
            files(temporary := None))
      else (Status_Ok, files(path \<mapsto> b, temporary := None)))"

definition LoadLedgerFile ::
    "(string \<Rightarrow> u64 option) \<Rightarrow> FileFaults \<Rightarrow> string \<Rightarrow> RuntimeLimits \<Rightarrow> FabricEpoch \<Rightarrow> files \<Rightarrow> recovery Result" where
  "LoadLedgerFile fc faults path limits live_epoch files =
     (case files path of
        None \<Rightarrow> Inl (Status_NotFound RC_LedgerHeaderInvalid ''the ledger file could not be inspected'')
      | Some b \<Rightarrow>
          if length b > max_ledger_bytes limits
          then Inl (Status_Limit RC_LedgerPayloadTooLarge ''ledger file exceeds the envelope'')
          else if \<not> ff_opens faults
          then Inl (Status_NotFound RC_LedgerHeaderInvalid ''the ledger file could not be opened'')
          else if b \<noteq> [] \<and> \<not> ff_reads faults
          then Inl (Status_Rejected RC_LedgerTruncated ''the ledger file ended early'')
          else DecodeLedger fc limits live_epoch b)"

section \<open>The header\<close>

definition ledger_text :: "(u64 \<Rightarrow> string option) \<Rightarrow> Ledger \<Rightarrow> bytes" where
  "ledger_text tc l = bytes_of_text (WriteCanonicalJson tc (ledger_document l))"

lemma length_LedgerPayloadDigest: "length (LedgerPayloadDigest b) = 32"
  by (simp add: LedgerPayloadDigest_def HashBytes_def Update_absorbs Sha256_new_absorbed Final_absorbed length_sha256 kDigestBytes_def)

lemma length_EncodeLedger: "length (EncodeLedger tc we wi l) = kLedgerHeaderBytes + length (ledger_text tc l)"
  by (simp add: EncodeLedger_def Let_def kLedgerMagic_def kLedgerHeaderBytes_def length_LedgerPayloadDigest ledger_text_def)

lemma ledger_fields:
  fixes l :: Ledger and tc :: "u64 \<Rightarrow> string option" and we wi :: u64
  assumes "length (ledger_text tc l) + kLedgerHeaderBytes < 2 ^ 64"
  defines "b \<equiv> EncodeLedger tc we wi l"
  shows "take 8 b = kLedgerMagic" "ReadU16 (drop 8 b) = kLedgerFormatVersion"
    "unat (ReadU64 (drop 12 b)) = length (ledger_text tc l)"
    "unat (of_nat kLedgerHeaderBytes + ReadU64 (drop 12 b)) = length b"
    "take 32 (drop 20 b) = LedgerPayloadDigest (ledger_text tc l)" "ReadU64 (drop 52 b) = we"
    "drop kLedgerHeaderBytes b = ledger_text tc l"
proof -
  define rest where "rest = LedgerPayloadDigest (ledger_text tc l) @ AppendU64 we @ AppendU64 wi @ ledger_text tc l"
  have magic: "length kLedgerMagic = 8" by (simp add: kLedgerMagic_def)
  have b: "b = kLedgerMagic @ AppendU16 kLedgerFormatVersion @ AppendU16 0 @ AppendU64 (of_nat (length (ledger_text tc l))) @ rest"
    by (simp add: b_def EncodeLedger_def Let_def ledger_text_def rest_def)
  have size: "ReadU64 (drop 12 b) = of_nat (length (ledger_text tc l))" by (simp add: b magic)
  show "take 8 b = kLedgerMagic" "ReadU16 (drop 8 b) = kLedgerFormatVersion" by (simp_all add: b magic)
  show "unat (ReadU64 (drop 12 b)) = length (ledger_text tc l)"
    using assms(1) by (simp add: size unsigned_of_nat take_bit_nat_eq_self)
  have "of_nat kLedgerHeaderBytes + ReadU64 (drop 12 b) = of_nat (kLedgerHeaderBytes + length (ledger_text tc l))"
    by (simp add: size)
  then show "unat (of_nat kLedgerHeaderBytes + ReadU64 (drop 12 b)) = length b"
    using assms(1) by (simp add: b_def length_EncodeLedger unsigned_of_nat take_bit_nat_eq_self del: of_nat_add)
  have rest: "drop 20 b = rest" by (simp add: b magic)
  show "take 32 (drop 20 b) = LedgerPayloadDigest (ledger_text tc l)"
    by (simp add: rest rest_def length_LedgerPayloadDigest)
  have "drop 52 b = drop 32 (drop 20 b)" by simp
  then show "ReadU64 (drop 52 b) = we" by (simp add: rest rest_def length_LedgerPayloadDigest del: drop_drop)
  have "drop kLedgerHeaderBytes b = drop 48 (drop 20 b)" by (simp add: kLedgerHeaderBytes_def)
  then show "drop kLedgerHeaderBytes b = ledger_text tc l"
    by (simp add: rest rest_def length_LedgerPayloadDigest del: drop_drop)
qed

lemma ledger_payload_encoded:
  assumes "length (EncodeLedger tc we wi l) \<le> max_ledger_bytes limits"
    and "length (ledger_text tc l) \<le> max_record_payload_bytes limits"
    and "length (ledger_text tc l) + kLedgerHeaderBytes < 2 ^ 64" and "uint_is_set live \<Longrightarrow> we \<le> live"
  shows "ledger_payload limits live (EncodeLedger tc we wi l) = Inr (ledger_text tc l)"
proof -
  have "\<not> length (EncodeLedger tc we wi l) < kLedgerHeaderBytes" by (simp add: length_EncodeLedger)
  then show ?thesis
    using assms ledger_fields [OF assms(3), of we wi] by (auto simp: ledger_payload_def Let_def)
qed

section \<open>What recovery rebuilds\<close>

text \<open>
  Evidence comes back marked as recovered and without the time of receipt.  A finding keeps everything it
  was except that its evidence is no longer current; a live finding records that in its history, once.
\<close>

definition recovered_window :: "SourceWindowKey \<times> RetainedObservation list \<Rightarrow> (SourceWindowKey, RetainedObservation list) omap" where
  "recovered_window e =
     (if snd e = [] then []
      else [(fst e, map (\<lambda>r. recovered_observation (restored_observation (as_sent (ro_snapshot r)))) (snd e))])"

definition notes_recovery :: "Finding \<Rightarrow> bool" where
  "notes_recovery f \<longleftrightarrow> IsLiveState (f_state f) \<and> f_evidence_freshness f \<noteq> FR_RecoveredNotFresh"

definition recovered_finding :: "RuntimeLimits \<Rightarrow> u64 \<Rightarrow> Finding \<Rightarrow> Finding" where
  "recovered_finding limits n f =
     (let g = f\<lparr>f_evidence_freshness := FR_RecoveredNotFresh\<rparr>;
          g = (if notes_recovery f
               then push_event ((finding_event TK_EvidenceRecovered (f_last_evaluated f) RC_EvidenceRecoveredNotFresh
                      ''evidence recovered from durable state is not current'' g)\<lparr>te_sequence := n + 1\<rparr>) g
               else g)
      in g\<lparr>f_timeline := keep_last (max_timeline_entries_per_finding limits) (f_timeline g)\<rparr>)"

fun recovered_findings :: "RuntimeLimits \<Rightarrow> u64 \<Rightarrow> (FindingId, Finding) omap \<Rightarrow> (FindingId, Finding) omap" where
  "recovered_findings limits n [] = []"
| "recovered_findings limits n (e # r) =
     (fst e, recovered_finding limits n (snd e)) # recovered_findings limits (if notes_recovery (snd e) then n + 1 else n) r"

definition recovery_notes :: "(FindingId, Finding) omap \<Rightarrow> u64" where
  "recovery_notes m = of_nat (length (filter (\<lambda>e. notes_recovery (snd e)) m))"

definition suppressed_count :: "(FindingId, Finding) omap \<Rightarrow> nat" where
  "suppressed_count m = length (filter (\<lambda>e. f_suppression (snd e) \<noteq> None) m)"

definition recovered_ledger :: "Ledger \<Rightarrow> Ledger" where
  "recovered_ledger l =
     (FindingLedger (l_limits l))\<lparr>l_revision := l_revision l,
       l_timeline_sequence := l_timeline_sequence l + recovery_notes (l_findings l), l_baselines := l_baselines l,
       l_windows := concat (map recovered_window (l_windows l)),
       l_findings := recovered_findings (l_limits l) (l_timeline_sequence l) (l_findings l), l_groups := l_groups l,
       l_global_timeline := l_global_timeline l, l_suppressions_active := suppressed_count (l_findings l)\<rparr>"

section \<open>Loops that rebuild a container\<close>

lemma run_loop_states:
  assumes "\<And>p x r. xs = p @ x # r \<Longrightarrow> f (g x) (state p) = Inr (state (p @ [x]))"
  shows "run_loop f (map g xs) (state []) = Inr (state xs)"
proof -
  have "run_loop f (map g r) (state p) = Inr (state (p @ r))" if "xs = p @ r" for p r
    using that
  proof (induction r arbitrary: p)
    case (Cons x r)
    then show ?case using assms [OF Cons.prems] Cons.IH [of "p @ [x]"] by simp
  qed simp
  from this [of "[]" xs] show ?thesis by simp
qed

lemma run_loop_append: "run_loop f (xs @ ys) s = bindr (run_loop f xs s) (run_loop f ys)"
  by (induction xs arbitrary: s) (auto simp: bindr_def split: sum.splits)

lemma map_put_end: "keys_ascending (m @ (k, v) # n) \<Longrightarrow> map_put k v' m = m @ [(k, v')] \<and> map_of m k = None"
  using append_member [of m k v' n] by (auto simp: keys_ascending_def map_emplace_def)

lemma ok_status: "status_ok Status_Ok" by simp

lemma restore_baselines:
  assumes "keys_ascending m" "length m \<le> max_targets (l_limits l)" "\<forall>e \<in> set m. ib_target (snd e) = fst e \<and> baseline_recordable pl (snd e)"
  shows "run_loop (restore_baseline pl) (map (\<lambda>e. EncodeBaseline (snd e)) m) (l\<lparr>l_baselines := []\<rparr>, rep\<lparr>lr_baselines_restored := 0\<rparr>) =
    Inr (l\<lparr>l_baselines := m\<rparr>, rep\<lparr>lr_baselines_restored := length m\<rparr>)"
proof -
  let ?state = "\<lambda>p. (l\<lparr>l_baselines := p\<rparr>, rep\<lparr>lr_baselines_restored := length p\<rparr>)"
  have "restore_baseline pl (EncodeBaseline (snd e)) (?state p) = Inr (?state (p @ [e]))" if "m = p @ e # r" for p e r
  proof -
    have "keys_ascending (p @ (fst e, snd e) # r)" using assms(1) that by simp
    note put = map_put_end [OF this, of "snd e"]
    moreover have "length p < max_targets (l_limits l)" "ib_target (snd e) = fst e" "baseline_recordable pl (snd e)"
      using assms(2,3) that by auto
    ultimately show ?thesis
      by (simp add: restore_baseline_def DecodeBaseline_encoded RestoreBaseline_def restoring_def)
  qed
  from run_loop_states [of m "restore_baseline pl" "\<lambda>e. EncodeBaseline (snd e)" ?state, OF this] show ?thesis by simp
qed

lemma restore_groups:
  assumes "keys_ascending m" "length m \<le> max_groups (l_limits l)" "\<forall>e \<in> set m. rg_id (snd e) = fst e \<and> group_recordable (snd e)"
  shows "run_loop restore_group (map (\<lambda>e. EncodeGroup (snd e)) m) (l\<lparr>l_groups := []\<rparr>, rep\<lparr>lr_groups_restored := 0\<rparr>) =
    Inr (l\<lparr>l_groups := m\<rparr>, rep\<lparr>lr_groups_restored := length m\<rparr>)"
proof -
  let ?state = "\<lambda>p. (l\<lparr>l_groups := p\<rparr>, rep\<lparr>lr_groups_restored := length p\<rparr>)"
  have "restore_group (EncodeGroup (snd e)) (?state p) = Inr (?state (p @ [e]))" if "m = p @ e # r" for p e r
  proof -
    have "keys_ascending (p @ (fst e, snd e) # r)" using assms(1) that by simp
    note put = map_put_end [OF this, of "snd e"]
    moreover have "length p < max_groups (l_limits l)" "rg_id (snd e) = fst e" "group_recordable (snd e)"
      using assms(2,3) that by auto
    ultimately show ?thesis by (simp add: restore_group_def DecodeGroup_encoded RestoreGroup_def restoring_def)
  qed
  from run_loop_states [of m "restore_group" "\<lambda>e. EncodeGroup (snd e)" ?state, OF this] show ?thesis by simp
qed

lemma restore_timelines:
  assumes "length m \<le> max_global_timeline_entries (l_limits l)" "\<forall>e \<in> set m. timeline_recordable e"
  shows "run_loop restore_timeline (map EncodeTimelineEntry m) (l\<lparr>l_global_timeline := []\<rparr>, rep) =
    Inr (l\<lparr>l_global_timeline := m\<rparr>, rep)"
proof -
  let ?state = "\<lambda>p. (l\<lparr>l_global_timeline := p\<rparr>, rep)"
  have "restore_timeline (EncodeTimelineEntry e) (?state p) = Inr (?state (p @ [e]))" if "m = p @ e # r" for p e r
  proof -
    have "length p < max_global_timeline_entries (l_limits l)" "timeline_recordable e" using assms that by auto
    then show ?thesis
      by (simp add: restore_timeline_def DecodeTimelineEntry_encoded RestoreTimeline_def restoring_def TrimTimelineIfNeeded_def
          keep_last_def)
  qed
  from run_loop_states [of m "restore_timeline" "EncodeTimelineEntry" ?state, OF this] show ?thesis by simp
qed

lemma recovered_findings_snoc:
  "recovered_findings limits n (p @ [e]) =
     recovered_findings limits n p @ [(fst e, recovered_finding limits (n + recovery_notes p) (snd e))]"
  by (induction p arbitrary: n) (simp_all add: recovery_notes_def algebra_simps)

lemma recovered_findings_keys [simp]: "map fst (recovered_findings limits n m) = map fst m"
  by (induction m arbitrary: n) simp_all

lemma restore_findings:
  assumes "keys_ascending m" "length m \<le> max_findings (l_limits l)"
    "\<forall>e \<in> set m. f_id (snd e) = fst e \<and> Digest_is_set (fst e) \<and> finding_recordable pl (snd e)"
  shows "run_loop (restore_finding pl) (map (\<lambda>e. EncodeFinding (snd e)) m)
      (l\<lparr>l_findings := [], l_timeline_sequence := n, l_suppressions_active := 0\<rparr>, rep\<lparr>lr_findings_restored := 0\<rparr>) =
    Inr (l\<lparr>l_findings := recovered_findings (l_limits l) n m, l_timeline_sequence := n + recovery_notes m,
           l_suppressions_active := suppressed_count m\<rparr>, rep\<lparr>lr_findings_restored := length m\<rparr>)"
proof -
  let ?state = "\<lambda>p. (l\<lparr>l_findings := recovered_findings (l_limits l) n p, l_timeline_sequence := n + recovery_notes p,
           l_suppressions_active := suppressed_count p\<rparr>, rep\<lparr>lr_findings_restored := length p\<rparr>)"
  have "restore_finding pl (EncodeFinding (snd e)) (?state p) = Inr (?state (p @ [e]))" if m: "m = p @ e # r" for p e r
  proof -
    have "keys_ascending (recovered_findings (l_limits l) n p @ (fst e, snd e) # r)"
      using assms(1) m by (simp add: keys_ascending_def)
    note put = map_put_end [OF this]
    have len: "length (recovered_findings (l_limits l) n p) = length p" by (metis length_map recovered_findings_keys)
    have e: "length p < max_findings (l_limits l)" "f_id (snd e) = fst e" "Digest_is_set (fst e)" "finding_recordable pl (snd e)"
      using assms(2,3) m by auto
    show ?thesis
      using put e len
      by (simp add: restore_finding_def DecodeFinding_encoded RestoreFinding_def restoring_def Let_def recovered_findings_snoc
          recovered_finding_def notes_recovery_def recovery_notes_def suppressed_count_def push_event_def finding_event_def)
  qed
  from run_loop_states [of m "restore_finding pl" "\<lambda>e. EncodeFinding (snd e)" ?state, OF this] show ?thesis
    by (simp add: recovery_notes_def suppressed_count_def)
qed

section \<open>Targets and their windows\<close>

lemma sort_unique_ascending: "sorted_wrt (<) (sort_unique xs)" for xs :: "'a::linorder list"
  by (simp add: strict_sorted_iff sort_unique_def distinct_remdups_adj_sorted)

lemma targets_ascending: "sorted_wrt (<) (Targets l)"
  by (simp add: Targets_def sort_unique_ascending)

lemma window_targets: "e \<in> set (l_windows l) \<Longrightarrow> fst (fst e) \<in> set (Targets l)"
  by (force simp: Targets_def sort_unique_set map_of_eq_None_iff)

lemma baseline_targets: "fst ` set (l_baselines l) \<subseteq> set (Targets l)"
  by (auto simp: Targets_def sort_unique_set)

lemma first_target_first:
  fixes m :: "(('a::linorder \<times> 'b::linorder) \<times> 'v) list"
  assumes "keys_ascending m" and "\<forall>e \<in> set m. t \<le> fst (fst e)"
  shows "filter (\<lambda>e. fst (fst e) = t) m @ filter (\<lambda>e. fst (fst e) \<noteq> t) m = m"
  using assms
proof (induction m)
  case (Cons e m)
  show ?case
  proof (cases "fst (fst e) = t")
    case False
    have "t < fst (fst x)" if "x \<in> set m" for x
    proof -
      have "fst e < fst x" using Cons.prems(1) that by (auto simp: keys_ascending_Cons)
      then have "fst (fst e) \<le> fst (fst x)" by (auto simp: less_prod_def)
      then show ?thesis using False Cons.prems(2) by force
    qed
    then have "filter (\<lambda>e. fst (fst e) = t) m = []" "filter (\<lambda>e. fst (fst e) \<noteq> t) m = m"
      by (auto simp: filter_empty_conv filter_id_conv)
    then show ?thesis using False by simp
  qed (use Cons in \<open>simp add: keys_ascending_Cons\<close>)
qed simp

lemma regroup_by_target:
  fixes m :: "(('a::linorder \<times> 'b::linorder) \<times> 'v) list"
  assumes "sorted_wrt (<) ts" "keys_ascending m" "\<forall>e \<in> set m. fst (fst e) \<in> set ts"
  shows "concat (map (\<lambda>t. filter (\<lambda>e. fst (fst e) = t) m) ts) = m"
  using assms
proof (induction ts arbitrary: m)
  case (Cons t ts)
  let ?m = "filter (\<lambda>e. fst (fst e) \<noteq> t) m"
  have "keys_ascending ?m" using Cons.prems(2) by (simp add: keys_ascending_def sorted_wrt_map sorted_wrt_filter)
  then have "concat (map (\<lambda>t. filter (\<lambda>e. fst (fst e) = t) ?m) ts) = ?m"
    by (rule Cons.IH [rotated]) (use Cons.prems in auto)
  moreover have "filter (\<lambda>e. fst (fst e) = u) ?m = filter (\<lambda>e. fst (fst e) = u) m" if "u \<in> set ts" for u
    using Cons.prems(1) that by (auto simp: intro!: filter_cong)
  ultimately have "concat (map (\<lambda>t. filter (\<lambda>e. fst (fst e) = t) m) ts) = ?m" by (metis (no_types, lifting) map_cong)
  moreover have "\<forall>e \<in> set m. t \<le> fst (fst e)" using Cons.prems(1,3) by fastforce
  ultimately show ?case using first_target_first [OF Cons.prems(2), of t] by simp
next
  case Nil
  then show ?case by (cases m) auto
qed

lemma retained_in_order: "windows_ok l \<Longrightarrow> retained_observations l = concat (map snd (l_windows l))"
proof -
  assume "windows_ok l"
  then have "concat (map (\<lambda>t. filter (\<lambda>e. fst (fst e) = t) (l_windows l)) (Targets l)) = l_windows l"
    using window_targets [of _ l] by (intro regroup_by_target) (auto simp: windows_ok_def targets_ascending)
  then have "concat (map snd (concat (map (\<lambda>t. filter (\<lambda>e. fst (fst e) = t) (l_windows l)) (Targets l)))) =
      concat (map snd (l_windows l))" by simp
  moreover have "concat (map snd (concat xss)) = concat (map (\<lambda>xs. concat (map snd xs)) xss)" 
    for xss :: "(SourceWindowKey \<times> RetainedObservation list) list list"
    by (induction xss) simp_all
  ultimately show ?thesis by (simp add: retained_observations_def ObservationsFor_def comp_def)
qed

lemma map_filter_keys:
  assumes "sorted_wrt (<) ts" "keys_ascending m" "fst ` set m \<subseteq> set ts"
  shows "List.map_filter (map_of m) ts = map snd m"
  using assms
proof (induction ts arbitrary: m)
  case (Cons t ts)
  show ?case
  proof (cases m)
    case (Cons e m')
    have later: "\<forall>x \<in> set m'. fst e < fst x" using Cons.prems(2) Cons by (auto simp: keys_ascending_Cons)
    show ?thesis
    proof (cases "fst e = t")
      case True
      have "\<forall>u \<in> set ts. map_of m u = map_of m' u" using Cons.prems(1) True Cons by auto
      then have "List.map_filter (map_of m) ts = List.map_filter (map_of m') ts"
        by (induction ts) (simp_all add: map_filter_simps split: option.split)
      moreover have "fst ` set m' \<subseteq> set ts" using Cons.prems(3) Cons True later by fastforce
      moreover have "sorted_wrt (<) ts" "keys_ascending m'" using Cons.prems(1,2) Cons by (auto simp: keys_ascending_Cons)
      moreover have "map_of m t = Some (snd e)" "map snd m = snd e # map snd m'" using Cons True by simp_all
      ultimately show ?thesis using Cons.IH [of m'] by (simp add: map_filter_simps)
    next
      case False
      then have "t < fst e" using Cons.prems(1,3) Cons by auto
      then have "map_of m t = None" using later Cons by (force simp: map_of_eq_None_iff)
      moreover have "fst ` set m \<subseteq> set ts" using Cons.prems(3) calculation by (auto simp: map_of_eq_None_iff)
      ultimately show ?thesis using Cons.IH [of m] Cons.prems(1,2) by (simp add: map_filter_simps)
    qed
  qed (simp add: map_filter_def)
qed simp

lemma baselines_in_order:
  "baselines_ok l \<Longrightarrow> List.map_filter (\<lambda>target. map_of (l_baselines l) target) (Targets l) = map snd (l_baselines l)"
  using map_filter_keys [of "Targets l" "l_baselines l"] baseline_targets [of l]
  by (simp add: baselines_ok_def targets_ascending)

lemma recovered_windows_keys: "map fst (concat (map recovered_window wins)) = map fst (filter (\<lambda>e. snd e \<noteq> []) wins)"
  by (induction wins) (simp_all add: recovered_window_def)

lemma map_put_replace: "keys_ascending (m @ [(k, v)]) \<Longrightarrow> map_put k v' (m @ [(k, v)]) = m @ [(k, v')]"
  by (induction m) (auto simp: keys_ascending_Cons)

lemma map_of_end: "keys_ascending (m @ [(k, v)]) \<Longrightarrow> map_of (m @ [(k, v)]) k = Some v"
  using map_put_end [of m k v "[]" v] by (simp add: map_add_def)

lemma decode_retained_encoded:
  "observation_formed pl (ro_snapshot r) \<Longrightarrow> time_readable (sn_collected_at (ro_snapshot r)) \<Longrightarrow>
     decode_retained pl (encode_retained r) = Inr (as_sent (ro_snapshot r))"
  by (simp add: decode_retained_def encode_retained_def DecodeObservationDocument_encoded)

text \<open>One window comes back at the end of the windows restored so far.\<close>

lemma restore_one_window:
  assumes "keys_ascending (m @ (k, w) # r)" "length w \<le> max_retained_snapshots_per_source (l_limits l)"
    and "\<forall>x \<in> set w. (sn_target (ro_snapshot x), sn_source (ro_snapshot x)) = k \<and> observation_formed pl (ro_snapshot x) \<and>
      time_readable (sn_collected_at (ro_snapshot x))"
  shows "run_loop (restore_observation pl) (map encode_retained w) (l\<lparr>l_windows := m\<rparr>, rep\<lparr>lr_observations_restored := n\<rparr>) =
    Inr (l\<lparr>l_windows := m @ recovered_window (k, w)\<rparr>, rep\<lparr>lr_observations_restored := n + length w\<rparr>)"
proof -
  let ?state = "\<lambda>p. (l\<lparr>l_windows := m @ recovered_window (k, p)\<rparr>, rep\<lparr>lr_observations_restored := n + length p\<rparr>)"
  let ?again = "\<lambda>x. recovered_observation (restored_observation (as_sent (ro_snapshot x)))"
  have asc: "keys_ascending (m @ [(k, v)])" for v :: "RetainedObservation list"
    using assms(1) by (simp add: keys_ascending_def sorted_wrt_append)
  have "restore_observation pl (encode_retained x) (?state p) = Inr (?state (p @ [x]))" if "w = p @ x # q" for p x q
  proof -
    have x: "(sn_target (as_sent (ro_snapshot x)), sn_source (as_sent (ro_snapshot x))) = k"
      "observation_formed pl (ro_snapshot x)" "time_readable (sn_collected_at (ro_snapshot x))"
      "length p < max_retained_snapshots_per_source (l_limits l)"
      using assms(2,3) that by (auto simp: as_sent_def)
    have "RestoreObservation (restored_observation (as_sent (ro_snapshot x))) (l\<lparr>l_windows := m @ recovered_window (k, p)\<rparr>) =
      (Status_Ok, l\<lparr>l_windows := m @ recovered_window (k, p @ [x])\<rparr>)"
    proof (cases "p = []")
      case True
      then show ?thesis
        using x(1,4) map_put_end [of m k "[]" "[]" "[?again x]", OF asc]
        by (simp add: RestoreObservation_def recovered_window_def Let_def restored_observation_def)
    next
      case False
      then show ?thesis
        using x(1,4) map_of_end [OF asc] map_put_replace [OF asc]
        by (simp add: RestoreObservation_def recovered_window_def Let_def restored_observation_def)
    qed
    then show ?thesis using x by (simp add: restore_observation_def decode_retained_encoded restoring_def)
  qed
  from run_loop_states [of w "restore_observation pl" encode_retained ?state, OF this] show ?thesis
    by (simp add: recovered_window_def)
qed

lemma restore_windows:
  assumes "keys_ascending wins" "\<forall>e \<in> set wins. length (snd e) \<le> max_retained_snapshots_per_source (l_limits l) \<and>
      (\<forall>x \<in> set (snd e). (sn_target (ro_snapshot x), sn_source (ro_snapshot x)) = fst e \<and> observation_formed pl (ro_snapshot x) \<and>
        time_readable (sn_collected_at (ro_snapshot x)))"
  shows "run_loop (restore_observation pl) (map encode_retained (concat (map snd wins)))
      (l\<lparr>l_windows := []\<rparr>, rep\<lparr>lr_observations_restored := 0\<rparr>) =
    Inr (l\<lparr>l_windows := concat (map recovered_window wins)\<rparr>, rep\<lparr>lr_observations_restored := length (concat (map snd wins))\<rparr>)"
proof -
  let ?state = "\<lambda>p. (l\<lparr>l_windows := concat (map recovered_window p)\<rparr>, rep\<lparr>lr_observations_restored := length (concat (map snd p))\<rparr>)"
  have "run_loop (restore_observation pl) (map encode_retained (concat (map snd r))) (?state p) = Inr (?state wins)" if "wins = p @ r" for p r
    using that
  proof (induction r arbitrary: p)
    case (Cons e r)
    have "keys_ascending (concat (map recovered_window p) @ (fst e, snd e) # r)"
      using assms(1) Cons.prems
      by (auto simp: keys_ascending_def recovered_windows_keys sorted_wrt_append sorted_wrt_map sorted_wrt_filter)
    moreover have "length (snd e) \<le> max_retained_snapshots_per_source (l_limits l)"
      "\<forall>x \<in> set (snd e). (sn_target (ro_snapshot x), sn_source (ro_snapshot x)) = fst e \<and> observation_formed pl (ro_snapshot x) \<and>
        time_readable (sn_collected_at (ro_snapshot x))"
      using assms(2) Cons.prems by auto
    ultimately have "run_loop (restore_observation pl) (map encode_retained (snd e)) (?state p) = Inr (?state (p @ [e]))"
      using restore_one_window [where m = "concat (map recovered_window p)" and k = "fst e" and w = "snd e" and r = r] by simp
    then show ?case using Cons.IH [of "p @ [e]"] Cons.prems by (simp add: run_loop_append)
  qed simp
  from this [of "[]" wins] show ?thesis by simp
qed

section \<open>Recovery of a saved ledger\<close>

text \<open>What the records of a ledger must hold for the ledger to be read back.\<close>

definition ledger_recordable :: "Ledger \<Rightarrow> bool" where
  "ledger_recordable l \<longleftrightarrow>
     (let pl = LedgerPayloadLimits (l_limits l) in
      (\<forall>e \<in> set (l_baselines l). baseline_recordable pl (snd e)) \<and>
      (\<forall>e \<in> set (l_windows l). \<forall>x \<in> set (snd e). observation_formed pl (ro_snapshot x) \<and> time_readable (sn_collected_at (ro_snapshot x))) \<and>
      (\<forall>e \<in> set (l_findings l). Digest_is_set (fst e) \<and> finding_recordable pl (snd e)) \<and>
      (\<forall>e \<in> set (l_groups l). group_recordable (snd e)) \<and>
      (\<forall>e \<in> set (l_global_timeline l). timeline_recordable e) \<and>
      length (l_global_timeline l) \<le> max_global_timeline_entries (l_limits l))"

definition recovery_report :: "Ledger \<Rightarrow> LedgerRecoveryReport" where
  "recovery_report l =
     \<lparr>lr_revision = l_revision l, lr_findings_restored = length (l_findings l), lr_groups_restored = length (l_groups l),
      lr_baselines_restored = length (l_baselines l), lr_observations_restored = length (concat (map snd (l_windows l))),
      lr_conservative = True, lr_reason = RC_LedgerRecoveredConservatively\<rparr>"

lemma ledger_document_recovered:
  assumes ok: "ledger_ok gapless l" and rec: "ledger_recordable l"
  shows "decode_ledger_payload (l_limits l) (ledger_document l) = Inr (recovered_ledger l, recovery_report l)"
proof -
  let ?lim = "l_limits l" and ?pl = "LedgerPayloadLimits (l_limits l)"
  define l0 where "l0 = (FindingLedger ?lim)\<lparr>l_revision := l_revision l, l_timeline_sequence := l_timeline_sequence l\<rparr>"
  define r0 where "r0 = blank_recovery_report\<lparr>lr_revision := l_revision l\<rparr>"
  define l1 where "l1 = l0\<lparr>l_baselines := l_baselines l\<rparr>"
  define r1 where "r1 = r0\<lparr>lr_baselines_restored := length (l_baselines l)\<rparr>"
  define l2 where "l2 = l1\<lparr>l_windows := concat (map recovered_window (l_windows l))\<rparr>"
  define r2 where "r2 = r1\<lparr>lr_observations_restored := length (concat (map snd (l_windows l)))\<rparr>"
  define l3 where "l3 = l2\<lparr>l_findings := recovered_findings ?lim (l_timeline_sequence l) (l_findings l),
    l_timeline_sequence := l_timeline_sequence l + recovery_notes (l_findings l), l_suppressions_active := suppressed_count (l_findings l)\<rparr>"
  define r3 where "r3 = r2\<lparr>lr_findings_restored := length (l_findings l)\<rparr>"
  define l4 where "l4 = l3\<lparr>l_groups := l_groups l\<rparr>"
  define r4 where "r4 = r3\<lparr>lr_groups_restored := length (l_groups l)\<rparr>"
  note states = l0_def r0_def l1_def r1_def l2_def r2_def l3_def r3_def l4_def r4_def FindingLedger_def blank_recovery_report_def
  have parts: "baselines_ok l" "windows_ok l" "findings_ok l" "groups_ok l" using ok by (simp_all add: ledger_ok_def)
  have s1: "run_loop (restore_baseline ?pl) (map EncodeBaseline (map snd (l_baselines l))) (l0, r0) = Inr (l1, r1)"
    using restore_baselines [of "l_baselines l" l0 ?pl r0] parts(1) rec
    by (auto simp: states baselines_ok_def ledger_recordable_def Let_def list_all_iff split_def comp_def)
  have s2: "run_loop (restore_observation ?pl) (map encode_retained (concat (map snd (l_windows l)))) (l1, r1) = Inr (l2, r2)"
    using restore_windows [of "l_windows l" l1 ?pl r1] parts(2) rec
    by (auto simp: states windows_ok_def window_ok_def ledger_recordable_def Let_def list_all_iff split_def)
  have s3: "run_loop (restore_finding ?pl) (map EncodeFinding (map snd (l_findings l))) (l2, r2) = Inr (l3, r3)"
    using restore_findings [of "l_findings l" l2 ?pl "l_timeline_sequence l" r2] parts(3) rec
    by (auto simp: states findings_ok_def finding_ok_def ledger_recordable_def Let_def list_all_iff split_def comp_def)
  have s4: "run_loop restore_group (map EncodeGroup (map snd (l_groups l))) (l3, r3) = Inr (l4, r4)"
    using restore_groups [of "l_groups l" l3 r3] parts(4) rec
    by (auto simp: states groups_ok_def ledger_recordable_def Let_def list_all_iff split_def comp_def)
  have s5: "run_loop restore_timeline (map EncodeTimelineEntry (l_global_timeline l)) (l4, r4) =
      Inr (l4\<lparr>l_global_timeline := l_global_timeline l\<rparr>, r4)"
    using restore_timelines [of "l_global_timeline l" l4 r4] rec by (auto simp: states ledger_recordable_def Let_def)
  have bounds: "length (l_findings l) \<le> max_findings ?lim" "length (l_global_timeline l) \<le> max_global_timeline_entries ?lim"
    using parts(3) rec by (simp_all add: findings_ok_def ledger_recordable_def Let_def)
  have final: "(l4\<lparr>l_global_timeline := l_global_timeline l\<rparr>, r4\<lparr>lr_conservative := True, lr_reason := RC_LedgerRecoveredConservatively\<rparr>) =
      (recovered_ledger l, recovery_report l)"
    by (simp add: states recovered_ledger_def recovery_report_def)
  have first: "(snd (RestoreSuppressionSequence (l_timeline_sequence l) (snd (RestoreRevision (l_revision l) (FindingLedger ?lim))))) = l0"
    by (simp add: l0_def RestoreSuppressionSequence_def RestoreRevision_def)
  show ?thesis
    unfolding decode_ledger_payload_def ledger_document_def Let_def baselines_in_order [OF parts(1)] retained_in_order [OF parts(2)]
    using final first bounds
    by (simp add: require_record_def restore_revision_def reader_simps restore_section_def s1 [simplified] s2 s3 [simplified]
        s4 [simplified] s5 r0_def [symmetric] Let_def)
qed

lemma DecodeLedger_encoded:
  assumes "ledger_ok gapless l" "ledger_recordable l" "writable tc fc (LedgerPayloadLimits (l_limits l)) (ledger_document l)"
    and "length (EncodeLedger tc we wi l) \<le> max_ledger_bytes (l_limits l)"
    and "length (ledger_text tc l) \<le> max_record_payload_bytes (l_limits l)"
    and "length (ledger_text tc l) + kLedgerHeaderBytes < 2 ^ 64" and "uint_is_set live \<Longrightarrow> we \<le> live"
  shows "DecodeLedger fc (l_limits l) live (EncodeLedger tc we wi l) = Inr (recovered_ledger l, recovery_report l)"
  using ledger_payload_encoded [OF assms(4-7)] ParseJson_Write [OF assms(3)] ledger_document_recovered [OF assms(1,2)]
  by (simp add: DecodeLedger_def ledger_text_def)

section \<open>Recovery is conservative whatever was on disk\<close>

definition unusable :: "RetainedObservation \<Rightarrow> bool" where
  "unusable r \<longleftrightarrow>
     ro_recovered r \<and> fv_state (ro_freshness r) = FR_RecoveredNotFresh \<and> \<not> fv_may_support_compliance (ro_freshness r) \<and>
     \<not> fv_may_assert_absence (ro_freshness r)"

definition conservative :: "RuntimeLimits \<Rightarrow> Ledger \<Rightarrow> bool" where
  "conservative limits l \<longleftrightarrow>
     l_limits l = limits \<and>
     (\<forall>e \<in> set (l_windows l). \<forall>r \<in> set (snd e). unusable r) \<and>
     (\<forall>e \<in> set (l_findings l). f_id (snd e) = fst e \<and> fst e = ComputeId (f_identity (snd e)) \<and>
        f_evidence_freshness (snd e) = FR_RecoveredNotFresh) \<and>
     keys_ascending (l_findings l) \<and> length (l_findings l) \<le> max_findings limits \<and>
     keys_ascending (l_baselines l) \<and> length (l_baselines l) \<le> max_targets limits \<and>
     keys_ascending (l_groups l) \<and> length (l_groups l) \<le> max_groups limits \<and>
     length (l_global_timeline l) \<le> max_global_timeline_entries limits"

lemma map_put_bound: "keys_ascending m \<Longrightarrow> length m \<le> n \<Longrightarrow> \<not> (length m \<ge> n \<and> map_of m k = None) \<Longrightarrow> length (map_put k v m) \<le> n"
  by (auto simp: length_map_put)

lemma RestoreBaseline_conservative:
  "conservative limits l \<Longrightarrow> status_ok (fst (RestoreBaseline b l)) \<Longrightarrow> conservative limits (snd (RestoreBaseline b l))"
  by (auto simp: RestoreBaseline_def conservative_def keys_ascending_map_put intro!: map_put_bound split: if_splits)

lemma RestoreGroup_conservative:
  "conservative limits l \<Longrightarrow> status_ok (fst (RestoreGroup g l)) \<Longrightarrow> conservative limits (snd (RestoreGroup g l))"
  by (auto simp: RestoreGroup_def conservative_def keys_ascending_map_put intro!: map_put_bound split: if_splits)

lemma RestoreTimeline_conservative:
  "conservative limits l \<Longrightarrow> conservative limits (snd (RestoreTimeline e l))"
  by (auto simp: RestoreTimeline_def conservative_def TrimTimelineIfNeeded_def keep_last_def)

lemma unusable_recovered: "unusable (recovered_observation r)"
  by (simp add: unusable_def recovered_observation_def)

lemma RestoreObservation_conservative:
  assumes "conservative limits l"
  shows "conservative limits (snd (RestoreObservation r l))"
proof -
  let ?key = "(sn_target (ro_snapshot r), sn_source (ro_snapshot r))"
  define w where "w = (case map_of (l_windows l) ?key of None \<Rightarrow> [] | Some w \<Rightarrow> w)"
  have "\<forall>x \<in> set w. unusable x"
    using assms by (cases "map_of (l_windows l) ?key") (auto simp: w_def conservative_def dest!: map_of_SomeD)
  then have kept: "\<forall>x \<in> set (tl w) \<union> set w. unusable x" by (cases w) auto
  define w' where "w' = (if length w \<ge> max_retained_snapshots_per_source (l_limits l) then tl w else w) @ [recovered_observation r]"
  have w': "snd (RestoreObservation r l) = l\<lparr>l_windows := map_put ?key w' (l_windows l)\<rparr>"
    "set w' \<subseteq> insert (recovered_observation r) (set (tl w) \<union> set w)"
    unfolding RestoreObservation_def Let_def w_def [symmetric] by (auto simp: w'_def)
  then have "\<forall>e \<in> set (map_put ?key w' (l_windows l)). \<forall>x \<in> set (snd e). unusable x"
    using assms kept unusable_recovered set_map_put [of ?key w' "l_windows l"] by (fastforce simp: conservative_def)
  then show ?thesis using assms by (simp add: w'(1) conservative_def)
qed

lemma RestoreFinding_recovers:
  assumes "status_ok (fst (RestoreFinding f l))"
  shows "l_findings (snd (RestoreFinding f l)) =
      map_put (f_id f) (recovered_finding (l_limits l) (l_timeline_sequence l) f) (l_findings l)"
    "l_windows (snd (RestoreFinding f l)) = l_windows l" "l_limits (snd (RestoreFinding f l)) = l_limits l"
    "l_baselines (snd (RestoreFinding f l)) = l_baselines l" "l_groups (snd (RestoreFinding f l)) = l_groups l"
    "l_global_timeline (snd (RestoreFinding f l)) = l_global_timeline l"
    "\<not> (length (l_findings l) \<ge> max_findings (l_limits l) \<and> map_of (l_findings l) (f_id f) = None)"
  using assms by (auto simp: RestoreFinding_def Let_def push_event_def recovered_finding_def notes_recovery_def split: if_splits)

lemma recovered_finding_frame:
  "(recovered_finding limits n f)\<lparr>f_timeline := f_timeline f, f_evidence_freshness := f_evidence_freshness f\<rparr> = f"
  "f_evidence_freshness (recovered_finding limits n f) = FR_RecoveredNotFresh"
  "f_id (recovered_finding limits n f) = f_id f" "f_identity (recovered_finding limits n f) = f_identity f"
  by (simp_all add: recovered_finding_def push_event_def Let_def)

lemma RestoreFinding_conservative:
  assumes "conservative limits l" "status_ok (fst (RestoreFinding f l))" "f_id f = ComputeId (f_identity f)"
  shows "conservative limits (snd (RestoreFinding f l))"
  using assms(1,3) RestoreFinding_recovers [OF assms(2)]
    set_map_put [of "f_id f" "recovered_finding (l_limits l) (l_timeline_sequence l) f" "l_findings l"]
  by (auto simp: conservative_def keys_ascending_map_put recovered_finding_frame intro!: map_put_bound)

lemma DecodeFinding_identity: "DecodeFinding limits v = Inr f \<Longrightarrow> f_id f = ComputeId (f_identity f)"
  by (auto simp: DecodeFinding_def decode_finding_history_def decode_finding_operator_def decode_finding_assessment_def
      decode_finding_identity_def bindr_Inr_iff split: if_splits)

lemma restoring_conservative:
  "restoring outcome report = Inr r \<Longrightarrow> (status_ok (fst outcome) \<Longrightarrow> conservative limits (snd outcome)) \<Longrightarrow> conservative limits (fst r)"
  by (auto simp: restoring_def split: if_splits)

text \<open>No step of the recovery leaves the conservative states.\<close>

lemma restore_steps_conservative:
  assumes "conservative limits (fst r)"
  shows "restore_baseline pl v r = Inr r' \<Longrightarrow> conservative limits (fst r')"
    and "restore_observation pl v r = Inr r' \<Longrightarrow> conservative limits (fst r')"
    and "restore_finding pl v r = Inr r' \<Longrightarrow> conservative limits (fst r')"
    and "restore_group v r = Inr r' \<Longrightarrow> conservative limits (fst r')"
    and "restore_timeline v r = Inr r' \<Longrightarrow> conservative limits (fst r')"
  using assms
  by (auto simp: restore_baseline_def restore_observation_def restore_finding_def restore_group_def restore_timeline_def bindr_Inr_iff
      dest!: restoring_conservative [where limits = limits]
      intro: RestoreBaseline_conservative RestoreObservation_conservative RestoreFinding_conservative RestoreGroup_conservative
        RestoreTimeline_conservative DecodeFinding_identity)

lemma restore_section_conservative:
  assumes "restore_section m name bound restore r = Inr r'" "conservative limits (fst r)"
    and "\<And>v r r'. conservative limits (fst r) \<Longrightarrow> restore v r = Inr r' \<Longrightarrow> conservative limits (fst r')"
  shows "conservative limits (fst r')"
proof (cases "FindMember m name")
  case None
  then show ?thesis using assms(1,2) by (simp add: restore_section_def)
next
  case (Some v)
  then obtain l where "run_loop restore l r = Inr r'"
    using assms(1) by (auto simp: restore_section_def split: option.splits if_splits)
  then show ?thesis by (rule run_loop_invariant [where P = "\<lambda>r. conservative limits (fst r)"]) (use assms(2,3) in auto)
qed

lemma decode_ledger_payload_conservative:
  assumes "decode_ledger_payload limits root = Inr r"
  shows "conservative limits (fst r)"
proof -
  obtain m r0 r1 r2 r3 r4 r5 where s: "restore_revision limits m = Inr r0"
    "restore_section m ''baselines'' None (restore_baseline (LedgerPayloadLimits limits)) r0 = Inr r1"
    "restore_section m ''observations'' None (restore_observation (LedgerPayloadLimits limits)) r1 = Inr r2"
    "restore_section m ''findings''
       (Some (max_findings limits, Status_Limit RC_LimitFindingsExceeded ''ledger finding count exceeds the envelope''))
       (restore_finding (LedgerPayloadLimits limits)) r2 = Inr r3"
    "restore_section m ''groups'' None restore_group r3 = Inr r4"
    "restore_section m ''timeline''
       (Some (max_global_timeline_entries limits, Status_Limit RC_LimitTimelineExceeded ''ledger timeline exceeds the envelope''))
       restore_timeline r4 = Inr r5" "fst r = fst r5"
    using assms by (auto simp: decode_ledger_payload_def Let_def bindr_Inr_iff split: if_splits)
  have "conservative limits (fst r0)"
    using s(1) by (auto simp: restore_revision_def bindr_Inr_iff RestoreRevision_def RestoreSuppressionSequence_def Let_def
        FindingLedger_def conservative_def split: option.splits)
  then have "conservative limits (fst r1)" using restore_steps_conservative(1) by (rule restore_section_conservative [OF s(2)])
  then have "conservative limits (fst r2)" using restore_steps_conservative(2) by (rule restore_section_conservative [OF s(3)])
  then have "conservative limits (fst r3)" using restore_steps_conservative(3) by (rule restore_section_conservative [OF s(4)])
  then have "conservative limits (fst r4)" using restore_steps_conservative(4) by (rule restore_section_conservative [OF s(5)])
  then have "conservative limits (fst r5)" using restore_steps_conservative(5) by (rule restore_section_conservative [OF s(6)])
  then show ?thesis by (simp add: s(7))
qed

section \<open>Properties\<close>

lemma recovered_findings_frame:
  "list_all2 (\<lambda>e e'. fst e' = fst e \<and> f_evidence_freshness (snd e') = FR_RecoveredNotFresh \<and>
       (snd e')\<lparr>f_timeline := f_timeline (snd e), f_evidence_freshness := f_evidence_freshness (snd e)\<rparr> = snd e)
     m (recovered_findings limits n m)"
  by (induction m arbitrary: n) (simp_all add: recovered_finding_frame)

lemma recovered_windows_snapshots:
  "map ro_snapshot (concat (map snd (concat (map recovered_window wins)))) =
     map (\<lambda>r. as_sent (ro_snapshot r)) (concat (map snd wins))"
  by (induction wins) (simp_all add: recovered_window_def recovered_observation_def restored_observation_def comp_def)

lemma saved_bytes:
  assumes "SaveLedgerFile tc faults l path we wi max_bytes files = (st, files')" "status_ok st"
  shows "files' path = Some (EncodeLedger tc we wi l) \<and> length (EncodeLedger tc we wi l) \<le> max_bytes"
  using assms by (auto simp: SaveLedgerFile_def Let_def split: if_splits)

lemma DecodeLedger_accepts:
  assumes "DecodeLedger fc limits live b = Inr r"
  obtains payload root where "ledger_payload limits live b = Inr payload" "decode_ledger_payload limits root = Inr r"
proof -
  obtain payload where p: "ledger_payload limits live b = Inr payload"
    using assms by (auto simp: DecodeLedger_def bindr_Inr_iff)
  with assms that show thesis
    by (cases "ParseJson fc (LedgerPayloadLimits limits) (text_of_bytes payload)") (auto simp: DecodeLedger_def)
qed


text \<open>
  C10. Recovery trusts nothing on disk.  Whatever bytes a load accepts, they carry the payload whose
  SHA-256 the header declares, were not written by an epoch newer than the live one, and the ledger that
  comes out is within its bounds, has every finding filed under the digest recomputed from its identity,
  and holds no evidence and no finding that counts as fresh.
\<close>

theorem recovery_is_conservative:
  assumes "DecodeLedger fc limits live b = Inr (l, report)"
  shows "conservative limits l \<and> lr_conservative report \<and> take 8 b = kLedgerMagic \<and>
    take 32 (drop 20 b) = HashBytes (drop kLedgerHeaderBytes b) \<and> length b \<le> max_ledger_bytes limits \<and>
    (uint_is_set live \<longrightarrow> ReadU64 (drop 52 b) \<le> live)"
proof -
  obtain payload root where p: "ledger_payload limits live b = Inr payload" "decode_ledger_payload limits root = Inr (l, report)"
    by (rule DecodeLedger_accepts [OF assms])
  have "conservative limits l" using decode_ledger_payload_conservative [OF p(2)] by simp
  moreover have "lr_conservative report" using p(2) by (auto simp: decode_ledger_payload_def Let_def bindr_Inr_iff split: if_splits)
  moreover have "take 8 b = kLedgerMagic" "length b \<le> max_ledger_bytes limits" "uint_is_set live \<longrightarrow> ReadU64 (drop 52 b) \<le> live"
    using p(1) by (auto simp: ledger_payload_def Let_def split: if_splits)
  moreover have "take 32 (drop 20 b) = HashBytes (drop kLedgerHeaderBytes b)"
  proof -
    let ?n = "ReadU64 (drop 12 b)"
    have n: "unat (of_nat kLedgerHeaderBytes + ?n) = length b" "\<not> length b < kLedgerHeaderBytes"
      "take 32 (drop 20 b) = HashBytes (take (unat ?n) (drop kLedgerHeaderBytes b))"
      using p(1) by (auto simp: ledger_payload_def Let_def LedgerPayloadDigest_def split: if_splits)
    then have "length (drop kLedgerHeaderBytes b) \<le> unat ?n"
      using unat_lt2p [of ?n] by (simp add: unat_plus_if' kLedgerHeaderBytes_def split: if_splits)
    then show ?thesis using n(3) by simp
  qed
  ultimately show ?thesis by blast
qed

text \<open>
  C38. The writer and the reader disagree about size: a ledger whose payload exceeds the record bound but
  not the file bound is saved with success, replaces the previous file, and can never be loaded again
  under the same envelope.
\<close>

theorem saved_ledger_unloadable:
  assumes "length (ledger_text tc l) > max_record_payload_bytes limits"
    and "kLedgerHeaderBytes + length (ledger_text tc l) \<le> max_ledger_bytes limits"
    and "length (ledger_text tc l) + kLedgerHeaderBytes < 2 ^ 64"
    and "ff_opens faults" "ff_writes faults" "ff_flushes faults" "ff_renames faults" "ff_opens later" "ff_reads later"
    and "SaveLedgerFile tc faults l path we wi (max_ledger_bytes limits) files = (st, files')"
  shows "status_ok st \<and> LoadLedgerFile fc later path limits live files' =
    Inl (Status_Limit RC_LedgerPayloadTooLarge ''ledger payload exceeds the envelope'')"
proof -
  let ?b = "EncodeLedger tc we wi l"
  have len: "\<not> length ?b > max_ledger_bytes limits" "\<not> length ?b < kLedgerHeaderBytes" "?b \<noteq> []"
    using assms(1,2) length_EncodeLedger [of tc we wi l] by auto
  have st: "status_ok st" and files: "files' path = Some ?b"
    using assms(4-7,10) len by (auto simp: SaveLedgerFile_def Let_def split: if_splits)
  have "ledger_payload limits live ?b = Inl (Status_Limit RC_LedgerPayloadTooLarge ''ledger payload exceeds the envelope'')"
    using len ledger_fields(1-3) [OF assms(3), of we wi] assms(1) by (simp add: ledger_payload_def Let_def)
  then have "DecodeLedger fc limits live ?b = Inl (Status_Limit RC_LedgerPayloadTooLarge ''ledger payload exceeds the envelope'')"
    by (simp add: DecodeLedger_def)
  then show ?thesis using st files len assms(8,9) by (simp add: LoadLedgerFile_def)
qed

definition example_entry :: TimelineEntry where
  "example_entry =
     \<lparr>te_kind = TK_EvidenceRecovered, te_target = ''dev'', te_object = [], te_finding = Digest_unset, te_sequence = 1, te_at = 0,
      te_state_after = FS_Open, te_klass = DC_None, te_severity = SV_Info, te_reason = RC_None, te_baseline_generation = 1,
      te_baseline_epoch = 1, te_evidence_digest = Digest_unset, te_actor = [], te_detail = []\<rparr>"

definition example_saved :: Ledger where
  "example_saved = (FindingLedger default_limits)\<lparr>l_revision := 7, l_timeline_sequence := 1, l_global_timeline := [example_entry]\<rparr>"

definition sound_files :: FileFaults where
  "sound_files = \<lparr>ff_opens = True, ff_writes = True, ff_flushes = True, ff_partial = [], ff_renames = True, ff_reads = True\<rparr>"

lemma default_payload_limits:
  "LedgerPayloadLimits default_limits =
     default_limits\<lparr>max_value_nodes := 90128384, max_value_depth := 24, max_document_bytes := 536870912\<rparr>"
proof -
  have "payload_budget 4096 [500000, 200000, 4096] = 90128384" by (simp add: CheckedMul_def CheckedAdd_def)
  then show ?thesis by (simp add: LedgerPayloadLimits_def default_limits_def Let_def)
qed

lemma example_saved_ok: "ledger_ok gapless example_saved" "ledger_recordable example_saved"
proof -
  have "IsValidIdentityText ''dev''" by code_simp
  then show "ledger_recordable example_saved"
    by (simp add: ledger_recordable_def example_saved_def FindingLedger_def Let_def timeline_recordable_def example_entry_def
        time_readable_def full_digest_def Digest_unset_def identity_or_empty_def default_limits_def)
  show "ledger_ok gapless example_saved"
    by (simp add: ledger_ok_parts timeline_ok_def example_saved_def FindingLedger_def example_entry_def)
qed

lemma unset_hex: "Digest_ToHex Digest_unset = replicate 64 (CHR ''0'')"
  by code_simp

lemma zeros_plain: "plain_text (replicate n (CHR ''0''))"
  by (simp add: plain_text_def list_all_iff QUOTE_def ESCAPE_def)

lemma example_saved_document:
  "ledger_document example_saved = V_Map (members_of
     [(''schema'', V_String ''ndo/ledger/1''), (''format_version'', V_Int 1), (''revision'', V_Int 7),
      (''timeline_sequence'', V_Int 1), (''baselines'', V_List []), (''observations'', V_List []), (''findings'', V_List []),
      (''groups'', V_List []), (''timeline'', V_List [EncodeTimelineEntry example_entry])])"
  by (simp add: ledger_document_def example_saved_def FindingLedger_def Targets_def sort_unique_def retained_observations_def
      map_filter_simps kLedgerFormatVersion_def MakeUint_def)

lemma example_saved_writable:
  "writable (\<lambda>_. None) (\<lambda>_. None) (LedgerPayloadLimits default_limits) (ledger_document example_saved)"
  "length (ledger_text (\<lambda>_. None) example_saved) \<le> 1000"
  unfolding example_saved_document ledger_text_def default_payload_limits
  by (simp_all add: EncodeTimelineEntry_def timeline_members_def example_entry_def example_times unset_hex written_simps
      ToText_TimelineEventKind_def kEventNames_def ToText_FindingState_def kFindingStateNames_def ToText_DriftClass_def
      kDriftClassNames_def ToText_Severity_def kSeverityNames_def none_text hex_or_empty_def plain_utf8 [OF zeros_plain] plain_quote [OF zeros_plain])

lemma example_saved_sizes:
  "length (ledger_text (\<lambda>_. None) example_saved) + kLedgerHeaderBytes < 2 ^ 64"
  "length (EncodeLedger (\<lambda>_. None) 3 4 example_saved) \<le> max_ledger_bytes default_limits"
  "length (ledger_text (\<lambda>_. None) example_saved) \<le> max_record_payload_bytes default_limits"
  using example_saved_writable(2) by (simp_all add: length_EncodeLedger kLedgerHeaderBytes_def default_limits_def)

lemma example_limits: "l_limits example_saved = default_limits" "l_revision example_saved = 7"
  "l_global_timeline example_saved = [example_entry]"
  by (simp_all add: example_saved_def FindingLedger_def)


theorem recovery_is_conservative_witness:
  "conservative default_limits (recovered_ledger example_saved) \<and>
   take 32 (drop 20 (EncodeLedger (\<lambda>_. None) 3 4 example_saved)) =
     HashBytes (drop kLedgerHeaderBytes (EncodeLedger (\<lambda>_. None) 3 4 example_saved))"
proof -
  have "DecodeLedger (\<lambda>_. None) (l_limits example_saved) 5 (EncodeLedger (\<lambda>_. None) 3 4 example_saved) =
      Inr (recovered_ledger example_saved, recovery_report example_saved)"
    by (rule DecodeLedger_encoded) (use example_saved_ok example_saved_writable example_saved_sizes in \<open>simp_all add: example_limits\<close>)
  from recovery_is_conservative [OF this] show ?thesis by (simp add: example_limits)
qed

theorem saved_ledger_unloadable_witness:
  "let limits = default_limits\<lparr>max_record_payload_bytes := 0\<rparr>;
       result = SaveLedgerFile (\<lambda>_. None) sound_files example_saved ''ndo'' 3 4 (max_ledger_bytes limits) (\<lambda>_. None)
   in status_ok (fst result) \<and> LoadLedgerFile (\<lambda>_. None) sound_files ''ndo'' limits 5 (snd result) =
     Inl (Status_Limit RC_LedgerPayloadTooLarge ''ledger payload exceeds the envelope'')"
proof -
  let ?limits = "default_limits\<lparr>max_record_payload_bytes := 0\<rparr>"
  obtain st files' where save:
    "SaveLedgerFile (\<lambda>_. None) sound_files example_saved ''ndo'' 3 4 (max_ledger_bytes ?limits) (\<lambda>_. None) = (st, files')"
    by (metis prod.exhaust_sel)
  have some: "length (ledger_text (\<lambda>_. None) example_saved) > 0"
    by (simp add: ledger_text_def example_saved_document WriteCanonicalJson_def members_of_def map_emplace_def bytes_of_text_def)
  from saved_ledger_unloadable [OF _ _ example_saved_sizes(1) _ _ _ _ _ _ save, where later = sound_files]
    some example_saved_sizes(2) save
  show ?thesis by (simp add: sound_files_def length_EncodeLedger)
qed

end
