(* ===== verification/NDO_Engine_State.thy ===== *)
theory NDO_Engine_State
  imports NDO_Engine_Safety NDO_Persistence
begin

text \<open>
  The observatory's edges (\<^verbatim>\<open>engine.cpp\<close>): observations that arrive as JSON text, and the durable state, saved to
  and loaded from a file or passed as bytes.  The theory composes the engine with the codecs: what a
  checkpoint written by one process means for the process that loads it.
\<close>

section \<open>Operations\<close>

definition IngestObservationJson ::
    "(string \<Rightarrow> u64 option) \<Rightarrow> string \<Rightarrow> NdoTime \<Rightarrow> Observatory \<Rightarrow> Status \<times> ObservationAdmission \<times> Observatory" where
  "IngestObservationJson fc json receive_time ob =
     (case ParseObservationJson fc (oc_limits (ob_config ob)) json of
        Inl status \<Rightarrow> (status, blank_admission,
          tally (\<lambda>k. k\<lparr>ct_observations_rejected := ct_observations_rejected k + 1\<rparr>) ob)
      | Inr snapshot \<Rightarrow> IngestObservation snapshot receive_time ob)"

definition Save ::
    "(u64 \<Rightarrow> string option) \<Rightarrow> FileFaults \<Rightarrow> string \<Rightarrow> Observatory \<Rightarrow> files \<Rightarrow> Status \<times> Observatory \<times> files" where
  "Save tc faults path ob files =
     (let c = ob_config ob;
          (status, files) = SaveLedgerFile tc faults (ob_ledger ob) path (oc_epoch c) (oc_incarnation c)
            (max_ledger_bytes (oc_limits c)) files
      in (status,
          if status_ok status then tally (\<lambda>k. k\<lparr>ct_persistence_writes := ct_persistence_writes k + 1\<rparr>) ob else ob, files))"

definition install_recovery ::
    "recovery Result \<Rightarrow> Observatory \<Rightarrow> LedgerRecoveryReport Result \<times> Observatory" where
  "install_recovery r ob =
     (case r of
        Inl status \<Rightarrow> (Inl status, ob)
      | Inr (decoded, report) \<Rightarrow>
          (Inr report, tally (\<lambda>k. k\<lparr>ct_recoveries := ct_recoveries k + 1\<rparr>) (ob\<lparr>ob_ledger := decoded\<rparr>)))"

definition Load ::
    "(string \<Rightarrow> u64 option) \<Rightarrow> FileFaults \<Rightarrow> string \<Rightarrow> files \<Rightarrow> Observatory \<Rightarrow> LedgerRecoveryReport Result \<times> Observatory" where
  "Load fc faults path files ob =
     install_recovery (LoadLedgerFile fc faults path (oc_limits (ob_config ob)) (oc_epoch (ob_config ob)) files) ob"

definition EncodeState :: "(u64 \<Rightarrow> string option) \<Rightarrow> Observatory \<Rightarrow> bytes" where
  "EncodeState tc ob = EncodeLedger tc (oc_epoch (ob_config ob)) (oc_incarnation (ob_config ob)) (ob_ledger ob)"

definition DecodeState ::
    "(string \<Rightarrow> u64 option) \<Rightarrow> bytes \<Rightarrow> Observatory \<Rightarrow> LedgerRecoveryReport Result \<times> Observatory" where
  "DecodeState fc b ob = install_recovery (DecodeLedger fc (oc_limits (ob_config ob)) (oc_epoch (ob_config ob)) b) ob"

section \<open>Observations as text\<close>

text \<open>Neither the time of receipt in the sender's record nor the form of the text reaches the engine.\<close>

lemma IngestObservation_as_sent: "IngestObservation (as_sent s) now ob = IngestObservation s now ob"
  by (simp add: IngestObservation_def as_sent_def)

lemma IngestObservationJson_sent:
  assumes "observation_formed (oc_limits (ob_config ob)) s" "time_readable (sn_collected_at s)"
    and "writable tc fc (oc_limits (ob_config ob)) (EncodeObservationDocument s)"
  shows "IngestObservationJson fc (WriteCanonicalJson tc (EncodeObservationDocument s)) now ob = IngestObservation s now ob"
  using assms
  by (simp add: IngestObservationJson_def ParseObservationJson_def ParseJson_Write DecodeObservationDocument_encoded
      IngestObservation_as_sent flip: as_sent_def)

lemma tally_ok [simp]: "engine_ok gapless (tally f ob) = engine_ok gapless ob"
  by (simp add: tally_def engine_ok_def admission_ok_def Let_def)

lemma IngestObservationJson_ok:
  "engine_ok gapless ob \<Longrightarrow> engine_ok gapless (snd (snd (IngestObservationJson fc json now ob)))"
  using engine_call_ok [OF ingest] by (auto simp: IngestObservationJson_def split: sum.splits) (metis prod.collapse)

section \<open>Checkpoints\<close>

lemma recovered_window_keys: "map fst (concat (map recovered_window wins)) = map fst (filter (\<lambda>e. snd e \<noteq> []) wins)"
  by (induction wins) (auto simp: recovered_window_def)

lemma recovered_finding_ok: "finding_ok k f \<Longrightarrow> finding_ok k (recovered_finding limits n f)"
  by (simp add: finding_ok_def recovered_finding_def Let_def push_event_def)

lemma recovered_findings_ok:
  "list_all (\<lambda>(k, f). finding_ok k f) m \<Longrightarrow> list_all (\<lambda>(k, f). finding_ok k f) (recovered_findings limits n m)"
  by (induction m arbitrary: n) (auto simp: recovered_finding_ok)

text \<open>A recovered observation keeps its place: the order of a window reads only what is sent.\<close>

lemma recovered_before [simp]:
  "observation_before (recovered_observation (restored_observation (as_sent (ro_snapshot a))))
     (recovered_observation (restored_observation (as_sent (ro_snapshot b)))) = observation_before a b"
  by (simp add: observation_before_key observation_key_def recovered_observation_def restored_observation_def as_sent_def)

lemma recovered_window_ok:
  "window_ok bound (fst e) (snd e) \<Longrightarrow> list_all (\<lambda>(k, w). window_ok bound k w) (recovered_window e)"
  by (auto simp: recovered_window_def window_ok_def list_all_iff sorted_wrt_map)
    (auto simp: as_sent_def recovered_observation_def restored_observation_def)

lemma recovered_windows_ok:
  "list_all (\<lambda>(k, w). window_ok bound k w) wins \<Longrightarrow> list_all (\<lambda>(k, w). window_ok bound k w) (concat (map recovered_window wins))"
  by (induction wins) (auto simp: recovered_window_ok [of _ "(_, _)", simplified])

lemma keys_ascending_filtered: "keys_ascending m \<Longrightarrow> keys_ascending (filter P m)"
  by (induction m) (auto simp: keys_ascending_def)

lemma recovered_ledger_ok:
  assumes "ledger_ok gapless l"
  shows "ledger_ok False (recovered_ledger l)"
proof -
  have "keys_ascending (concat (map recovered_window (l_windows l)))"
    using assms keys_ascending_filtered [of "l_windows l"]
    by (simp add: keys_ascending_def recovered_window_keys ledger_ok_parts)
  moreover have "keys_ascending (recovered_findings (l_limits l) n (l_findings l))" for n
    using assms by (simp add: keys_ascending_def recovered_findings_keys ledger_ok_parts)
  moreover have "length (recovered_findings (l_limits l) n (l_findings l)) = length (l_findings l)" for n
    by (metis length_map recovered_findings_keys)
  ultimately show ?thesis
    using assms recovered_windows_ok recovered_findings_ok
    by (simp add: ledger_ok_parts timeline_ok_def recovered_ledger_def FindingLedger_def)
qed

lemma recovered_ledger_frame:
  "l_limits (recovered_ledger l) = l_limits l" "FindBaseline t (recovered_ledger l) = FindBaseline t l"
  by (simp_all add: recovered_ledger_def FindingLedger_def FindBaseline_def)

lemma recovered_findings_found:
  "map_of m k = Some f \<Longrightarrow> \<exists>n'. map_of (recovered_findings limits n m) k = Some (recovered_finding limits n' f)"
  by (induction m arbitrary: n) auto

lemma recovered_ledger_found:
  assumes "FindFinding k l = Some f"
  obtains g where "FindFinding k (recovered_ledger l) = Some g" "f_identity g = f_identity f" "f_state g = f_state f"
proof -
  from assms obtain n where "FindFinding k (recovered_ledger l) = Some (recovered_finding (l_limits l) n f)"
    using recovered_findings_found by (fastforce simp: FindFinding_def recovered_ledger_def)
  then show thesis by (rule that) (simp_all add: recovered_finding_def Let_def push_event_def)
qed

lemma recovered_ledger_evidence: "r \<in> set (ObservationsFor t (recovered_ledger l)) \<Longrightarrow> ro_recovered r"
  by (auto simp: ObservationsFor_def recovered_ledger_def FindingLedger_def recovered_window_def recovered_observation_def
      split: if_splits)

lemma install_recovery_ok:
  assumes "engine_ok gapless ob" "ledger_ok gapless' l" "l_limits l = oc_limits (ob_config ob)"
  shows "engine_ok gapless' (snd (install_recovery (Inr (l, report)) ob))"
  using assms by (simp add: install_recovery_def engine_ok_def admission_ok_def Let_def tally_def)


text \<open>A save that fails leaves the previous checkpoint in place.\<close>

lemma failed_save_keeps_checkpoint:
  "Save tc faults path ob files = (st, ob1, files1) \<Longrightarrow> \<not> status_ok st \<Longrightarrow> files1 path = files path \<and> ob1 = ob"
  by (auto simp: Save_def SaveLedgerFile_def Let_def split: if_splits)

definition checkpointed :: Observatory where
  "checkpointed = (Observatory_new (example_config 1))\<lparr>ob_ledger := example_saved\<rparr>"

lemma checkpointed_ok: "engine_ok True checkpointed"
  using Observatory_new_ok [of True "example_config 1"] example_saved_ok(1) [of True]
  by (simp add: engine_ok_def admission_ok_def checkpointed_def Observatory_new_def example_config_def clamp_workers_def example_limits Let_def)

lemma checkpointed_config: "oc_limits (ob_config checkpointed) = default_limits" "ob_ledger checkpointed = example_saved"
  by (simp_all add: checkpointed_def Observatory_new_def example_config_def clamp_workers_def Let_def)


end
