(* ===== verification/NDO_Server.thy ===== *)
theory NDO_Server
  imports NDO_Transport NDO_Engine_State
begin

text \<open>
  The ingestion server (\<^verbatim>\<open>server.hpp\<close>, \<^verbatim>\<open>server.cpp\<close>): the per-source fence, the frame handlers, the session loop and the
  table of sessions.  The handlers thread the socket and the server through every call that changes
  them; the clock's reading is an argument.  Every function body that holds one of the server's mutexes
  is one atomic step, so the fence and the session table are studied under any interleaving of sessions.
\<close>

section \<open>State\<close>

record ServerStats =
  ss_sessions_accepted :: u64
  ss_sessions_refused :: u64
  ss_sessions_closed :: u64
  ss_frames_received :: u64
  ss_frames_sent :: u64
  ss_frames_refused :: u64
  ss_snapshots_admitted :: u64
  ss_snapshots_refused :: u64
  ss_intents_admitted :: u64
  ss_stale_fenced :: u64
  ss_idle_expired :: u64
  ss_active_sessions :: u64
  ss_high_water_sessions :: u64

definition zero_stats :: ServerStats where
  "zero_stats =
     \<lparr>ss_sessions_accepted = 0, ss_sessions_refused = 0, ss_sessions_closed = 0, ss_frames_received = 0, ss_frames_sent = 0,
      ss_frames_refused = 0, ss_snapshots_admitted = 0, ss_snapshots_refused = 0, ss_intents_admitted = 0, ss_stale_fenced = 0,
      ss_idle_expired = 0, ss_active_sessions = 0, ss_high_water_sessions = 0\<rparr>"

record SourceFence =
  sf_source :: SourceId
  sf_epoch :: FabricEpoch
  sf_incarnation :: Incarnation
  sf_sequence :: SourceSequence
  sf_content_digest :: Digest

definition blank_fence :: SourceFence where
  "blank_fence = \<lparr>sf_source = [], sf_epoch = 0, sf_incarnation = 0, sf_sequence = 0, sf_content_digest = Digest_unset\<rparr>"

type_synonym fences = "(SourceId, SourceFence) omap"

record SessionContext =
  cx_source :: SourceId
  cx_epoch :: FabricEpoch
  cx_incarnation :: Incarnation
  cx_sequence :: SourceSequence
  cx_session_id :: u64
  cx_handshaken :: bool
  cx_in_flight :: nat

definition new_context :: "u64 \<Rightarrow> SessionContext" where
  "new_context session_id =
     \<lparr>cx_source = [], cx_epoch = 0, cx_incarnation = 0, cx_sequence = 0, cx_session_id = session_id, cx_handshaken = False,
      cx_in_flight = 0\<rparr>"

text \<open>
  A session slot is reduced to its completion flag; its socket belongs to the session.  Of the listener the
  state keeps whether it is valid, and of the accept thread whether it is joinable.
\<close>

record ObservationServer =
  sv_observatory :: Observatory
  sv_limits :: RuntimeLimits
  sv_fences :: fences
  sv_stats :: ServerStats
  sv_sessions :: "(u64, bool) omap"
  sv_next_session_id :: u64
  sv_running :: bool
  sv_stop_requested :: bool
  sv_listening :: bool
  sv_bound_port :: u16
  sv_accept_thread :: bool

definition ObservationServer_new :: "Observatory \<Rightarrow> RuntimeLimits \<Rightarrow> ObservationServer" where
  "ObservationServer_new ob limits =
     \<lparr>sv_observatory = ob, sv_limits = limits, sv_fences = [], sv_stats = zero_stats, sv_sessions = [], sv_next_session_id = 1,
      sv_running = False, sv_stop_requested = False, sv_listening = False, sv_bound_port = 0, sv_accept_thread = False\<rparr>"

definition count_stat :: "(ServerStats \<Rightarrow> ServerStats) \<Rightarrow> ObservationServer \<Rightarrow> ObservationServer" where
  "count_stat f sv = sv\<lparr>sv_stats := f (sv_stats sv)\<rparr>"

section \<open>The fence\<close>

definition FenceFor :: "SourceId \<Rightarrow> ObservationServer \<Rightarrow> SourceFence option" where
  "FenceFor source sv = map_of (sv_fences sv) source"

text \<open>The mark of a source, or the blank one the map creates on first use.\<close>

definition fence_of :: "SourceId \<Rightarrow> fences \<Rightarrow> SourceFence" where
  "fence_of source fences = (case map_of fences source of None \<Rightarrow> blank_fence | Some f \<Rightarrow> f)"

definition FenceSnapshot ::
    "SourceId \<Rightarrow> FabricEpoch \<Rightarrow> Incarnation \<Rightarrow> SourceSequence \<Rightarrow> Digest \<Rightarrow> fences \<Rightarrow> ReasonCode option \<times> fences" where
  "FenceSnapshot source epoch incarnation sequence digest fences =
     (let f = fence_of source fences;
          taken = f\<lparr>sf_epoch := epoch, sf_incarnation := incarnation, sf_sequence := sequence, sf_content_digest := digest\<rparr>;
          marked = f\<lparr>sf_sequence := sequence, sf_content_digest := digest\<rparr>
      in if sf_source f = [] then (None, map_put source (taken\<lparr>sf_source := source\<rparr>) fences)
         else if epoch \<noteq> sf_epoch f \<or> incarnation \<noteq> sf_incarnation f
         then if epoch < sf_epoch f then (Some RC_FencedStaleEpoch, fences)
              else if epoch = sf_epoch f \<and> incarnation < sf_incarnation f then (Some RC_FencedStaleIncarnation, fences)
              else (None, map_put source taken fences)
         else if \<not> uint_is_set (sf_sequence f) \<and> \<not> Digest_is_set (sf_content_digest f) then (None, map_put source marked fences)
         else if sequence < sf_sequence f then (Some RC_FencedStaleSequence, fences)
         else if sequence = sf_sequence f \<and> digest \<noteq> sf_content_digest f
         then (Some RC_ObservationDuplicateConflicting, fences)
         else (None, if sequence > sf_sequence f then map_put source marked fences else fences))"

text \<open>The fence's part of a greeting: the refusal it gives, whether it was counted as stale, and the new marks.\<close>

definition greet_fence :: "HelloPayload \<Rightarrow> fences \<Rightarrow> (ReasonCode \<times> string) option \<times> bool \<times> fences" where
  "greet_fence hello fences =
     (let stale =
            (case map_of fences (hp_source hello) of
               None \<Rightarrow> None
             | Some f \<Rightarrow>
                 if hp_epoch hello < sf_epoch f
                 then Some (RC_FencedStaleEpoch, ''the source epoch precedes the fenced epoch'')
                 else if hp_epoch hello = sf_epoch f \<and> hp_incarnation hello < sf_incarnation f
                 then Some (RC_FencedStaleIncarnation, ''the source incarnation precedes the fenced incarnation'')
                 else None)
      in case stale of
           Some refusal \<Rightarrow> (Some refusal, True, fences)
         | None \<Rightarrow>
             let f = fence_of (hp_source hello) fences
             in if sf_source f \<noteq> [] \<and> hp_incarnation hello < sf_incarnation f
                then (Some (RC_FencedStaleIncarnation, ''the source incarnation precedes the fenced incarnation''), False, fences)
                else
                  let new_incarnation = (sf_source f \<noteq> [] \<and> hp_incarnation hello > sf_incarnation f);
                      g = f\<lparr>sf_source := hp_source hello, sf_epoch := hp_epoch hello, sf_incarnation := hp_incarnation hello\<rparr>;
                      g = (if new_incarnation then g\<lparr>sf_sequence := 0, sf_content_digest := Digest_unset\<rparr> else g)
                  in (None, False, map_put (hp_source hello) g fences))"

section \<open>Frames out\<close>

definition SendFrame ::
    "(u64 \<Rightarrow> string option) \<Rightarrow> FrameType \<Rightarrow> u16 \<Rightarrow> u64 \<Rightarrow> Value \<Rightarrow> Socket \<Rightarrow> ObservationServer \<Rightarrow> Status \<times> Socket \<times> ObservationServer" where
  "SendFrame tc type flags sequence payload so sv =
     (case EncodeFrame type flags sequence (WriteCanonicalJson tc payload) (sv_limits sv) of
        Inl status \<Rightarrow> (status, so, sv)
      | Inr frame \<Rightarrow>
          let (status, so) = SendAll frame so
          in if \<not> status_ok status then (status, so, sv)
             else (Status_Ok, so, count_stat (\<lambda>k. k\<lparr>ss_frames_sent := ss_frames_sent k + 1\<rparr>) sv))"

definition SendError ::
    "(u64 \<Rightarrow> string option) \<Rightarrow> ReasonCode \<Rightarrow> string \<Rightarrow> Socket \<Rightarrow> ObservationServer \<Rightarrow> Status \<times> Socket \<times> ObservationServer" where
  "SendError tc reason detail = SendFrame tc FT_ErrorFrame 0 0 (EncodeError reason detail)"

type_synonym handled = "Status \<times> SessionContext \<times> Socket \<times> ObservationServer"

text \<open>An acknowledgement that ends the handling of a frame and leaves the session open, whatever the send did.\<close>

definition acknowledge_frame ::
    "(u64 \<Rightarrow> string option) \<Rightarrow> FrameType \<Rightarrow> AckPayload \<Rightarrow> (ServerStats \<Rightarrow> ServerStats) \<Rightarrow> SessionContext \<Rightarrow> Socket \<Rightarrow> ObservationServer \<Rightarrow> handled" where
  "acknowledge_frame tc type ack count_it cx so sv =
     (let (_, so, sv) = SendFrame tc type 0 0 (EncodeAck ack) so sv in (Status_Ok, cx, so, count_stat count_it sv))"

definition blank_ack :: AckPayload where
  "blank_ack = \<lparr>ak_accepted = False, ak_reason = RC_None, ak_sequence = 0, ak_snapshot = [], ak_generation = 0, ak_detail = []\<rparr>"

section \<open>Handlers\<close>

definition greeting_descriptor :: "HelloPayload \<Rightarrow> NdoTime \<Rightarrow> SourceDescriptor" where
  "greeting_descriptor hello now =
     \<lparr>sd_id = hp_source hello, sd_capabilities = hp_capabilities hello, sd_registered_at = now, sd_epoch = hp_epoch hello,
      sd_incarnation = hp_incarnation hello, sd_provenance = hp_provenance hello,
      sd_evidence = sc_evidence (hp_capabilities hello)\<rparr>"

definition settle_greeting ::
    "HelloPayload \<Rightarrow> NdoTime \<Rightarrow> SessionContext \<Rightarrow> ObservationServer \<Rightarrow> HelloAckPayload \<times> ObservationServer" where
  "settle_greeting hello now cx sv =
     (let c = ob_config (sv_observatory sv);
          ack = \<lparr>ha_accepted = True, ha_reason = RC_None, ha_protocol_version = kWireProtocolVersion, ha_server_epoch = oc_epoch c,
                 ha_server_incarnation = oc_incarnation c, ha_session_id = cx_session_id cx,
                 ha_max_payload_bytes = of_nat (max_wire_payload_bytes (sv_limits sv)), ha_detail = []\<rparr>;
          (refusal, counted, fences) = greet_fence hello (sv_fences sv);
          sv = sv\<lparr>sv_fences := fences\<rparr>;
          sv = (if counted then count_stat (\<lambda>k. k\<lparr>ss_stale_fenced := ss_stale_fenced k + 1\<rparr>) sv else sv)
      in case refusal of
           Some (reason, detail) \<Rightarrow> (ack\<lparr>ha_accepted := False, ha_reason := reason, ha_detail := detail\<rparr>, sv)
         | None \<Rightarrow>
             let (registration, ob) = RegisterSource (greeting_descriptor hello now) (sv_observatory sv);
                 sv = sv\<lparr>sv_observatory := ob\<rparr>
             in if \<not> status_ok registration
                then (ack\<lparr>ha_accepted := False, ha_reason := st_reason registration, ha_detail := st_detail registration\<rparr>, sv)
                else (ack, sv))"

definition HandleHello ::
    "(u64 \<Rightarrow> string option) \<Rightarrow> (string \<Rightarrow> u64 option) \<Rightarrow> NdoTime \<Rightarrow> bytes \<Rightarrow> SessionContext \<Rightarrow> Socket \<Rightarrow> ObservationServer \<Rightarrow> handled" where
  "HandleHello tc fc now payload cx so sv =
     (case bindr (ParseJson fc (sv_limits sv) (text_of_bytes payload)) (DecodeHello (sv_limits sv)) of
        Inl status \<Rightarrow> let (_, so, sv) = SendError tc (st_reason status) (st_detail status) so sv in (status, cx, so, sv)
      | Inr hello \<Rightarrow>
          let (ack, sv) = settle_greeting hello now cx sv;
              (status, so, sv) = SendFrame tc FT_HelloAck 0 0 (EncodeHelloAck ack) so sv
          in if \<not> status_ok status then (status, cx, so, sv)
             else if \<not> ha_accepted ack
             then (Status_Rejected RC_WireHandshakeRejected (ha_detail ack), cx, so,
                   count_stat (\<lambda>k. k\<lparr>ss_sessions_refused := ss_sessions_refused k + 1\<rparr>) sv)
             else (Status_Ok,
                   cx\<lparr>cx_source := hp_source hello, cx_epoch := hp_epoch hello, cx_incarnation := hp_incarnation hello,
                      cx_sequence := hp_start_sequence hello, cx_handshaken := True\<rparr>, so, sv))"

text \<open>The transport's own refusal of a decoded snapshot, with what is counted for it.\<close>

definition session_refusal :: "SessionContext \<Rightarrow> ObservationSnapshot \<Rightarrow> (ReasonCode \<times> string \<times> bool) option" where
  "session_refusal cx s =
     (if sn_source s \<noteq> cx_source cx
      then Some (RC_AuthorityMismatch, ''the snapshot source differs from the handshaken source'', False)
      else if sn_incarnation s \<noteq> cx_incarnation cx \<or> sn_epoch s \<noteq> cx_epoch cx
      then Some (RC_FencedStaleIncarnation, ''the snapshot authority differs from the handshaken authority'', True)
      else None)"

definition count_refused :: "bool \<Rightarrow> ServerStats \<Rightarrow> ServerStats" where
  "count_refused stale k =
     (let k = k\<lparr>ss_snapshots_refused := ss_snapshots_refused k + 1\<rparr>
      in if stale then k\<lparr>ss_stale_fenced := ss_stale_fenced k + 1\<rparr> else k)"

definition admit_snapshot ::
    "(u64 \<Rightarrow> string option) \<Rightarrow> NdoTime \<Rightarrow> ObservationSnapshot \<Rightarrow> AckPayload \<Rightarrow> SessionContext \<Rightarrow> Socket \<Rightarrow> ObservationServer \<Rightarrow> handled" where
  "admit_snapshot tc now s ack cx so sv =
     (let (status, admission, ob) = IngestObservation s now (sv_observatory sv);
          sv = sv\<lparr>sv_observatory := ob\<rparr>;
          ack = ack\<lparr>ak_accepted := status_ok status, ak_reason := (if status_ok status then RC_None else st_reason status),
                    ak_detail := st_detail status, ak_snapshot := oa_snapshot admission\<rparr>;
          sv = count_stat (\<lambda>k. if status_ok status then k\<lparr>ss_snapshots_admitted := ss_snapshots_admitted k + 1\<rparr>
                              else k\<lparr>ss_snapshots_refused := ss_snapshots_refused k + 1\<rparr>) sv;
          (sent, so, sv) = SendFrame tc FT_SnapshotAck 0 0 (EncodeAck ack) so sv
      in (sent, cx, so, sv))"

definition HandleSnapshot ::
    "(u64 \<Rightarrow> string option) \<Rightarrow> (string \<Rightarrow> u64 option) \<Rightarrow> NdoTime \<Rightarrow> bytes \<Rightarrow> SessionContext \<Rightarrow> Socket \<Rightarrow> ObservationServer \<Rightarrow> handled" where
  "HandleSnapshot tc fc now payload cx so sv =
     (case bindr (ParseJson fc (sv_limits sv) (text_of_bytes payload)) (DecodeObservationDocument (sv_limits sv)) of
        Inl status \<Rightarrow>
          acknowledge_frame tc FT_SnapshotAck (blank_ack\<lparr>ak_reason := st_reason status, ak_detail := st_detail status\<rparr>)
            (count_refused False) cx so sv
      | Inr s \<Rightarrow>
          let ack = blank_ack\<lparr>ak_sequence := sn_sequence s, ak_snapshot := sn_snapshot_id s\<rparr>
          in case session_refusal cx s of
               Some (reason, detail, stale) \<Rightarrow>
                 acknowledge_frame tc FT_SnapshotAck (ack\<lparr>ak_reason := reason, ak_detail := detail\<rparr>) (count_refused stale) cx so sv
             | None \<Rightarrow>
                 let (fenced, fences) = FenceSnapshot (sn_source s) (sn_epoch s) (sn_incarnation s) (sn_sequence s)
                                          (Snapshot_ComputeContentDigest s) (sv_fences sv);
                     sv = sv\<lparr>sv_fences := fences\<rparr>
                 in case fenced of
                      Some reason \<Rightarrow>
                        acknowledge_frame tc FT_SnapshotAck
                          (ack\<lparr>ak_reason := reason, ak_detail := ''the snapshot was fenced by the transport authority''\<rparr>)
                          (count_refused True) cx so sv
                    | None \<Rightarrow> admit_snapshot tc now s ack cx so sv)"

definition HandleIntent ::
    "(u64 \<Rightarrow> string) \<Rightarrow> (u64 \<Rightarrow> string option) \<Rightarrow> (string \<Rightarrow> u64 option) \<Rightarrow> NdoTime \<Rightarrow> bytes \<Rightarrow> SessionContext \<Rightarrow> Socket \<Rightarrow>
     ObservationServer \<Rightarrow> handled" where
  "HandleIntent dt tc fc now payload cx so sv =
     (case bindr (ParseJson fc (sv_limits sv) (text_of_bytes payload)) (DecodeIntentDocument (sv_limits sv)) of
        Inl status \<Rightarrow>
          acknowledge_frame tc FT_IntentAck (blank_ack\<lparr>ak_reason := st_reason status, ak_detail := st_detail status\<rparr>) (\<lambda>k. k) cx so sv
      | Inr intent \<Rightarrow>
          let (status, _, ob) = PublishIntent dt intent now (sv_observatory sv);
              ack = blank_ack\<lparr>ak_generation := ig_generation intent, ak_accepted := status_ok status,
                              ak_reason := (if status_ok status then RC_None else st_reason status), ak_detail := st_detail status\<rparr>;
              sv = sv\<lparr>sv_observatory := ob\<rparr>;
              sv = (if status_ok status then count_stat (\<lambda>k. k\<lparr>ss_intents_admitted := ss_intents_admitted k + 1\<rparr>) sv else sv);
              (sent, so, sv) = SendFrame tc FT_IntentAck 0 0 (EncodeAck ack) so sv
          in (sent, cx, so, sv))"

definition heartbeat_document :: "u64 \<Rightarrow> Value" where
  "heartbeat_document session_id =
     V_Map (members_of [(''schema'', V_String ''ndo/heartbeat/1''), (''session_id'', MakeUint session_id)])"

definition HandleFrame ::
    "(u64 \<Rightarrow> string) \<Rightarrow> (u64 \<Rightarrow> string option) \<Rightarrow> (string \<Rightarrow> u64 option) \<Rightarrow> NdoTime \<Rightarrow> FrameHeader \<Rightarrow> bytes \<Rightarrow> SessionContext \<Rightarrow>
     Socket \<Rightarrow> ObservationServer \<Rightarrow> handled" where
  "HandleFrame dt tc fc now header payload cx so sv =
     (if \<not> cx_handshaken cx \<and> fh_type header \<noteq> FT_Hello
      then let (_, so, sv) = SendError tc RC_WireHandshakeRequired ''the session has not completed a handshake'' so sv
           in (Status_Rejected RC_WireHandshakeRequired ''handshake required'', cx, so, sv)
      else case fh_type header of
        FT_Hello \<Rightarrow> HandleHello tc fc now payload cx so sv
      | FT_Snapshot \<Rightarrow> HandleSnapshot tc fc now payload cx so sv
      | FT_Intent \<Rightarrow> HandleIntent dt tc fc now payload cx so sv
      | FT_Heartbeat \<Rightarrow>
          (let (sent, so, sv) = SendFrame tc FT_Heartbeat 0 (fh_sequence header) (heartbeat_document (cx_session_id cx)) so sv
           in (sent, cx, so, sv))
      | FT_Bye \<Rightarrow> (Status_Rejected RC_WireSessionClosed ''the peer closed the session'', cx, so, sv)
      | _ \<Rightarrow>
          (let (_, so, sv) = SendError tc RC_WireFrameTypeUnsupported ''the frame type is not accepted here'' so sv
           in (Status_Rejected RC_WireFrameTypeUnsupported ''unsupported frame type'', cx, so, sv)))"

section \<open>What a handler leaves alone\<close>

text \<open>
  Handling a frame reads nothing from the socket; the marks, the table of sessions and the observatory
  change only as stated.
\<close>

definition sends_only :: "Socket \<Rightarrow> Socket \<Rightarrow> bool" where
  "sends_only so so' \<longleftrightarrow> so_open so' = so_open so \<and> so_incoming so' = so_incoming so"

lemma sends_only_refl [simp]: "sends_only so so"
  by (simp add: sends_only_def)

definition stats_only :: "ObservationServer \<Rightarrow> ObservationServer \<Rightarrow> bool" where
  "stats_only sv sv' \<longleftrightarrow>
     sv_observatory sv' = sv_observatory sv \<and> sv_limits sv' = sv_limits sv \<and> sv_fences sv' = sv_fences sv \<and>
     sv_sessions sv' = sv_sessions sv \<and> sv_next_session_id sv' = sv_next_session_id sv \<and> sv_running sv' = sv_running sv \<and>
     sv_stop_requested sv' = sv_stop_requested sv"

lemma stats_only_refl [simp]: "stats_only sv sv"
  by (simp add: stats_only_def)

lemma count_stat_frame [simp]:
  "sv_observatory (count_stat f sv) = sv_observatory sv" "sv_limits (count_stat f sv) = sv_limits sv"
  "sv_fences (count_stat f sv) = sv_fences sv" "sv_sessions (count_stat f sv) = sv_sessions sv"
  "sv_next_session_id (count_stat f sv) = sv_next_session_id sv" "sv_running (count_stat f sv) = sv_running sv"
  "sv_stop_requested (count_stat f sv) = sv_stop_requested sv" "sv_stats (count_stat f sv) = f (sv_stats sv)"
  by (simp_all add: count_stat_def)

lemma SendFrame_frame: "SendFrame tc type flags sequence v so sv = (st, so', sv') \<Longrightarrow> sends_only so so' \<and> stats_only sv sv'"
  using SendAll_frame
  by (auto simp: SendFrame_def sends_only_def stats_only_def split: sum.splits prod.splits if_splits)

lemma SendError_frame: "SendError tc reason detail so sv = (st, so', sv') \<Longrightarrow> sends_only so so' \<and> stats_only sv sv'"
  by (simp add: SendError_def SendFrame_frame)

lemma acknowledge_frame_frame:
  "acknowledge_frame tc type ack c cx so sv = (st, cx', so', sv') \<Longrightarrow> status_ok st \<and> cx' = cx \<and> sends_only so so' \<and> stats_only sv sv'"
  by (auto simp: acknowledge_frame_def stats_only_def status_ok_def mk_status_def split: prod.splits dest!: SendFrame_frame)

text \<open>The calls into the engine a handler can make, one per frame at most.\<close>

definition serves :: "(u64 \<Rightarrow> string) \<Rightarrow> ObservationServer \<Rightarrow> ObservationServer \<Rightarrow> bool" where
  "serves dt sv sv' \<longleftrightarrow>
     (sv_observatory sv' = sv_observatory sv \<or> engine_call dt (sv_observatory sv) (sv_observatory sv')) \<and>
     sv_limits sv' = sv_limits sv \<and> sv_sessions sv' = sv_sessions sv \<and> sv_next_session_id sv' = sv_next_session_id sv"

lemma stats_only_serves: "stats_only sv sv' \<Longrightarrow> serves dt sv sv'"
  by (simp add: stats_only_def serves_def)

lemma serves_stats: "serves dt a b \<Longrightarrow> stats_only b c \<Longrightarrow> serves dt a c"
  by (simp add: stats_only_def serves_def)

lemma settle_greeting_serves:
  assumes "settle_greeting hello now cx sv = (ack, sv')"
  shows "serves dt sv sv' \<and> sv_fences sv' = snd (snd (greet_fence hello (sv_fences sv))) \<and>
    (ha_accepted ack \<longrightarrow> fst (greet_fence hello (sv_fences sv)) = None)"
proof -
  obtain refusal counted fences where g: "greet_fence hello (sv_fences sv) = (refusal, counted, fences)" by (metis prod_cases3)
  obtain st ob where r: "RegisterSource (greeting_descriptor hello now) (sv_observatory sv) = (st, ob)" by fastforce
  have "engine_call dt (sv_observatory sv) ob" using r by (rule register)
  then show ?thesis
    using assms g r by (auto simp: settle_greeting_def serves_def Let_def split: option.splits prod.splits if_splits)
qed

lemma HandleHello_frame:
  assumes "HandleHello tc fc now payload cx so sv = (st, cx', so', sv')"
  shows "sends_only so so' \<and> serves dt sv sv' \<and> cx_session_id cx' = cx_session_id cx"
proof (cases "bindr (ParseJson fc (sv_limits sv) (text_of_bytes payload)) (DecodeHello (sv_limits sv))")
  case (Inl status)
  then show ?thesis
    using assms by (auto simp: HandleHello_def split: prod.splits dest!: SendError_frame intro: stats_only_serves)
next
  case (Inr hello)
  obtain ack sv1 where g: "settle_greeting hello now cx sv = (ack, sv1)" by fastforce
  obtain st1 so1 sv2 where f: "SendFrame tc FT_HelloAck 0 0 (EncodeHelloAck ack) so sv1 = (st1, so1, sv2)" by (metis prod_cases3)
  have "serves dt sv sv2" using settle_greeting_serves [OF g] SendFrame_frame [OF f] serves_stats by blast
  then show ?thesis
    using assms Inr g f SendFrame_frame [OF f] by (auto simp: HandleHello_def serves_def split: if_splits)
qed

lemma admit_snapshot_frame:
  assumes "admit_snapshot tc now s ack cx so sv = (st, cx', so', sv')"
  shows "sends_only so so' \<and> serves dt sv sv' \<and> cx' = cx \<and> sv_fences sv' = sv_fences sv"
proof -
  obtain ist adm ob where i: "IngestObservation s now (sv_observatory sv) = (ist, adm, ob)" by (metis prod_cases3)
  then have "engine_call dt (sv_observatory sv) ob" by (rule ingest)
  then show ?thesis
    using assms i by (auto simp: admit_snapshot_def Let_def serves_def stats_only_def split: prod.splits dest!: SendFrame_frame)
qed

lemma HandleSnapshot_frame:
  assumes "HandleSnapshot tc fc now payload cx so sv = (st, cx', so', sv')"
  shows "sends_only so so' \<and> serves dt sv sv' \<and> cx' = cx"
proof (cases "bindr (ParseJson fc (sv_limits sv) (text_of_bytes payload)) (DecodeObservationDocument (sv_limits sv))")
  case (Inl status)
  then show ?thesis
    using assms by (auto simp: HandleSnapshot_def dest!: acknowledge_frame_frame intro: stats_only_serves)
next
  case (Inr s)
  show ?thesis
  proof (cases "session_refusal cx s")
    case (Some x)
    then show ?thesis
      using assms Inr
      by (cases x) (auto simp: HandleSnapshot_def Let_def dest!: acknowledge_frame_frame intro: stats_only_serves)
  next
    case None
    obtain fenced fences where f: "FenceSnapshot (sn_source s) (sn_epoch s) (sn_incarnation s) (sn_sequence s)
        (Snapshot_ComputeContentDigest s) (sv_fences sv) = (fenced, fences)" by fastforce
    let ?sv = "sv\<lparr>sv_fences := fences\<rparr>"
    have same: "serves dt sv x" if "serves dt ?sv x" for x using that by (simp add: serves_def)
    show ?thesis
    proof (cases fenced)
      case fenced: None
      then have "admit_snapshot tc now s (blank_ack\<lparr>ak_sequence := sn_sequence s, ak_snapshot := sn_snapshot_id s\<rparr>) cx so ?sv = (st, cx', so', sv')"
        using assms Inr None f by (simp add: HandleSnapshot_def Let_def)
      from admit_snapshot_frame [OF this] same show ?thesis by blast
    next
      case (Some reason)
      then show ?thesis
        using assms Inr None f same
        by (auto simp: HandleSnapshot_def Let_def dest!: acknowledge_frame_frame intro: stats_only_serves)
    qed
  qed
qed

lemma HandleIntent_frame:
  assumes "HandleIntent dt tc fc now payload cx so sv = (st, cx', so', sv')"
  shows "sends_only so so' \<and> serves dt sv sv' \<and> cx' = cx"
proof (cases "bindr (ParseJson fc (sv_limits sv) (text_of_bytes payload)) (DecodeIntentDocument (sv_limits sv))")
  case (Inl status)
  then show ?thesis
    using assms by (auto simp: HandleIntent_def dest!: acknowledge_frame_frame intro: stats_only_serves)
next
  case (Inr d)
  obtain ist rep ob where i: "PublishIntent dt d now (sv_observatory sv) = (ist, rep, ob)" by (metis prod_cases3)
  then have "engine_call dt (sv_observatory sv) ob" by (rule intent)
  then show ?thesis
    using assms Inr i
    by (cases "status_ok ist") (auto simp: HandleIntent_def Let_def serves_def stats_only_def split: prod.splits dest!: SendFrame_frame)
qed

lemma HandleFrame_frame:
  assumes "HandleFrame dt tc fc now header payload cx so sv = (st, cx', so', sv')"
  shows "sends_only so so' \<and> serves dt sv sv' \<and> cx_session_id cx' = cx_session_id cx"
  using assms
  by (auto simp: HandleFrame_def stats_only_serves split: if_splits FrameType.splits prod.splits
      dest!: SendError_frame SendFrame_frame HandleHello_frame [where dt = dt] HandleSnapshot_frame [where dt = dt] HandleIntent_frame)

section \<open>The session loop\<close>

text \<open>A frame that could not be read: the peer is told why, unless it has closed the session.\<close>

definition refuse_read :: "(u64 \<Rightarrow> string option) \<Rightarrow> Status \<Rightarrow> Socket \<Rightarrow> ObservationServer \<Rightarrow> Socket \<times> ObservationServer" where
  "refuse_read tc status so sv =
     (if st_reason status = RC_WireSessionClosed then (so, sv)
      else
        let sv = (if st_reason status = RC_WireSessionIdleExpired \<or> st_reason status = RC_WireFrameTruncated
                  then count_stat (\<lambda>k. k\<lparr>ss_idle_expired := ss_idle_expired k + 1\<rparr>) sv else sv);
            sv = count_stat (\<lambda>k. k\<lparr>ss_frames_refused := ss_frames_refused k + 1\<rparr>) sv;
            (_, so, sv) = SendError tc (st_reason status) (st_detail status) so sv
        in (so, sv))"

text \<open>One iteration; the flag says whether the loop goes on.\<close>

definition session_step ::
    "(u64 \<Rightarrow> string) \<Rightarrow> (u64 \<Rightarrow> string option) \<Rightarrow> (string \<Rightarrow> u64 option) \<Rightarrow> NdoTime \<Rightarrow> SessionContext \<Rightarrow> Socket \<Rightarrow> ObservationServer \<Rightarrow>
     bool \<times> SessionContext \<times> Socket \<times> ObservationServer" where
  "session_step dt tc fc now cx so sv =
     (case ReadFrame_server (sv_limits sv) so of
        (Inl status, so) \<Rightarrow> (let (so, sv) = refuse_read tc status so sv in (False, cx, so, sv))
      | (Inr (header, payload), so) \<Rightarrow>
          let sv = count_stat (\<lambda>k. k\<lparr>ss_frames_received := ss_frames_received k + 1\<rparr>) sv;
              (status, cx, so, sv) = HandleFrame dt tc fc now header payload cx so sv
          in (status_ok status \<and> fh_flags header AND FrameFlags_Final = 0, cx, so, sv))"

lemma session_step_serves:
  assumes "session_step dt tc fc now cx so sv = (go, cx', so', sv')"
  shows "serves dt sv sv'"
proof (cases "ReadFrame_server (sv_limits sv) so")
  case (Pair r so1)
  show ?thesis
  proof (cases r)
    case (Inl status)
    then show ?thesis
      using assms Pair
      by (auto simp: session_step_def refuse_read_def Let_def stats_only_def serves_def split: prod.splits if_splits dest!: SendError_frame)
  next
    case (Inr frame)
    then show ?thesis
      using assms Pair
      by (cases frame) (auto simp: session_step_def Let_def serves_def split: prod.splits dest!: HandleFrame_frame)
  qed
qed

lemma session_step_consumes:
  assumes "session_step dt tc fc now cx so sv = (True, cx', so', sv')"
  shows "pending (so_incoming so') + kFrameHeaderBytes \<le> pending (so_incoming so)"
proof -
  obtain frame so1 where r: "ReadFrame_server (sv_limits sv) so = (Inr frame, so1)"
    using assms by (auto simp: session_step_def split: sum.splits prod.splits)
  then have "sends_only so1 so'"
    using assms by (cases frame) (auto simp: session_step_def Let_def split: prod.splits dest!: HandleFrame_frame)
  then show ?thesis using ReadFrame_server_receives [OF r] by (simp add: receives_def sends_only_def)
qed

text \<open>
  The loop.  \<open>stop\<close> is what the n-th look at the stop flag finds and \<open>clock\<close> the n-th reading of the clock.  Every
  iteration that goes on has taken a header from the socket, so the loop ends.
\<close>

function SessionLoop ::
    "(u64 \<Rightarrow> string) \<Rightarrow> (u64 \<Rightarrow> string option) \<Rightarrow> (string \<Rightarrow> u64 option) \<Rightarrow> (nat \<Rightarrow> bool) \<Rightarrow> (nat \<Rightarrow> NdoTime) \<Rightarrow> nat \<Rightarrow> SessionContext \<Rightarrow>
     Socket \<Rightarrow> ObservationServer \<Rightarrow> nat \<times> SessionContext \<times> Socket \<times> ObservationServer" where
  "SessionLoop dt tc fc stop clock n cx so sv =
     (if stop n then (n, cx, so, sv)
      else case session_step dt tc fc (clock n) cx so sv of
             (go, cx', so', sv') \<Rightarrow>
               if go then SessionLoop dt tc fc stop clock (Suc n) cx' so' sv' else (n, cx', so', sv'))"
  by pat_completeness auto
termination
  by (relation "measure (\<lambda>(_, _, _, _, _, _, _, so, _). pending (so_incoming so))")
    (auto simp: kFrameHeaderBytes_def dest!: session_step_consumes [OF sym])

declare SessionLoop.simps [simp del]

text \<open>
  One session on the calling thread.  \<open>binding\<close> is what the initialization of the network and the binding of the
  listener give, should they be needed, and \<open>incoming\<close> what the listener's accept call returns.
\<close>

definition bind_listener :: "u16 Result \<Rightarrow> ObservationServer \<Rightarrow> Status \<times> ObservationServer" where
  "bind_listener binding sv =
     (case binding of
        Inl status \<Rightarrow> (status, sv)
      | Inr port \<Rightarrow> (Status_Ok, sv\<lparr>sv_listening := True, sv_bound_port := port\<rparr>))"

definition ServeSingleSession ::
    "(u64 \<Rightarrow> string) \<Rightarrow> (u64 \<Rightarrow> string option) \<Rightarrow> (string \<Rightarrow> u64 option) \<Rightarrow> (nat \<Rightarrow> bool) \<Rightarrow> (nat \<Rightarrow> NdoTime) \<Rightarrow> u16 Result \<Rightarrow>
     Socket Result \<Rightarrow> ObservationServer \<Rightarrow> Status \<times> Socket option \<times> ObservationServer" where
  "ServeSingleSession dt tc fc stop clock binding incoming sv =
     (let (bound, sv) = (if sv_listening sv then (Status_Ok, sv) else bind_listener binding sv)
      in if \<not> status_ok bound then (bound, None, sv)
         else case incoming of
           Inl status \<Rightarrow> (status, None, sv)
         | Inr so \<Rightarrow>
             let sv = count_stat (\<lambda>k. k\<lparr>ss_sessions_accepted := ss_sessions_accepted k + 1\<rparr>) sv;
                 session_id = sv_next_session_id sv;
                 sv = sv\<lparr>sv_next_session_id := session_id + 1\<rparr>;
                 (_, _, so, sv) = SessionLoop dt tc fc stop clock 0 (new_context session_id) so sv
             in (Status_Ok, Some (Socket_Close so), count_stat (\<lambda>k. k\<lparr>ss_sessions_closed := ss_sessions_closed k + 1\<rparr>) sv))"

section \<open>The table of sessions\<close>

definition ReapFinishedSessions :: "ObservationServer \<Rightarrow> ObservationServer" where
  "ReapFinishedSessions sv = sv\<lparr>sv_sessions := filter (\<lambda>e. \<not> snd e) (sv_sessions sv)\<rparr>"

fun drain :: "nat \<Rightarrow> Socket \<Rightarrow> Socket" where
  "drain 0 so = so"
| "drain (Suc n) so = (case ReceiveSome 512 so of (Inl _, so) \<Rightarrow> so | (Inr b, so) \<Rightarrow> if b = [] then so else drain n so)"

text \<open>The refusal of a connection over the limit: one error frame, then the greeting is drained and the socket closed.\<close>

definition refuse_connection :: "(u64 \<Rightarrow> string option) \<Rightarrow> RuntimeLimits \<Rightarrow> Socket \<Rightarrow> Socket" where
  "refuse_connection tc limits so =
     (let so = (case EncodeFrame FT_ErrorFrame 0 0
                  (WriteCanonicalJson tc (EncodeError RC_WireSessionLimitExceeded ''the server is at its session limit'')) limits of
                  Inl _ \<Rightarrow> so
                | Inr frame \<Rightarrow> snd (SendAll frame so))
      in Socket_Close (drain 8 so))"

text \<open>One incoming connection: the table decides, then the counters are updated.\<close>

definition accept_connection ::
    "(u64 \<Rightarrow> string option) \<Rightarrow> Socket \<Rightarrow> ObservationServer \<Rightarrow> u64 option \<times> Socket \<times> ObservationServer" where
  "accept_connection tc so sv =
     (let sv = ReapFinishedSessions sv;
          session_id = sv_next_session_id sv;
          sv = sv\<lparr>sv_next_session_id := session_id + 1\<rparr>
      in if length (sv_sessions sv) \<ge> max_sessions (sv_limits sv)
         then (None, refuse_connection tc (sv_limits sv) so,
               count_stat (\<lambda>k. k\<lparr>ss_sessions_refused := ss_sessions_refused k + 1\<rparr>) sv)
         else (Some session_id, so,
               count_stat (\<lambda>k. let k = k\<lparr>ss_sessions_accepted := ss_sessions_accepted k + 1\<rparr>
                              in if ss_active_sessions k + 1 > ss_high_water_sessions k
                                 then k\<lparr>ss_high_water_sessions := ss_active_sessions k + 1\<rparr> else k)
                 (sv\<lparr>sv_sessions := map_emplace session_id False (sv_sessions sv)\<rparr>)))"

text \<open>
  The accept loop, driven by a script: what each look at the stop flag finds, what each accept call returns
  and what the second look at the flag after a failed accept finds.  It yields the sessions it starts.
\<close>

primrec AcceptLoop ::
    "(u64 \<Rightarrow> string option) \<Rightarrow> (bool \<times> Socket Result \<times> bool) list \<Rightarrow> ObservationServer \<Rightarrow> (u64 \<times> Socket) list \<times> ObservationServer" where
  "AcceptLoop tc [] sv = ([], sv)"
| "AcceptLoop tc (x # script) sv =
     (case x of
        (stop, incoming, stop_after) \<Rightarrow>
          if stop then ([], sv)
          else case incoming of
            Inl _ \<Rightarrow> if stop_after then ([], sv) else AcceptLoop tc script sv
          | Inr so \<Rightarrow>
              let (started, so, sv) = accept_connection tc so sv;
                  (sessions, sv) = AcceptLoop tc script sv
              in (case started of None \<Rightarrow> sessions | Some session_id \<Rightarrow> (session_id, so) # sessions, sv))"

text \<open>The end of a session's thread.\<close>

definition finish_session :: "u64 \<Rightarrow> ObservationServer \<Rightarrow> ObservationServer" where
  "finish_session session_id sv =
     count_stat (\<lambda>k. k\<lparr>ss_sessions_closed := ss_sessions_closed k + 1\<rparr>)
       (sv\<lparr>sv_sessions := map (\<lambda>e. if fst e = session_id then (fst e, True) else e) (sv_sessions sv)\<rparr>)"

definition Server_Stop :: "ObservationServer \<Rightarrow> Status \<times> ObservationServer" where
  "Server_Stop sv =
     (if \<not> sv_running sv \<and> \<not> sv_accept_thread sv then (Status_Ok, sv)
      else (Status_Ok,
            count_stat (\<lambda>k. k\<lparr>ss_active_sessions := 0\<rparr>)
              (sv\<lparr>sv_stop_requested := True, sv_running := False, sv_listening := False, sv_accept_thread := False, sv_sessions := []\<rparr>)))"

definition Server_Start :: "u16 Result \<Rightarrow> ObservationServer \<Rightarrow> Status \<times> ObservationServer" where
  "Server_Start binding sv =
     (if sv_running sv then (Status_Precondition RC_None ''the server is already running'', sv)
      else let (bound, sv) = bind_listener binding sv
           in if \<not> status_ok bound then (bound, sv)
              else if sv_bound_port sv = 0
              then (Status_Rejected RC_WireSessionClosed ''the listener did not report a port'', sv\<lparr>sv_listening := False\<rparr>)
              else (Status_Ok, sv\<lparr>sv_stop_requested := False, sv_running := True, sv_accept_thread := True\<rparr>))"

definition Server_Stats :: "ObservationServer \<Rightarrow> ServerStats \<times> ObservationServer" where
  "Server_Stats sv =
     (let sv = ReapFinishedSessions sv in ((sv_stats sv)\<lparr>ss_active_sessions := of_nat (length (sv_sessions sv))\<rparr>, sv))"

end
