(* ===== verification/NDO_Server_Safety.thy ===== *)
theory NDO_Server_Safety
  imports NDO_Server
begin

text \<open>
  What the server guarantees whatever its peers send and however its sessions interleave: the engine's
  invariant, the bound on sessions, fences that only move forward, sessions that publish only for the
  source they greeted as, and sessions that end.
\<close>

section \<open>Fences move forward\<close>

definition fence_mark :: "SourceFence \<Rightarrow> u64 \<times> u64 \<times> u64" where
  "fence_mark f = (sf_epoch f, sf_incarnation f, sf_sequence f)"

definition fences_ok :: "fences \<Rightarrow> bool" where
  "fences_ok fences \<longleftrightarrow> keys_ascending fences \<and> list_all (\<lambda>(k, f). sf_source f = k \<and> k \<noteq> []) fences"

text \<open>\<open>advances f f'\<close>: the mark has not moved back, and a mark that stayed still stands for the same content.\<close>

definition advances :: "SourceFence \<Rightarrow> SourceFence \<Rightarrow> bool" where
  "advances f f' \<longleftrightarrow>
     fence_mark f \<le> fence_mark f' \<and>
     (fence_mark f' = fence_mark f \<and> uint_is_set (sf_sequence f) \<longrightarrow> sf_content_digest f' = sf_content_digest f)"

lemma advances_refl [simp]: "advances f f"
  by (simp add: advances_def)

lemma advances_trans:
  assumes "advances a b" "advances b c"
  shows "advances a c"
proof -
  have le: "fence_mark a \<le> fence_mark b" "fence_mark b \<le> fence_mark c" using assms by (simp_all add: advances_def)
  have "sf_content_digest c = sf_content_digest a" if same: "fence_mark c = fence_mark a" and set: "uint_is_set (sf_sequence a)"
  proof -
    have b: "fence_mark b = fence_mark a" using le same by (simp add: antisym)
    then have "sf_sequence b = sf_sequence a" by (simp add: fence_mark_def)
    then show ?thesis using assms b same set by (simp add: advances_def)
  qed
  then show ?thesis using order_trans [OF le] by (simp add: advances_def)
qed

inductive fence_step :: "fences \<Rightarrow> fences \<Rightarrow> bool" where
  greeted: "greet_fence hello fences = (refusal, counted, fences') \<Longrightarrow> hp_source hello \<noteq> [] \<Longrightarrow> fence_step fences fences'"
| offered: "FenceSnapshot source e i s d fences = (refusal, fences') \<Longrightarrow> source \<noteq> [] \<Longrightarrow> fence_step fences fences'"

lemma fences_ok_put: "fences_ok fences \<Longrightarrow> sf_source f = k \<Longrightarrow> k \<noteq> [] \<Longrightarrow> fences_ok (map_put k f fences)"
  by (simp add: fences_ok_def keys_ascending_map_put list_all_map_put)

lemma fences_ok_found: "fences_ok fences \<Longrightarrow> map_of fences k = Some f \<Longrightarrow> sf_source f = k \<and> k \<noteq> []"
  by (auto simp: fences_ok_def dest: list_all_map_of)

lemma FenceSnapshot_admits:
  assumes "FenceSnapshot source e i s d fences = (None, fences')" "fences_ok fences" "source \<noteq> []"
  shows "\<exists>f'. map_of fences' source = Some f' \<and> fence_mark f' = (e, i, s) \<and> sf_content_digest f' = d \<and>
    advances (fence_of source fences) f'"
  using assms fences_ok_found [OF assms(2), of source]
  by (cases "map_of fences source")
    (auto simp: FenceSnapshot_def Let_def fence_of_def blank_fence_def fence_mark_def advances_def uint_is_set_def
      map_of_map_put split: if_splits)

lemma FenceSnapshot_ok:
  assumes "FenceSnapshot source e i s d fences = (r, fences')" "fences_ok fences" "source \<noteq> []"
  shows "fences_ok fences' \<and> (fences' = fences \<or> r = None \<and> (\<exists>f'. fences' = map_put source f' fences))"
  using assms fences_ok_found [OF assms(2), of source]
  by (cases "map_of fences source")
    (auto simp: FenceSnapshot_def Let_def fence_of_def blank_fence_def split: if_splits intro!: fences_ok_put)

lemma greet_fence_ok:
  assumes "greet_fence hello fences = (r, counted, fences')" "fences_ok fences" "hp_source hello \<noteq> []"
  shows "fences_ok fences' \<and>
    (fences' = fences \<or>
     (\<exists>f'. fences' = map_put (hp_source hello) f' fences \<and> advances (fence_of (hp_source hello) fences) f'))"
  using assms fences_ok_found [OF assms(2), of "hp_source hello"]
  by (cases "map_of fences (hp_source hello)")
    (auto simp: greet_fence_def Let_def fence_of_def blank_fence_def advances_def fence_mark_def uint_is_set_def
      split: if_splits intro!: fences_ok_put)

lemma fence_step_ok: "fence_step fences fences' \<Longrightarrow> fences_ok fences \<Longrightarrow> fences_ok fences'"
  by (cases rule: fence_step.cases) (auto dest: FenceSnapshot_ok greet_fence_ok)

lemma fence_step_advances:
  assumes "fence_step fences fences'" "fences_ok fences" "map_of fences source = Some f"
  shows "\<exists>f'. map_of fences' source = Some f' \<and> advances f f'"
  using assms(1)
proof cases
  case (greeted hello refusal counted)
  from greet_fence_ok [OF greeted(1) assms(2) greeted(2)] show ?thesis
    using assms(2,3) by (auto simp: fence_of_def map_of_map_put split: option.splits)
next
  case (offered key e i s d refusal)
  from FenceSnapshot_ok [OF offered(1) assms(2) offered(2)] show ?thesis
  proof (elim conjE disjE exE)
    fix f'
    assume put: "fences' = map_put key f' fences" and "refusal = None"
    with FenceSnapshot_admits [OF _ assms(2) offered(2)] offered(1) have "advances (fence_of key fences) f'"
      using assms(2) by (fastforce simp: map_of_map_put)
    with put assms(2,3) show ?thesis by (auto simp: fence_of_def map_of_map_put split: option.splits)
  qed (use assms(3) in auto)
qed

section \<open>Everything a server does\<close>

text \<open>
  One step of any session, with any socket and context, of the accept loop, of a session's end, of the
  owner of the server, or of another user of the observatory.
\<close>

inductive server_step ::
    "(u64 \<Rightarrow> string) \<Rightarrow> (u64 \<Rightarrow> string option) \<Rightarrow> (string \<Rightarrow> u64 option) \<Rightarrow> ObservationServer \<Rightarrow> ObservationServer \<Rightarrow> bool"
  for dt tc fc where
  session: "session_step dt tc fc now cx so sv = (go, cx', so', sv') \<Longrightarrow> server_step dt tc fc sv sv'"
| accept: "accept_connection tc so sv = (r, so', sv') \<Longrightarrow> server_step dt tc fc sv sv'"
| finish: "finish_session session_id sv = sv' \<Longrightarrow> server_step dt tc fc sv sv'"
| started: "Server_Start binding sv = (st, sv') \<Longrightarrow> server_step dt tc fc sv sv'"
| stopped: "Server_Stop sv = (st, sv') \<Longrightarrow> server_step dt tc fc sv sv'"
| watched: "Server_Stats sv = (k, sv') \<Longrightarrow> server_step dt tc fc sv sv'"
| engine: "engine_call dt (sv_observatory sv) ob \<Longrightarrow> server_step dt tc fc sv (sv\<lparr>sv_observatory := ob\<rparr>)"

lemma StringId_nonempty: "IsValidIdentityText s \<Longrightarrow> s \<noteq> []"
  by (auto simp: IsValidIdentityText_def)

lemma DecodeHello_source: "DecodeHello limits v = Inr hello \<Longrightarrow> hp_source hello \<noteq> []"
  by (auto simp: DecodeHello_def decoding split: option.splits if_splits dest: StringId_nonempty)

lemma decoded_snapshot: "DecodeObservationDocument limits v = Inr s \<Longrightarrow> observation_formed limits s"
  using DecodeObservationDocument_sound by blast

lemma snapshot_source_nonempty: "observation_formed limits s \<Longrightarrow> sn_source s \<noteq> [] \<and> uint_is_set (sn_sequence s)"
  by (auto simp: observation_formed_def Snapshot_Validate_def dest: StringId_nonempty split: if_splits)

text \<open>Handling a frame moves the marks by the greeting or the snapshot in it, or not at all.\<close>

lemma HandleHello_fences:
  assumes "HandleHello tc fc now payload cx so sv = (st, cx', so', sv')"
  shows "fence_step\<^sup>=\<^sup>= (sv_fences sv) (sv_fences sv')"
proof (cases "bindr (ParseJson fc (sv_limits sv) (text_of_bytes payload)) (DecodeHello (sv_limits sv))")
  case (Inl status)
  then show ?thesis using assms by (auto simp: HandleHello_def stats_only_def split: prod.splits dest!: SendError_frame)
next
  case (Inr hello)
  obtain ack sv1 where g: "settle_greeting hello now cx sv = (ack, sv1)" by fastforce
  have "hp_source hello \<noteq> []" using Inr by (auto simp: bindr_Inr_iff dest: DecodeHello_source)
  then have "fence_step (sv_fences sv) (sv_fences sv1)"
    using settle_greeting_serves [OF g] greeted by (metis prod.exhaust_sel)
  moreover have "sv_fences sv' = sv_fences sv1"
    using assms Inr g by (auto simp: HandleHello_def stats_only_def split: prod.splits if_splits dest!: SendFrame_frame)
  ultimately show ?thesis by simp
qed

lemma HandleSnapshot_fences:
  assumes "HandleSnapshot tc fc now payload cx so sv = (st, cx', so', sv')"
  shows "fence_step\<^sup>=\<^sup>= (sv_fences sv) (sv_fences sv')"
proof (cases "bindr (ParseJson fc (sv_limits sv) (text_of_bytes payload)) (DecodeObservationDocument (sv_limits sv))")
  case (Inl status)
  then show ?thesis using assms by (auto simp: HandleSnapshot_def stats_only_def dest!: acknowledge_frame_frame)
next
  case (Inr s)
  show ?thesis
  proof (cases "session_refusal cx s")
    case (Some x)
    then show ?thesis using assms Inr by (cases x) (auto simp: HandleSnapshot_def Let_def stats_only_def dest!: acknowledge_frame_frame)
  next
    case None
    obtain fenced fences where f: "FenceSnapshot (sn_source s) (sn_epoch s) (sn_incarnation s) (sn_sequence s)
        (Snapshot_ComputeContentDigest s) (sv_fences sv) = (fenced, fences)" by fastforce
    have "sn_source s \<noteq> []" using Inr by (auto simp: bindr_Inr_iff dest!: decoded_snapshot snapshot_source_nonempty)
    with f have "fence_step (sv_fences sv) fences" by (rule offered)
    moreover have "sv_fences sv' = fences"
      using assms Inr None f
      by (cases fenced) (auto simp: HandleSnapshot_def Let_def stats_only_def dest!: acknowledge_frame_frame admit_snapshot_frame)
    ultimately show ?thesis by simp
  qed
qed

lemma HandleIntent_fences: "HandleIntent dt tc fc now payload cx so sv = (st, cx', so', sv') \<Longrightarrow> sv_fences sv' = sv_fences sv"
  by (auto simp: HandleIntent_def Let_def stats_only_def split: sum.splits prod.splits if_splits
      dest!: acknowledge_frame_frame SendFrame_frame)

lemma session_step_fences:
  assumes "session_step dt tc fc now cx so sv = (go, cx', so', sv')"
  shows "fence_step\<^sup>=\<^sup>= (sv_fences sv) (sv_fences sv')"
proof (cases "ReadFrame_server (sv_limits sv) so")
  case (Pair r so1)
  show ?thesis
  proof (cases r)
    case (Inl status)
    then show ?thesis
      using assms Pair
      by (auto simp: session_step_def refuse_read_def Let_def stats_only_def split: prod.splits if_splits dest!: SendError_frame)
  next
    case (Inr frame)
    let ?sv = "count_stat (\<lambda>k. k\<lparr>ss_frames_received := ss_frames_received k + 1\<rparr>) sv"
    obtain st where h: "HandleFrame dt tc fc now (fst frame) (snd frame) cx so1 ?sv = (st, cx', so', sv')"
      using assms Pair Inr by (cases frame) (auto simp: session_step_def Let_def split: prod.splits)
    have "fence_step\<^sup>=\<^sup>= (sv_fences ?sv) (sv_fences sv')"
      using h unfolding HandleFrame_def
      by (auto simp: stats_only_def HandleIntent_fences split: if_splits FrameType.splits prod.splits
          dest!: SendError_frame SendFrame_frame dest: HandleHello_fences HandleSnapshot_fences)
    then show ?thesis by simp
  qed
qed

lemma server_step_fences:
  assumes "server_step dt tc fc sv sv'"
  shows "fence_step\<^sup>=\<^sup>= (sv_fences sv) (sv_fences sv')"
  using assms
proof cases
  case (session now cx so go cx' so')
  then show ?thesis by (rule session_step_fences)
qed (auto simp: accept_connection_def finish_session_def Server_Start_def bind_listener_def Server_Stop_def Server_Stats_def ReapFinishedSessions_def Let_def
    split: if_splits sum.splits)

lemma server_step_engine:
  assumes "server_step dt tc fc sv sv'" "engine_ok gapless (sv_observatory sv)"
  shows "engine_ok gapless (sv_observatory sv')"
  using assms(1)
proof cases
  case (session now cx so go cx' so')
  from session_step_serves [OF this] show ?thesis using assms(2) engine_call_ok by (auto simp: serves_def)
next
  case (engine ob)
  then show ?thesis using assms(2) engine_call_ok by simp
qed (use assms(2) in \<open>auto simp: accept_connection_def finish_session_def Server_Start_def bind_listener_def Server_Stop_def Server_Stats_def
      ReapFinishedSessions_def Let_def split: if_splits sum.splits\<close>)

text \<open>The table of sessions stays within the limit and the session counter only names sessions it has given out.\<close>

lemma length_map_emplace: "length (map_emplace k v m) \<le> Suc (length m)"
  by (induction m) (auto simp: map_emplace_def length_map_put)

lemma server_step_sessions:
  assumes "server_step dt tc fc sv sv'" "length (sv_sessions sv) \<le> max_sessions (sv_limits sv)"
  shows "length (sv_sessions sv') \<le> max_sessions (sv_limits sv') \<and> sv_limits sv' = sv_limits sv"
  using assms(1)
proof cases
  case (session now cx so go cx' so')
  from session_step_serves [OF this] show ?thesis using assms(2) by (simp add: serves_def)
next
  case (accept so r so')
  let ?live = "filter (\<lambda>e. \<not> snd e) (sv_sessions sv)"
  let ?limit = "max_sessions (sv_limits sv)"
  have live: "length ?live \<le> ?limit" using assms(2) length_filter_le order_trans by blast
  have "length (map_emplace i False ?live) \<le> ?limit" if "length ?live < ?limit" for i
    using length_map_emplace [of i False ?live] that by linarith
  then show ?thesis using accept live
    by (cases "length ?live < ?limit") (auto simp: accept_connection_def ReapFinishedSessions_def Let_def)
next
  case (watched k)
  then show ?thesis using assms(2) length_filter_le [of "\<lambda>e. \<not> snd e" "sv_sessions sv"]
    by (auto simp: Server_Stats_def ReapFinishedSessions_def Let_def simp del: length_filter_le)
qed (use assms(2) in \<open>auto simp: finish_session_def Server_Start_def bind_listener_def Server_Stop_def Let_def split: if_splits sum.splits\<close>)

lemma server_steps_fences:
  assumes "(server_step dt tc fc)\<^sup>*\<^sup>* sv sv'" "fences_ok (sv_fences sv)"
  shows "fences_ok (sv_fences sv') \<and>
    (\<forall>source f. map_of (sv_fences sv) source = Some f \<longrightarrow> (\<exists>f'. map_of (sv_fences sv') source = Some f' \<and> advances f f'))"
  using assms
proof (induction rule: rtranclp_induct)
  case (step sv1 sv2)
  note ok = step.IH [OF step.prems]
  from server_step_fences [OF step.hyps(2)] consider "sv_fences sv2 = sv_fences sv1" | "fence_step (sv_fences sv1) (sv_fences sv2)" by auto
  then show ?case
  proof cases
    case 2
    then have "fences_ok (sv_fences sv2)" using fence_step_ok ok by blast
    moreover have "\<exists>f'. map_of (sv_fences sv2) source = Some f' \<and> advances f f'" if found: "map_of (sv_fences sv) source = Some f" for source f
    proof -
      obtain g where "map_of (sv_fences sv1) source = Some g" "advances f g" using ok found by blast
      then show ?thesis using fence_step_advances [OF 2] ok advances_trans by blast
    qed
    ultimately show ?thesis by blast
  qed (use ok in simp)
qed (auto intro: advances_refl)

section \<open>Properties\<close>

text \<open>
  C12. Nothing a peer sends can break the observatory.  Whatever frames arrive on whatever sockets, and
  however sessions, connections and other users of the observatory interleave, the engine's invariant
  holds, no more sessions are open than the envelope allows, and every fence is filed under its source.
\<close>

theorem server_invariant:
  assumes "engine_ok True ob" and "(server_step dt tc fc)\<^sup>*\<^sup>* (ObservationServer_new ob limits) sv"
  shows "engine_ok True (sv_observatory sv) \<and> length (sv_sessions sv) \<le> max_sessions limits \<and> sv_limits sv = limits \<and>
    fences_ok (sv_fences sv)"
proof -
  have "engine_ok True (sv_observatory sv) \<and> length (sv_sessions sv) \<le> max_sessions (sv_limits sv) \<and> sv_limits sv = limits"
    using assms(2)
  proof (induction rule: rtranclp_induct)
    case base
    then show ?case using assms(1) by (simp add: ObservationServer_new_def)
  next
    case (step sv1 sv2)
    then show ?case using server_step_engine server_step_sessions by metis
  qed
  moreover have "fences_ok (sv_fences sv)"
    using server_steps_fences [OF assms(2)] by (simp add: ObservationServer_new_def fences_ok_def keys_ascending_def)
  ultimately show ?thesis by auto
qed

definition example_server :: ObservationServer where
  "example_server = ObservationServer_new (Observatory_new (example_config 2)) default_limits"

definition example_socket :: Socket where
  "example_socket = \<lparr>so_open = True, so_incoming = [], so_sends = [], so_sent = []\<rparr>"

theorem server_invariant_witness:
  "let sv = snd (Server_Start (Inr 9000) example_server);
       sv = snd (snd (accept_connection (\<lambda>_. None) example_socket sv))
   in engine_ok True (sv_observatory sv) \<and> fences_ok (sv_fences sv) \<and> length (sv_sessions sv) = 1 \<and> sv_running sv"
proof -
  let ?a = "snd (Server_Start (Inr 9000) example_server)"
  let ?b = "snd (snd (accept_connection (\<lambda>_. None) example_socket ?a))"
  have "server_step (\<lambda>_. []) (\<lambda>_. None) (\<lambda>_. None) example_server ?a" by (rule started [where st = "fst (Server_Start (Inr 9000) example_server)"]) simp
  moreover have "server_step (\<lambda>_. []) (\<lambda>_. None) (\<lambda>_. None) ?a ?b"
    by (rule accept [where so = example_socket and r = "fst (accept_connection (\<lambda>_. None) example_socket ?a)"
          and so' = "fst (snd (accept_connection (\<lambda>_. None) example_socket ?a))"]) simp
  ultimately have "(server_step (\<lambda>_. []) (\<lambda>_. None) (\<lambda>_. None))\<^sup>*\<^sup>* example_server ?b" by (meson converse_rtranclp_into_rtranclp r_into_rtranclp)
  note server_invariant [OF Observatory_new_ok this [unfolded example_server_def]]
  moreover have "length (sv_sessions ?b) = 1 \<and> sv_running ?b"
    by (simp add: example_server_def ObservationServer_new_def Server_Start_def bind_listener_def accept_connection_def
        ReapFinishedSessions_def Let_def default_limits_def map_emplace_def status_ok_def mk_status_def)
  ultimately show ?thesis by (simp add: Let_def example_server_def)
qed

text \<open>
  C13. A source cannot go back.  Once the fence has let a snapshot of a source through, then after any
  activity of the server it lets through only snapshots of the same or a newer epoch, incarnation and
  sequence number, in this order of precedence, and one with the same three numbers only when it has the
  same content: a restarted or replaying publisher is refused.
\<close>

theorem fence_never_goes_back:
  assumes "fences_ok (sv_fences sv)" "source \<noteq> []" "uint_is_set s1"
    and "FenceSnapshot source e1 i1 s1 d1 (sv_fences sv) = (None, fences1)"
    and "(server_step dt tc fc)\<^sup>*\<^sup>* (sv\<lparr>sv_fences := fences1\<rparr>) sv2"
    and "FenceSnapshot source e2 i2 s2 d2 (sv_fences sv2) = (None, fences2)"
  shows "(e1, i1, s1) \<le> (e2, i2, s2) \<and> ((e1, i1, s1) = (e2, i2, s2) \<longrightarrow> d1 = d2)"
proof -
  obtain f1 where f1: "map_of fences1 source = Some f1" "fence_mark f1 = (e1, i1, s1)" "sf_content_digest f1 = d1"
    using FenceSnapshot_admits [OF assms(4,1,2)] by blast
  have "fences_ok fences1" using FenceSnapshot_ok [OF assms(4,1,2)] by blast
  with server_steps_fences [OF assms(5)] f1(1) obtain f where
    ok: "fences_ok (sv_fences sv2)" and f: "map_of (sv_fences sv2) source = Some f" "advances f1 f" by auto
  obtain f2 where f2: "fence_mark f2 = (e2, i2, s2)" "sf_content_digest f2 = d2" "advances f f2"
    using FenceSnapshot_admits [OF assms(6) ok assms(2)] f(1) by (auto simp: fence_of_def)
  have "advances f1 f2" using f(2) f2(3) by (rule advances_trans)
  moreover have "sf_sequence f1 = s1" using f1(2) by (simp add: fence_mark_def)
  ultimately show ?thesis using f1 f2 assms(3) by (auto simp: advances_def)
qed

theorem fence_never_goes_back_witness:
  "let f = snd (FenceSnapshot ''s'' 1 1 5 Digest_unset []);
       (refusal, g) = FenceSnapshot ''s'' 1 1 6 Digest_unset f
   in refusal = None \<and> ((1, 1, 5) :: u64 \<times> u64 \<times> u64) \<le> (1, 1, 6) \<and> fst (FenceSnapshot ''s'' 1 1 5 Digest_unset g) = Some RC_FencedStaleSequence"
proof -
  define f where "f = snd (FenceSnapshot ''s'' 1 1 5 Digest_unset [])"
  define g where "g = snd (FenceSnapshot ''s'' 1 1 6 Digest_unset f)"
  have fences: "FenceSnapshot ''s'' 1 1 5 Digest_unset [] = (None, f)" "FenceSnapshot ''s'' 1 1 6 Digest_unset f = (None, g)"
    "fst (FenceSnapshot ''s'' 1 1 5 Digest_unset g) = Some RC_FencedStaleSequence"
    by (simp_all add: f_def g_def FenceSnapshot_def fence_of_def blank_fence_def Let_def uint_is_set_def)
  have "((1, 1, 5) :: u64 \<times> u64 \<times> u64) \<le> (1, 1, 6)"
    using fence_never_goes_back [of example_server "''s''" 5 1 1 Digest_unset f "\<lambda>_. []" "\<lambda>_. None" "\<lambda>_. None"
        "example_server\<lparr>sv_fences := f\<rparr>" 1 1 6 Digest_unset g] fences
    by (simp add: example_server_def ObservationServer_new_def fences_ok_def keys_ascending_def uint_is_set_def)
  then show ?thesis using fences by (simp add: Let_def)
qed

section \<open>What one frame can do\<close>

lemma session_step_context:
  assumes "session_step dt tc fc now cx so sv = (go, cx', so', sv')"
  shows "cx_session_id cx' = cx_session_id cx"
  using assms
  by (auto simp: session_step_def Let_def split: prod.splits sum.splits dest!: HandleFrame_frame)

lemma settle_greeting_effect:
  assumes "settle_greeting hello now cx sv = (ack, sv')"
  shows "sv_fences sv' = snd (snd (greet_fence hello (sv_fences sv))) \<and>
    (sv_observatory sv' = sv_observatory sv \<or>
     sv_observatory sv' = snd (RegisterSource (greeting_descriptor hello now) (sv_observatory sv)))"
  using assms by (auto simp: settle_greeting_def Let_def split: option.splits prod.splits if_splits)

lemma HandleHello_effect:
  assumes "HandleHello tc fc now payload cx so sv = (st, cx', so', sv')"
  shows "sv_observatory sv' = sv_observatory sv \<and> sv_fences sv' = sv_fences sv \<and> cx' = cx \<or>
    (\<exists>hello. bindr (ParseJson fc (sv_limits sv) (text_of_bytes payload)) (DecodeHello (sv_limits sv)) = Inr hello \<and>
       sv_fences sv' = snd (snd (greet_fence hello (sv_fences sv))) \<and>
       (sv_observatory sv' = sv_observatory sv \<or>
        sv_observatory sv' = snd (RegisterSource (greeting_descriptor hello now) (sv_observatory sv))) \<and>
       (cx' = cx \<or>
        fst (greet_fence hello (sv_fences sv)) = None \<and> cx_source cx' = hp_source hello \<and> cx_epoch cx' = hp_epoch hello \<and>
        cx_incarnation cx' = hp_incarnation hello))"
proof (cases "bindr (ParseJson fc (sv_limits sv) (text_of_bytes payload)) (DecodeHello (sv_limits sv))")
  case (Inl status)
  then show ?thesis using assms by (auto simp: HandleHello_def stats_only_def split: prod.splits dest!: SendError_frame)
next
  case (Inr hello)
  obtain ack sv1 where g: "settle_greeting hello now cx sv = (ack, sv1)" by fastforce
  obtain st1 so1 sv2 where f: "SendFrame tc FT_HelloAck 0 0 (EncodeHelloAck ack) so sv1 = (st1, so1, sv2)" by (metis prod_cases3)
  have "sv_observatory sv' = sv_observatory sv1 \<and> sv_fences sv' = sv_fences sv1 \<and>
      (cx' = cx \<or> ha_accepted ack \<and> cx_source cx' = hp_source hello \<and> cx_epoch cx' = hp_epoch hello \<and> cx_incarnation cx' = hp_incarnation hello)"
    using assms Inr g f SendFrame_frame [OF f] by (auto simp: HandleHello_def stats_only_def split: if_splits)
  then show ?thesis using Inr settle_greeting_effect [OF g] settle_greeting_serves [OF g] by auto
qed

lemma HandleSnapshot_effect:
  assumes "HandleSnapshot tc fc now payload cx so sv = (st, cx', so', sv')"
  shows "sv_observatory sv' = sv_observatory sv \<and> sv_fences sv' = sv_fences sv \<or>
    (\<exists>s. bindr (ParseJson fc (sv_limits sv) (text_of_bytes payload)) (DecodeObservationDocument (sv_limits sv)) = Inr s \<and>
       sn_source s = cx_source cx \<and> sn_epoch s = cx_epoch cx \<and> sn_incarnation s = cx_incarnation cx \<and>
       FenceSnapshot (sn_source s) (sn_epoch s) (sn_incarnation s) (sn_sequence s) (Snapshot_ComputeContentDigest s) (sv_fences sv) =
         (None, sv_fences sv') \<and>
       sv_observatory sv' = snd (snd (IngestObservation s now (sv_observatory sv))))"
proof (cases "bindr (ParseJson fc (sv_limits sv) (text_of_bytes payload)) (DecodeObservationDocument (sv_limits sv))")
  case (Inl status)
  then show ?thesis using assms by (auto simp: HandleSnapshot_def stats_only_def dest!: acknowledge_frame_frame)
next
  case (Inr s)
  show ?thesis
  proof (cases "session_refusal cx s")
    case (Some x)
    then show ?thesis using assms Inr by (cases x) (auto simp: HandleSnapshot_def Let_def stats_only_def dest!: acknowledge_frame_frame)
  next
    case None
    obtain fenced fences where f: "FenceSnapshot (sn_source s) (sn_epoch s) (sn_incarnation s) (sn_sequence s)
        (Snapshot_ComputeContentDigest s) (sv_fences sv) = (fenced, fences)" by fastforce
    show ?thesis
    proof (cases fenced)
      case fenced: None
      obtain ist adm ob where i: "IngestObservation s now (sv_observatory sv) = (ist, adm, ob)" by (metis prod_cases3)
      have "sv_observatory sv' = ob \<and> sv_fences sv' = fences"
        using assms Inr None f fenced i
        by (auto simp: HandleSnapshot_def admit_snapshot_def Let_def stats_only_def split: prod.splits dest!: SendFrame_frame)
      then show ?thesis using Inr None f fenced i by (auto simp: session_refusal_def split: if_splits)
    next
      case (Some reason)
      have "fences = sv_fences sv" using f Some by (auto simp: FenceSnapshot_def Let_def split: if_splits)
      then show ?thesis
        using assms Inr None f Some by (auto simp: HandleSnapshot_def Let_def stats_only_def dest!: acknowledge_frame_frame)
    qed
  qed
qed

lemma HandleIntent_effect:
  assumes "HandleIntent dt tc fc now payload cx so sv = (st, cx', so', sv')"
  shows "sv_observatory sv' = sv_observatory sv \<or>
    (\<exists>d. bindr (ParseJson fc (sv_limits sv) (text_of_bytes payload)) (DecodeIntentDocument (sv_limits sv)) = Inr d \<and>
       sv_observatory sv' = snd (snd (PublishIntent dt d now (sv_observatory sv))))"
proof (cases "bindr (ParseJson fc (sv_limits sv) (text_of_bytes payload)) (DecodeIntentDocument (sv_limits sv))")
  case (Inl status)
  then show ?thesis using assms by (auto simp: HandleIntent_def stats_only_def dest!: acknowledge_frame_frame)
next
  case (Inr d)
  obtain ist rep ob where i: "PublishIntent dt d now (sv_observatory sv) = (ist, rep, ob)" by (metis prod_cases3)
  then show ?thesis
    using assms Inr by (auto simp: HandleIntent_def Let_def stats_only_def split: prod.splits if_splits dest!: SendFrame_frame)
qed

text \<open>
  C14. A session publishes only as the source it greeted as.  Whatever a frame holds, handling it either
  leaves the observatory, the fences and the session's authority as they are, or it is a greeting the
  decoder accepts, which can only register its own source; or the session has greeted and the frame is a
  decoded snapshot of exactly the source, epoch and incarnation of that greeting which the fence lets
  through, or a decoded intent document.  Before a greeting every other frame ends the session.
\<close>

theorem session_publishes_as_greeted:
  "case HandleFrame dt tc fc now header payload cx so sv of
     (st, cx', so', sv') \<Rightarrow>
       (sv_observatory sv' = sv_observatory sv \<and> sv_fences sv' = sv_fences sv \<and> cx' = cx \<and>
        (cx_handshaken cx \<or> fh_type header = FT_Hello \<or> st_code st = SC_Rejected \<and> st_reason st = RC_WireHandshakeRequired)) \<or>
       (fh_type header = FT_Hello \<and>
        (\<exists>hello. bindr (ParseJson fc (sv_limits sv) (text_of_bytes payload)) (DecodeHello (sv_limits sv)) = Inr hello \<and>
           sv_fences sv' = snd (snd (greet_fence hello (sv_fences sv))) \<and>
           (sv_observatory sv' = sv_observatory sv \<or>
            sv_observatory sv' = snd (RegisterSource (greeting_descriptor hello now) (sv_observatory sv))) \<and>
           (cx' = cx \<or>
            fst (greet_fence hello (sv_fences sv)) = None \<and> cx_source cx' = hp_source hello \<and> cx_epoch cx' = hp_epoch hello \<and>
            cx_incarnation cx' = hp_incarnation hello))) \<or>
       (fh_type header = FT_Snapshot \<and> cx_handshaken cx \<and> cx' = cx \<and>
        (\<exists>s. bindr (ParseJson fc (sv_limits sv) (text_of_bytes payload)) (DecodeObservationDocument (sv_limits sv)) = Inr s \<and>
           sn_source s = cx_source cx \<and> sn_epoch s = cx_epoch cx \<and> sn_incarnation s = cx_incarnation cx \<and>
           FenceSnapshot (sn_source s) (sn_epoch s) (sn_incarnation s) (sn_sequence s) (Snapshot_ComputeContentDigest s) (sv_fences sv) =
             (None, sv_fences sv') \<and>
           sv_observatory sv' = snd (snd (IngestObservation s now (sv_observatory sv))))) \<or>
       (fh_type header = FT_Intent \<and> cx_handshaken cx \<and> cx' = cx \<and> sv_fences sv' = sv_fences sv \<and>
        (\<exists>d. bindr (ParseJson fc (sv_limits sv) (text_of_bytes payload)) (DecodeIntentDocument (sv_limits sv)) = Inr d \<and>
           sv_observatory sv' = snd (snd (PublishIntent dt d now (sv_observatory sv)))))"
proof -
  obtain st cx' so' sv' where h: "HandleFrame dt tc fc now header payload cx so sv = (st, cx', so', sv')" by (metis prod_cases4)
  show ?thesis
  proof (cases "cx_handshaken cx \<or> fh_type header = FT_Hello")
    case False
    then show ?thesis
      using h by (auto simp: HandleFrame_def stats_only_def mk_status_def split: prod.splits dest!: SendError_frame)
  next
    case live: True
    show ?thesis
    proof (cases "fh_type header")
      case FT_Hello
      then have "HandleHello tc fc now payload cx so sv = (st, cx', so', sv')" using h by (simp add: HandleFrame_def)
      from HandleHello_effect [OF this] FT_Hello show ?thesis unfolding h prod.case by blast
    next
      case FT_Snapshot
      with live have hs: "cx_handshaken cx" by simp
      with FT_Snapshot have s: "HandleSnapshot tc fc now payload cx so sv = (st, cx', so', sv')" using h by (simp add: HandleFrame_def)
      from HandleSnapshot_effect [OF s] HandleSnapshot_frame [OF s] FT_Snapshot hs show ?thesis unfolding h prod.case by blast
    next
      case FT_Intent
      with live have hs: "cx_handshaken cx" by simp
      with FT_Intent have i: "HandleIntent dt tc fc now payload cx so sv = (st, cx', so', sv')" using h by (simp add: HandleFrame_def)
      from HandleIntent_effect [OF i] HandleIntent_frame [OF i] HandleIntent_fences [OF i] FT_Intent hs
      show ?thesis unfolding h prod.case by blast
    qed (use live h in \<open>auto simp: HandleFrame_def stats_only_def split: prod.splits dest!: SendError_frame SendFrame_frame\<close>)
  qed
qed

text \<open>
  C33. Every session ends, and it reads no more than its peer sends: the number of frames it goes on after
  is bounded by the bytes that arrive, however the stop flag and the clock behave, and the loop takes
  every one of those frames' bytes from the socket.
\<close>

theorem session_is_bounded:
  "case SessionLoop dt tc fc stop clock n cx so sv of
     (n', cx', so', sv') \<Rightarrow>
       n \<le> n' \<and> (n' - n) * kFrameHeaderBytes \<le> pending (so_incoming so) \<and> cx_session_id cx' = cx_session_id cx"
proof (induction dt tc fc stop clock n cx so sv rule: SessionLoop.induct)
  case (1 dt tc fc stop clock n cx so sv)
  show ?case
  proof (cases "stop n")
    case True
    then show ?thesis by (simp add: SessionLoop.simps)
  next
    case False
    obtain go cx' so' sv' where s: "session_step dt tc fc (clock n) cx so sv = (go, cx', so', sv')" by (metis prod_cases4)
    have keep: "cx_session_id cx' = cx_session_id cx" using session_step_context [OF s] .
    show ?thesis
    proof (cases go)
      case True
      note IH = 1 [OF False s [symmetric] refl refl True]
      have loop: "SessionLoop dt tc fc stop clock n cx so sv = SessionLoop dt tc fc stop clock (Suc n) cx' so' sv'"
        using False s True by (subst SessionLoop.simps) simp
      obtain m cx2 so2 sv2 where r: "SessionLoop dt tc fc stop clock (Suc n) cx' so' sv' = (m, cx2, so2, sv2)" by (metis prod_cases4)
      have "Suc n \<le> m" "(m - Suc n) * kFrameHeaderBytes \<le> pending (so_incoming so')" using IH r by auto
      moreover have "pending (so_incoming so') + kFrameHeaderBytes \<le> pending (so_incoming so)"
        using session_step_consumes s True by simp
      moreover have "m - n = Suc (m - Suc n)" using \<open>Suc n \<le> m\<close> by simp
      ultimately show ?thesis using IH r loop keep by simp
    next
      case go: False
      then show ?thesis using False s keep by (subst SessionLoop.simps) simp
    qed
  qed
qed

end
