(* ===== verification/NDO_Report.thy ===== *)
theory NDO_Report
  imports NDO_Engine_State
begin

text \<open>
  Reports (\<^verbatim>\<open>report.hpp\<close>, \<^verbatim>\<open>report.cpp\<close>): the reconciliation actions, the request of a finding, the counts and the
  report document over the inputs the engine collects.  A report reads the observatory and changes
  nothing; the clock's reading is an argument, and so is the policy, which the code reads again after it
  has collected the inputs.
\<close>

section \<open>Actions\<close>

datatype ReconciliationAction =
    RA_None | RA_ApplyIntent | RA_RemoveUnexpected | RA_CollectObservation | RA_ResolveSourceConflict | RA_EscalateToOwner

fun action_value :: "ReconciliationAction \<Rightarrow> nat" where
  "action_value RA_None = 0"
| "action_value RA_ApplyIntent = 1"
| "action_value RA_RemoveUnexpected = 2"
| "action_value RA_CollectObservation = 3"
| "action_value RA_ResolveSourceConflict = 4"
| "action_value RA_EscalateToOwner = 5"

definition all_actions :: "ReconciliationAction list" where
  "all_actions =
     [RA_None, RA_ApplyIntent, RA_RemoveUnexpected, RA_CollectObservation, RA_ResolveSourceConflict, RA_EscalateToOwner]"

definition kActionNames :: "(nat \<times> string) list" where
  "kActionNames =
     [(0, ''none''), (1, ''apply-intent''), (2, ''remove-unexpected''), (3, ''collect-observation''),
      (4, ''resolve-source-conflict''), (5, ''escalate-to-owner'')]"

definition ToText_ReconciliationAction :: "ReconciliationAction \<Rightarrow> string" where
  "ToText_ReconciliationAction a = lookup_name kActionNames (action_value a) ''none''"

definition TryParseReconciliationAction :: "string \<Rightarrow> ReconciliationAction option" where
  "TryParseReconciliationAction wanted =
     Option.bind (lookup_code kActionNames wanted) (\<lambda>c. List.find (\<lambda>a. action_value a = c) all_actions)"

definition ActionFor :: "DriftClass \<Rightarrow> ReconciliationAction" where
  "ActionFor klass =
     (case klass of
        DC_Missing \<Rightarrow> RA_ApplyIntent
      | DC_ValueMismatch \<Rightarrow> RA_ApplyIntent
      | DC_FieldMissing \<Rightarrow> RA_ApplyIntent
      | DC_GenerationMismatch \<Rightarrow> RA_ApplyIntent
      | DC_PartialApplication \<Rightarrow> RA_ApplyIntent
      | DC_Unexpected \<Rightarrow> RA_RemoveUnexpected
      | DC_FieldUnexpected \<Rightarrow> RA_RemoveUnexpected
      | DC_StaleObservation \<Rightarrow> RA_CollectObservation
      | DC_Unknown \<Rightarrow> RA_CollectObservation
      | DC_SourceConflict \<Rightarrow> RA_ResolveSourceConflict
      | DC_Unsupported \<Rightarrow> RA_EscalateToOwner
      | DC_IntentMissing \<Rightarrow> RA_EscalateToOwner
      | DC_EvidenceInvalid \<Rightarrow> RA_EscalateToOwner
      | DC_None \<Rightarrow> RA_None)"

lemma action_text_roundtrip [simp]: "TryParseReconciliationAction (ToText_ReconciliationAction a) = Some a"
  by (cases a) (simp_all add: TryParseReconciliationAction_def ToText_ReconciliationAction_def kActionNames_def all_actions_def)

lemma ActionFor_None [simp]: "ActionFor klass = RA_None \<longleftrightarrow> klass = DC_None"
  by (cases klass) (simp_all add: ActionFor_def)

section \<open>Entries\<close>

definition RequestIdentity :: "FindingId \<Rightarrow> ReconciliationAction \<Rightarrow> string" where
  "RequestIdentity fid a = ''request/'' @ ToShortHex fid @ ''/'' @ ToText_ReconciliationAction a"

definition EncodeFindingSummary :: "Finding \<Rightarrow> Value" where
  "EncodeFindingSummary f =
     V_Map (members_of
       [(''id'', V_String (Digest_ToHex (f_id f))), (''target'', V_String (id_target (f_identity f))),
        (''object'', V_String (id_object (f_identity f))), (''path'', V_String (FieldPath_ToText (id_path (f_identity f)))),
        (''drift_class'', V_String (ToText_DriftClass (f_klass f))), (''raw_class'', V_String (ToText_DriftClass (f_raw_class f))),
        (''severity'', V_String (ToText_Severity (f_severity f))), (''state'', V_String (ToText_FindingState (f_state f))),
        (''reason'', V_String (ToText_ReasonCode (f_reason f))), (''baseline_generation'', MakeUint (f_baseline_generation f)),
        (''baseline_epoch'', MakeUint (f_baseline_epoch f)),
        (''baseline_authority'', V_String (ToText_IntentAuthority (f_baseline_authority f))),
        (''evidence_freshness'', V_String (ToText_FreshnessState (f_evidence_freshness f))),
        (''suppressed'', V_Bool (f_suppression f \<noteq> None)), (''compliance_relevant'', V_Bool (f_compliance_relevant f)),
        (''observation_count'', MakeUint (f_observation_count f)), (''reopen_count'', MakeUint (f_reopen_count f)),
        (''first_seen'', V_String (FormatTime (f_first_seen f))), (''last_seen'', V_String (FormatTime (f_last_seen f))),
        (''summary'', V_String (f_summary f))])"

definition EncodeReconciliationRequest :: "Finding \<Rightarrow> Value" where
  "EncodeReconciliationRequest f =
     (let a = ActionFor (f_klass f)
      in V_Map (members_of
        ([(''id'', V_String (RequestIdentity (f_id f) a)), (''finding'', V_String (Digest_ToHex (f_id f))),
          (''action'', V_String (ToText_ReconciliationAction a)), (''target'', V_String (id_target (f_identity f))),
          (''object'', V_String (id_object (f_identity f))), (''path'', V_String (FieldPath_ToText (id_path (f_identity f)))),
          (''drift_class'', V_String (ToText_DriftClass (f_klass f))), (''severity'', V_String (ToText_Severity (f_severity f))),
          (''baseline_generation'', MakeUint (f_baseline_generation f)), (''baseline_epoch'', MakeUint (f_baseline_epoch f)),
          (''policy'', V_String (f_policy f)), (''policy_digest'', V_String (Digest_ToHex (f_policy_digest f))),
          (''suppressed'', V_Bool (f_suppression f \<noteq> None)), (''acknowledged'', V_Bool (f_acknowledged_by f \<noteq> [])),
          (''observed_freshness'', V_String (ToText_FreshnessState (f_evidence_freshness f))),
          (''reason'', V_String (ToText_ReasonCode (f_reason f)))] @
         (if f_has_intended f then [(''intended'', f_intended f)] else []) @
         (if f_has_observed f then [(''observed'', f_observed f)] else []) @
         [(''evidence'', V_List (map EncodeEvidenceRef (f_evidence f)))])))"

text \<open>One turn of the loops that count findings by a name; the count is kept as a value of the document.\<close>

definition count_name :: "string \<Rightarrow> members \<Rightarrow> members" where
  "count_name key tally_map =
     (case map_of tally_map key of
        None \<Rightarrow> map_emplace key (MakeUint 1) tally_map
      | Some v \<Rightarrow> map_put key (MakeUint (case as_uint v of None \<Rightarrow> 1 | Some n \<Rightarrow> n + 1)) tally_map)"

definition CountByDriftClass :: "Finding list \<Rightarrow> members" where
  "CountByDriftClass fs = fold (\<lambda>f. count_name (ToText_DriftClass (f_klass f))) fs []"

definition CountBySeverity :: "Finding list \<Rightarrow> members" where
  "CountBySeverity fs = fold (\<lambda>f. count_name (ToText_Severity (f_severity f))) fs []"

definition CountByState :: "Finding list \<Rightarrow> members" where
  "CountByState fs = fold (\<lambda>f. count_name (ToText_FindingState (f_state f))) fs []"

definition EncodeCounters :: "ObservatoryCounters \<Rightarrow> Value" where
  "EncodeCounters c =
     V_Map (members_of
       [(''intents_accepted'', MakeUint (ct_intents_accepted c)), (''intents_rejected'', MakeUint (ct_intents_rejected c)),
        (''intents_duplicate_identical'', MakeUint (ct_intents_duplicate_identical c)),
        (''observations_accepted'', MakeUint (ct_observations_accepted c)),
        (''observations_rejected'', MakeUint (ct_observations_rejected c)),
        (''observations_duplicate_identical'', MakeUint (ct_observations_duplicate_identical c)),
        (''observations_superseded'', MakeUint (ct_observations_superseded c)), (''evaluations'', MakeUint (ct_evaluations c)),
        (''evaluations_cancelled'', MakeUint (ct_evaluations_cancelled c)),
        (''evaluations_fenced'', MakeUint (ct_evaluations_fenced c)), (''findings_created'', MakeUint (ct_findings_created c)),
        (''findings_resolved'', MakeUint (ct_findings_resolved c)), (''findings_reopened'', MakeUint (ct_findings_reopened c)),
        (''findings_suppressed'', MakeUint (ct_findings_suppressed c)), (''acknowledgements'', MakeUint (ct_acknowledgements c)),
        (''recoveries'', MakeUint (ct_recoveries c)), (''persistence_writes'', MakeUint (ct_persistence_writes c)),
        (''policy_changes'', MakeUint (ct_policy_changes c))])"

section \<open>The document\<close>

definition kProductName :: string where
  "kProductName = ''Network Drift Observatory''"

definition kProductVendor :: string where
  "kProductVendor = ''Summon Software Labs''"

definition kVersionString :: string where
  "kVersionString = ''1.0.0''"

definition kReportFormatVersion :: u64 where
  "kReportFormatVersion = 1"

definition report_product :: "ObservatoryPolicy \<Rightarrow> Value" where
  "report_product policy =
     V_Map (members_of
       [(''name'', V_String kProductName), (''vendor'', V_String kProductVendor), (''version'', V_String kVersionString),
        (''evidence'', V_String (ToText_EvidenceClass (po_evidence policy)))])"

definition report_state :: "ReportInputs \<Rightarrow> Value" where
  "report_state i =
     V_Map (members_of
       [(''policy'', V_String (ri_policy i)), (''policy_digest'', V_String (Digest_ToHex (ri_policy_digest i))),
        (''epoch'', MakeUint (ri_epoch i)), (''incarnation'', MakeUint (ri_incarnation i)),
        (''ledger_revision'', MakeUint (ri_revision i)), (''state_digest'', V_String (Digest_ToHex (ri_state_digest i))),
        (''started'', V_Bool (ri_started i))])"

definition report_stats :: "ReportInputs \<Rightarrow> Value" where
  "report_stats i =
     (let s = ri_stats i
      in V_Map (members_of
        [(''targets'', MakeUint (of_nat (ls_targets s))), (''baselines'', MakeUint (of_nat (ls_baselines s))),
         (''observations'', MakeUint (of_nat (ls_observations s))), (''sources'', MakeUint (of_nat (ls_sources s))),
         (''findings'', MakeUint (of_nat (ls_findings s))), (''live_findings'', MakeUint (of_nat (ls_live_findings s))),
         (''resolved_findings'', MakeUint (of_nat (ls_resolved_findings s))),
         (''superseded_findings'', MakeUint (of_nat (ls_superseded_findings s))),
         (''suppressed_findings'', MakeUint (of_nat (ls_suppressed_findings s))),
         (''acknowledged_findings'', MakeUint (of_nat (ls_acknowledged_findings s))),
         (''groups'', MakeUint (of_nat (ls_groups s))), (''timeline_entries'', MakeUint (of_nat (ls_timeline_entries s))),
         (''reported_findings'', MakeUint (of_nat (length (ri_findings i)))),
         (''matching_findings'', MakeUint (of_nat (ri_matching_findings i))), (''truncated'', V_Bool (ri_truncated i))]))"

definition wants_request :: "Finding \<Rightarrow> bool" where
  "wants_request f \<longleftrightarrow> IsLiveState (f_state f) \<and> ActionFor (f_klass f) \<noteq> RA_None"

definition system_boundary :: "Value list" where
  "system_boundary =
     map V_String
       [''observational only: this runtime never mutates a device and never applies a request'',
        ''reconciliation requests are typed suggestions for another runtime'',
        ''evidence class is declared per observation; synthetic fixtures are not hardware'',
        ''a suppressed finding remains true; suppression affects reporting only'',
        ''absence of fresh evidence is reported as unknown, never as compliance'']"

definition report_members :: "ReportSpec \<Rightarrow> ReportInputs \<Rightarrow> ObservatoryPolicy \<Rightarrow> members" where
  "report_members spec i policy =
     [(''schema'', V_String ''ndo/report/1''), (''report_format_version'', MakeUint kReportFormatVersion),
      (''report_id'', V_String (if rs_id spec = [] then ''report/unidentified'' else rs_id spec)),
      (''generated_at'', V_String (FormatTime (ri_generated_at i))), (''note'', V_String (rs_note spec)),
      (''product'', report_product policy), (''observatory'', report_state i), (''counters'', EncodeCounters (ri_counters i)),
      (''stats'', report_stats i), (''findings_by_class'', V_Map (CountByDriftClass (ri_findings i))),
      (''findings_by_severity'', V_Map (CountBySeverity (ri_findings i))),
      (''findings_by_state'', V_Map (CountByState (ri_findings i))),
      (''findings'', V_List (map EncodeFindingSummary (ri_findings i)))] @
     (if rs_include_evidence spec then [(''finding_records'', V_List (map EncodeFinding (ri_findings i)))] else []) @
     (if rs_include_groups spec then [(''root_cause_groups'', V_List (map EncodeGroup (ri_groups i)))] else []) @
     (if rs_include_timeline spec then [(''timeline'', V_List (map EncodeTimelineEntry (ri_timeline i)))] else []) @
     (if rs_include_reconciliation_requests spec
      then [(''reconciliation_requests'', V_List (map EncodeReconciliationRequest (filter wants_request (ri_findings i))))] else []) @
     [(''system_boundary'', V_List system_boundary)]"

definition BuildReportValue :: "ReportSpec \<Rightarrow> NdoTime \<Rightarrow> Observatory \<Rightarrow> ObservatoryPolicy \<Rightarrow> Value" where
  "BuildReportValue spec stamp ob policy = V_Map (members_of (report_members spec (CollectReportInputs spec stamp ob) policy))"

definition BuildReportJson :: "(u64 \<Rightarrow> string option) \<Rightarrow> ReportSpec \<Rightarrow> NdoTime \<Rightarrow> Observatory \<Rightarrow> ObservatoryPolicy \<Rightarrow> string" where
  "BuildReportJson tc spec stamp ob policy = WritePrettyJson tc (BuildReportValue spec stamp ob policy) 2"

text \<open>Reading a member of a document.\<close>

definition member :: "string \<Rightarrow> Value \<Rightarrow> Value option" where
  "member name v = Option.bind (as_map v) (\<lambda>m. FindMember m name)"

definition member_list :: "string \<Rightarrow> Value \<Rightarrow> Value list" where
  "member_list name v = (case Option.bind (member name v) as_list of None \<Rightarrow> [] | Some l \<Rightarrow> l)"

lemma member_of [simp]: "member name (V_Map (members_of kvs)) = map_of kvs name"
  by (simp add: member_def)

section \<open>Properties\<close>

lemma report_requests:
  assumes "rs_include_reconciliation_requests spec"
  shows "member_list ''reconciliation_requests'' (BuildReportValue spec stamp ob policy) =
    map EncodeReconciliationRequest (filter wants_request (ri_findings (CollectReportInputs spec stamp ob)))"
  using assms by (simp add: member_list_def BuildReportValue_def report_members_def map_of_append)

lemma report_findings:
  "member_list ''findings'' (BuildReportValue spec stamp ob policy) =
    map EncodeFindingSummary (ri_findings (CollectReportInputs spec stamp ob))"
  by (simp add: member_list_def BuildReportValue_def report_members_def)

lemma request_members:
  "member ''finding'' (EncodeReconciliationRequest f) = Some (V_String (Digest_ToHex (f_id f)))"
  "member ''action'' (EncodeReconciliationRequest f) = Some (V_String (ToText_ReconciliationAction (ActionFor (f_klass f))))"
  by (simp_all add: EncodeReconciliationRequest_def Let_def)

lemma Findings_found:
  assumes "findings_ok l"
  shows "f \<in> set (Findings l) \<longleftrightarrow> FindFinding (f_id f) l = Some f"
proof -
  have keys: "distinct (map fst (l_findings l))" using assms by (simp add: findings_ok_def keys_ascending_distinct)
  have own: "k = f_id g" if "(k, g) \<in> set (l_findings l)" for k g
    using assms that by (auto simp: findings_ok_def list_all_iff finding_ok_def)
  have "f \<in> set (Findings l) \<longleftrightarrow> (\<exists>k. (k, f) \<in> set (l_findings l))" by (force simp: Findings_def)
  also have "\<dots> \<longleftrightarrow> (f_id f, f) \<in> set (l_findings l)" using own by blast
  also have "\<dots> \<longleftrightarrow> FindFinding (f_id f) l = Some f" using keys by (simp add: FindFinding_def map_of_eq_Some_iff)
  finally show ?thesis .
qed

text \<open>
  C35. A report suggests exactly what the ledger says.  In a well-formed observatory every reconciliation
  request of a report stands for a finding of the ledger that is live, and names its action, which is
  never the empty one; when the report is not truncated every live finding that the report covers and
  that has a drift class has its request; no more findings are reported than asked for and allowed, and
  truncation is flagged exactly when a matching finding is left out.
\<close>

theorem report_requests_exact:
  assumes "engine_ok gapless ob" "rs_include_reconciliation_requests spec"
  shows "(\<forall>r \<in> set (member_list ''reconciliation_requests'' (BuildReportValue spec stamp ob policy)).
            \<exists>fid f a. FindFinding fid (ob_ledger ob) = Some f \<and> IsLiveState (f_state f) \<and> report_includes spec f \<and>
              member ''finding'' r = Some (V_String (Digest_ToHex fid)) \<and>
              member ''action'' r = Some (V_String a) \<and> TryParseReconciliationAction a = Some (ActionFor (f_klass f)) \<and>
              ActionFor (f_klass f) \<noteq> RA_None) \<and>
         (\<not> ri_truncated (CollectReportInputs spec stamp ob) \<longrightarrow>
            (\<forall>fid f. FindFinding fid (ob_ledger ob) = Some f \<and> IsLiveState (f_state f) \<and> report_includes spec f \<and> f_klass f \<noteq> DC_None \<longrightarrow>
               EncodeReconciliationRequest f \<in> set (member_list ''reconciliation_requests'' (BuildReportValue spec stamp ob policy)))) \<and>
         length (member_list ''findings'' (BuildReportValue spec stamp ob policy)) \<le>
           min (rs_max_findings spec) (max_report_findings (oc_limits (ob_config ob))) \<and>
         (ri_truncated (CollectReportInputs spec stamp ob) \<longleftrightarrow>
            length (member_list ''findings'' (BuildReportValue spec stamp ob policy)) <
              length (filter (report_includes spec) (Findings (ob_ledger ob))))"
proof -
  let ?i = "CollectReportInputs spec stamp ob"
  let ?all = "filter (report_includes spec) (Findings (ob_ledger ob))"
  have ok: "findings_ok (ob_ledger ob)" using assms(1) by (simp add: engine_ok_def ledger_ok_def Let_def)
  have fs: "ri_findings ?i = take (min (rs_max_findings spec) (max_report_findings (oc_limits (ob_config ob)))) ?all"
    and t: "ri_truncated ?i \<longleftrightarrow> length ?all > min (rs_max_findings spec) (max_report_findings (oc_limits (ob_config ob)))"
    by (simp_all add: CollectReportInputs_def Let_def)
  have "\<exists>fid f a. FindFinding fid (ob_ledger ob) = Some f \<and> IsLiveState (f_state f) \<and> report_includes spec f \<and>
      member ''finding'' r = Some (V_String (Digest_ToHex fid)) \<and> member ''action'' r = Some (V_String a) \<and>
      TryParseReconciliationAction a = Some (ActionFor (f_klass f)) \<and> ActionFor (f_klass f) \<noteq> RA_None"
    if listed: "r \<in> set (member_list ''reconciliation_requests'' (BuildReportValue spec stamp ob policy))" for r
  proof -
    obtain f where f: "r = EncodeReconciliationRequest f" "wants_request f" "f \<in> set ?all"
      using listed unfolding report_requests [OF assms(2)] fs by (auto dest!: in_set_takeD)
    then have "FindFinding (f_id f) (ob_ledger ob) = Some f" using Findings_found [OF ok] by simp
    then show ?thesis using f by (auto simp: request_members wants_request_def)
  qed
  moreover have "EncodeReconciliationRequest f \<in> set (member_list ''reconciliation_requests'' (BuildReportValue spec stamp ob policy))"
    if whole: "\<not> ri_truncated ?i" and f: "FindFinding fid (ob_ledger ob) = Some f" "IsLiveState (f_state f)" "report_includes spec f" "f_klass f \<noteq> DC_None"
    for fid f
  proof -
    have "f \<in> set (Findings (ob_ledger ob))" using f(1) by (force simp: FindFinding_def Findings_def dest!: map_of_SomeD)
    moreover have "ri_findings ?i = ?all" using whole t unfolding fs by (intro take_all) (simp only: not_less)
    ultimately show ?thesis using f by (auto simp: report_requests [OF assms(2)] wants_request_def)
  qed
  ultimately show ?thesis using fs t by (auto simp: report_findings)
qed

definition reported :: Observatory where
  "reported = (Observatory_new (example_config 1))\<lparr>ob_ledger := ledger_with (example_finding FS_Open)\<rparr>"

lemma reported_ok: "engine_ok True reported"
proof -
  have "ledger_ok True (ledger_with (example_finding FS_Open))"
    by (simp add: ledger_ok_parts timeline_ok_def ledger_with_def FindingLedger_def finding_ok_def example_finding_def default_limits_def
        keys_ascending_def)
  then show ?thesis
    using Observatory_new_ok [of True "example_config 1"]
    by (simp add: engine_ok_def admission_ok_def reported_def ledger_with_def FindingLedger_def Observatory_new_def example_config_def
        clamp_workers_def Let_def)
qed

definition full_report :: ReportSpec where
  "full_report =
     \<lparr>rs_id = [], rs_target = None, rs_include_resolved = True, rs_include_superseded = True, rs_include_suppressed = True,
      rs_include_timeline = True, rs_include_evidence = True, rs_include_groups = True, rs_include_reconciliation_requests = True,
      rs_max_findings = 10, rs_note = []\<rparr>"

theorem report_requests_exact_witness:
  "EncodeReconciliationRequest (example_finding FS_Open) \<in>
     set (member_list ''reconciliation_requests'' (BuildReportValue full_report 9 reported Policy_Default))"
proof -
  let ?f = "example_finding FS_Open"
  have "FindFinding (f_id ?f) (ob_ledger reported) = Some ?f" by (simp add: reported_def ledger_with_def FindFinding_def)
  moreover have "IsLiveState (f_state ?f)" "report_includes full_report ?f" "f_klass ?f \<noteq> DC_None"
    by (simp_all add: example_finding_def IsLiveState_def report_includes_def full_report_def)
  moreover have "\<not> ri_truncated (CollectReportInputs full_report 9 reported)"
    by (simp add: CollectReportInputs_def Let_def reported_def ledger_with_def Findings_def full_report_def Observatory_new_def
        example_config_def clamp_workers_def default_limits_def)
  ultimately show ?thesis using report_requests_exact [OF reported_ok, of full_report 9 Policy_Default] by (simp add: full_report_def)
qed

lemma count_name_ones:
  assumes "\<forall>k. map_of m k = (if k \<in> K then Some (MakeUint 1) else None)"
  shows "\<forall>k. map_of (count_name key m) k = (if k \<in> insert key K then Some (MakeUint 1) else None)"
  using assms by (auto simp: count_name_def map_of_map_emplace map_of_map_put MakeUint_def)

lemma fold_count_name:
  assumes "\<forall>k. map_of m k = (if k \<in> K then Some (MakeUint 1) else None)"
  shows "map_of (fold (\<lambda>f. count_name (g f)) fs m) k = (if k \<in> g ` set fs \<union> K then Some (MakeUint 1) else None)"
  using assms
proof (induction fs arbitrary: m K)
  case (Cons f fs)
  from Cons.IH [OF count_name_ones [OF Cons.prems]] show ?case by simp
qed simp

text \<open>
  C39. The totals of a report are wrong.  Whatever findings are reported, every drift class, severity and
  state that occurs among them is counted once and no count ever reaches two: a small number is kept as a
  signed value, and the loops that count look for an unsigned one.
\<close>

theorem report_counts_never_exceed_one:
  "FindMember (CountByDriftClass fs) k = (if k \<in> (\<lambda>f. ToText_DriftClass (f_klass f)) ` set fs then Some (MakeUint 1) else None) \<and>
   FindMember (CountBySeverity fs) k = (if k \<in> (\<lambda>f. ToText_Severity (f_severity f)) ` set fs then Some (MakeUint 1) else None) \<and>
   FindMember (CountByState fs) k = (if k \<in> (\<lambda>f. ToText_FindingState (f_state f)) ` set fs then Some (MakeUint 1) else None)"
  unfolding FindMember_def CountByDriftClass_def CountBySeverity_def CountByState_def
  using fold_count_name [of "[]" "{}" "\<lambda>f. ToText_DriftClass (f_klass f)" fs k]
    fold_count_name [of "[]" "{}" "\<lambda>f. ToText_Severity (f_severity f)" fs k]
    fold_count_name [of "[]" "{}" "\<lambda>f. ToText_FindingState (f_state f)" fs k] by (simp only: map_of.simps empty_iff if_False) simp

end
