(* ===== verification/NDO_Client.thy ===== *)
theory NDO_Client
  imports NDO_Server_Safety NDO_Report
begin

text \<open>
  The publishing client (\<^verbatim>\<open>client.hpp\<close>, \<^verbatim>\<open>client.cpp\<close>) and the composition of a client with a session of the server:
  what one writes is what the other reads, so an acknowledgement can be compared with what the
  observatory did.  The connection itself, with its timeouts, is what the operating system gives: a
  socket with its scripts, or a refusal.
\<close>

section \<open>State\<close>

record ClientConfig =
  cc_host :: string
  cc_port :: u16
  cc_source :: SourceId
  cc_epoch :: FabricEpoch
  cc_incarnation :: Incarnation
  cc_start_sequence :: SourceSequence
  cc_capabilities :: SourceCapabilities
  cc_provenance :: string
  cc_limits :: RuntimeLimits

record ObservationPublisher =
  pb_config :: ClientConfig
  pb_socket :: Socket
  pb_handshaken :: bool
  pb_next_sequence :: SourceSequence
  pb_frame_sequence :: u64
  pb_handshake :: HelloAckPayload

definition no_socket :: Socket where
  "no_socket = \<lparr>so_open = False, so_incoming = [], so_sends = [], so_sent = []\<rparr>"

definition blank_hello_ack :: HelloAckPayload where
  "blank_hello_ack =
     \<lparr>ha_accepted = False, ha_reason = RC_None, ha_protocol_version = 0, ha_server_epoch = 0, ha_server_incarnation = 0,
      ha_session_id = 0, ha_max_payload_bytes = 0, ha_detail = []\<rparr>"

definition ObservationPublisher_new :: "ClientConfig \<Rightarrow> ObservationPublisher" where
  "ObservationPublisher_new config =
     \<lparr>pb_config = config, pb_socket = no_socket, pb_handshaken = False, pb_next_sequence = 0, pb_frame_sequence = 0,
      pb_handshake = blank_hello_ack\<rparr>"

definition connected :: "ObservationPublisher \<Rightarrow> bool" where
  "connected pb \<longleftrightarrow> so_open (pb_socket pb) \<and> pb_handshaken pb"

section \<open>Frames\<close>

definition Publisher_SendFrame ::
    "(u64 \<Rightarrow> string option) \<Rightarrow> FrameType \<Rightarrow> u16 \<Rightarrow> Value \<Rightarrow> ObservationPublisher \<Rightarrow> Status \<times> ObservationPublisher" where
  "Publisher_SendFrame tc type flags payload pb =
     (let pb = pb\<lparr>pb_frame_sequence := pb_frame_sequence pb + 1\<rparr>
      in case EncodeFrame type flags (pb_frame_sequence pb) (WriteCanonicalJson tc payload) (cc_limits (pb_config pb)) of
           Inl status \<Rightarrow> (status, pb)
         | Inr frame \<Rightarrow> let (status, so) = SendAll frame (pb_socket pb) in (status, pb\<lparr>pb_socket := so\<rparr>))"

text \<open>The bytes a receive loop had filled in when it stopped.\<close>

function received_before :: "nat \<Rightarrow> Socket \<Rightarrow> bytes" where
  "received_before room so =
     (if room = 0 then []
      else case ReceiveSome room so of
        (Inl _, _) \<Rightarrow> []
      | (Inr b, so') \<Rightarrow> if b = [] then [] else b @ received_before (room - length b) so')"
  by pat_completeness auto
termination by (relation "measure (\<lambda>(room, _). room)") auto

declare received_before.simps [simp del]

definition blank_header :: FrameHeader where
  "blank_header = \<lparr>fh_version = 0, fh_type = FT_ErrorFrame, fh_flags = 0, fh_payload_bytes = 0, fh_checksum = 0, fh_sequence = 0\<rparr>"

text \<open>
  The reader with everything it leaves in the caller's variables: after a failure the header and the
  payload hold what had been decoded and received by then.
\<close>

definition ReadFrame_into :: "RuntimeLimits \<Rightarrow> Socket \<Rightarrow> Status \<times> FrameHeader \<times> bytes \<times> Socket" where
  "ReadFrame_into limits so =
     (case ReceiveExact kFrameHeaderBytes so of
        (Inl status, so) \<Rightarrow> (status, blank_header, [], so)
      | (Inr raw_header, so) \<Rightarrow>
          (case DecodeFrameHeader raw_header limits of
             Inl status \<Rightarrow> (status, blank_header, [], so)
           | Inr header \<Rightarrow>
               let n = unat (fh_payload_bytes header)
               in case ReceiveExact n so of
                    (Inl status, so') \<Rightarrow>
                      (let got = received_before n so in (status, header, got @ replicate (n - length got) 0, so'))
                  | (Inr payload, so') \<Rightarrow> (VerifyFramePayload header payload, header, payload, so')))"

section \<open>The session of a publisher\<close>

definition client_hello :: "ClientConfig \<Rightarrow> HelloPayload" where
  "client_hello c =
     \<lparr>hp_source = cc_source c, hp_epoch = cc_epoch c, hp_incarnation = cc_incarnation c, hp_start_sequence = cc_start_sequence c,
      hp_capabilities = cc_capabilities c, hp_provenance = cc_provenance c, hp_product_version = kVersionString\<rparr>"

definition close_socket :: "ObservationPublisher \<Rightarrow> ObservationPublisher" where
  "close_socket pb = pb\<lparr>pb_socket := Socket_Close (pb_socket pb)\<rparr>"

text \<open>The refusal an error frame carries, as far as it can be read.\<close>

definition error_frame_status :: "Value \<Rightarrow> Status" where
  "error_frame_status v =
     (case as_map v of
        None \<Rightarrow> Status_Rejected RC_WireHandshakeRejected ''the server refused the greeting''
      | Some m \<Rightarrow>
          Status_Rejected
            (case OptionalString m ''reason'' of
               None \<Rightarrow> RC_WireHandshakeRejected
             | Some s \<Rightarrow> or_else (TryParseReasonCode (c_str s)) RC_WireHandshakeRejected)
            (or_else (OptionalString m ''detail'') ''the server refused the greeting''))"

text \<open>The answer to the greeting, once a payload has been received.\<close>

definition settle_handshake ::
    "(string \<Rightarrow> u64 option) \<Rightarrow> FrameHeader \<Rightarrow> bytes \<Rightarrow> ObservationPublisher \<Rightarrow> Status \<times> ObservationPublisher" where
  "settle_handshake fc header payload pb =
     (case ParseJson fc (cc_limits (pb_config pb)) (text_of_bytes payload) of
        Inl status \<Rightarrow> (status, close_socket pb)
      | Inr document \<Rightarrow>
          if fh_type header = FT_ErrorFrame then (error_frame_status document, close_socket pb)
          else if fh_type header \<noteq> FT_HelloAck
          then (Status_Rejected RC_WireHandshakeRejected ''the server did not answer the greeting'', close_socket pb)
          else case DecodeHelloAck document of
            Inl status \<Rightarrow> (status, close_socket pb)
          | Inr answer \<Rightarrow>
              let pb = pb\<lparr>pb_handshake := answer\<rparr>
              in if \<not> ha_accepted answer
                 then (Status_Rejected (if ha_reason answer = RC_None then RC_WireHandshakeRejected else ha_reason answer)
                         (if ha_detail answer = [] then ''the handshake was refused'' else ha_detail answer), close_socket pb)
                 else (Status_Ok, pb\<lparr>pb_next_sequence := cc_start_sequence (pb_config pb), pb_handshaken := True\<rparr>))"

text \<open>\<open>opened\<close> is what connecting to the host and the port gives.\<close>

definition Connect ::
    "(u64 \<Rightarrow> string option) \<Rightarrow> (string \<Rightarrow> u64 option) \<Rightarrow> Socket Result \<Rightarrow> ObservationPublisher \<Rightarrow> Status \<times> ObservationPublisher" where
  "Connect tc fc opened pb =
     (let c = pb_config pb in
      if cc_source c = [] \<or> \<not> IsValidIdentityText (cc_source c)
      then (Status_Rejected RC_EncodingMalformed ''the source identity is invalid'', pb)
      else if \<not> uint_is_set (cc_epoch c) \<or> \<not> uint_is_set (cc_incarnation c)
      then (Status_Rejected RC_FencedStaleIncarnation ''the publisher requires an explicit epoch and incarnation'', pb)
      else if cc_port c = 0 then (Status_Rejected RC_EncodingMalformed ''the publisher requires a port'', pb)
      else case opened of
        Inl status \<Rightarrow> (status, pb)
      | Inr so \<Rightarrow>
          let (sent, pb) = Publisher_SendFrame tc FT_Hello 0 (EncodeHello (client_hello c)) (pb\<lparr>pb_socket := so\<rparr>);
              (read, header, payload, so) = ReadFrame_into (cc_limits c) (pb_socket pb);
              pb = pb\<lparr>pb_socket := so\<rparr>
          in if \<not> status_ok sent \<and> \<not> status_ok read then (sent, close_socket pb)
             else
               let status = (if status_ok sent then read else sent)
               in if \<not> status_ok status \<and> payload = [] then (status, close_socket pb)
                  else settle_handshake fc header payload pb)"

definition bye_document :: Value where
  "bye_document = V_Map (members_of [(''schema'', V_String ''ndo/bye/1''), (''session_closed'', V_Bool True)])"

definition Publisher_Close :: "(u64 \<Rightarrow> string option) \<Rightarrow> ObservationPublisher \<Rightarrow> Status \<times> ObservationPublisher" where
  "Publisher_Close tc pb =
     (if \<not> so_open (pb_socket pb) then (Status_Ok, pb)
      else
        let pb = (if pb_handshaken pb then snd (Publisher_SendFrame tc FT_Bye FrameFlags_Final bye_document pb) else pb)
        in (Status_Ok, (close_socket pb)\<lparr>pb_handshaken := False\<rparr>))"

section \<open>Publishing\<close>

definition not_connected :: Status where
  "not_connected = Status_Rejected RC_WireHandshakeRequired ''the publisher is not connected''"

text \<open>The frame that answers a request, and the document in it.\<close>

definition await_document ::
    "(string \<Rightarrow> u64 option) \<Rightarrow> ObservationPublisher \<Rightarrow> (FrameHeader \<times> Value) Result \<times> ObservationPublisher" where
  "await_document fc pb =
     (let limits = cc_limits (pb_config pb);
          (r, so) = ReadFrame_client limits (pb_socket pb);
          pb = pb\<lparr>pb_socket := so\<rparr>
      in (bindr r (\<lambda>(header, payload). bindr (ParseJson fc limits (text_of_bytes payload)) (\<lambda>v. Inr (header, v))), pb))"

definition decode_ack_into :: "Value \<Rightarrow> AckPayload \<Rightarrow> Status \<times> AckPayload" where
  "decode_ack_into v ack = (case DecodeAck v of Inl status \<Rightarrow> (status, ack) | Inr a \<Rightarrow> (Status_Ok, a))"

definition Publish ::
    "(u64 \<Rightarrow> string option) \<Rightarrow> (string \<Rightarrow> u64 option) \<Rightarrow> ObservationSnapshot \<Rightarrow> AckPayload \<Rightarrow> ObservationPublisher \<Rightarrow>
     Status \<times> ObservationSnapshot \<times> AckPayload \<times> ObservationPublisher" where
  "Publish tc fc snapshot ack pb =
     (if \<not> connected pb then (not_connected, snapshot, ack, pb)
      else
        let s = snapshot\<lparr>sn_snapshot_id := Digest_ToHex (Snapshot_ComputeContentDigest snapshot)\<rparr>;
            status = Snapshot_Validate (cc_limits (pb_config pb)) s
        in if \<not> status_ok status then (status, s, ack, pb)
           else
             let (status, pb) = Publisher_SendFrame tc FT_Snapshot FrameFlags_ExpectResponse (EncodeObservationDocument s) pb
             in if \<not> status_ok status then (status, s, ack, pb)
                else case await_document fc pb of
                  (Inl status, pb) \<Rightarrow> (status, s, ack, pb)
                | (Inr (header, document), pb) \<Rightarrow>
                    if fh_type header \<noteq> FT_SnapshotAck
                    then (Status_Rejected RC_WireFrameTypeUnsupported ''the server did not acknowledge the snapshot'', s, ack, pb)
                    else
                      let (status, ack) = decode_ack_into document ack
                      in if \<not> status_ok status then (status, s, ack, pb)
                         else (Status_Ok, s, ack,
                               if ak_accepted ack then pb\<lparr>pb_next_sequence := sn_sequence s + 1\<rparr> else pb))"

definition Publisher_PublishIntent ::
    "(u64 \<Rightarrow> string option) \<Rightarrow> (string \<Rightarrow> u64 option) \<Rightarrow> IntentGenerationDocument \<Rightarrow> AckPayload \<Rightarrow> ObservationPublisher \<Rightarrow>
     Status \<times> AckPayload \<times> ObservationPublisher" where
  "Publisher_PublishIntent tc fc d ack pb =
     (if \<not> connected pb then (not_connected, ack, pb)
      else
        let status = Intent_Validate (cc_limits (pb_config pb)) d
        in if \<not> status_ok status then (status, ack, pb)
           else
             let (status, pb) = Publisher_SendFrame tc FT_Intent FrameFlags_ExpectResponse (EncodeIntentDocument d) pb
             in if \<not> status_ok status then (status, ack, pb)
                else case await_document fc pb of
                  (Inl status, pb) \<Rightarrow> (status, ack, pb)
                | (Inr (header, document), pb) \<Rightarrow>
                    if fh_type header \<noteq> FT_IntentAck
                    then (Status_Rejected RC_WireFrameTypeUnsupported ''the server did not acknowledge the intent document'', ack, pb)
                    else let (status, ack) = decode_ack_into document ack in (status, ack, pb))"

definition PublishRaw ::
    "(u64 \<Rightarrow> string option) \<Rightarrow> (string \<Rightarrow> u64 option) \<Rightarrow> string \<Rightarrow> FrameType \<Rightarrow> AckPayload \<Rightarrow> ObservationPublisher \<Rightarrow>
     Status \<times> AckPayload \<times> ObservationPublisher" where
  "PublishRaw tc fc payload type ack pb =
     (if \<not> connected pb then (not_connected, ack, pb)
      else
        let (status, pb) = Publisher_SendFrame tc type FrameFlags_ExpectResponse (V_String payload) pb
        in if \<not> status_ok status then (status, ack, pb)
           else case await_document fc pb of
             (Inl status, pb) \<Rightarrow> (status, ack, pb)
           | (Inr (header, document), pb) \<Rightarrow>
               if fh_type header \<noteq> FT_ErrorFrame
               then let (status, ack) = decode_ack_into document ack in (status, ack, pb)
               else
                 let reason = Option.bind (Option.bind (as_map document) (\<lambda>m. OptionalString m ''reason'')) (\<lambda>s. TryParseReasonCode (c_str s))
                 in (Status_Ok, ack\<lparr>ak_reason := or_else reason (ak_reason ack), ak_accepted := False\<rparr>, pb))"

end
