(* ===== verification/NDO_Publishing.thy ===== *)
theory NDO_Publishing
  imports NDO_Client
begin

text \<open>
  A client and a session of the server joined by their streams: each reads what the other has written.
  The lemmas follow one snapshot from the client's call to the observatory and the acknowledgement back.
\<close>

section \<open>The client's reader\<close>

lemma ReceiveSome_refuses: "ReceiveSome n so = (Inl st, so') \<Longrightarrow> \<not> status_ok st"
  by (auto simp: ReceiveSome_def status_ok_def mk_status_def Let_def split: if_splits list.splits rx.splits)

lemma receive_loop_refuses: "receive_loop e n so = (Inl st, so') \<Longrightarrow> \<not> status_ok e \<Longrightarrow> \<not> status_ok st"
proof (induction e n so arbitrary: st so' rule: receive_loop.induct)
  case (1 e n so)
  obtain q s where q: "ReceiveSome n so = (q, s)" by fastforce
  show ?case
  proof (cases "n = 0 \<or> (\<exists>b. q = Inr b \<and> b \<noteq> [])")
    case False
    then show ?thesis using 1(2,3) q ReceiveSome_refuses by (cases q) (auto simp: receive_loop.simps [of e n so])
  next
    case True
    then consider "n = 0" | b where "n \<noteq> 0" "q = Inr b" "b \<noteq> []" by blast
    then show ?thesis
    proof cases
      case 1
      then show ?thesis using 1 \<open>receive_loop e n so = _\<close> by (simp add: receive_loop.simps)
    next
      case (2 b)
      then have "receive_loop e (n - length b) s = (Inl st, so')"
        using 1(2) q by (auto simp: receive_loop.simps [of e n so] split: sum.splits prod.splits)
      then show ?thesis using 1(1) [OF 2(1) q [symmetric] 2(2,3)] 1(3) by blast
    qed
  qed
qed

lemma DecodeFrameHeader_refuses: "DecodeFrameHeader raw limits = Inl st \<Longrightarrow> \<not> status_ok st"
  by (auto simp: DecodeFrameHeader_def Let_def status_ok_def mk_status_def split: if_splits option.splits)

text \<open>The reader that shows its variables is the reader: it succeeds exactly when its status says so.\<close>

lemma ReadFrame_into_client:
  assumes "ReadFrame_into limits so = (st, header, payload, so')"
  shows "ReadFrame_client limits so = (if status_ok st then Inr (header, payload) else Inl st, so')"
proof -
  have "\<not> status_ok (Status_Rejected RC_WireFrameTruncated ''the peer closed before the frame was complete'')"
    by (simp add: status_ok_def mk_status_def)
  note stops = receive_loop_refuses [OF _ this, folded ReceiveExact_def]
  show ?thesis
    using assms stops DecodeFrameHeader_refuses
    by (auto simp: ReadFrame_into_def ReadFrame_client_def read_payload_def Let_def split: sum.splits prod.splits)
qed

section \<open>Sending\<close>

lemma SendFrame_delivers:
  assumes "SendFrame tc type flags sequence v so sv = (st, so', sv')"
  shows "(status_ok st \<longleftrightarrow> ss_frames_sent (sv_stats sv') = ss_frames_sent (sv_stats sv) + 1) \<and>
    (status_ok st \<longrightarrow> (\<exists>frame. EncodeFrame type flags sequence (WriteCanonicalJson tc v) (sv_limits sv) = Inr frame \<and>
       so_sent so' = so_sent so @ frame))"
proof (cases "EncodeFrame type flags sequence (WriteCanonicalJson tc v) (sv_limits sv)")
  case (Inl status)
  then have "\<not> status_ok status" by (auto simp: EncodeFrame_def status_ok_def mk_status_def split: if_splits)
  then show ?thesis using assms Inl by (simp add: SendFrame_def)
next
  case (Inr frame)
  obtain status so1 where s: "SendAll frame so = (status, so1)" by fastforce
  then show ?thesis using assms Inr SendAll_delivers [OF s]
    by (auto simp: SendFrame_def status_ok_def mk_status_def split: if_splits)
qed

section \<open>The server's answer to a snapshot\<close>

definition snapshot_answer :: "NdoTime \<Rightarrow> SessionContext \<Rightarrow> ObservationSnapshot \<Rightarrow> ObservationServer \<Rightarrow> AckPayload" where
  "snapshot_answer now cx s sv =
     (let ack = blank_ack\<lparr>ak_sequence := sn_sequence s, ak_snapshot := sn_snapshot_id s\<rparr>
      in case session_refusal cx s of
           Some (reason, detail, stale) \<Rightarrow> ack\<lparr>ak_reason := reason, ak_detail := detail\<rparr>
         | None \<Rightarrow>
             (case fst (FenceSnapshot (sn_source s) (sn_epoch s) (sn_incarnation s) (sn_sequence s) (Snapshot_ComputeContentDigest s) (sv_fences sv)) of
                Some reason \<Rightarrow> ack\<lparr>ak_reason := reason, ak_detail := ''the snapshot was fenced by the transport authority''\<rparr>
              | None \<Rightarrow>
                  (case IngestObservation s now (sv_observatory sv) of
                     (status, admission, ob) \<Rightarrow>
                       ack\<lparr>ak_accepted := status_ok status, ak_reason := (if status_ok status then RC_None else st_reason status),
                           ak_detail := st_detail status, ak_snapshot := oa_snapshot admission\<rparr>)))"

definition lets_through :: "SessionContext \<Rightarrow> ObservationSnapshot \<Rightarrow> ObservationServer \<Rightarrow> bool" where
  "lets_through cx s sv \<longleftrightarrow>
     session_refusal cx s = None \<and>
     fst (FenceSnapshot (sn_source s) (sn_epoch s) (sn_incarnation s) (sn_sequence s) (Snapshot_ComputeContentDigest s) (sv_fences sv)) = None"

lemma snapshot_answer_accepts:
  "ak_accepted (snapshot_answer now cx s sv) \<longleftrightarrow>
     lets_through cx s sv \<and> status_ok (fst (IngestObservation s now (sv_observatory sv)))"
  by (auto simp: snapshot_answer_def lets_through_def blank_ack_def Let_def split: option.splits prod.splits)

lemma acknowledge_delivers:
  assumes "acknowledge_frame tc type ack c cx so sv = (st, cx', so', sv')" "\<And>k. ss_frames_sent (c k) = ss_frames_sent k"
    and "ss_frames_sent (sv_stats sv') = ss_frames_sent (sv_stats sv) + 1"
  shows "\<exists>frame. EncodeFrame type 0 0 (WriteCanonicalJson tc (EncodeAck ack)) (sv_limits sv) = Inr frame \<and> so_sent so' = so_sent so @ frame"
proof -
  obtain st1 so1 sv1 where f: "SendFrame tc type 0 0 (EncodeAck ack) so sv = (st1, so1, sv1)" by (metis prod_cases3)
  then have "so' = so1" "sv' = count_stat c sv1" using assms(1) by (simp_all add: acknowledge_frame_def)
  then show ?thesis using SendFrame_delivers [OF f] assms(2,3) by simp
qed

lemma HandleSnapshot_passed:
  assumes "HandleSnapshot tc fc now payload cx so sv = (st, cx', so', sv')"
    and "bindr (ParseJson fc (sv_limits sv) (text_of_bytes payload)) (DecodeObservationDocument (sv_limits sv)) = Inr s"
    and "lets_through cx s sv"
  shows "\<exists>sv1. SendFrame tc FT_SnapshotAck 0 0 (EncodeAck (snapshot_answer now cx s sv)) so sv1 = (st, so', sv') \<and>
    sv_limits sv1 = sv_limits sv \<and> ss_frames_sent (sv_stats sv1) = ss_frames_sent (sv_stats sv) \<and>
    sv_observatory sv1 = snd (snd (IngestObservation s now (sv_observatory sv)))"
proof -
  obtain fences where f: "FenceSnapshot (sn_source s) (sn_epoch s) (sn_incarnation s) (sn_sequence s)
      (Snapshot_ComputeContentDigest s) (sv_fences sv) = (None, fences)"
    using assms(3) by (auto simp: lets_through_def prod_eq_iff)
  obtain ist adm ob where i: "IngestObservation s now (sv_observatory sv) = (ist, adm, ob)" by (metis prod_cases3)
  let ?counted = "count_stat (\<lambda>k. if status_ok ist then k\<lparr>ss_snapshots_admitted := ss_snapshots_admitted k + 1\<rparr>
      else k\<lparr>ss_snapshots_refused := ss_snapshots_refused k + 1\<rparr>) (sv\<lparr>sv_fences := fences, sv_observatory := ob\<rparr>)"
  have "SendFrame tc FT_SnapshotAck 0 0 (EncodeAck (snapshot_answer now cx s sv)) so ?counted = (st, so', sv')"
    using assms f i by (auto simp: HandleSnapshot_def snapshot_answer_def admit_snapshot_def lets_through_def Let_def split: prod.splits)
  then show ?thesis using i by (intro exI [of _ ?counted]) simp
qed

lemma HandleSnapshot_answers:
  assumes "HandleSnapshot tc fc now payload cx so sv = (st, cx', so', sv')"
    and "bindr (ParseJson fc (sv_limits sv) (text_of_bytes payload)) (DecodeObservationDocument (sv_limits sv)) = Inr s"
    and "ss_frames_sent (sv_stats sv') = ss_frames_sent (sv_stats sv) + 1"
  shows "(\<exists>frame. EncodeFrame FT_SnapshotAck 0 0 (WriteCanonicalJson tc (EncodeAck (snapshot_answer now cx s sv))) (sv_limits sv) = Inr frame \<and>
      so_sent so' = so_sent so @ frame) \<and>
    sv_observatory sv' = (if lets_through cx s sv then snd (snd (IngestObservation s now (sv_observatory sv))) else sv_observatory sv)"
proof -
  have count: "ss_frames_sent (count_refused b k) = ss_frames_sent k" for b k by (simp add: count_refused_def Let_def)
  obtain fenced fences where f: "FenceSnapshot (sn_source s) (sn_epoch s) (sn_incarnation s) (sn_sequence s)
      (Snapshot_ComputeContentDigest s) (sv_fences sv) = (fenced, fences)" by fastforce
  let ?ack = "snapshot_answer now cx s sv" and ?sv = "sv\<lparr>sv_fences := fences\<rparr>"
  consider (refused) reason detail stale where "session_refusal cx s = Some (reason, detail, stale)"
    | (fenced) reason where "session_refusal cx s = None" "fenced = Some reason"
    | (passed) "session_refusal cx s = None" "fenced = None"
    by (metis option.exhaust prod_cases3)
  then show ?thesis
  proof cases
    case refused
    then have "acknowledge_frame tc FT_SnapshotAck ?ack (count_refused stale) cx so sv = (st, cx', so', sv')"
      using assms(1,2) by (simp add: HandleSnapshot_def snapshot_answer_def Let_def)
    from acknowledge_delivers [OF this count assms(3)] acknowledge_frame_frame [OF this] refused show ?thesis
      by (simp add: lets_through_def stats_only_def)
  next
    case fenced
    then have h: "acknowledge_frame tc FT_SnapshotAck ?ack (count_refused True) cx so ?sv = (st, cx', so', sv')"
      using assms(1,2) f by (simp add: HandleSnapshot_def snapshot_answer_def Let_def)
    from acknowledge_delivers [OF h count] assms(3) acknowledge_frame_frame [OF h] fenced f show ?thesis
      by (simp add: lets_through_def stats_only_def)
  next
    case passed
    then have through: "lets_through cx s sv" using f by (simp add: lets_through_def)
    from HandleSnapshot_passed [OF assms(1,2) this] obtain sv1 where
      h: "SendFrame tc FT_SnapshotAck 0 0 (EncodeAck ?ack) so sv1 = (st, so', sv')" "sv_limits sv1 = sv_limits sv"
        "ss_frames_sent (sv_stats sv1) = ss_frames_sent (sv_stats sv)"
        "sv_observatory sv1 = snd (snd (IngestObservation s now (sv_observatory sv)))" by blast
    then show ?thesis using SendFrame_delivers [OF h(1)] SendFrame_frame [OF h(1)] assms(3) through by (simp add: stats_only_def)
  qed
qed

section \<open>One snapshot from end to end\<close>

text \<open>A frame a session reads and handles.\<close>

lemma session_step_handles:
  assumes "session_step dt tc fc now cx so sv = (go, cx', so', sv')" "so_open so" "stream so = frame @ rest"
    and "EncodeFrame type flags sequence payload (sv_limits sv) = Inr frame" "length payload < 2 ^ 32"
  shows "\<exists>so1 st. so_sent so1 = so_sent so \<and> so_open so1 \<and> so_sends so1 = so_sends so \<and>
    HandleFrame dt tc fc now (frame_header type flags sequence payload) (bytes_of_text payload) cx so1
      (count_stat (\<lambda>k. k\<lparr>ss_frames_received := ss_frames_received k + 1\<rparr>) sv) = (st, cx', so', sv')"
proof -
  obtain so1 where r: "ReadFrame_server (sv_limits sv) so = (Inr (frame_header type flags sequence payload, bytes_of_text payload), so1)"
    using ReadFrame_server_stream [OF assms(4,5,2,3)] by blast
  then have "so_sent so1 = so_sent so \<and> so_open so1 \<and> so_sends so1 = so_sends so"
    using ReadFrame_server_receives [OF r] assms(2) by (simp add: receives_def)
  then show ?thesis using assms(1) r by (auto simp: session_step_def Let_def split: prod.splits)
qed

lemma Publisher_SendFrame_sends:
  assumes "sendable tc fc (cc_limits (pb_config pb)) v" "SendAll frame (pb_socket pb) = (st, so)"
    and "EncodeFrame type flags (pb_frame_sequence pb + 1) (WriteCanonicalJson tc v) (cc_limits (pb_config pb)) = Inr frame"
  shows "Publisher_SendFrame tc type flags v pb = (st, pb\<lparr>pb_frame_sequence := pb_frame_sequence pb + 1, pb_socket := so\<rparr>)"
  using assms by (simp add: Publisher_SendFrame_def Let_def)

lemma await_document_reads:
  assumes "sendable tc fc (cc_limits (pb_config pb)) v" "so_open (pb_socket pb)" "stream (pb_socket pb) = frame @ rest"
    and "EncodeFrame type flags sequence (WriteCanonicalJson tc v) (cc_limits (pb_config pb)) = Inr frame"
  shows "\<exists>so. await_document fc pb = (Inr (frame_header type flags sequence (WriteCanonicalJson tc v), v), pb\<lparr>pb_socket := so\<rparr>)"
proof -
  have "length (WriteCanonicalJson tc v) < 2 ^ 32" using assms(1) by (simp add: sendable_def)
  from ReadFrame_client_stream [OF assms(4) this assms(2,3)] show ?thesis
    using assms(1) by (auto simp: await_document_def sendable_def ParseJson_Write Let_def)
qed

text \<open>
  C15. An acknowledgement tells the truth.  A connected client publishes a snapshot; the bytes it sends
  reach a session of a server with the same limits, which handles the frame and counts an answer as sent;
  and those bytes reach the client.  Then the client's call succeeds, and the acknowledgement it returns
  says accepted exactly when the session's authority and the fence let the snapshot through and the
  observatory ingested it, with its content address recomputed; the observatory is then the result of
  that ingestion, and it is unchanged when the transport refused the snapshot.
\<close>

theorem acknowledged_means_ingested:
  fixes s :: ObservationSnapshot
  defines "s' \<equiv> s\<lparr>sn_snapshot_id := ComputeSnapshotId s\<rparr>"
  assumes "connected pb" "sv_limits sv = cc_limits (pb_config pb)" "cx_handshaken cx" "so_open so"
    and "observation_formed (sv_limits sv) s'" "time_readable (sn_collected_at s)"
    and "sendable tc fc (sv_limits sv) (EncodeObservationDocument s')"
    and "sendable tc fc (sv_limits sv) (EncodeAck (snapshot_answer now cx (as_sent s') sv))"
    and "ack_ok (snapshot_answer now cx (as_sent s') sv)"
    and "EncodeFrame FT_Snapshot FrameFlags_ExpectResponse (pb_frame_sequence pb + 1)
           (WriteCanonicalJson tc (EncodeObservationDocument s')) (sv_limits sv) = Inr frame"
    and "SendAll frame (pb_socket pb) = (sent, client_so)" "status_ok sent"
    and "stream so = frame @ rest"
    and "session_step dt tc fc now cx so sv = (go, cx', so', sv')"
    and "ss_frames_sent (sv_stats sv') = ss_frames_sent (sv_stats sv) + 1"
    and "stream (pb_socket pb) = drop (length (so_sent so)) (so_sent so') @ behind"
  shows "\<exists>st ack pb'. Publish tc fc s ack0 pb = (st, s', ack, pb') \<and> status_ok st \<and> so_sent (pb_socket pb) @ frame = so_sent client_so \<and>
    (ak_accepted ack \<longleftrightarrow> lets_through cx (as_sent s') sv \<and> status_ok (fst (IngestObservation (as_sent s') now (sv_observatory sv)))) \<and>
    sv_observatory sv' =
      (if lets_through cx (as_sent s') sv then snd (snd (IngestObservation (as_sent s') now (sv_observatory sv))) else sv_observatory sv)"
proof -
  let ?limits = "sv_limits sv" and ?doc = "EncodeObservationDocument s'"
  let ?sv = "count_stat (\<lambda>k. k\<lparr>ss_frames_received := ss_frames_received k + 1\<rparr>) sv"
  let ?answer = "snapshot_answer now cx (as_sent s') sv"
  have same: "snapshot_answer now cx (as_sent s') ?sv = ?answer" "lets_through cx (as_sent s') ?sv = lets_through cx (as_sent s') sv"
    by (simp_all only: snapshot_answer_def lets_through_def count_stat_frame)
  have short: "length (WriteCanonicalJson tc ?doc) < 2 ^ 32" using assms(8) by (simp add: sendable_def)
  obtain so1 st1 where o: "so_sent so1 = so_sent so"
    and h: "HandleFrame dt tc fc now (frame_header FT_Snapshot FrameFlags_ExpectResponse (pb_frame_sequence pb + 1) (WriteCanonicalJson tc ?doc))
        (bytes_of_text (WriteCanonicalJson tc ?doc)) cx so1 ?sv = (st1, cx', so', sv')"
    using session_step_handles [OF assms(15,5,14,11) short] by blast
  have "time_readable (sn_collected_at s')" using assms(7) by (simp add: s'_def)
  then have decoded: "bindr (ParseJson fc (sv_limits ?sv) (text_of_bytes (bytes_of_text (WriteCanonicalJson tc ?doc))))
      (DecodeObservationDocument (sv_limits ?sv)) = Inr (as_sent s')"
    using assms(6,8) observation_codec.through_text [of ?limits "as_sent s'" tc fc ?limits] by (simp add: sendable_def)
  have "HandleSnapshot tc fc now (bytes_of_text (WriteCanonicalJson tc ?doc)) cx so1 ?sv = (st1, cx', so', sv')"
    using h assms(4) by (simp add: HandleFrame_def frame_header_def)
  from HandleSnapshot_answers [OF this decoded] assms(16) obtain answer where
    answer: "EncodeFrame FT_SnapshotAck 0 0 (WriteCanonicalJson tc (EncodeAck ?answer)) ?limits = Inr answer" "so_sent so' = so_sent so @ answer"
    and ob: "sv_observatory sv' =
      (if lets_through cx (as_sent s') sv then snd (snd (IngestObservation (as_sent s') now (sv_observatory sv))) else sv_observatory sv)"
    using o by (auto simp: same)
  let ?pb = "pb\<lparr>pb_frame_sequence := pb_frame_sequence pb + 1, pb_socket := client_so\<rparr>"
  have send: "Publisher_SendFrame tc FT_Snapshot FrameFlags_ExpectResponse ?doc pb = (sent, ?pb)"
    using Publisher_SendFrame_sends assms(3,8,11,12) by simp
  have client: "so_open client_so" "stream client_so = answer @ behind"
    using SendAll_frame [OF assms(12)] assms(2,17) answer(2) by (simp_all add: connected_def stream_def)
  obtain so2 where wait: "await_document fc ?pb =
      (Inr (frame_header FT_SnapshotAck 0 0 (WriteCanonicalJson tc (EncodeAck ?answer)), EncodeAck ?answer), ?pb\<lparr>pb_socket := so2\<rparr>)"
    using await_document_reads [of tc fc ?pb "EncodeAck ?answer" answer behind FT_SnapshotAck 0 0] assms(3,9) answer(1) client by auto
  have "DecodeAck (EncodeAck ?answer) = Inr ?answer" using assms(10) by (rule ack_codec.decode_encode)
  moreover have "status_ok (Snapshot_Validate ?limits s')" using assms(6) by (simp add: observation_formed_def)
  ultimately have "\<exists>pb'. Publish tc fc s ack0 pb = (Status_Ok, s', ?answer, pb')"
    using assms(2,3,13) send wait
    by (simp add: Publish_def s'_def ComputeSnapshotId_def decode_ack_into_def frame_header_def status_ok_def mk_status_def Let_def)
  moreover have "status_ok Status_Ok" by (simp add: status_ok_def mk_status_def)
  ultimately show ?thesis
    using ob snapshot_answer_accepts [of now cx "as_sent s'" sv] SendAll_delivers [OF assms(12,13)] by metis
qed

section \<open>An example\<close>

text \<open>The hexadecimal text of a digest is plain and a valid identity.\<close>

lemma hex_digits: "x \<in> set (ToHex b) \<Longrightarrow> x \<in> set kHexDigits"
proof -
  have "length kHexDigits = 16" by (simp add: kHexDigits_def)
  then show "x \<in> set (ToHex b) \<Longrightarrow> x \<in> set kHexDigits" using nibble_bounds by (auto simp: ToHex_def)
qed

lemma no_slash_components: "CHR ''/'' \<notin> set s \<Longrightarrow> components s = [s]"
  by (induction s) auto

lemma alnum_identity:
  assumes "list_all (\<lambda>c. IsAlnum c \<and> \<not> IsIdentitySeparator c \<and> c \<noteq> BACKSLASH \<and> \<not> is_control c) t"
    and "2 < length t" "length t \<le> kMaxIdentityLength"
  shows "IsValidIdentityText t"
proof -
  have "t \<noteq> []" "t \<noteq> ''.''" "t \<noteq> ''..''" using assms(2) by auto
  moreover have "\<not> IsIdentitySeparator c" if "c \<in> set t" for c using assms(1) that by (simp add: list_all_iff)
  moreover from this have "CHR ''/'' \<notin> set t" "CHR ''.'' \<notin> set t" "CHR ''-'' \<notin> set t" by (fastforce simp: IsIdentitySeparator_def)+
  moreover from this have "hd t \<noteq> CHR ''/''" "hd t \<noteq> CHR ''.''" "hd t \<noteq> CHR ''-''" using hd_in_set [OF \<open>t \<noteq> []\<close>] by metis+
  moreover have "last t \<in> set t" using \<open>t \<noteq> []\<close> by simp
  ultimately show ?thesis
    using assms(1,3) no_slash_components [of t] by (auto simp: IsValidIdentityText_def list_all_iff)
qed

lemma digest_text:
  assumes "length d = kDigestBytes"
  shows "plain_text (Digest_ToHex d)" "length (Digest_ToHex d) = 64" "IsValidIdentityText (Digest_ToHex d)"
proof -
  have all: "list_all P (Digest_ToHex d)" if "list_all P kHexDigits" for P
    using that hex_digits by (auto simp: list_all_iff Digest_ToHex_def)
  show len: "length (Digest_ToHex d) = 64" using assms by (simp add: Digest_ToHex_def kDigestBytes_def)
  show "plain_text (Digest_ToHex d)" unfolding plain_text_def by (rule all) (simp add: kHexDigits_def QUOTE_def ESCAPE_def)
  have "list_all (\<lambda>c. IsAlnum c \<and> \<not> IsIdentitySeparator c \<and> c \<noteq> BACKSLASH \<and> \<not> is_control c) kHexDigits" by code_simp
  from alnum_identity [OF all [OF this]] len show "IsValidIdentityText (Digest_ToHex d)" by (simp add: kMaxIdentityLength_def)
qed

lemma example_digest_length: "length (Snapshot_ComputeContentDigest example_snapshot) = kDigestBytes"
proof -
  have "\<exists>m. Snapshot_ComputeContentDigest example_snapshot = sha256 m"
    by (simp add: Snapshot_ComputeContentDigest_def example_snapshot_def Let_def Sha256_new_absorbed stream_simps
        Final_absorbed sort_unique_def; blast)
  then show ?thesis using length_sha256 by auto
qed

definition example_context :: SessionContext where
  "example_context = (new_context 1)\<lparr>cx_source := ''src'', cx_epoch := 1, cx_incarnation := 1, cx_handshaken := True\<rparr>"

definition running_server :: ObservationServer where
  "running_server = ObservationServer_new example_running default_limits"

definition example_client :: "bytes \<Rightarrow> ObservationPublisher" where
  "example_client incoming =
     (ObservationPublisher_new
       \<lparr>cc_host = [], cc_port = 9000, cc_source = ''src'', cc_epoch = 1, cc_incarnation = 1, cc_start_sequence = 1,
        cc_capabilities = default_capabilities, cc_provenance = [], cc_limits = default_limits\<rparr>)
       \<lparr>pb_socket := \<lparr>so_open = True, so_incoming = [RX_Data incoming], so_sends = [(2147483647, [])], so_sent = []\<rparr>,
        pb_handshaken := True\<rparr>"

text \<open>The example's observation is ingested, and the answer says so.\<close>

lemma example_ingested:
  "\<exists>adm ob. IngestObservation (as_sent admitted_snapshot) 2000 example_running = (Status_Ok, adm, ob) \<and>
     oa_snapshot adm = ComputeSnapshotId example_snapshot"
proof -
  have "status_ok (Snapshot_Validate default_limits (admitted_snapshot\<lparr>sn_received_at := 2000\<rparr>))"
    using admitted_snapshot_valid by (simp add: Snapshot_Validate_as_sent)
  then show ?thesis
    by (simp add: IngestObservation_def as_sent_def not_admitting_def example_running_def Observatory_new_def example_config_def
        RecordObservation_def ledger_with_def FindingLedger_def blank_admission_def Let_def status_ok_def mk_status_def admitted_snapshot_def)
qed

lemma example_lets_through: "lets_through example_context (as_sent admitted_snapshot) running_server"
  by (simp add: lets_through_def session_refusal_def example_context_def new_context_def as_sent_def admitted_snapshot_def
      example_snapshot_def running_server_def ObservationServer_new_def FenceSnapshot_def fence_of_def blank_fence_def Let_def)

lemma example_answer_to_snapshot:
  "snapshot_answer 2000 example_context (as_sent admitted_snapshot) running_server =
     blank_ack\<lparr>ak_accepted := True, ak_sequence := 1, ak_snapshot := ComputeSnapshotId example_snapshot\<rparr>"
  using example_ingested example_lets_through
  by (auto simp: snapshot_answer_def lets_through_def running_server_def ObservationServer_new_def status_ok_def mk_status_def
      blank_ack_def as_sent_def admitted_snapshot_def example_snapshot_def Let_def)

lemma example_answer_sent:
  "sendable (\<lambda>_. None) (\<lambda>_. None) default_limits
     (EncodeAck (snapshot_answer 2000 example_context (as_sent admitted_snapshot) running_server))"
  "ack_ok (snapshot_answer 2000 example_context (as_sent admitted_snapshot) running_server)"
proof -
  note hex = digest_text [OF example_digest_length, folded ComputeSnapshotId_def]
  show "sendable (\<lambda>_. None) (\<lambda>_. None) default_limits
      (EncodeAck (snapshot_answer 2000 example_context (as_sent admitted_snapshot) running_server))"
    unfolding example_answer_to_snapshot
    using plain_utf8 [OF hex(1)] plain_quote [OF hex(1)] hex(2)
    by (simp add: sendable_def blank_ack_def none_text document_simps)
  show "ack_ok (snapshot_answer 2000 example_context (as_sent admitted_snapshot) running_server)"
    using hex(3) by (simp add: example_answer_to_snapshot ack_ok_def)
qed

lemma SendAll_whole:
  assumes "so_open so" "so_sends so = (k, e) # r" "length data \<le> nat k" "length data \<le> kMaxChunk" "data \<noteq> []" "0 < k"
  shows "SendAll data so = (Status_Ok, so\<lparr>so_sends := r, so_sent := so_sent so @ data\<rparr>)"
  using assms send_loop_whole [of "(k, e)" data r "so_sent so"] by (simp add: SendAll_def)

lemma example_snapshot_sent:
  "sendable (\<lambda>_. None) (\<lambda>_. None) default_limits (EncodeObservationDocument admitted_snapshot)"
proof -
  have "length (WriteCanonicalJson (\<lambda>_. None) (EncodeObservationDocument admitted_snapshot)) \<le> 1000"
    by (simp add: EncodeObservationDocument_def admitted_snapshot_def example_snapshot_def example_times
        ToText_ObservationCoverage_def kCoverageNames_def written_simps)
  then show ?thesis using example_documents_writable(2) by (simp add: sendable_def default_limits_def)
qed

text \<open>A session that receives the example's frame answers it.\<close>

lemma example_answered:
  assumes "EncodeFrame FT_Snapshot FrameFlags_ExpectResponse 1
      (WriteCanonicalJson (\<lambda>_. None) (EncodeObservationDocument admitted_snapshot)) default_limits = Inr frame"
    and "session_step dt (\<lambda>_. None) (\<lambda>_. None) 2000 example_context
      \<lparr>so_open = True, so_incoming = [RX_Data frame], so_sends = [(2147483647, [])], so_sent = []\<rparr> running_server = (go, cx', so', sv')"
  shows "ss_frames_sent (sv_stats sv') = ss_frames_sent (sv_stats running_server) + 1"
proof -
  let ?doc = "EncodeObservationDocument admitted_snapshot" and ?tc = "\<lambda>_. None"
  let ?so = "\<lparr>so_open = True, so_incoming = [RX_Data frame], so_sends = [(2147483647, [])], so_sent = []\<rparr>"
  let ?sv = "count_stat (\<lambda>k. k\<lparr>ss_frames_received := ss_frames_received k + 1\<rparr>) running_server"
  let ?answer = "snapshot_answer 2000 example_context (as_sent admitted_snapshot) ?sv"
  have lim: "sv_limits running_server = default_limits" by (simp add: running_server_def ObservationServer_new_def)
  have same: "?answer = snapshot_answer 2000 example_context (as_sent admitted_snapshot) running_server"
    "lets_through example_context (as_sent admitted_snapshot) ?sv"
    using example_lets_through by (simp_all only: snapshot_answer_def lets_through_def count_stat_frame)
  have short: "length (WriteCanonicalJson ?tc ?doc) < 2 ^ 32" using example_snapshot_sent by (simp add: sendable_def)
  have "frame \<noteq> []" using frame_split(2) [OF assms(1) short] by (auto simp: kFrameHeaderBytes_def)
  then have "stream ?so = frame @ []" by (simp add: stream_def)
  from session_step_handles [OF assms(2) _ this _ short] assms(1) lim obtain so1 st where so1: "so_open so1" "so_sends so1 = [(2147483647, [])]"
    and h: "HandleFrame dt ?tc (\<lambda>_. None) 2000 (frame_header FT_Snapshot FrameFlags_ExpectResponse 1 (WriteCanonicalJson ?tc ?doc))
      (bytes_of_text (WriteCanonicalJson ?tc ?doc)) example_context so1 ?sv = (st, cx', so', sv')"
    by fastforce
  have "HandleSnapshot ?tc (\<lambda>_. None) 2000 (bytes_of_text (WriteCanonicalJson ?tc ?doc)) example_context so1 ?sv = (st, cx', so', sv')"
    using h by (simp add: HandleFrame_def frame_header_def example_context_def)
  from HandleSnapshot_passed [OF this _ same(2)] example_documents_accepted(1) lim obtain sv1 where
    f: "SendFrame ?tc FT_SnapshotAck 0 0 (EncodeAck ?answer) so1 sv1 = (st, so', sv')" "sv_limits sv1 = default_limits"
      "ss_frames_sent (sv_stats sv1) = ss_frames_sent (sv_stats running_server)"
    by (auto simp: ParseObservationJson_def)
  have send: "sendable ?tc (\<lambda>_. None) default_limits (EncodeAck ?answer)" using example_answer_sent(1) same(1) by simp
  obtain answer where a: "EncodeFrame FT_SnapshotAck 0 0 (WriteCanonicalJson ?tc (EncodeAck ?answer)) default_limits = Inr answer"
    using send by (simp add: EncodeFrame_def sendable_def)
  have "answer \<noteq> [] \<and> length answer \<le> 2147483647"
    using a send by (auto simp: EncodeFrame_def sendable_def default_limits_def kFrameMagic_def bytes_of_text_def split: if_splits)
  then have "SendAll answer so1 = (Status_Ok, so1\<lparr>so_sends := [], so_sent := so_sent so1 @ answer\<rparr>)"
    using so1 by (intro SendAll_whole [where k = 2147483647 and e = "[]"]) (simp_all add: kMaxChunk_def)
  then have "status_ok st" using f(1,2) a by (auto simp: SendFrame_def status_ok_def mk_status_def)
  then show ?thesis using SendFrame_delivers [OF f(1)] f(3) by simp
qed

theorem acknowledged_means_ingested_witness:
  "\<exists>pb st ack pb'. connected pb \<and>
     Publish (\<lambda>_. None) (\<lambda>_. None) example_snapshot blank_ack pb = (st, admitted_snapshot, ack, pb') \<and> status_ok st \<and> ak_accepted ack"
proof -
  let ?tc = "\<lambda>_. None" and ?doc = "EncodeObservationDocument admitted_snapshot"
  obtain frame where frame: "EncodeFrame FT_Snapshot FrameFlags_ExpectResponse 1 (WriteCanonicalJson ?tc ?doc) default_limits = Inr frame"
    using example_snapshot_sent by (simp add: EncodeFrame_def sendable_def)
  have size: "frame \<noteq> [] \<and> length frame \<le> 2147483647"
    using frame example_snapshot_sent
    by (auto simp: EncodeFrame_def sendable_def default_limits_def kFrameMagic_def bytes_of_text_def split: if_splits)
  let ?so = "\<lparr>so_open = True, so_incoming = [RX_Data frame], so_sends = [(2147483647, [])], so_sent = []\<rparr>"
  obtain go cx' so' sv' where step:
    "session_step (\<lambda>_. []) ?tc ?tc 2000 example_context ?so running_server = (go, cx', so', sv')" by (metis prod_cases4)
  let ?pb = "example_client (so_sent so')"
  have pb: "connected ?pb" "cc_limits (pb_config ?pb) = default_limits" "pb_frame_sequence ?pb = 0"
    by (simp_all add: example_client_def ObservationPublisher_new_def connected_def)
  have lim: "sv_limits running_server = default_limits" by (simp add: running_server_def ObservationServer_new_def)
  have sent: "SendAll frame (pb_socket ?pb) = (Status_Ok, (pb_socket ?pb)\<lparr>so_sends := [], so_sent := so_sent (pb_socket ?pb) @ frame\<rparr>)"
    using size by (intro SendAll_whole [where k = 2147483647 and e = "[]"]) (simp_all add: example_client_def kMaxChunk_def)
  have same: "example_snapshot\<lparr>sn_snapshot_id := ComputeSnapshotId example_snapshot\<rparr> = admitted_snapshot" by (simp add: admitted_snapshot_def)
  have "stream ?so = frame @ []" using size by (simp add: stream_def)
  moreover have "stream (pb_socket ?pb) = drop (length (so_sent ?so)) (so_sent so') @ []" by (simp add: stream_def example_client_def)
  moreover have "time_readable (sn_collected_at example_snapshot)" by (simp add: time_readable_def example_snapshot_def)
  moreover have "cx_handshaken example_context" by (simp add: example_context_def)
  ultimately obtain st ack pb' where "Publish ?tc ?tc example_snapshot blank_ack ?pb = (st, admitted_snapshot, ack, pb')" "status_ok st"
    "ak_accepted ack \<longleftrightarrow> lets_through example_context (as_sent admitted_snapshot) running_server \<and>
       status_ok (fst (IngestObservation (as_sent admitted_snapshot) 2000 (sv_observatory running_server)))"
    using acknowledged_means_ingested [where s = example_snapshot and pb = ?pb and sv = running_server and cx = example_context and so = ?so
        and tc = ?tc and fc = ?tc and now = 2000 and frame = frame and dt = "\<lambda>_. []" and ?ack0.0 = blank_ack and rest = "[]" and behind = "[]", unfolded same, OF pb(1) _ _ _ _ _ _ _ _ _ sent _ _ step
        example_answered [OF frame step]] pb(2,3) lim frame example_documents_formed(3) example_snapshot_sent example_answer_sent
    by (auto simp: status_ok_def mk_status_def)
  moreover have "sv_observatory running_server = example_running" by (simp add: running_server_def ObservationServer_new_def)
  ultimately show ?thesis
    using example_lets_through example_ingested pb(1) by (auto simp: status_ok_def mk_status_def)
qed

section \<open>The answer to a greeting\<close>

text \<open>The bytes of a frame whose header declares a given checksum.\<close>

definition frame_bytes :: "FrameType \<Rightarrow> u16 \<Rightarrow> u64 \<Rightarrow> string \<Rightarrow> u32 \<Rightarrow> bytes" where
  "frame_bytes type flags sequence payload checksum =
     kFrameMagic @ AppendU16 kWireProtocolVersion @ AppendU16 (of_nat (frame_value type)) @ AppendU16 flags @ AppendU16 0 @
     AppendU32 (of_nat (length payload)) @ AppendU32 checksum @ AppendU64 sequence @ bytes_of_text payload"

lemma frame_bytes_decodes:
  assumes "length payload \<le> max_wire_payload_bytes limits" "length payload < 2 ^ 32"
  shows "DecodeFrameHeader (take kFrameHeaderBytes (frame_bytes type flags sequence payload checksum)) limits =
      Inr ((frame_header type flags sequence payload)\<lparr>fh_checksum := checksum\<rparr>)"
    and "frame_bytes type flags sequence payload checksum =
      take kFrameHeaderBytes (frame_bytes type flags sequence payload checksum) @ bytes_of_text payload"
    and "length (take kFrameHeaderBytes (frame_bytes type flags sequence payload checksum)) = kFrameHeaderBytes"
proof -
  let ?head = "kFrameMagic @ AppendU16 kWireProtocolVersion @ AppendU16 (of_nat (frame_value type)) @ AppendU16 flags @ AppendU16 0 @
    AppendU32 (of_nat (length payload)) @ AppendU32 checksum @ AppendU64 sequence"
  have len: "length ?head = kFrameHeaderBytes" by (simp add: kFrameHeaderBytes_def)
  have head: "take kFrameHeaderBytes (frame_bytes type flags sequence payload checksum) = ?head"
    unfolding frame_bytes_def by (simp flip: len)
  have "unat (of_nat (length payload) :: u32) = length payload" using assms(2) by (simp add: unsigned_of_nat take_bit_nat_eq_self)
  then show "DecodeFrameHeader (take kFrameHeaderBytes (frame_bytes type flags sequence payload checksum)) limits =
      Inr ((frame_header type flags sequence payload)\<lparr>fh_checksum := checksum\<rparr>)"
    unfolding head using assms(1) len
    by (simp add: DecodeFrameHeader_def frame_header_def Let_def ReadU32_Append [of _ "[]", simplified]
        ReadU64_Append [of _ "[]", simplified])
  show "frame_bytes type flags sequence payload checksum =
      take kFrameHeaderBytes (frame_bytes type flags sequence payload checksum) @ bytes_of_text payload"
    unfolding head by (simp add: frame_bytes_def)
  show "length (take kFrameHeaderBytes (frame_bytes type flags sequence payload checksum)) = kFrameHeaderBytes"
    unfolding head by (rule len)
qed

lemma ReadFrame_into_stream:
  assumes "length payload \<le> max_wire_payload_bytes limits" "length payload < 2 ^ 32"
    and "so_open so" "stream so = frame_bytes type flags sequence payload checksum @ rest"
  shows "\<exists>so'. so_open so' \<and> ReadFrame_into limits so =
    (VerifyFramePayload ((frame_header type flags sequence payload)\<lparr>fh_checksum := checksum\<rparr>) (bytes_of_text payload),
     (frame_header type flags sequence payload)\<lparr>fh_checksum := checksum\<rparr>, bytes_of_text payload, so')"
proof -
  note d = frame_bytes_decodes [OF assms(1,2), of type flags sequence checksum]
  have "stream so = take kFrameHeaderBytes (frame_bytes type flags sequence payload checksum) @ bytes_of_text payload @ rest"
    using assms(4) d(2) by (metis append.assoc)
  from receive_loop_stream [OF assms(3) this d(3)] obtain s where
    s: "ReceiveExact kFrameHeaderBytes so = (Inr (take kFrameHeaderBytes (frame_bytes type flags sequence payload checksum)), s)"
      "stream s = bytes_of_text payload @ rest" "so_open s"
    unfolding ReceiveExact_def by blast
  have size: "unat (fh_payload_bytes (frame_header type flags sequence payload)) = length payload"
    using assms(2) by (simp add: frame_header_def unsigned_of_nat take_bit_nat_eq_self)
  obtain so' where "ReceiveExact (length payload) s = (Inr (bytes_of_text payload), so')" "so_open so'"
    using receive_loop_stream [OF s(3,2)] unfolding ReceiveExact_def by fastforce
  then show ?thesis using s(1) d(1) size by (simp add: ReadFrame_into_def Let_def)
qed

text \<open>
  C40. A damaged answer to the greeting is accepted.  When the greeting is sent and the server's answer
  arrives with any checksum whatever, also one that does not match and that the reader reports, the
  client completes the handshake with the content of that answer: after a failed read it goes on as long
  as some payload has been received.
\<close>

theorem handshake_checksum_ignored:
  assumes "IsValidIdentityText (cc_source (pb_config pb))" "uint_is_set (cc_epoch (pb_config pb))"
    and "uint_is_set (cc_incarnation (pb_config pb))" "cc_port (pb_config pb) \<noteq> 0"
    and "EncodeFrame FT_Hello 0 (pb_frame_sequence pb + 1) (WriteCanonicalJson tc (EncodeHello (client_hello (pb_config pb))))
           (cc_limits (pb_config pb)) = Inr hello_frame"
    and "SendAll hello_frame so = (sent, so1)" "status_ok sent" "so_open so"
    and "sendable tc fc (cc_limits (pb_config pb)) (EncodeHelloAck answer)" "ha_accepted answer"
    and "stream so = frame_bytes FT_HelloAck flags sequence (WriteCanonicalJson tc (EncodeHelloAck answer)) checksum @ rest"
  shows "(\<exists>pb'. Connect tc fc (Inr so) pb = (Status_Ok, pb') \<and> connected pb' \<and> pb_handshake pb' = answer) \<and>
    (status_ok (fst (ReadFrame_into (cc_limits (pb_config pb)) so1)) \<longleftrightarrow>
       checksum = Crc32 (bytes_of_text (WriteCanonicalJson tc (EncodeHelloAck answer))))"
proof -
  let ?t = "WriteCanonicalJson tc (EncodeHelloAck answer)" and ?limits = "cc_limits (pb_config pb)"
  let ?h = "(frame_header FT_HelloAck flags sequence ?t)\<lparr>fh_checksum := checksum\<rparr>"
  have t: "length ?t \<le> max_wire_payload_bytes ?limits" "length ?t < 2 ^ 32" "ParseJson fc ?limits ?t = Inr (EncodeHelloAck answer)"
    using assms(9) by (simp_all add: sendable_def ParseJson_Write)
  have "?t \<noteq> []" by (simp add: WriteCanonicalJson_def EncodeHelloAck_def)
  have "so_open so1" "stream so1 = frame_bytes FT_HelloAck flags sequence ?t checksum @ rest"
    using SendAll_frame [OF assms(6)] assms(8,11) by (simp_all add: stream_def)
  from ReadFrame_into_stream [OF t(1,2) this] obtain so2 where so2: "so_open so2"
    and r: "ReadFrame_into ?limits so1 = (VerifyFramePayload ?h (bytes_of_text ?t), ?h, bytes_of_text ?t, so2)" by blast
  have "cc_source (pb_config pb) \<noteq> []" using assms(1) StringId_nonempty by blast
  moreover have "Publisher_SendFrame tc FT_Hello 0 (EncodeHello (client_hello (pb_config pb))) (pb\<lparr>pb_socket := so\<rparr>) =
      (sent, pb\<lparr>pb_frame_sequence := pb_frame_sequence pb + 1, pb_socket := so1\<rparr>)"
    using assms(5,6) by (simp add: Publisher_SendFrame_def Let_def)
  moreover have "bytes_of_text ?t \<noteq> []" using \<open>?t \<noteq> []\<close> by (simp add: bytes_of_text_def)
  moreover have "settle_handshake fc ?h (bytes_of_text ?t) pb1 =
      (Status_Ok, pb1\<lparr>pb_handshake := answer, pb_next_sequence := cc_start_sequence (pb_config pb1), pb_handshaken := True\<rparr>)"
    if "cc_limits (pb_config pb1) = ?limits" for pb1
    using that t(3) assms(10) hello_ack_codec.decode_encode [of answer] by (simp add: settle_handshake_def frame_header_def Let_def)
  ultimately have "\<exists>pb'. Connect tc fc (Inr so) pb = (Status_Ok, pb') \<and> connected pb' \<and> pb_handshake pb' = answer"
    using assms(1-4,7) r so2 by (simp add: Connect_def connected_def Let_def)
  moreover have "status_ok (VerifyFramePayload ?h (bytes_of_text ?t)) \<longleftrightarrow> checksum = Crc32 (bytes_of_text ?t)"
    using t(2) by (auto simp: VerifyFramePayload_def frame_header_def status_ok_def mk_status_def unsigned_of_nat take_bit_nat_eq_self)
  ultimately show ?thesis using r by simp
qed

text \<open>An answer whose checksum is off by one, and the greeting it answers.\<close>

definition damaged_answer :: bytes where
  "damaged_answer =
     (let t = WriteCanonicalJson (\<lambda>_. None) (EncodeHelloAck example_answer) in frame_bytes FT_HelloAck 0 0 t (Crc32 (bytes_of_text t) + 1))"

lemma example_greeting_sent:
  "sendable (\<lambda>_. None) (\<lambda>_. None) default_limits (EncodeHello (client_hello (pb_config (example_client b))))"
  by (simp add: sendable_def example_client_def ObservationPublisher_new_def client_hello_def kVersionString_def document_simps)

theorem handshake_checksum_ignored_witness:
  "\<exists>so1 pb'. Connect (\<lambda>_. None) (\<lambda>_. None) (Inr (pb_socket (example_client damaged_answer))) (example_client []) = (Status_Ok, pb') \<and>
     connected pb' \<and> pb_handshake pb' = example_answer \<and> stream so1 = damaged_answer \<and> \<not> status_ok (fst (ReadFrame_into default_limits so1))"
proof -
  let ?pb = "example_client []" and ?so = "pb_socket (example_client damaged_answer)" and ?tc = "\<lambda>_. None"
  let ?t = "WriteCanonicalJson ?tc (EncodeHelloAck example_answer)"
  have c: "cc_limits (pb_config ?pb) = default_limits" "cc_source (pb_config ?pb) = ''src''" "uint_is_set (cc_epoch (pb_config ?pb))"
    "uint_is_set (cc_incarnation (pb_config ?pb))" "cc_port (pb_config ?pb) \<noteq> 0"
    by (simp_all add: example_client_def ObservationPublisher_new_def uint_is_set_def)
  obtain frame where f: "EncodeFrame FT_Hello 0 (pb_frame_sequence ?pb + 1) (WriteCanonicalJson ?tc (EncodeHello (client_hello (pb_config ?pb))))
      (cc_limits (pb_config ?pb)) = Inr frame"
    using example_greeting_sent [of "[]"] c(1) by (simp add: EncodeFrame_def sendable_def)
  have "frame \<noteq> [] \<and> length frame \<le> 2147483647"
    using f c(1) example_greeting_sent [of "[]"]
    by (auto simp: EncodeFrame_def sendable_def default_limits_def kFrameMagic_def bytes_of_text_def split: if_splits)
  then have sent: "SendAll frame ?so = (Status_Ok, ?so\<lparr>so_sends := [], so_sent := so_sent ?so @ frame\<rparr>)"
    by (intro SendAll_whole [where k = 2147483647 and e = "[]"]) (simp_all add: example_client_def kMaxChunk_def)
  have "damaged_answer \<noteq> []" by (simp add: damaged_answer_def frame_bytes_def kFrameMagic_def bytes_of_text_def Let_def)
  then have str: "stream ?so = frame_bytes FT_HelloAck 0 0 ?t (Crc32 (bytes_of_text ?t) + 1) @ []"
    "stream (?so\<lparr>so_sends := [], so_sent := so_sent ?so @ frame\<rparr>) = damaged_answer"
    by (simp_all add: stream_def example_client_def damaged_answer_def Let_def)
  have "IsValidIdentityText (cc_source (pb_config ?pb))" unfolding c(2) by code_simp
  from handshake_checksum_ignored [OF this c(3-5) f sent _ _ _ _ str(1)] example_answer_sendable c(1)
  show ?thesis
    by (intro exI [of _ "?so\<lparr>so_sends := [], so_sent := so_sent ?so @ frame\<rparr>"])
      (use str(2) in \<open>auto simp: example_answer_def status_ok_def mk_status_def example_client_def\<close>)
qed

end
