(* ===== verification/NDO_Policy_Json.thy ===== *)
theory NDO_Policy_Json
  imports NDO_Records
begin

text \<open>
  The policy document (\<^verbatim>\<open>EncodePolicy\<close> and \<^verbatim>\<open>DecodePolicy\<close> of \<^verbatim>\<open>policy.cpp\<close>): selectors, the four kinds of rules, the
  freshness block and the policy as a whole, checked in the order the code checks them.  The codec
  satisfies the contract of documents, and whatever it accepts is a valid policy that it writes back.
\<close>

section \<open>Encoding\<close>

text \<open>A member that is written only when there is a value.\<close>

definition given :: "string \<Rightarrow> Value option \<Rightarrow> members" where
  "given name v = (case v of None \<Rightarrow> [] | Some x \<Rightarrow> [(name, x)])"

definition EncodeSelector :: "PolicySelector \<Rightarrow> members" where
  "EncodeSelector s =
     given ''target'' (map_option V_String (ps_target s)) @ given ''object'' (map_option V_String (ps_object s)) @
     given ''path_prefix'' (map_option (\<lambda>p. V_String (FieldPath_ToText p)) (ps_path_prefix s))"

definition encode_severity_rule :: "SeverityRule \<Rightarrow> Value" where
  "encode_severity_rule r =
     V_Map (members_of (EncodeSelector (sr_selector r) @
       given ''class'' (map_option (\<lambda>k. V_String (ToText_DriftClass k)) (sr_klass r)) @
       given ''min_severity'' (map_option (\<lambda>v. V_String (ToText_Severity v)) (sr_min_severity r)) @
       [(''severity'', V_String (ToText_Severity (sr_severity r)))]))"

definition encode_freshness_rule :: "FreshnessRule \<Rightarrow> Value" where
  "encode_freshness_rule r = V_Map (members_of (EncodeSelector (fr_selector r) @ [(''ttl_nanos'', V_Int (fr_ttl_nanos r))]))"

definition encode_field_class_rule :: "FieldClassRule \<Rightarrow> Value" where
  "encode_field_class_rule r =
     V_Map (members_of (EncodeSelector (fc_selector r) @
       [(''comparability'', V_String (ToText_FieldComparability (fc_comparability r)))]))"

definition encode_suppression_rule :: "SuppressionRule \<Rightarrow> Value" where
  "encode_suppression_rule r =
     V_Map (members_of (EncodeSelector (su_selector r) @ [(''id'', V_String (su_id r))] @
       given ''class'' (map_option (\<lambda>k. V_String (ToText_DriftClass k)) (su_klass r)) @
       given ''min_severity'' (map_option (\<lambda>v. V_String (ToText_Severity v)) (su_min_severity r)) @
       [(''author'', V_String (su_author r)), (''reason'', V_String (su_reason r)),
        (''created_at'', V_String (FormatTime (su_created_at r)))] @
       given ''expires_at'' (map_option (\<lambda>t. V_String (FormatTime t)) (su_expires_at r))))"

definition encode_policy_freshness :: "FreshnessPolicy \<Rightarrow> Value" where
  "encode_policy_freshness f =
     V_Map (members_of
       [(''ttl_nanos'', V_Int (fp_ttl_nanos f)), (''aging_threshold_percent'', V_Int (fp_aging_threshold_percent f)),
        (''max_clock_skew_nanos'', V_Int (fp_max_clock_skew_nanos f)),
        (''ttl_applies_to_receive_time'', V_Bool (fp_ttl_applies_to_receive_time f))])"

definition equivalence_text :: "NumericEquivalence \<Rightarrow> string" where
  "equivalence_text e = (if e = NE_Exact then ''exact'' else ''numeric'')"

definition policy_members :: "ObservatoryPolicy \<Rightarrow> members" where
  "policy_members p =
     [(''schema'', V_String ''ndo/policy/1''), (''id'', V_String (po_id p)),
      (''format_version'', MakeUint (ucast (po_format_version p))), (''freshness'', encode_policy_freshness (po_freshness p)),
      (''resolution_confirmations'', MakeUint (ucast (po_resolution_confirmations p))),
      (''require_complete_coverage_for_compliance'', V_Bool (po_require_complete_coverage p)),
      (''require_absence_authority'', V_Bool (po_require_absence_authority p)),
      (''numeric_equivalence'', V_String (equivalence_text (po_numeric_equivalence p))),
      (''default_severity'', V_String (ToText_Severity (po_default_severity p))),
      (''evidence'', V_String (ToText_EvidenceClass (po_evidence p))),
      (''severity_rules'', V_List (map encode_severity_rule (po_severity_rules p))),
      (''freshness_rules'', V_List (map encode_freshness_rule (po_freshness_rules p))),
      (''field_class_rules'', V_List (map encode_field_class_rule (po_field_class_rules p))),
      (''suppressions'', V_List (map encode_suppression_rule (po_suppressions p))),
      (''source_priority'', V_List (map V_String (po_source_priority p))),
      (''required_targets'', V_List (map V_String (po_required_targets p)))]"

definition EncodePolicy :: "ObservatoryPolicy \<Rightarrow> Value" where
  "EncodePolicy p = V_Map (members_of (policy_members p))"

section \<open>Decoding\<close>

abbreviation malformed :: "string \<Rightarrow> Status" where
  "malformed \<equiv> Status_Rejected RC_EncodingMalformed"

definition optional_given :: "string option \<Rightarrow> (string \<Rightarrow> 'a option) \<Rightarrow> Status \<Rightarrow> 'a option Result" where
  "optional_given t parse refusal =
     (case t of None \<Rightarrow> Inr None
      | Some s \<Rightarrow> (case parse s of None \<Rightarrow> Inl refusal | Some x \<Rightarrow> Inr (Some x)))"

definition DecodeSelector :: "RuntimeLimits \<Rightarrow> string \<Rightarrow> members \<Rightarrow> PolicySelector Result" where
  "DecodeSelector limits what m =
     bindr (CheckMemberKinds m [(''target'', MK_Text), (''object'', MK_Text), (''path_prefix'', MK_Text)] what) (\<lambda>_.
     bindr (optional_given (OptionalString m ''target'') StringId_TryParse
              (MemberError what ''target'' ''is not a valid identity'')) (\<lambda>target.
     bindr (optional_given (OptionalString m ''object'') StringId_TryParse
              (MemberError what ''object'' ''is not a valid identity'')) (\<lambda>object.
     bindr (optional_given (OptionalString m ''path_prefix'')
              (\<lambda>s. FieldPath_TryParse s (max_path_segments limits) (max_path_key_bytes limits))
              (MemberError what ''path_prefix'' ''is not a valid field path'')) (\<lambda>prefix.
     Inr \<lparr>ps_target = target, ps_object = object, ps_path_prefix = prefix\<rparr>))))"

definition decode_severity_rule :: "RuntimeLimits \<Rightarrow> Value \<Rightarrow> SeverityRule Result" where
  "decode_severity_rule limits v =
     bindr (require_element v ''policy: severity rule must be an object'') (\<lambda>m.
     bindr (CheckMembers m [''target'', ''object'', ''path_prefix'', ''class'', ''min_severity'', ''severity''] ''policy.severity_rule'') (\<lambda>_.
     bindr (CheckMemberKinds m [(''class'', MK_Text), (''min_severity'', MK_Text), (''severity'', MK_Text)] ''policy.severity_rule'') (\<lambda>_.
     bindr (DecodeSelector limits ''policy.severity_rule'' m) (\<lambda>selector.
     bindr (optional_given (OptionalString m ''class'') (\<lambda>s. TryParseDriftClass (c_str s))
              (malformed ''policy: severity rule class is unknown'')) (\<lambda>klass.
     bindr (optional_given (OptionalString m ''min_severity'') (\<lambda>s. TryParseSeverity (c_str s))
              (malformed ''policy: severity rule min_severity is unknown'')) (\<lambda>minimum.
     bindr (optional_parsed (OptionalString m ''severity'') (\<lambda>s. TryParseSeverity (c_str s))
              (malformed ''policy: severity is unknown'') SV_Medium) (\<lambda>severity.
     Inr \<lparr>sr_selector = selector, sr_klass = klass, sr_min_severity = minimum, sr_severity = severity\<rparr>)))))))"

definition decode_freshness_rule :: "RuntimeLimits \<Rightarrow> Value \<Rightarrow> FreshnessRule Result" where
  "decode_freshness_rule limits v =
     bindr (require_element v ''policy: freshness rule must be an object'') (\<lambda>m.
     bindr (CheckMembers m [''target'', ''object'', ''path_prefix'', ''ttl_nanos''] ''policy.freshness_rule'') (\<lambda>_.
     bindr (CheckMemberKinds m [(''ttl_nanos'', MK_Integer)] ''policy.freshness_rule'') (\<lambda>_.
     bindr (DecodeSelector limits ''policy.freshness_rule'' m) (\<lambda>selector.
     (case OptionalInt m ''ttl_nanos'' of
        None \<Rightarrow> Inl (malformed ''policy: freshness rule ttl is required'')
      | Some ttl \<Rightarrow>
          if ttl \<le> 0 then Inl (malformed ''policy: freshness rule ttl is required'')
          else Inr \<lparr>fr_selector = selector, fr_ttl_nanos = ttl\<rparr>)))))"

definition decode_field_class_rule :: "RuntimeLimits \<Rightarrow> Value \<Rightarrow> FieldClassRule Result" where
  "decode_field_class_rule limits v =
     bindr (require_element v ''policy: field class rule must be an object'') (\<lambda>m.
     bindr (CheckMembers m [''target'', ''object'', ''path_prefix'', ''comparability''] ''policy.field_class_rule'') (\<lambda>_.
     bindr (CheckMemberKinds m [(''comparability'', MK_Text)] ''policy.field_class_rule'') (\<lambda>_.
     bindr (DecodeSelector limits ''policy.field_class_rule'' m) (\<lambda>selector.
     (case OptionalString m ''comparability'' of
        None \<Rightarrow> Inl (malformed ''policy: comparability is required'')
      | Some s \<Rightarrow>
          (case TryParseFieldComparability (c_str s) of
             None \<Rightarrow> Inl (malformed ''policy: comparability is unknown'')
           | Some c \<Rightarrow> Inr \<lparr>fc_selector = selector, fc_comparability = c\<rparr>))))))"

definition policy_identity :: "members \<Rightarrow> string \<Rightarrow> string \<Rightarrow> string \<Rightarrow> string Result" where
  "policy_identity m name what refusal =
     bindr (RequireString m name what) (\<lambda>s.
       case StringId_TryParse s of None \<Rightarrow> Inl (malformed refusal) | Some i \<Rightarrow> Inr i)"

definition policy_time :: "members \<Rightarrow> string \<Rightarrow> string \<Rightarrow> string \<Rightarrow> NdoTime Result" where
  "policy_time m name what refusal =
     bindr (RequireString m name what) (\<lambda>s.
       case TryParseTime s of None \<Rightarrow> Inl (malformed refusal) | Some t \<Rightarrow> Inr t)"

definition decode_suppression_rule :: "RuntimeLimits \<Rightarrow> Value \<Rightarrow> SuppressionRule Result" where
  "decode_suppression_rule limits v =
     bindr (require_element v ''policy: suppression must be an object'') (\<lambda>m.
     bindr (CheckMembers m [''id'', ''target'', ''object'', ''path_prefix'', ''class'', ''min_severity'', ''author'', ''reason'',
              ''created_at'', ''expires_at''] ''policy.suppression'') (\<lambda>_.
     bindr (CheckMemberKinds m [(''id'', MK_Text), (''class'', MK_Text), (''min_severity'', MK_Text), (''author'', MK_Text),
              (''reason'', MK_Text), (''created_at'', MK_Text), (''expires_at'', MK_Text)] ''policy.suppression'') (\<lambda>_.
     bindr (DecodeSelector limits ''policy.suppression'' m) (\<lambda>selector.
     bindr (policy_identity m ''id'' ''policy.suppression'' ''policy: suppression id is invalid'') (\<lambda>sid.
     bindr (policy_identity m ''author'' ''policy.suppression'' ''policy: suppression author is invalid'') (\<lambda>author.
     bindr (RequireString m ''reason'' ''policy.suppression'') (\<lambda>reason.
     bindr (policy_time m ''created_at'' ''policy.suppression'' ''policy: suppression created_at is invalid'') (\<lambda>created_at.
     bindr (optional_given (OptionalString m ''expires_at'') TryParseTime
              (malformed ''policy: suppression expires_at is invalid'')) (\<lambda>expires_at.
     bindr (optional_given (OptionalString m ''class'') (\<lambda>s. TryParseDriftClass (c_str s))
              (malformed ''policy: suppression class is unknown'')) (\<lambda>klass.
     bindr (optional_given (OptionalString m ''min_severity'') (\<lambda>s. TryParseSeverity (c_str s))
              (malformed ''policy: suppression min_severity is unknown'')) (\<lambda>minimum.
     Inr \<lparr>su_id = sid, su_selector = selector, su_klass = klass, su_min_severity = minimum, su_author = author,
          su_reason = reason, su_created_at = created_at, su_expires_at = expires_at\<rparr>)))))))))))"

text \<open>An optional sequence of rules, bounded before any of them is read.\<close>

definition decode_rules :: "members \<Rightarrow> string \<Rightarrow> nat \<Rightarrow> (Value \<Rightarrow> 'a Result) \<Rightarrow> 'a list Result" where
  "decode_rules m name bound f =
     (case FindMember m name of
        None \<Rightarrow> Inr []
      | Some v \<Rightarrow>
          (case as_list v of
             None \<Rightarrow> Inl (malformed (''policy: '' @ name @ '' must be a sequence''))
           | Some l \<Rightarrow>
               if length l > bound then Inl (Status_Limit RC_LimitFieldsExceeded (''policy: '' @ name @ '' exceeds the envelope''))
               else traverse f l))"

definition decode_identity_entry :: "string \<Rightarrow> Value \<Rightarrow> string Result" where
  "decode_identity_entry what v =
     (case as_string v of
        None \<Rightarrow> Inl (malformed (''policy: '' @ what @ '' identity must be a string''))
      | Some s \<Rightarrow>
          (case StringId_TryParse s of
             None \<Rightarrow> Inl (malformed (''policy: '' @ what @ '' identity is invalid''))
           | Some i \<Rightarrow> Inr i))"

definition decode_identities :: "members \<Rightarrow> string \<Rightarrow> string \<Rightarrow> string list Result" where
  "decode_identities m name what =
     (case FindMember m name of
        None \<Rightarrow> Inr []
      | Some v \<Rightarrow>
          (case as_list v of
             None \<Rightarrow> Inl (malformed (''policy: '' @ name @ '' must be a sequence''))
           | Some l \<Rightarrow> traverse (decode_identity_entry what) l))"

definition decode_aging :: "members \<Rightarrow> int Result" where
  "decode_aging m =
     (case OptionalInt m ''aging_threshold_percent'' of
        None \<Rightarrow> Inr (fp_aging_threshold_percent default_freshness_policy)
      | Some aging \<Rightarrow>
          if aging < 0 \<or> aging > 100 then Inl (malformed ''policy.freshness: aging_threshold_percent is out of range'')
          else Inr aging)"

definition decode_policy_freshness :: "members \<Rightarrow> FreshnessPolicy Result" where
  "decode_policy_freshness m =
     bindr (CheckMembers m [''ttl_nanos'', ''aging_threshold_percent'', ''max_clock_skew_nanos'', ''ttl_applies_to_receive_time'']
              ''policy.freshness'') (\<lambda>_.
     bindr (CheckMemberKinds m [(''ttl_nanos'', MK_Integer), (''aging_threshold_percent'', MK_Integer),
              (''max_clock_skew_nanos'', MK_Integer), (''ttl_applies_to_receive_time'', MK_Boolean)] ''policy.freshness'') (\<lambda>_.
     (case OptionalInt m ''ttl_nanos'' of
        None \<Rightarrow> Inl (malformed ''policy.freshness: ttl_nanos is required'')
      | Some ttl \<Rightarrow>
          bindr (decode_aging m) (\<lambda>aging.
          Inr \<lparr>fp_ttl_nanos = ttl, fp_aging_threshold_percent = aging,
               fp_max_clock_skew_nanos =
                 or_else (OptionalInt m ''max_clock_skew_nanos'') (fp_max_clock_skew_nanos default_freshness_policy),
               fp_ttl_applies_to_receive_time =
                 or_else (OptionalBool m ''ttl_applies_to_receive_time'')
                   (fp_ttl_applies_to_receive_time default_freshness_policy)\<rparr>))))"

definition decode_policy_version :: "members \<Rightarrow> u16 Result" where
  "decode_policy_version m =
     bindr (RequireUint m ''format_version'' ''policy'') (\<lambda>version.
       if version > 0xFFFF then Inl (malformed ''policy: format version is out of range'')
       else if (ucast version :: u16) \<noteq> kPolicyFormatVersion
       then Inl (Status_Rejected RC_LedgerSchemaUnsupported ''policy: format version is not supported'')
       else Inr (ucast version))"

definition decode_required_confirmations :: "members \<Rightarrow> u32 Result" where
  "decode_required_confirmations m =
     (case OptionalUint m ''resolution_confirmations'' of
        None \<Rightarrow> Inr 1
      | Some n \<Rightarrow>
          if n = 0 \<or> n > 0xFFFFFFFF then Inl (malformed ''policy: resolution_confirmations is out of range'')
          else Inr (ucast n))"

definition parse_equivalence :: "string \<Rightarrow> NumericEquivalence option" where
  "parse_equivalence s = (if s = ''exact'' then Some NE_Exact else if s = ''numeric'' then Some NE_Numeric else None)"

definition policy_member_names :: "string list" where
  "policy_member_names =
     [''schema'', ''id'', ''format_version'', ''freshness'', ''resolution_confirmations'',
      ''require_complete_coverage_for_compliance'', ''require_absence_authority'', ''numeric_equivalence'', ''default_severity'',
      ''evidence'', ''severity_rules'', ''freshness_rules'', ''field_class_rules'', ''suppressions'', ''source_priority'',
      ''required_targets'']"

definition policy_member_kinds :: "(string \<times> MemberKind) list" where
  "policy_member_kinds =
     [(''id'', MK_Text), (''format_version'', MK_Integer), (''resolution_confirmations'', MK_Integer),
      (''require_complete_coverage_for_compliance'', MK_Boolean), (''require_absence_authority'', MK_Boolean),
      (''numeric_equivalence'', MK_Text), (''default_severity'', MK_Text), (''evidence'', MK_Text), (''severity_rules'', MK_Sequence),
      (''freshness_rules'', MK_Sequence), (''field_class_rules'', MK_Sequence), (''suppressions'', MK_Sequence),
      (''source_priority'', MK_Sequence), (''required_targets'', MK_Sequence)]"

definition decode_policy_rules :: "RuntimeLimits \<Rightarrow> members \<Rightarrow> ObservatoryPolicy \<Rightarrow> ObservatoryPolicy Result" where
  "decode_policy_rules limits m p =
     bindr (decode_rules m ''severity_rules'' kMaxPolicyRules (decode_severity_rule limits)) (\<lambda>severity_rules.
     bindr (decode_rules m ''freshness_rules'' kMaxPolicyRules (decode_freshness_rule limits)) (\<lambda>freshness_rules.
     bindr (decode_rules m ''field_class_rules'' kMaxPolicyRules (decode_field_class_rule limits)) (\<lambda>field_class_rules.
     bindr (decode_rules m ''suppressions'' (max_suppressions limits) (decode_suppression_rule limits)) (\<lambda>suppressions.
     bindr (decode_identities m ''source_priority'' ''source'') (\<lambda>sources.
     bindr (decode_identities m ''required_targets'' ''target'') (\<lambda>targets.
     Inr (p\<lparr>po_severity_rules := severity_rules, po_freshness_rules := freshness_rules,
           po_field_class_rules := field_class_rules, po_suppressions := suppressions, po_source_priority := sources,
           po_required_targets := targets\<rparr>)))))))"

definition DecodePolicy :: "RuntimeLimits \<Rightarrow> Value \<Rightarrow> ObservatoryPolicy Result" where
  "DecodePolicy limits v =
     bindr (RequireObject v ''policy'') (\<lambda>m.
     bindr (CheckMembers m policy_member_names ''policy'') (\<lambda>_.
     bindr (CheckMemberKinds m policy_member_kinds ''policy'') (\<lambda>_.
     bindr (policy_identity m ''id'' ''policy'' ''policy: id is not a valid identity'') (\<lambda>pid.
     bindr (decode_policy_version m) (\<lambda>version.
     bindr (RequireMap m ''freshness'' ''policy'') (\<lambda>fm.
     bindr (decode_policy_freshness fm) (\<lambda>freshness.
     bindr (decode_required_confirmations m) (\<lambda>confirmations.
     bindr (optional_parsed (OptionalString m ''numeric_equivalence'') parse_equivalence
              (malformed ''policy: numeric_equivalence is not recognized'') (po_numeric_equivalence Policy_Default)) (\<lambda>equivalence.
     bindr (optional_parsed (OptionalString m ''default_severity'') (\<lambda>s. TryParseSeverity (c_str s))
              (malformed ''policy: default_severity is not recognized'') (po_default_severity Policy_Default)) (\<lambda>severity.
     bindr (optional_parsed (OptionalString m ''evidence'') (\<lambda>s. TryParseEvidenceClass (c_str s))
              (malformed ''policy: evidence is not recognized'') (po_evidence Policy_Default)) (\<lambda>evidence.
     bindr (decode_policy_rules limits m
       (Policy_Default\<lparr>po_id := pid, po_format_version := version, po_freshness := freshness,
          po_resolution_confirmations := confirmations,
          po_require_complete_coverage :=
            or_else (OptionalBool m ''require_complete_coverage_for_compliance'') (po_require_complete_coverage Policy_Default),
          po_require_absence_authority :=
            or_else (OptionalBool m ''require_absence_authority'') (po_require_absence_authority Policy_Default),
          po_numeric_equivalence := equivalence, po_default_severity := severity, po_evidence := evidence\<rparr>)) (\<lambda>p.
     released (Policy_Validate limits p) p))))))))))))"

section \<open>Reading back what was written\<close>

lemma map_of_given [simp]: "(m ++ map_of (given n v)) k = (if k = n \<and> v \<noteq> None then v else m k)"
  by (cases v) (auto simp: given_def)

lemma map_of_given_last [simp]: "map_of (given n v) k = (if k = n then v else None)"
  by (cases v) (auto simp: given_def)

lemma keys_given: "fst ` set (given n v) \<subseteq> {n}"
  by (cases v) (auto simp: given_def)

lemma keys_given_le [simp]: "n \<in> A \<Longrightarrow> fst ` set (given n v) \<subseteq> A"
  using keys_given [of n v] by auto

definition selector_formed :: "RuntimeLimits \<Rightarrow> PolicySelector \<Rightarrow> bool" where
  "selector_formed limits s \<longleftrightarrow>
     pred_option IsValidIdentityText (ps_target s) \<and> pred_option IsValidIdentityText (ps_object s) \<and>
     pred_option (path_readable limits) (ps_path_prefix s)"

definition suppression_formed :: "RuntimeLimits \<Rightarrow> SuppressionRule \<Rightarrow> bool" where
  "suppression_formed limits r \<longleftrightarrow>
     selector_formed limits (su_selector r) \<and> IsValidIdentityText (su_id r) \<and> IsValidIdentityText (su_author r) \<and>
     su_created_at r \<le> INT64_MAX \<and> pred_option (\<lambda>t. t \<le> INT64_MAX) (su_expires_at r)"

definition policy_formed :: "RuntimeLimits \<Rightarrow> ObservatoryPolicy \<Rightarrow> bool" where
  "policy_formed limits p \<longleftrightarrow>
     status_ok (Policy_Validate limits p) \<and>
     list_all (\<lambda>r. selector_formed limits (sr_selector r)) (po_severity_rules p) \<and>
     list_all (\<lambda>r. selector_formed limits (fr_selector r)) (po_freshness_rules p) \<and>
     list_all (\<lambda>r. selector_formed limits (fc_selector r)) (po_field_class_rules p) \<and>
     list_all (suppression_formed limits) (po_suppressions p)"

text \<open>The printer of times is exact from 1970 on; only suppressions carry times.\<close>

definition policy_times_readable :: "ObservatoryPolicy \<Rightarrow> bool" where
  "policy_times_readable p \<longleftrightarrow>
     list_all (\<lambda>r. 0 \<le> su_created_at r \<and> pred_option (\<lambda>t. 0 \<le> t) (su_expires_at r)) (po_suppressions p)"

lemma optional_given_text:
  "(\<And>x. v = Some x \<Longrightarrow> parse (f x) = Some x) \<Longrightarrow> optional_given (map_option f v) parse refusal = Inr v"
  by (cases v) (simp_all add: optional_given_def)

lemma CheckMemberKinds_iff:
  "CheckMemberKinds m ks what = Inr () \<longleftrightarrow> (\<forall>x \<in> set ks. pred_option (\<lambda>v. MemberHasKind v (snd x)) (FindMember m (fst x)))"
  by (induction ks) (auto split: option.splits)

declare CheckMemberKinds.simps [simp del]

lemma OptionalString_found: "FindMember m n = map_option (\<lambda>x. V_String (f x)) v \<Longrightarrow> OptionalString m n = map_option f v"
  by (cases v) (simp_all add: OptionalString_def)

lemma pred_option_map_option [simp]: "pred_option P (map_option f v) = pred_option (\<lambda>x. P (f x)) v"
  by (cases v) simp_all

lemma pred_option_True [simp]: "pred_option (\<lambda>x. True) v"
  by (cases v) simp_all

text \<open>A member set that holds a selector.\<close>

definition holds_selector :: "members \<Rightarrow> PolicySelector \<Rightarrow> bool" where
  "holds_selector m s \<longleftrightarrow>
     FindMember m ''target'' = map_option V_String (ps_target s) \<and> FindMember m ''object'' = map_option V_String (ps_object s) \<and>
     FindMember m ''path_prefix'' = map_option (\<lambda>p. V_String (FieldPath_ToText p)) (ps_path_prefix s)"

lemma holds_selector_of:
  assumes "map_of r ''target'' = None" "map_of r ''object'' = None" "map_of r ''path_prefix'' = None"
  shows "holds_selector (members_of (EncodeSelector s @ r)) s"
  using assms by (auto simp: holds_selector_def EncodeSelector_def)

lemma DecodeSelector_held:
  assumes "selector_formed limits s" and "holds_selector m s"
  shows "DecodeSelector limits what m = Inr s"
proof -
  note find = assms(2) [unfolded holds_selector_def]
  have "OptionalString m ''target'' = map_option (\<lambda>x. x) (ps_target s)" "OptionalString m ''object'' = map_option (\<lambda>x. x) (ps_object s)"
    "OptionalString m ''path_prefix'' = map_option FieldPath_ToText (ps_path_prefix s)"
    using find by (auto intro: OptionalString_found)
  moreover have "CheckMemberKinds m [(''target'', MK_Text), (''object'', MK_Text), (''path_prefix'', MK_Text)] what = Inr ()"
    using find by (simp add: CheckMemberKinds_iff)
  moreover have "optional_given (map_option (\<lambda>x. x) (ps_target s)) StringId_TryParse e = Inr (ps_target s)"
    "optional_given (map_option (\<lambda>x. x) (ps_object s)) StringId_TryParse e = Inr (ps_object s)"
    "optional_given (map_option FieldPath_ToText (ps_path_prefix s))
       (\<lambda>t. FieldPath_TryParse t (max_path_segments limits) (max_path_key_bytes limits)) e = Inr (ps_path_prefix s)" for e
    using assms(1) by (auto simp: selector_formed_def identity_read path_read intro!: optional_given_text)
  ultimately show ?thesis unfolding DecodeSelector_def by simp
qed

lemma decode_severity_rule_encoded:
  assumes "selector_formed limits (sr_selector r)"
  shows "decode_severity_rule limits (encode_severity_rule r) = Inr r"
proof -
  obtain m where m: "encode_severity_rule r = V_Map m" and sel: "holds_selector m (sr_selector r)"
    and names: "CheckMembers m [''target'', ''object'', ''path_prefix'', ''class'', ''min_severity'', ''severity''] ''policy.severity_rule'' = Inr ()"
    and find: "FindMember m ''class'' = map_option (\<lambda>k. V_String (ToText_DriftClass k)) (sr_klass r)"
    "FindMember m ''min_severity'' = map_option (\<lambda>v. V_String (ToText_Severity v)) (sr_min_severity r)"
    "FindMember m ''severity'' = Some (V_String (ToText_Severity (sr_severity r)))"
    unfolding encode_severity_rule_def
    by (auto simp: EncodeSelector_def image_Un holds_selector_def intro!: CheckMembers_of)
  have "CheckMemberKinds m [(''class'', MK_Text), (''min_severity'', MK_Text), (''severity'', MK_Text)] ''policy.severity_rule'' = Inr ()"
    unfolding CheckMemberKinds_iff using find by simp
  then show ?thesis
    using m names find(3) DecodeSelector_held [OF assms sel] OptionalString_found [OF find(1)] OptionalString_found [OF find(2)]
    by (simp add: decode_severity_rule_def require_element_def OptionalString_def optional_given_text
        optional_parsed_def drift_text_roundtrip severity_text_roundtrip)
qed

lemma decode_freshness_rule_encoded:
  assumes "selector_formed limits (fr_selector r)" and "0 < fr_ttl_nanos r"
  shows "decode_freshness_rule limits (encode_freshness_rule r) = Inr r"
proof -
  obtain m where m: "encode_freshness_rule r = V_Map m" and sel: "holds_selector m (fr_selector r)"
    and names: "CheckMembers m [''target'', ''object'', ''path_prefix'', ''ttl_nanos''] ''policy.freshness_rule'' = Inr ()"
    and find: "FindMember m ''ttl_nanos'' = Some (V_Int (fr_ttl_nanos r))"
    unfolding encode_freshness_rule_def
    by (auto simp: EncodeSelector_def image_Un holds_selector_def intro!: CheckMembers_of)
  have "CheckMemberKinds m [(''ttl_nanos'', MK_Integer)] ''policy.freshness_rule'' = Inr ()"
    unfolding CheckMemberKinds_iff using find by simp
  then show ?thesis
    using m names find DecodeSelector_held [OF assms(1) sel] assms(2)
    by (simp add: decode_freshness_rule_def require_element_def OptionalInt_def)
qed

lemma decode_field_class_rule_encoded:
  assumes "selector_formed limits (fc_selector r)"
  shows "decode_field_class_rule limits (encode_field_class_rule r) = Inr r"
proof -
  obtain m where m: "encode_field_class_rule r = V_Map m" and sel: "holds_selector m (fc_selector r)"
    and names: "CheckMembers m [''target'', ''object'', ''path_prefix'', ''comparability''] ''policy.field_class_rule'' = Inr ()"
    and find: "FindMember m ''comparability'' = Some (V_String (ToText_FieldComparability (fc_comparability r)))"
    unfolding encode_field_class_rule_def
    by (auto simp: EncodeSelector_def image_Un holds_selector_def intro!: CheckMembers_of)
  have "CheckMemberKinds m [(''comparability'', MK_Text)] ''policy.field_class_rule'' = Inr ()"
    unfolding CheckMemberKinds_iff using find by simp
  then show ?thesis
    using m names find DecodeSelector_held [OF assms sel]
    by (simp add: decode_field_class_rule_def require_element_def OptionalString_def comparability_text_roundtrip)
qed

lemma decode_suppression_rule_encoded:
  assumes "suppression_formed limits r" "0 \<le> su_created_at r" "pred_option (\<lambda>t. 0 \<le> t) (su_expires_at r)"
  shows "decode_suppression_rule limits (encode_suppression_rule r) = Inr r"
proof -
  have formed: "selector_formed limits (su_selector r)" "IsValidIdentityText (su_id r)" "IsValidIdentityText (su_author r)"
    "time_readable (su_created_at r)" "pred_option time_readable (su_expires_at r)"
    using assms by (auto simp: suppression_formed_def time_readable_def option.pred_set)
  obtain m where m: "encode_suppression_rule r = V_Map m" and sel: "holds_selector m (su_selector r)"
    and names: "CheckMembers m [''id'', ''target'', ''object'', ''path_prefix'', ''class'', ''min_severity'', ''author'', ''reason'',
              ''created_at'', ''expires_at''] ''policy.suppression'' = Inr ()"
    and find: "FindMember m ''class'' = map_option (\<lambda>k. V_String (ToText_DriftClass k)) (su_klass r)"
    "FindMember m ''min_severity'' = map_option (\<lambda>v. V_String (ToText_Severity v)) (su_min_severity r)"
    "FindMember m ''expires_at'' = map_option (\<lambda>t. V_String (FormatTime t)) (su_expires_at r)"
    "FindMember m ''id'' = Some (V_String (su_id r))" "FindMember m ''author'' = Some (V_String (su_author r))"
    "FindMember m ''reason'' = Some (V_String (su_reason r))" "FindMember m ''created_at'' = Some (V_String (FormatTime (su_created_at r)))"
    unfolding encode_suppression_rule_def
    by (auto simp: EncodeSelector_def image_Un holds_selector_def intro!: CheckMembers_of)
  have kinds: "CheckMemberKinds m [(''id'', MK_Text), (''class'', MK_Text), (''min_severity'', MK_Text), (''author'', MK_Text),
              (''reason'', MK_Text), (''created_at'', MK_Text), (''expires_at'', MK_Text)] ''policy.suppression'' = Inr ()"
    unfolding CheckMemberKinds_iff using find by simp
  have "optional_given (map_option FormatTime (su_expires_at r)) TryParseTime e = Inr (su_expires_at r)" for e
    using formed(5) by (intro optional_given_text) (auto simp: time_read)
  then show ?thesis
    using m names kinds find(4-) DecodeSelector_held [OF formed(1) sel] formed(2-4)
      OptionalString_found [OF find(1)] OptionalString_found [OF find(2)] OptionalString_found [OF find(3)]
    by (simp add: decode_suppression_rule_def require_element_def policy_identity_def policy_time_def RequireString_def require_def
        optional_given_text drift_text_roundtrip severity_text_roundtrip identity_read time_read)
qed

section \<open>The policy document\<close>

lemma Policy_Validate_accepts:
  assumes "status_ok (Policy_Validate limits p)"
  shows "IsValidIdentityText (po_id p)" "po_format_version p = kPolicyFormatVersion" "0 < fp_ttl_nanos (po_freshness p)"
    "0 \<le> fp_aging_threshold_percent (po_freshness p)" "fp_aging_threshold_percent (po_freshness p) \<le> 100"
    "po_resolution_confirmations p \<noteq> 0" "length (po_severity_rules p) \<le> kMaxPolicyRules"
    "length (po_freshness_rules p) \<le> kMaxPolicyRules" "length (po_field_class_rules p) \<le> kMaxPolicyRules"
    "length (po_suppressions p) \<le> max_suppressions limits" "\<forall>r \<in> set (po_freshness_rules p). 0 < fr_ttl_nanos r"
    "\<forall>s \<in> set (po_source_priority p). IsValidIdentityText s" "\<forall>t \<in> set (po_required_targets p). IsValidIdentityText t"
  using assms
  by (auto simp: Policy_Validate_def first_failure_ok validate_freshness_rule_def validate_identity_def list_all_iff split: if_splits)

lemma decode_policy_freshness_encoded:
  assumes "0 \<le> fp_aging_threshold_percent f" "fp_aging_threshold_percent f \<le> 100" "encode_policy_freshness f = V_Map m"
  shows "decode_policy_freshness m = Inr f"
proof -
  have m: "m = members_of
       [(''ttl_nanos'', V_Int (fp_ttl_nanos f)), (''aging_threshold_percent'', V_Int (fp_aging_threshold_percent f)),
        (''max_clock_skew_nanos'', V_Int (fp_max_clock_skew_nanos f)),
        (''ttl_applies_to_receive_time'', V_Bool (fp_ttl_applies_to_receive_time f))]"
    using assms(3) by (simp add: encode_policy_freshness_def)
  have "CheckMemberKinds m [(''ttl_nanos'', MK_Integer), (''aging_threshold_percent'', MK_Integer),
              (''max_clock_skew_nanos'', MK_Integer), (''ttl_applies_to_receive_time'', MK_Boolean)] ''policy.freshness'' = Inr ()"
    unfolding CheckMemberKinds_iff by (simp add: m)
  then show ?thesis
    using assms(1,2) by (simp add: decode_policy_freshness_def decode_aging_def m OptionalInt_def OptionalBool_def or_else_def)
qed

lemma decode_rules_encoded:
  assumes "FindMember m name = Some (V_List (map enc rs))" "length rs \<le> bound" "\<And>r. r \<in> set rs \<Longrightarrow> f (enc r) = Inr r"
  shows "decode_rules m name bound f = Inr rs"
  using assms by (simp add: decode_rules_def traverse_id)

lemma decode_identities_encoded:
  assumes "FindMember m name = Some (V_List (map V_String xs))" "\<forall>x \<in> set xs. IsValidIdentityText x"
  shows "decode_identities m name what = Inr xs"
  using assms by (simp add: decode_identities_def traverse_id decode_identity_entry_def identity_read)

lemma equivalence_read: "parse_equivalence (equivalence_text e) = Some e"
  by (cases e) (simp_all add: parse_equivalence_def equivalence_text_def)

lemma narrow_version: "ucast (ucast v :: u64) = v" "(ucast v :: u64) \<le> 0xFFFF" for v :: u16
proof -
  show "ucast (ucast v :: u64) = v" by (rule bit_word_eqI) (simp add: bit_simps)
  show "(ucast v :: u64) \<le> 0xFFFF"
    using unat_lt2p [of v] by (simp add: word_le_nat_alt unsigned_ucast_eq take_bit_nat_eq_self)
qed

lemma narrow_confirmations: "ucast (ucast v :: u64) = v" "(ucast v :: u64) \<le> 0xFFFFFFFF" "(ucast v :: u64) = 0 \<longleftrightarrow> v = 0" for v :: u32
proof -
  show c: "ucast (ucast v :: u64) = v" by (rule bit_word_eqI) (simp add: bit_simps)
  show "(ucast v :: u64) \<le> 0xFFFFFFFF"
    using unat_lt2p [of v] by (simp add: word_le_nat_alt unsigned_ucast_eq take_bit_nat_eq_self)
  show "(ucast v :: u64) = 0 \<longleftrightarrow> v = 0" using c by (metis ucast_0)
qed

lemma policy_lookup:
  assumes "m = members_of (policy_members p)"
  shows "FindMember m ''id'' = Some (V_String (po_id p))"
    "FindMember m ''format_version'' = Some (MakeUint (ucast (po_format_version p)))"
    "FindMember m ''freshness'' = Some (encode_policy_freshness (po_freshness p))"
    "FindMember m ''resolution_confirmations'' = Some (MakeUint (ucast (po_resolution_confirmations p)))"
    "FindMember m ''require_complete_coverage_for_compliance'' = Some (V_Bool (po_require_complete_coverage p))"
    "FindMember m ''require_absence_authority'' = Some (V_Bool (po_require_absence_authority p))"
    "FindMember m ''numeric_equivalence'' = Some (V_String (equivalence_text (po_numeric_equivalence p)))"
    "FindMember m ''default_severity'' = Some (V_String (ToText_Severity (po_default_severity p)))"
    "FindMember m ''evidence'' = Some (V_String (ToText_EvidenceClass (po_evidence p)))"
    "FindMember m ''severity_rules'' = Some (V_List (map encode_severity_rule (po_severity_rules p)))"
    "FindMember m ''freshness_rules'' = Some (V_List (map encode_freshness_rule (po_freshness_rules p)))"
    "FindMember m ''field_class_rules'' = Some (V_List (map encode_field_class_rule (po_field_class_rules p)))"
    "FindMember m ''suppressions'' = Some (V_List (map encode_suppression_rule (po_suppressions p)))"
    "FindMember m ''source_priority'' = Some (V_List (map V_String (po_source_priority p)))"
    "FindMember m ''required_targets'' = Some (V_List (map V_String (po_required_targets p)))"
  by (simp_all add: assms policy_members_def)

lemma decode_policy_rules_encoded:
  assumes "policy_formed limits p" "policy_times_readable p" "m = members_of (policy_members p)"
  shows "decode_policy_rules limits m q =
    Inr (q\<lparr>po_severity_rules := po_severity_rules p, po_freshness_rules := po_freshness_rules p,
           po_field_class_rules := po_field_class_rules p, po_suppressions := po_suppressions p,
           po_source_priority := po_source_priority p, po_required_targets := po_required_targets p\<rparr>)"
proof -
  note find = policy_lookup [OF assms(3)]
  have valid: "status_ok (Policy_Validate limits p)" using assms(1) by (simp add: policy_formed_def)
  note v = Policy_Validate_accepts [OF valid]
  have "decode_rules m ''severity_rules'' kMaxPolicyRules (decode_severity_rule limits) = Inr (po_severity_rules p)"
    using assms(1) v(7) by (intro decode_rules_encoded [OF find(10)] decode_severity_rule_encoded) (auto simp: policy_formed_def list_all_iff)
  moreover have "decode_rules m ''freshness_rules'' kMaxPolicyRules (decode_freshness_rule limits) = Inr (po_freshness_rules p)"
    using assms(1) v(8,11) by (intro decode_rules_encoded [OF find(11)] decode_freshness_rule_encoded) (auto simp: policy_formed_def list_all_iff)
  moreover have "decode_rules m ''field_class_rules'' kMaxPolicyRules (decode_field_class_rule limits) = Inr (po_field_class_rules p)"
    using assms(1) v(9) by (intro decode_rules_encoded [OF find(12)] decode_field_class_rule_encoded) (auto simp: policy_formed_def list_all_iff)
  moreover have "decode_rules m ''suppressions'' (max_suppressions limits) (decode_suppression_rule limits) = Inr (po_suppressions p)"
    using assms(1,2) v(10)
    by (intro decode_rules_encoded [OF find(13)] decode_suppression_rule_encoded) (auto simp: policy_formed_def policy_times_readable_def list_all_iff)
  moreover have "decode_identities m ''source_priority'' ''source'' = Inr (po_source_priority p)"
    "decode_identities m ''required_targets'' ''target'' = Inr (po_required_targets p)"
    using v(12,13) by (auto intro: decode_identities_encoded find(14,15))
  ultimately show ?thesis by (simp add: decode_policy_rules_def)
qed

lemma policy_rebuilt:
  "Policy_Default\<lparr>po_id := po_id p, po_format_version := po_format_version p, po_freshness := po_freshness p,
    po_resolution_confirmations := po_resolution_confirmations p, po_require_complete_coverage := po_require_complete_coverage p,
    po_require_absence_authority := po_require_absence_authority p, po_numeric_equivalence := po_numeric_equivalence p,
    po_default_severity := po_default_severity p, po_evidence := po_evidence p, po_severity_rules := po_severity_rules p,
    po_freshness_rules := po_freshness_rules p, po_field_class_rules := po_field_class_rules p,
    po_suppressions := po_suppressions p, po_source_priority := po_source_priority p,
    po_required_targets := po_required_targets p\<rparr> = p"
  by (cases p) (simp add: Policy_Default_def)

lemma DecodePolicy_encoded:
  assumes "policy_formed limits p" "policy_times_readable p"
  shows "DecodePolicy limits (EncodePolicy p) = Inr p"
proof -
  define m where "m = members_of (policy_members p)"
  note find = policy_lookup [OF m_def]
  have valid: "status_ok (Policy_Validate limits p)" using assms(1) by (simp add: policy_formed_def)
  note v = Policy_Validate_accepts [OF valid]
  have "CheckMembers m policy_member_names ''policy'' = Inr ()"
    unfolding m_def by (rule CheckMembers_of) (simp add: policy_members_def policy_member_names_def)
  moreover have "CheckMemberKinds m policy_member_kinds ''policy'' = Inr ()"
    unfolding CheckMemberKinds_iff policy_member_kinds_def using find by simp
  moreover obtain fm where fm: "encode_policy_freshness (po_freshness p) = V_Map fm"
    by (simp add: encode_policy_freshness_def)
  moreover have "decode_policy_freshness fm = Inr (po_freshness p)" using decode_policy_freshness_encoded fm v(4,5) by blast
  moreover have "decode_policy_version m = Inr (po_format_version p)"
    using v(2) narrow_version [of "po_format_version p"] by (simp add: decode_policy_version_def RequireUint_def require_def find linorder_not_less)
  moreover have "decode_required_confirmations m = Inr (po_resolution_confirmations p)"
    using v(6) narrow_confirmations [of "po_resolution_confirmations p"]
    by (simp add: decode_required_confirmations_def OptionalUint_def find linorder_not_less)
  moreover have "EncodePolicy p = V_Map m" by (simp add: EncodePolicy_def m_def)
  ultimately show ?thesis
    using valid v(1) decode_policy_rules_encoded [OF assms m_def] unfolding DecodePolicy_def
    by (simp add: policy_rebuilt RequireObject_def RequireMap_def require_def policy_identity_def RequireString_def find identity_read OptionalString_def
        OptionalBool_def optional_parsed_def or_else_def equivalence_read severity_text_roundtrip released_def)
qed

interpretation policy_codec: document_codec EncodePolicy "DecodePolicy limits" "\<lambda>p. policy_formed limits p \<and> policy_times_readable p"
  for limits
  by unfold_locales (simp add: DecodePolicy_encoded)

section \<open>What the decoder accepts\<close>

lemma traverse_all: "traverse f xs = Inr ys \<Longrightarrow> (\<And>x y. f x = Inr y \<Longrightarrow> P y) \<Longrightarrow> list_all P ys"
  by (induction xs arbitrary: ys) (auto simp: bindr_Inr_iff)

lemma decode_rules_all: "decode_rules m name bound f = Inr rs \<Longrightarrow> (\<And>x y. f x = Inr y \<Longrightarrow> P y) \<Longrightarrow> list_all P rs"
  by (auto simp: decode_rules_def intro: traverse_all split: option.splits if_splits)

lemma optional_given_sound: "optional_given t parse refusal = Inr v \<Longrightarrow> (\<And>s x. parse s = Some x \<Longrightarrow> P x) \<Longrightarrow> pred_option P v"
  by (auto simp: optional_given_def dest!: sym [of "Some _"] split: option.splits)

lemma identity_parsed: "StringId_TryParse s = Some x \<Longrightarrow> IsValidIdentityText x"
  by (auto simp: StringId_TryParse_def split: if_splits)

lemma DecodeSelector_sound: "DecodeSelector limits what m = Inr s \<Longrightarrow> selector_formed limits s"
  by (auto simp: DecodeSelector_def bindr_Inr_iff selector_formed_def intro: optional_given_sound identity_parsed path_parsed)

lemma decode_rule_sound:
  "decode_severity_rule limits v = Inr r1 \<Longrightarrow> selector_formed limits (sr_selector r1)"
  "decode_freshness_rule limits v = Inr r2 \<Longrightarrow> selector_formed limits (fr_selector r2)"
  "decode_field_class_rule limits v = Inr r3 \<Longrightarrow> selector_formed limits (fc_selector r3)"
  by (auto simp: decode_severity_rule_def decode_freshness_rule_def decode_field_class_rule_def bindr_Inr_iff)
    (auto dest: DecodeSelector_sound split: option.splits if_splits)

lemma decode_suppression_rule_sound: "decode_suppression_rule limits v = Inr r \<Longrightarrow> suppression_formed limits r"
  by (auto simp: decode_suppression_rule_def bindr_Inr_iff suppression_formed_def policy_identity_def policy_time_def
      dest: DecodeSelector_sound identity_parsed time_parsed intro: optional_given_sound time_parsed split: option.splits)

lemma DecodePolicy_sound:
  assumes "DecodePolicy limits v = Inr p"
  shows "policy_formed limits p"
proof -
  obtain m q where "decode_policy_rules limits m q = Inr p" and "status_ok (Policy_Validate limits p)"
    using assms by (auto simp: DecodePolicy_def bindr_Inr_iff released_def split: if_splits)
  then show ?thesis
    by (auto simp: policy_formed_def decode_policy_rules_def bindr_Inr_iff
        intro: decode_rules_all decode_rule_sound decode_suppression_rule_sound)
qed


lemma default_policy_formed:
  "policy_formed default_limits Policy_Default" "policy_times_readable Policy_Default"
proof -
  have "IsValidIdentityText ''policy/default''" by code_simp
  then show "policy_formed default_limits Policy_Default" "policy_times_readable Policy_Default"
    by (simp_all add: policy_formed_def policy_times_readable_def Policy_Validate_def Policy_Default_def kPolicyFormatVersion_def
        default_freshness_policy_def kMaxPolicyRules_def)
qed

lemma default_policy_numbers:
  "length (nat_text 80) = 2" "length (nat_text 5000000000) = 10" "length (nat_text 300000000000) = 12"
  by (simp_all add: nat_text_large nat_text_small)

lemma default_policy_writable: "writable (\<lambda>_. None) (\<lambda>_. None) default_limits (EncodePolicy Policy_Default)"
  by (simp add: EncodePolicy_def policy_members_def Policy_Default_def kPolicyFormatVersion_def encode_policy_freshness_def
      default_freshness_policy_def equivalence_text_def ToText_Severity_def kSeverityNames_def default_policy_numbers written_simps)

lemma default_policy_accepted:
  "bindr (ParseJson (\<lambda>_. None) default_limits (WriteCanonicalJson (\<lambda>_. None) (EncodePolicy Policy_Default))) (DecodePolicy default_limits) =
     Inr Policy_Default"
  using policy_codec.through_text [OF _ default_policy_writable] default_policy_formed by blast


end
