(* ===== verification/NDO_Cli.thy ===== *)
theory NDO_Cli
  imports NDO_Report NDO_Policy_Json NDO_Server_Safety
begin

text \<open>
  The command-line tool (\<^verbatim>\<open>tools/ndo_cli.cpp\<close>): its options, the commands and the way one invocation loads, changes and
  saves the state file.  What is printed is a list of outputs; the error stream is left out.  The command
  \<^verbatim>\<open>serve\<close> starts a server and evaluates once per line of input; what the server's threads do in between
  is an argument of the model.
\<close>

section \<open>Options\<close>

record Options =
  op_command :: string
  op_state_path :: string
  op_file_path :: string
  op_out_path :: string
  op_policy_path :: string
  op_target :: string
  op_object :: string
  op_drift_class :: string
  op_severity :: string
  op_min_severity :: string
  op_state_filter :: string
  op_order :: string
  op_group :: string
  op_source :: string
  op_min_freshness :: string
  op_root_cause :: string
  op_finding :: string
  op_actor :: string
  op_reason :: string
  op_task :: string
  op_bind_address :: string
  op_generation :: "u64 option"
  op_min_age_seconds :: "int option"
  op_max_age_seconds :: "int option"
  op_now_seconds :: "int option"
  op_hours :: "int option"
  op_epoch :: u64
  op_incarnation :: u64
  op_port :: u16
  op_limit :: u64
  op_offset :: u64
  op_compact :: bool
  op_include_resolved :: bool
  op_include_superseded :: bool
  op_include_retired :: bool
  op_include_suppressed :: bool
  op_once :: bool
  op_evaluate_after :: bool
  op_help :: bool

definition default_options :: Options where
  "default_options =
     \<lparr>op_command = [], op_state_path = [], op_file_path = [], op_out_path = [], op_policy_path = [], op_target = [], op_object = [],
      op_drift_class = [], op_severity = [], op_min_severity = [], op_state_filter = [], op_order = [], op_group = [], op_source = [],
      op_min_freshness = [], op_root_cause = [], op_finding = [], op_actor = [], op_reason = [], op_task = [],
      op_bind_address = ''127.0.0.1'', op_generation = None, op_min_age_seconds = None, op_max_age_seconds = None,
      op_now_seconds = None, op_hours = None, op_epoch = 1, op_incarnation = 1, op_port = 0, op_limit = 1000, op_offset = 0,
      op_compact = False, op_include_resolved = False, op_include_superseded = False, op_include_retired = False,
      op_include_suppressed = True, op_once = False, op_evaluate_after = False, op_help = False\<rparr>"

text \<open>
  The number readers of the standard library: white space, a sign, then decimal digits; what follows is
  ignored, and no digits or a number out of range is an exception, here \<open>None\<close>.  An unsigned reader negates
  modulo its range.
\<close>

definition is_space :: "char \<Rightarrow> bool" where
  "is_space c \<longleftrightarrow> c = CHR '' '' \<or> 9 \<le> (of_char c :: nat) \<and> (of_char c :: nat) \<le> 13"

definition read_integer :: "string \<Rightarrow> (bool \<times> nat) option" where
  "read_integer s =
     (let s = dropWhile is_space s;
          negative = (s \<noteq> [] \<and> hd s = CHR ''-'');
          s = (if s \<noteq> [] \<and> (hd s = CHR ''-'' \<or> hd s = CHR ''+'') then tl s else s);
          digits = takeWhile is_digit s
      in if digits = [] then None else Some (negative, text_nat digits))"

definition stoull :: "string \<Rightarrow> u64 option" where
  "stoull s =
     (case read_integer s of
        None \<Rightarrow> None
      | Some (negative, n) \<Rightarrow> if n \<ge> 2 ^ 64 then None else Some (if negative then - of_nat n else of_nat n))"

text \<open>The width of \<^verbatim>\<open>unsigned long\<close> is the platform's; the result is cut to 16 bits.\<close>

definition stoul_u16 :: "nat \<Rightarrow> string \<Rightarrow> u16 option" where
  "stoul_u16 width s =
     (case read_integer s of
        None \<Rightarrow> None
      | Some (negative, n) \<Rightarrow> if n \<ge> 2 ^ width then None else Some (if negative then - of_nat n else of_nat n))"

definition stoll :: "string \<Rightarrow> int option" where
  "stoll s =
     (case read_integer s of
        None \<Rightarrow> None
      | Some (negative, n) \<Rightarrow> let i = (if negative then - int n else int n) in if is_i64 i then Some i else None)"

text \<open>
  \<open>hours\<close> stands for \<^verbatim>\<open>std::stod\<close> followed by the conversion to nanoseconds in double arithmetic, and \<open>width\<close> for the width
  of \<^verbatim>\<open>unsigned long\<close>.
\<close>

definition NeedsValue :: "string \<Rightarrow> bool" where
  "NeedsValue name \<longleftrightarrow>
     name \<in> set [''--state'', ''--file'', ''--out'', ''--policy'', ''--target'', ''--object'', ''--class'', ''--severity'',
       ''--min-severity'', ''--state-filter'', ''--order'', ''--generation'', ''--min-age'', ''--max-age'', ''--limit'', ''--offset'',
       ''--group'', ''--source'', ''--min-freshness'', ''--root-cause'', ''--finding'', ''--actor'', ''--reason'', ''--hours'',
       ''--now'', ''--epoch'', ''--incarnation'', ''--port'', ''--bind'', ''--task'']"

definition text_setters :: "(string \<times> (string \<Rightarrow> Options \<Rightarrow> Options)) list" where
  "text_setters =
     [(''--state'', \<lambda>v. op_state_path_update (\<lambda>_. v)), (''--file'', \<lambda>v. op_file_path_update (\<lambda>_. v)),
      (''--out'', \<lambda>v. op_out_path_update (\<lambda>_. v)), (''--policy'', \<lambda>v. op_policy_path_update (\<lambda>_. v)),
      (''--target'', \<lambda>v. op_target_update (\<lambda>_. v)), (''--object'', \<lambda>v. op_object_update (\<lambda>_. v)),
      (''--class'', \<lambda>v. op_drift_class_update (\<lambda>_. v)), (''--severity'', \<lambda>v. op_severity_update (\<lambda>_. v)),
      (''--min-severity'', \<lambda>v. op_min_severity_update (\<lambda>_. v)), (''--state-filter'', \<lambda>v. op_state_filter_update (\<lambda>_. v)),
      (''--order'', \<lambda>v. op_order_update (\<lambda>_. v)), (''--group'', \<lambda>v. op_group_update (\<lambda>_. v)),
      (''--source'', \<lambda>v. op_source_update (\<lambda>_. v)), (''--min-freshness'', \<lambda>v. op_min_freshness_update (\<lambda>_. v)),
      (''--root-cause'', \<lambda>v. op_root_cause_update (\<lambda>_. v)), (''--finding'', \<lambda>v. op_finding_update (\<lambda>_. v)),
      (''--actor'', \<lambda>v. op_actor_update (\<lambda>_. v)), (''--reason'', \<lambda>v. op_reason_update (\<lambda>_. v)),
      (''--task'', \<lambda>v. op_task_update (\<lambda>_. v)), (''--bind'', \<lambda>v. op_bind_address_update (\<lambda>_. v))]"

definition number_setters :: "nat \<Rightarrow> (string \<Rightarrow> int option) \<Rightarrow> (string \<times> (string \<Rightarrow> Options \<Rightarrow> Options option)) list" where
  "number_setters width hours =
     [(''--generation'', \<lambda>v op. map_option (\<lambda>n. op\<lparr>op_generation := Some n\<rparr>) (stoull v)),
      (''--min-age'', \<lambda>v op. map_option (\<lambda>n. op\<lparr>op_min_age_seconds := Some n\<rparr>) (stoll v)),
      (''--max-age'', \<lambda>v op. map_option (\<lambda>n. op\<lparr>op_max_age_seconds := Some n\<rparr>) (stoll v)),
      (''--now'', \<lambda>v op. map_option (\<lambda>n. op\<lparr>op_now_seconds := Some n\<rparr>) (stoll v)),
      (''--hours'', \<lambda>v op. map_option (\<lambda>n. op\<lparr>op_hours := Some n\<rparr>) (hours v)),
      (''--epoch'', \<lambda>v op. map_option (\<lambda>n. op\<lparr>op_epoch := n\<rparr>) (stoull v)),
      (''--incarnation'', \<lambda>v op. map_option (\<lambda>n. op\<lparr>op_incarnation := n\<rparr>) (stoull v)),
      (''--port'', \<lambda>v op. map_option (\<lambda>n. op\<lparr>op_port := n\<rparr>) (stoul_u16 width v)),
      (''--limit'', \<lambda>v op. map_option (\<lambda>n. op\<lparr>op_limit := n\<rparr>) (stoull v)),
      (''--offset'', \<lambda>v op. map_option (\<lambda>n. op\<lparr>op_offset := n\<rparr>) (stoull v))]"

definition flag_setters :: "(string \<times> (Options \<Rightarrow> Options)) list" where
  "flag_setters =
     [(''--help'', op_help_update (\<lambda>_. True)), (''-h'', op_help_update (\<lambda>_. True)), (''--json'', op_compact_update (\<lambda>_. True)),
      (''--include-resolved'', op_include_resolved_update (\<lambda>_. True)),
      (''--include-superseded'', op_include_superseded_update (\<lambda>_. True)),
      (''--include-retired'', op_include_retired_update (\<lambda>_. True)),
      (''--exclude-suppressed'', op_include_suppressed_update (\<lambda>_. False)), (''--once'', op_once_update (\<lambda>_. True)),
      (''--evaluate'', op_evaluate_after_update (\<lambda>_. True))]"

definition set_option :: "nat \<Rightarrow> (string \<Rightarrow> int option) \<Rightarrow> string \<Rightarrow> string \<Rightarrow> Options \<Rightarrow> Options option" where
  "set_option width hours name v op =
     (case map_of text_setters name of
        Some f \<Rightarrow> Some (f v op)
      | None \<Rightarrow> (case map_of (number_setters width hours) name of Some f \<Rightarrow> f v op | None \<Rightarrow> Some op))"

fun option_loop :: "nat \<Rightarrow> (string \<Rightarrow> int option) \<Rightarrow> string list \<Rightarrow> Options \<Rightarrow> Options option" where
  "option_loop width hours [] op = Some op"
| "option_loop width hours (name # args) op =
     (case map_of flag_setters name of
        Some f \<Rightarrow> option_loop width hours args (f op)
      | None \<Rightarrow>
          if \<not> NeedsValue name then None
          else case args of
            [] \<Rightarrow> None
          | v # rest \<Rightarrow> (case set_option width hours name v op of None \<Rightarrow> None | Some op' \<Rightarrow> option_loop width hours rest op'))"

text \<open>The arguments without the program's name.\<close>

definition ParseOptions :: "nat \<Rightarrow> (string \<Rightarrow> int option) \<Rightarrow> string list \<Rightarrow> Options option" where
  "ParseOptions width hours args =
     (case args of [] \<Rightarrow> None | command # rest \<Rightarrow> option_loop width hours rest (default_options\<lparr>op_command := command\<rparr>))"

section \<open>Files, clock and output\<close>

datatype cli_output = Usage | Line string

text \<open>
  What surrounds one invocation: the clock at each of the places that read it; the faults of the
  operations on the policy file, the input file, the output file and the state file; the lines of the
  standard input; and, for \<^verbatim>\<open>serve\<close>, the outcome of binding the listener, the connection a single session accepts
  with the stop flag and the clock its loop reads, and what the threads of the server do before the main
  thread's step number \<open>n\<close>.
\<close>

record Invocation =
  iv_clock :: "nat \<Rightarrow> NdoTime"
  iv_policy :: FileFaults
  iv_input :: FileFaults
  iv_output :: FileFaults
  iv_load :: FileFaults
  iv_save :: FileFaults
  iv_lines :: "string list"
  iv_binding :: "u16 Result"
  iv_incoming :: "Socket Result"
  iv_session_stop :: "nat \<Rightarrow> bool"
  iv_session_clock :: "nat \<Rightarrow> NdoTime"
  iv_activity :: "nat \<Rightarrow> ObservationServer \<Rightarrow> ObservationServer"

definition kExitOk :: nat where "kExitOk = 0"
definition kExitUsage :: nat where "kExitUsage = 1"
definition kExitActionableDrift :: nat where "kExitActionableDrift = 2"
definition kExitUndecidable :: nat where "kExitUndecidable = 3"

text \<open>
  A read that fails after the file was opened yields what was read, and counts as a success.  The text
  is written through a buffer: a failure when the buffer is flushed, at the end of the function, is not
  seen by the caller.
\<close>

definition ReadFile :: "FileFaults \<Rightarrow> string \<Rightarrow> files \<Rightarrow> string option" where
  "ReadFile faults path files =
     (if \<not> ff_opens faults then None
      else map_option (\<lambda>b. text_of_bytes (if ff_reads faults then b else ff_partial faults)) (files path))"

definition WriteFile :: "FileFaults \<Rightarrow> string \<Rightarrow> string \<Rightarrow> files \<Rightarrow> bool \<times> files" where
  "WriteFile faults path s files =
     (if \<not> ff_opens faults then (False, files)
      else (ff_writes faults,
            files(path \<mapsto> (if ff_writes faults \<and> ff_flushes faults then bytes_of_text s else ff_partial faults))))"

text \<open>Multiplying the seconds out is taken as exact; the C++ product of larger numbers is undefined.\<close>

definition ResolveNow :: "Options \<Rightarrow> NdoTime \<Rightarrow> NdoTime" where
  "ResolveNow op system_now = (case op_now_seconds op of Some s \<Rightarrow> s * 1000000000 | None \<Rightarrow> system_now)"

definition Print :: "(u64 \<Rightarrow> string option) \<Rightarrow> Value \<Rightarrow> bool \<Rightarrow> cli_output" where
  "Print tc v compact = Line (if compact then WriteCanonicalJson tc v else WritePrettyJson tc v 2)"

definition synthetic_policy :: ObservatoryPolicy where
  "synthetic_policy = Policy_Default\<lparr>po_evidence := EC_Synthetic\<rparr>"

definition LoadPolicy :: "(string \<Rightarrow> u64 option) \<Rightarrow> FileFaults \<Rightarrow> Options \<Rightarrow> files \<Rightarrow> ObservatoryPolicy Result" where
  "LoadPolicy fc faults op files =
     (if op_policy_path op = [] then Inr synthetic_policy
      else case ReadFile faults (op_policy_path op) files of
        None \<Rightarrow> Inl (Status_NotFound RC_EncodingMalformed ''the policy file could not be read'')
      | Some s \<Rightarrow> bindr (ParseJson fc default_limits s) (DecodePolicy default_limits))"

definition BuildConfig :: "Options \<Rightarrow> ObservatoryPolicy \<Rightarrow> ObservatoryConfig" where
  "BuildConfig op policy =
     \<lparr>oc_policy = policy, oc_limits = default_limits, oc_epoch = op_epoch op, oc_incarnation = op_incarnation op,
      oc_evaluation_workers = 1, oc_require_started = True, oc_require_registered_sources = False\<rparr>"

section \<open>Queries\<close>

definition choice :: "string \<Rightarrow> (string \<Rightarrow> 'a option) \<Rightarrow> string \<Rightarrow> 'a option Result" where
  "choice s parse refusal =
     (if s = [] then Inr None
      else case parse s of None \<Rightarrow> Inl (Status_Rejected RC_EncodingMalformed refusal) | Some x \<Rightarrow> Inr (Some x))"

definition BuildQuerySpec :: "Options \<Rightarrow> QuerySpec Result" where
  "BuildQuerySpec op =
     bindr (choice (op_target op) StringId_TryParse ''target is not a valid identity'') (\<lambda>target.
     bindr (choice (op_object op) StringId_TryParse ''object is not a valid identity'') (\<lambda>object.
     bindr (choice (op_drift_class op) (\<lambda>s. TryParseDriftClass (c_str s)) ''drift class is not recognized'') (\<lambda>klass.
     bindr (choice (op_severity op) (\<lambda>s. TryParseSeverity (c_str s)) ''severity is not recognized'') (\<lambda>severity.
     bindr (choice (op_min_severity op) (\<lambda>s. TryParseSeverity (c_str s)) ''severity is not recognized'') (\<lambda>min_severity.
     bindr (choice (op_state_filter op) (\<lambda>s. TryParseFindingState (c_str s)) ''finding state is not recognized'') (\<lambda>state.
     bindr (choice (op_order op) (\<lambda>s. TryParseQueryOrder (c_str s)) ''order is not recognized'') (\<lambda>order.
     bindr (choice (op_group op) Digest_TryFromHex ''group is not a group identity'') (\<lambda>group.
     bindr (choice (op_source op) StringId_TryParse ''source is not a valid identity'') (\<lambda>source.
     bindr (choice (op_min_freshness op) (\<lambda>s. TryParseFreshnessState (c_str s)) ''freshness state is not recognized'') (\<lambda>freshness.
     bindr (choice (op_root_cause op) TryParseRootCause ''root cause is not recognized'') (\<lambda>cause.
     Inr (default_query
       \<lparr>qs_target := target, qs_object := object, qs_klass := klass, qs_exact_severity := severity, qs_min_severity := min_severity,
        qs_state := state, qs_order := or_else order (qs_order default_query), qs_group := group, qs_source := source,
        qs_min_freshness := freshness, qs_root_cause := cause, qs_generation := op_generation op,
        qs_min_age_nanos := map_option (\<lambda>s. s * 1000000000) (op_min_age_seconds op),
        qs_max_age_nanos := map_option (\<lambda>s. s * 1000000000) (op_max_age_seconds op), qs_limit := op_limit op,
        qs_offset := op_offset op, qs_include_resolved := op_include_resolved op,
        qs_include_superseded := op_include_superseded op, qs_include_retired := op_include_retired op,
        qs_include_suppressed := op_include_suppressed op\<rparr>))))))))))))"

section \<open>Commands\<close>

text \<open>
  How a command ends: at once without saving, after saving with the given code whatever the save did, or
  in the common tail of the program with the given code as its result so far.
\<close>

datatype cli_flow = Return nat | Save_return nat | Proceed nat

type_synonym command_result = "cli_flow \<times> cli_output list \<times> Observatory"

definition refused :: "Observatory \<Rightarrow> command_result" where
  "refused ob = (Return kExitUsage, [], ob)"

definition usage :: "Observatory \<Rightarrow> command_result" where
  "usage ob = (Return kExitUsage, [Usage], ob)"

definition CommandIntentCommit ::
    "(u64 \<Rightarrow> string) \<Rightarrow> (u64 \<Rightarrow> string option) \<Rightarrow> (string \<Rightarrow> u64 option) \<Rightarrow> NdoTime \<Rightarrow> string \<Rightarrow> Options \<Rightarrow> Observatory \<Rightarrow> command_result" where
  "CommandIntentCommit dt tc fc now input op ob =
     (case ParseIntentJson fc (oc_limits (ob_config ob)) input of
        Inl _ \<Rightarrow> refused ob
      | Inr d \<Rightarrow>
          let (status, report, ob) = PublishIntent dt d now ob
          in if \<not> status_ok status then refused ob
             else (Proceed kExitOk,
                   [Print tc (V_Map (members_of
                      [(''target'', V_String (ic_target report)),
                       (''committed_generation'', MakeUint (ic_committed_generation report)),
                       (''previous_generation'', MakeUint (ic_previous_generation report)),
                       (''duplicate_identical'', V_Bool (ic_duplicate_identical report)),
                       (''findings_rebased'', MakeUint (of_nat (ic_findings_rebased report)))])) (op_compact op)], ob))"

definition CommandObserve ::
    "(u64 \<Rightarrow> string option) \<Rightarrow> (string \<Rightarrow> u64 option) \<Rightarrow> NdoTime \<Rightarrow> string \<Rightarrow> Options \<Rightarrow> Observatory \<Rightarrow> command_result" where
  "CommandObserve tc fc now input op ob =
     (let (status, admission, ob) = IngestObservationJson fc input now ob
      in if \<not> status_ok status then refused ob
         else (Proceed kExitOk,
               [Print tc (V_Map (members_of
                  [(''snapshot'', V_String (oa_snapshot admission)), (''source'', V_String (oa_source admission)),
                   (''freshness'', V_String (ToText_FreshnessState (oa_freshness admission))),
                   (''duplicate_identical'', V_Bool (oa_duplicate_identical admission)),
                   (''superseded_older'', V_Bool (oa_superseded_older admission))])) (op_compact op)], ob))"

definition evaluation_entry :: "TargetEvaluation \<Rightarrow> Value" where
  "evaluation_entry e =
     V_Map (members_of
       [(''target'', V_String (tv_target e)), (''has_baseline'', V_Bool (tv_has_baseline e)),
        (''baseline_generation'', MakeUint (tv_baseline_generation e)),
        (''best_freshness'', V_String (ToText_FreshnessState (tv_best_freshness e))),
        (''sources_considered'', MakeUint (of_nat (tv_sources_considered e))),
        (''fresh_sources'', MakeUint (of_nat (tv_fresh_sources e))),
        (''compliance_decidable'', V_Bool (tv_compliance_decidable e)), (''compliant'', V_Bool (tv_compliant e)),
        (''decision_reason'', V_String (ToText_ReasonCode (tv_decision_reason e))),
        (''drafts'', MakeUint (of_nat (length (tv_drafts e)))), (''trace'', V_List (map V_String (tv_trace e)))])"

definition outcome_document :: "EvaluationOutcome \<Rightarrow> Value" where
  "outcome_document outcome =
     V_Map (members_of
       [(''evaluated_at'', V_String (FormatTime (eo_now outcome))), (''epoch'', MakeUint (eo_epoch outcome)),
        (''incarnation'', MakeUint (eo_incarnation outcome)),
        (''policy_digest'', V_String (Digest_ToHex (eo_policy_digest outcome))),
        (''outcome_digest'', V_String (Digest_ToHex (Outcome_ComputeDigest outcome))),
        (''targets'', V_List (map evaluation_entry (eo_targets outcome)))])"

definition exit_code :: "EvaluationOutcome \<Rightarrow> nat" where
  "exit_code outcome =
     (if list_ex (\<lambda>e. list_ex (\<lambda>d. IsActionableDrift (fd_klass d)) (tv_drafts e)) (eo_targets outcome) then kExitActionableDrift
      else if list_ex (\<lambda>e. \<not> tv_compliance_decidable e) (eo_targets outcome) then kExitUndecidable
      else kExitOk)"

definition CommandEvaluate ::
    "(u64 \<Rightarrow> string) \<Rightarrow> (u64 \<Rightarrow> string option) \<Rightarrow> NdoTime \<Rightarrow> Options \<Rightarrow> Observatory \<Rightarrow> nat \<times> cli_output list \<times> Observatory" where
  "CommandEvaluate dt tc system_now op ob =
     (case EvaluateAt dt (ResolveNow op system_now) True ob of
        (Inl _, ob) \<Rightarrow> (kExitUsage, [], ob)
      | (Inr outcome, ob) \<Rightarrow> (exit_code outcome, [Print tc (outcome_document outcome) (op_compact op)], ob))"

definition query_entry :: "Finding \<Rightarrow> Value" where
  "query_entry f =
     V_Map (members_of
       [(''id'', V_String (Digest_ToHex (f_id f))), (''target'', V_String (id_target (f_identity f))),
        (''object'', V_String (id_object (f_identity f))), (''path'', V_String (FieldPath_ToText (id_path (f_identity f)))),
        (''class'', V_String (ToText_DriftClass (f_klass f))), (''raw_class'', V_String (ToText_DriftClass (f_raw_class f))),
        (''severity'', V_String (ToText_Severity (f_severity f))), (''state'', V_String (ToText_FindingState (f_state f))),
        (''reason'', V_String (ToText_ReasonCode (f_reason f))), (''baseline_generation'', MakeUint (f_baseline_generation f)),
        (''baseline_epoch'', MakeUint (f_baseline_epoch f)),
        (''freshness'', V_String (ToText_FreshnessState (f_evidence_freshness f))),
        (''group'', V_String (if Digest_is_set (f_group f) then Digest_ToHex (f_group f) else [])),
        (''observation_count'', MakeUint (f_observation_count f)), (''reopen_count'', MakeUint (f_reopen_count f)),
        (''first_seen'', V_String (FormatTime (f_first_seen f))), (''last_seen'', V_String (FormatTime (f_last_seen f))),
        (''suppressed'', V_Bool (f_suppression f \<noteq> None)), (''summary'', V_String (f_summary f))])"

definition CommandQuery :: "(u64 \<Rightarrow> string option) \<Rightarrow> NdoTime \<Rightarrow> Options \<Rightarrow> Observatory \<Rightarrow> command_result" where
  "CommandQuery tc now op ob =
     (case bindr (BuildQuerySpec op) (\<lambda>spec. Query spec now ob) of
        Inl _ \<Rightarrow> refused ob
      | Inr page \<Rightarrow>
          (Proceed kExitOk,
           [Print tc (V_Map (members_of
              [(''total_matched'', MakeUint (of_nat (qr_total_matched page))),
               (''returned'', MakeUint (of_nat (length (qr_findings page)))), (''truncated'', V_Bool (qr_truncated page)),
               (''page_digest'', V_String (Digest_ToHex (qr_page_digest page))),
               (''findings'', V_List (map query_entry (qr_findings page)))])) (op_compact op)], ob))"

definition history_entry :: "TimelineEntry \<Rightarrow> Value" where
  "history_entry e =
     V_Map (members_of
       [(''kind'', V_String (ToText_TimelineEventKind (te_kind e))), (''sequence'', MakeUint (te_sequence e)),
        (''at'', V_String (FormatTime (te_at e))), (''state'', V_String (ToText_FindingState (te_state_after e))),
        (''reason'', V_String (ToText_ReasonCode (te_reason e))), (''detail'', V_String (te_detail e))])"

definition explain_query :: QuerySpec where
  "explain_query = default_query\<lparr>qs_limit := 1000000, qs_include_resolved := True, qs_include_superseded := True, qs_include_retired := True\<rparr>"

definition CommandExplain ::
    "(u64 \<Rightarrow> string) \<Rightarrow> (u64 \<Rightarrow> string option) \<Rightarrow> NdoTime \<Rightarrow> Options \<Rightarrow> Observatory \<Rightarrow> command_result" where
  "CommandExplain dt tc now op ob =
     (if op_finding op = [] then usage ob
      else case Digest_TryFromHex (op_finding op) of
        None \<Rightarrow> refused ob
      | Some fid \<Rightarrow>
          (case Query explain_query now ob of
             Inl _ \<Rightarrow> refused ob
           | Inr page \<Rightarrow>
               (case List.find (\<lambda>f. f_id f = fid) (qr_findings page) of
                  None \<Rightarrow> refused ob
                | Some f \<Rightarrow>
                    (Save_return kExitOk,
                     [Print tc (V_Map (members_of
                        [(''summary'', V_String (ExplainFinding dt f)),
                         (''history'', V_List (map history_entry (f_timeline f)))])) (op_compact op)], ob))))"

definition timeline_item :: "TimelineEntry \<Rightarrow> Value" where
  "timeline_item e =
     V_Map (members_of
       [(''kind'', V_String (ToText_TimelineEventKind (te_kind e))), (''sequence'', MakeUint (te_sequence e)),
        (''at'', V_String (FormatTime (te_at e))), (''target'', V_String (te_target e)), (''object'', V_String (te_object e)),
        (''finding'', V_String (if Digest_is_set (te_finding e) then Digest_ToHex (te_finding e) else [])),
        (''state'', V_String (ToText_FindingState (te_state_after e))), (''class'', V_String (ToText_DriftClass (te_klass e))),
        (''reason'', V_String (ToText_ReasonCode (te_reason e))), (''detail'', V_String (te_detail e))])"

definition CommandTimeline :: "(u64 \<Rightarrow> string option) \<Rightarrow> Options \<Rightarrow> Observatory \<Rightarrow> command_result" where
  "CommandTimeline tc op ob =
     (case bindr (choice (op_finding op) Digest_TryFromHex []) (\<lambda>finding.
           bindr (choice (op_target op) StringId_TryParse []) (\<lambda>target.
           QueryTimeline \<lparr>ts_finding = finding, ts_target = target, ts_kind = None, ts_since = None, ts_until = None,
             ts_limit = op_limit op, ts_offset = op_offset op\<rparr> ob)) of
        Inl _ \<Rightarrow> refused ob
      | Inr page \<Rightarrow>
          (Proceed kExitOk,
           [Print tc (V_Map (members_of
              [(''total_matched'', MakeUint (of_nat (tp_total_matched page))),
               (''returned'', MakeUint (of_nat (length (tp_entries page)))),
               (''entries'', V_List (map timeline_item (tp_entries page)))])) (op_compact op)], ob))"

definition report_spec :: "Options \<Rightarrow> TargetId option \<Rightarrow> ReportSpec" where
  "report_spec op target =
     \<lparr>rs_id = or_else (StringId_TryParse (if op_task op = [] then ''report/cli'' else op_task op)) ''report/cli'', rs_target = target,
      rs_include_resolved = op_include_resolved op, rs_include_superseded = op_include_superseded op,
      rs_include_suppressed = op_include_suppressed op, rs_include_timeline = True, rs_include_evidence = True,
      rs_include_groups = True, rs_include_reconciliation_requests = True, rs_max_findings = unat (op_limit op), rs_note = []\<rparr>"

definition CommandReport ::
    "(u64 \<Rightarrow> string option) \<Rightarrow> FileFaults \<Rightarrow> NdoTime \<Rightarrow> Options \<Rightarrow> Observatory \<Rightarrow> files \<Rightarrow> command_result \<times> files" where
  "CommandReport tc faults now op ob files =
     (case choice (op_target op) StringId_TryParse [] of
        Inl _ \<Rightarrow> (refused ob, files)
      | Inr target \<Rightarrow>
          let s = BuildReportJson tc (report_spec op target) now ob (oc_policy (ob_config ob))
          in if op_out_path op = [] then ((Proceed kExitOk, [Line s], ob), files)
             else let (written, files) = WriteFile faults (op_out_path op) (s @ [CHR 0x0A]) files
                  in (if written then (Proceed kExitOk, [], ob) else refused ob, files))"

definition quoted :: "string \<Rightarrow> string" where
  "quoted s = [CHR 0x22] @ s @ [CHR 0x22]"

definition recorded_line :: "FindingId \<Rightarrow> cli_output" where
  "recorded_line fid =
     Line (''{'' @ quoted ''status'' @ '':'' @ quoted ''recorded'' @ '','' @ quoted ''finding'' @ '':'' @ quoted (Digest_ToHex fid) @ ''}'')"

definition CommandOperator ::
    "(u64 \<Rightarrow> string) \<Rightarrow> (nat \<Rightarrow> NdoTime) \<Rightarrow> Options \<Rightarrow> Observatory \<Rightarrow> command_result" where
  "CommandOperator dt clock op ob =
     (if op_finding op = [] \<or> op_actor op = [] then usage ob
      else case Digest_TryFromHex (op_finding op) of
        None \<Rightarrow> refused ob
      | Some fid \<Rightarrow>
          (case StringId_TryParse (op_actor op) of
             None \<Rightarrow> refused ob
           | Some actor \<Rightarrow>
               let (status, ob) =
                     (if op_command op = ''suppress''
                      then SuppressFinding dt fid actor (op_reason op)
                             (map_option (\<lambda>nanos. ResolveNow op (clock 0) + nanos) (op_hours op)) (ResolveNow op (clock 1)) ob
                      else AcknowledgeFinding dt fid actor (op_reason op) (ResolveNow op (clock 1)) ob)
               in if \<not> status_ok status then refused ob else (Proceed kExitOk, [recorded_line fid], ob)))"

definition CommandStats :: "(u64 \<Rightarrow> string option) \<Rightarrow> Options \<Rightarrow> Observatory \<Rightarrow> command_result" where
  "CommandStats tc op ob =
     (let s = Stats (ob_ledger ob); c = ob_counters ob
      in (Proceed kExitOk,
          [Print tc (V_Map (members_of
             [(''targets'', MakeUint (of_nat (ls_targets s))), (''baselines'', MakeUint (of_nat (ls_baselines s))),
              (''observations'', MakeUint (of_nat (ls_observations s))), (''sources'', MakeUint (of_nat (ls_sources s))),
              (''findings'', MakeUint (of_nat (ls_findings s))), (''live_findings'', MakeUint (of_nat (ls_live_findings s))),
              (''resolved_findings'', MakeUint (of_nat (ls_resolved_findings s))),
              (''superseded_findings'', MakeUint (of_nat (ls_superseded_findings s))),
              (''suppressed_findings'', MakeUint (of_nat (ls_suppressed_findings s))),
              (''groups'', MakeUint (of_nat (ls_groups s))), (''timeline_entries'', MakeUint (of_nat (ls_timeline_entries s))),
              (''evaluations'', MakeUint (ct_evaluations c)), (''evaluations_cancelled'', MakeUint (ct_evaluations_cancelled c)),
              (''evaluations_fenced'', MakeUint (ct_evaluations_fenced c)),
              (''observations_rejected'', MakeUint (ct_observations_rejected c)),
              (''recoveries'', MakeUint (ct_recoveries c))])) (op_compact op)], ob))"

section \<open>Serving\<close>

definition listening_line :: "Options \<Rightarrow> ObservationServer \<Rightarrow> cli_output" where
  "listening_line op sv =
     (let c = ob_config (sv_observatory sv) in
      Line (''{'' @ quoted ''listening'' @ '':'' @ quoted (op_bind_address op @ '':'' @ nat_text (unat (sv_bound_port sv))) @ '','' @
        quoted ''epoch'' @ '':'' @ nat_text (unat (oc_epoch c)) @ '','' @ quoted ''incarnation'' @ '':'' @
        nat_text (unat (oc_incarnation c)) @ ''}''))"

definition evaluation_line :: "EvaluationOutcome Result \<Rightarrow> cli_output" where
  "evaluation_line r =
     Line (''{'' @ quoted ''evaluation'' @ '':'' @
       quoted (case r of Inr _ \<Rightarrow> ''applied'' | Inl status \<Rightarrow> ToText_ReasonCode (st_reason status)) @ ''}'')"

text \<open>An evaluation on the main thread while the server's threads run between its two critical sections.\<close>

definition evaluate_while_serving ::
    "(u64 \<Rightarrow> string) \<Rightarrow> NdoTime \<Rightarrow> (ObservationServer \<Rightarrow> ObservationServer) \<Rightarrow> ObservationServer \<Rightarrow>
     EvaluationOutcome Result \<times> ObservationServer" where
  "evaluate_while_serving dt now activity sv =
     (case begin_evaluation now (sv_observatory sv) of
        (Inl status, ob) \<Rightarrow> (Inl status, sv\<lparr>sv_observatory := ob\<rparr>)
      | (Inr input, ob) \<Rightarrow>
          let policy = oc_policy (ob_config ob);
              outcome = outcome_of input (evaluate_targets (\<lambda>_. ob_cancelled ob \<or> ob_stopping ob) (ob_config ob) input policy);
              sv = activity (sv\<lparr>sv_observatory := ob\<rparr>);
              (r, ob) = publish_outcome dt input policy outcome True (sv_observatory sv)
          in (r, sv\<lparr>sv_observatory := ob\<rparr>))"

text \<open>The loop over the lines of the standard input; \<open>n\<close> counts the steps of the main thread.\<close>

fun serve_lines ::
    "(u64 \<Rightarrow> string) \<Rightarrow> (nat \<Rightarrow> NdoTime) \<Rightarrow> (nat \<Rightarrow> ObservationServer \<Rightarrow> ObservationServer) \<Rightarrow> nat \<Rightarrow> string list \<Rightarrow> ObservationServer \<Rightarrow>
     cli_output list \<times> ObservationServer" where
  "serve_lines dt clock activity n [] sv = ([], activity n sv)"
| "serve_lines dt clock activity n (line # lines) sv =
     (let sv = activity n sv in
      if line = ''quit'' \<or> line = ''stop'' then ([], sv)
      else
        let (r, sv) = evaluate_while_serving dt (clock n) (activity (n + 1)) sv;
            (out, sv) = serve_lines dt clock activity (n + 2) lines sv
        in (evaluation_line r # out, sv))"

definition server_document :: "ServerStats \<Rightarrow> Value" where
  "server_document k =
     V_Map (members_of
       [(''sessions_accepted'', MakeUint (ss_sessions_accepted k)), (''sessions_refused'', MakeUint (ss_sessions_refused k)),
        (''frames_received'', MakeUint (ss_frames_received k)), (''frames_refused'', MakeUint (ss_frames_refused k)),
        (''snapshots_admitted'', MakeUint (ss_snapshots_admitted k)), (''snapshots_refused'', MakeUint (ss_snapshots_refused k)),
        (''stale_fenced'', MakeUint (ss_stale_fenced k)), (''active_sessions'', MakeUint (ss_active_sessions k))])"

text \<open>
  With \<^verbatim>\<open>--once\<close> the main thread serves one session itself, beside the accept thread that starting the server
  has started; what that thread and its sessions do is taken before and after the single session.
\<close>

definition serve_until_done ::
    "(u64 \<Rightarrow> string) \<Rightarrow> (u64 \<Rightarrow> string option) \<Rightarrow> (string \<Rightarrow> u64 option) \<Rightarrow> Invocation \<Rightarrow> Options \<Rightarrow> ObservationServer \<Rightarrow>
     Status \<times> cli_output list \<times> ObservationServer" where
  "serve_until_done dt tc fc iv op sv =
     (if op_once op
      then let (served, _, sv) =
                 ServeSingleSession dt tc fc (iv_session_stop iv) (iv_session_clock iv) (iv_binding iv) (iv_incoming iv) (iv_activity iv 0 sv)
           in (served, [], iv_activity iv 1 sv)
      else let (out, sv) = serve_lines dt (iv_clock iv) (iv_activity iv) 0 (iv_lines iv) sv in (Status_Ok, out, sv))"

definition CommandServe ::
    "(u64 \<Rightarrow> string) \<Rightarrow> (u64 \<Rightarrow> string option) \<Rightarrow> (string \<Rightarrow> u64 option) \<Rightarrow> Invocation \<Rightarrow> Options \<Rightarrow> Observatory \<Rightarrow> command_result" where
  "CommandServe dt tc fc iv op ob =
     (if op_port op = 0 then refused ob
      else
        let (status, sv) = Server_Start (iv_binding iv) (ObservationServer_new ob (oc_limits (ob_config ob)))
        in if \<not> status_ok status then refused ob
           else
             let listening = listening_line op sv;
                 (served, out, sv) = serve_until_done dt tc fc iv op sv
             in if \<not> status_ok served then (Return kExitUsage, [listening], sv_observatory sv)
                else
                  let (_, sv) = Server_Stop sv;
                      (stats, sv) = Server_Stats sv
                  in (Proceed kExitOk, listening # out @ [Print tc (server_document stats) (op_compact op)], sv_observatory sv))"

section \<open>One invocation\<close>

definition run_command ::
    "(u64 \<Rightarrow> string) \<Rightarrow> (u64 \<Rightarrow> string option) \<Rightarrow> (string \<Rightarrow> u64 option) \<Rightarrow> Invocation \<Rightarrow> Options \<Rightarrow> Observatory \<Rightarrow> files \<Rightarrow>
     command_result \<times> files" where
  "run_command dt tc fc iv op ob files =
     (let command = op_command op; clock = iv_clock iv in
      if command = ''intent-commit'' \<or> command = ''observe''
      then (if op_file_path op = [] then usage ob
            else case ReadFile (iv_input iv) (op_file_path op) files of
              None \<Rightarrow> refused ob
            | Some input \<Rightarrow>
                if command = ''intent-commit'' then CommandIntentCommit dt tc fc (clock 0) input op ob
                else CommandObserve tc fc (clock 0) input op ob, files)
      else if command = ''evaluate''
      then (case CommandEvaluate dt tc (clock 0) op ob of (code, out, ob) \<Rightarrow> (Proceed code, out, ob), files)
      else if command = ''query'' then (CommandQuery tc (clock 0) op ob, files)
      else if command = ''explain'' then (CommandExplain dt tc (clock 0) op ob, files)
      else if command = ''timeline'' then (CommandTimeline tc op ob, files)
      else if command = ''report'' then CommandReport tc (iv_output iv) (clock 0) op ob files
      else if command = ''suppress'' \<or> command = ''acknowledge'' then (CommandOperator dt clock op ob, files)
      else if command = ''stats'' then (CommandStats tc op ob, files)
      else if command = ''serve'' then (CommandServe dt tc fc iv op ob, files)
      else (usage ob, files))"

definition save_state ::
    "(u64 \<Rightarrow> string option) \<Rightarrow> FileFaults \<Rightarrow> Options \<Rightarrow> Observatory \<Rightarrow> files \<Rightarrow> bool \<times> files" where
  "save_state tc faults op ob files =
     (if op_state_path op = [] then (True, files)
      else let (status, _, files) = Save tc faults (op_state_path op) ob files in (status_ok status, files))"

definition load_state ::
    "(string \<Rightarrow> u64 option) \<Rightarrow> FileFaults \<Rightarrow> Options \<Rightarrow> files \<Rightarrow> Observatory \<Rightarrow> Observatory Result" where
  "load_state fc faults op files ob =
     (if op_state_path op = [] \<or> files (op_state_path op) = None \<or> \<not> ff_opens faults then Inr ob
      else case Load fc faults (op_state_path op) files ob of (Inl status, _) \<Rightarrow> Inl status | (Inr _, ob) \<Rightarrow> Inr ob)"

text \<open>What follows a command that has not returned: the evaluation asked for, then the save.\<close>

definition finish_invocation ::
    "(u64 \<Rightarrow> string) \<Rightarrow> (u64 \<Rightarrow> string option) \<Rightarrow> Invocation \<Rightarrow> Options \<Rightarrow> command_result \<times> files \<Rightarrow> nat \<times> cli_output list \<times> files" where
  "finish_invocation dt tc iv op r =
     (case r of
        ((flow, out, ob), files) \<Rightarrow>
          (case flow of
             Return code \<Rightarrow> (code, out, files)
           | Save_return code \<Rightarrow> (code, out, snd (save_state tc (iv_save iv) op ob files))
           | Proceed code \<Rightarrow>
               let (evaluated, more, ob) =
                     (if op_evaluate_after op then CommandEvaluate dt tc (iv_clock iv 2) op ob else (kExitOk, [], ob));
                   code = (if evaluated \<noteq> kExitOk then evaluated else code);
                   (saved, files) = save_state tc (iv_save iv) op ob files
               in (if saved then code else kExitUsage, out @ more, files)))"

definition version_lines :: "cli_output list" where
  "version_lines =
     [Line (kProductName @ '' '' @ kVersionString @ '' ('' @ kProductVendor @ '')''),
      Line (''ledger format '' @ nat_text (unat kLedgerFormatVersion) @ '', wire protocol '' @ nat_text (unat kWireProtocolVersion))]"

definition policy_default ::
    "(u64 \<Rightarrow> string option) \<Rightarrow> FileFaults \<Rightarrow> Options \<Rightarrow> files \<Rightarrow> nat \<times> cli_output list \<times> files" where
  "policy_default tc faults op files =
     (let encoded = EncodePolicy Policy_Default;
          s = (if op_compact op then WriteCanonicalJson tc encoded else WritePrettyJson tc encoded 2)
      in if op_out_path op = [] then (kExitOk, [Line s], files)
         else let (written, files) = WriteFile faults (op_out_path op) (s @ [CHR 0x0A]) files
              in (if written then kExitOk else kExitUsage, [], files))"

text \<open>The observatory a command runs on: configured, started and, where there is a state file, loaded.\<close>

definition open_observatory ::
    "(string \<Rightarrow> u64 option) \<Rightarrow> FileFaults \<Rightarrow> Options \<Rightarrow> ObservatoryPolicy \<Rightarrow> files \<Rightarrow> Observatory Result" where
  "open_observatory fc faults op policy files =
     (let (status, ob) = Start (Observatory_new (BuildConfig op policy))
      in if \<not> status_ok status then Inl status else load_state fc faults op files ob)"

definition named_policy :: "ObservatoryPolicy \<Rightarrow> ObservatoryPolicy" where
  "named_policy policy = (if po_id policy = [] then policy\<lparr>po_id := ''policy/default''\<rparr> else policy)"

definition cli_main ::
    "(u64 \<Rightarrow> string) \<Rightarrow> (u64 \<Rightarrow> string option) \<Rightarrow> (string \<Rightarrow> u64 option) \<Rightarrow> nat \<Rightarrow> (string \<Rightarrow> int option) \<Rightarrow> Invocation \<Rightarrow> string list \<Rightarrow>
     files \<Rightarrow> nat \<times> cli_output list \<times> files" where
  "cli_main dt tc fc width hours iv args files =
     (case ParseOptions width hours args of
        None \<Rightarrow> (kExitUsage, [Usage], files)
      | Some op \<Rightarrow>
          if op_help op then (kExitOk, [Usage], files)
          else if op_command op = ''version'' then (kExitOk, version_lines, files)
          else case LoadPolicy fc (iv_policy iv) op files of
            Inl _ \<Rightarrow> (kExitUsage, [], files)
          | Inr policy \<Rightarrow>
              if op_command op = ''policy-default'' then policy_default tc (iv_output iv) op files
              else case open_observatory fc (iv_load iv) op (named_policy policy) files of
                Inl _ \<Rightarrow> (kExitUsage, [], files)
              | Inr ob \<Rightarrow> finish_invocation dt tc iv op (run_command dt tc fc iv op ob files))"

section \<open>What an evaluation's exit code says\<close>

lemma decide_drafts_actionable:
  "dn_actionable (fold decision_step drafts c) \<Longrightarrow>
     dn_actionable c \<or> (\<exists>d \<in> set drafts. IsActionableDrift (fd_klass d) \<or> fd_klass d = DC_IntentMissing)"
proof (induction drafts arbitrary: c)
  case (Cons d drafts)
  then have "dn_actionable (decision_step d c) \<or> (\<exists>d \<in> set drafts. IsActionableDrift (fd_klass d) \<or> fd_klass d = DC_IntentMissing)" by simp
  then show ?case by (auto simp: decision_step_def Let_def split: if_splits)
qed simp

lemma field_draft_intent: "d \<in> set (field_draft t b p l v ob obs e) \<Longrightarrow> fd_klass d \<noteq> DC_IntentMissing"
  by (auto simp: field_draft_def Let_def frame_simps split: if_splits option.splits ValueRelation.splits)

lemma object_drafts_intent: "d \<in> set (object_drafts t b p l v e) \<Longrightarrow> fd_klass d \<noteq> DC_IntentMissing"
  by (auto simp: object_drafts_def unexpected_field_draft_def Let_def frame_simps
      dest: field_draft_intent split: if_splits option.splits)

lemma comparison_drafts_intent: "d \<in> set (comparison_drafts t b p l vs v) \<Longrightarrow> fd_klass d \<noteq> DC_IntentMissing"
  by (auto simp: comparison_drafts_def conflict_drafts_def unexpected_object_draft_def frame_simps
      dest: object_drafts_intent object_conflicts_class split: if_splits)

lemma regroup_intent:
  assumes "\<And>d. d \<in> set drafts \<Longrightarrow> fd_klass d \<noteq> DC_IntentMissing" "d \<in> set (fst (regroup p b v drafts))"
  shows "fd_klass d \<noteq> DC_IntentMissing"
  using assms by (auto simp: regroup_def regroup_draft_def Let_def split: if_splits)

text \<open>A compared target is compliant exactly when it is decided and has no actionable draft.\<close>

lemma CompareTarget_clear:
  "tv_compliant (CompareTarget input policy limits) \<longleftrightarrow>
     tv_compliance_decidable (CompareTarget input policy limits) \<and>
     \<not> list_ex (\<lambda>d. IsActionableDrift (fd_klass d)) (tv_drafts (CompareTarget input policy limits))"
proof -
  have evidence: "tv_compliant e1 \<longleftrightarrow> tv_compliance_decidable e1 \<and> \<not> list_ex (\<lambda>d. IsActionableDrift (fd_klass d)) (tv_drafts e1)"
    if "e1 = compare_with_evidence input b policy limits views primary e" "tv_drafts e = []" for b views primary e e1
  proof -
    let ?d = "tv_drafts e1"
    have e1: "tv_compliant e1 \<longleftrightarrow> tv_compliance_decidable e1 \<and> \<not> dn_actionable (decide_drafts ?d)"
      "tv_compliance_decidable e1 \<Longrightarrow> \<not> dn_indeterminate (decide_drafts ?d)"
      using that(1) by (auto simp: compare_with_evidence_def Let_def conclude_frame case_prod_unfold)
    have "fd_klass d \<noteq> DC_IntentMissing" if "d \<in> set ?d" for d
      using that \<open>e1 = _\<close> \<open>tv_drafts e = []\<close> regroup_intent comparison_drafts_intent by (simp add: compare_with_evidence_drafts) blast
    moreover have "list_ex (\<lambda>d. IsActionableDrift (fd_klass d)) ?d \<Longrightarrow> dn_indeterminate (decide_drafts ?d) \<or> dn_actionable (decide_drafts ?d)"
      unfolding decide_drafts_def decide_drafts_flags by (auto simp: counts_def list_ex_iff)
    ultimately show ?thesis
      using e1 decide_drafts_actionable unfolding decide_drafts_def by (fastforce simp: list_ex_iff)
  qed
  show ?thesis
    by (auto simp: CompareTarget_def Let_def compare_without_intent_def compare_without_evidence_def frame_simps
        evidence [OF refl] split: option.splits)
qed

lemma evaluated_clear:
  assumes "EvaluateAt dt now apply_it ob = (Inr outcome, ob')" "e \<in> set (eo_targets outcome)"
  shows "tv_compliant e \<longleftrightarrow> tv_compliance_decidable e \<and> \<not> list_ex (\<lambda>d. IsActionableDrift (fd_klass d)) (tv_drafts e)"
proof -
  obtain input stop c policy where "outcome = outcome_of input (evaluate_targets stop c input policy)"
    using assms(1) by (auto simp: EvaluateAt_def publish_outcome_def Let_def split: prod.splits sum.splits if_splits)
  then have "e = default_evaluation \<or> (\<exists>t \<in> set (ei_targets input). e = CompareTarget t policy (oc_limits c))"
    using assms(2) evaluate_targets_entry by (auto simp: outcome_of_def)
  then show ?thesis using CompareTarget_clear by (auto simp: default_evaluation_def)
qed

section \<open>What an invocation does to the observatory\<close>

text \<open>A call of the engine, or a counter.\<close>

definition engine_move :: "(u64 \<Rightarrow> string) \<Rightarrow> Observatory \<Rightarrow> Observatory \<Rightarrow> bool" where
  "engine_move dt ob ob' \<longleftrightarrow> engine_call dt ob ob' \<or> (\<exists>f. ob' = tally f ob)"

abbreviation "engine_moves dt \<equiv> (engine_move dt)\<^sup>*\<^sup>*"

lemma call_moves: "engine_call dt ob ob' \<Longrightarrow> engine_moves dt ob ob'"
  by (simp add: engine_move_def r_into_rtranclp)

lemma tally_moves: "engine_moves dt ob (tally f ob)"
  by (rule r_into_rtranclp) (auto simp: engine_move_def)

lemmas moves_trans = rtranclp_trans [of "engine_move dt" for dt]

lemma EvaluateAt_moves: "EvaluateAt dt now apply_it ob = (r, ob') \<Longrightarrow> engine_moves dt ob ob'"
proof -
  assume e: "EvaluateAt dt now apply_it ob = (r, ob')"
  obtain r1 ob1 where b: "begin_evaluation now ob = (r1, ob1)" by fastforce
  have one: "engine_moves dt ob ob1" using b by (intro call_moves) (rule opened)
  have "engine_moves dt ob1 ob'"
    using e b by (auto simp: EvaluateAt_def Let_def split: sum.splits intro: call_moves closed)
  then show ?thesis using one by (rule moves_trans [rotated])
qed

lemma CommandEvaluate_moves: "CommandEvaluate dt tc now op ob = (code, out, ob') \<Longrightarrow> engine_moves dt ob ob'"
  by (auto simp: CommandEvaluate_def split: prod.splits sum.splits intro: EvaluateAt_moves)

lemma IngestObservationJson_moves: "IngestObservationJson fc json now ob = (st, adm, ob') \<Longrightarrow> engine_moves dt ob ob'"
  by (auto simp: IngestObservationJson_def split: sum.splits intro: tally_moves call_moves ingest)

lemma server_step_moves:
  assumes "server_step dt tc fc sv sv'"
  shows "engine_moves dt (sv_observatory sv) (sv_observatory sv')"
  using assms
proof cases
  case (session now cx so go cx' so')
  from session_step_serves [OF this] show ?thesis by (auto simp: serves_def intro: call_moves)
next
  case (engine ob)
  then show ?thesis by (simp add: call_moves)
qed (auto simp: accept_connection_def finish_session_def Server_Start_def bind_listener_def Server_Stop_def Server_Stats_def
      ReapFinishedSessions_def Let_def split: if_splits sum.splits)

lemma server_steps_moves: "(server_step dt tc fc)\<^sup>*\<^sup>* sv sv' \<Longrightarrow> engine_moves dt (sv_observatory sv) (sv_observatory sv')"
  by (induction rule: rtranclp_induct) (auto intro: moves_trans server_step_moves)

lemma SessionLoop_moves:
  "SessionLoop dt tc fc stop clock n cx so sv = (m, cx', so', sv') \<Longrightarrow> engine_moves dt (sv_observatory sv) (sv_observatory sv')"
proof (induction dt tc fc stop clock n cx so sv rule: SessionLoop.induct)
  case (1 dt tc fc stop clock n cx so sv)
  obtain go cx1 so1 sv1 where s: "session_step dt tc fc (clock n) cx so sv = (go, cx1, so1, sv1)" by (metis prod_cases4)
  have "engine_moves dt (sv_observatory sv) (sv_observatory sv1)" using s by (intro server_step_moves) (rule session)
  then show ?case
    using 1 s by (cases "stop n"; cases go) (auto simp: SessionLoop.simps [of dt tc fc stop clock n] intro: moves_trans)
qed

lemma ServeSingleSession_moves:
  assumes "ServeSingleSession dt tc fc stop clock binding incoming sv = (st, so, sv')"
  shows "engine_moves dt (sv_observatory sv) (sv_observatory sv')"
proof -
  have bound: "sv_observatory (snd (bind_listener binding sv)) = sv_observatory sv"
    by (simp add: bind_listener_def split: sum.splits)
  show ?thesis
    using assms bound
    by (auto simp: ServeSingleSession_def Let_def split: if_splits prod.splits sum.splits dest!: SessionLoop_moves)
qed

text \<open>What the threads of the server do is a sequence of the server's steps.\<close>

definition server_activity ::
    "(u64 \<Rightarrow> string) \<Rightarrow> (u64 \<Rightarrow> string option) \<Rightarrow> (string \<Rightarrow> u64 option) \<Rightarrow> (nat \<Rightarrow> ObservationServer \<Rightarrow> ObservationServer) \<Rightarrow> bool" where
  "server_activity dt tc fc activity \<longleftrightarrow> (\<forall>n sv. (server_step dt tc fc)\<^sup>*\<^sup>* sv (activity n sv))"

lemma activity_moves:
  "server_activity dt tc fc activity \<Longrightarrow> engine_moves dt (sv_observatory sv) (sv_observatory (activity n sv))"
  unfolding server_activity_def using server_steps_moves by blast

lemma evaluate_while_serving_moves:
  assumes "server_activity dt tc fc activity" "evaluate_while_serving dt now (activity n) sv = (r, sv')"
  shows "engine_moves dt (sv_observatory sv) (sv_observatory sv')"
proof -
  obtain r1 ob1 where b: "begin_evaluation now (sv_observatory sv) = (r1, ob1)" by fastforce
  have one: "engine_moves dt (sv_observatory sv) ob1" using b by (intro call_moves) (rule opened)
  show ?thesis
  proof (cases r1)
    case (Inl status)
    then show ?thesis using assms(2) b one by (auto simp: evaluate_while_serving_def)
  next
    case (Inr input)
    let ?sv = "activity n (sv\<lparr>sv_observatory := ob1\<rparr>)"
    have "engine_moves dt ob1 (sv_observatory ?sv)" using activity_moves [OF assms(1), of "sv\<lparr>sv_observatory := ob1\<rparr>" n] by simp
    moreover have "engine_moves dt (sv_observatory ?sv) (sv_observatory sv')"
      using assms(2) b Inr
      by (auto simp: evaluate_while_serving_def Let_def split: prod.splits dest!: engine_call.closed call_moves)
    ultimately show ?thesis using one moves_trans by metis
  qed
qed

lemma serve_lines_moves:
  assumes "server_activity dt tc fc activity" "serve_lines dt clock activity n lines sv = (out, sv')"
  shows "engine_moves dt (sv_observatory sv) (sv_observatory sv')"
  using assms(2)
proof (induction lines arbitrary: n sv out sv')
  case Nil
  then show ?case using activity_moves [OF assms(1)] by auto
next
  case (Cons line lines)
  let ?sv = "activity n sv"
  have one: "engine_moves dt (sv_observatory sv) (sv_observatory ?sv)" by (rule activity_moves [OF assms(1)])
  obtain r sv1 where e: "evaluate_while_serving dt (clock n) (activity (n + 1)) ?sv = (r, sv1)" by fastforce
  note two = evaluate_while_serving_moves [OF assms(1) e]
  show ?case
  proof (cases "line = ''quit'' \<or> line = ''stop''")
    case True
    then show ?thesis using Cons.prems one by auto
  next
    case False
    then obtain out1 where "serve_lines dt clock activity (n + 2) lines sv1 = (out1, sv')"
      using Cons.prems e by (auto simp: Let_def split: prod.splits)
    from Cons.IH [OF this] show ?thesis using one two moves_trans by metis
  qed
qed

lemma serve_until_done_moves:
  assumes "server_activity dt tc fc (iv_activity iv)" "serve_until_done dt tc fc iv op sv = (st, out, sv')"
  shows "engine_moves dt (sv_observatory sv) (sv_observatory sv')"
proof (cases "op_once op")
  case True
  let ?sv = "iv_activity iv 0 sv"
  obtain served so sv1 where s:
    "ServeSingleSession dt tc fc (iv_session_stop iv) (iv_session_clock iv) (iv_binding iv) (iv_incoming iv) ?sv = (served, so, sv1)"
    by (metis prod_cases3)
  then have "sv' = iv_activity iv 1 sv1" using assms(2) True by (simp add: serve_until_done_def)
  then show ?thesis
    using ServeSingleSession_moves [OF s] activity_moves [OF assms(1)] moves_trans by metis
next
  case False
  then show ?thesis using assms serve_lines_moves by (auto simp: serve_until_done_def split: prod.splits)
qed

lemma CommandServe_moves:
  assumes "server_activity dt tc fc (iv_activity iv)" "CommandServe dt tc fc iv op ob = (flow, out, ob')"
  shows "engine_moves dt ob ob'"
proof -
  obtain st sv where s: "Server_Start (iv_binding iv) (ObservationServer_new ob (oc_limits (ob_config ob))) = (st, sv)" by fastforce
  then have ob: "sv_observatory sv = ob"
    by (auto simp: Server_Start_def bind_listener_def ObservationServer_new_def Let_def split: if_splits sum.splits)
  obtain served out1 sv1 where d: "serve_until_done dt tc fc iv op sv = (served, out1, sv1)" by (metis prod_cases3)
  have "sv_observatory (snd (Server_Stats (snd (Server_Stop sv1)))) = sv_observatory sv1"
    by (simp add: Server_Stats_def Server_Stop_def ReapFinishedSessions_def Let_def)
  then have "ob' = ob \<or> ob' = sv_observatory sv1"
    using assms(2) s d by (auto simp: CommandServe_def refused_def Let_def split: if_splits prod.splits)
  then show ?thesis using serve_until_done_moves [OF assms(1) d] ob by auto
qed

lemma CommandOperator_moves: "CommandOperator dt clock op ob = (flow, out, ob') \<Longrightarrow> engine_moves dt ob ob'"
  by (auto simp: CommandOperator_def usage_def refused_def Let_def split: if_splits option.splits prod.splits
      dest!: suppress acknowledge intro: call_moves)

lemma CommandIntentCommit_moves: "CommandIntentCommit dt tc fc now input op ob = (flow, out, ob') \<Longrightarrow> engine_moves dt ob ob'"
  by (auto simp: CommandIntentCommit_def refused_def Let_def split: if_splits sum.splits prod.splits dest!: intent intro: call_moves)

lemma CommandObserve_moves: "CommandObserve tc fc now input op ob = (flow, out, ob') \<Longrightarrow> engine_moves dt ob ob'"
  by (auto simp: CommandObserve_def refused_def Let_def split: if_splits prod.splits intro: IngestObservationJson_moves)

text \<open>The commands that only read.\<close>

lemma reading_commands:
  "CommandQuery tc now op ob = (flow, out, ob') \<Longrightarrow> ob' = ob"
  "CommandExplain dt tc now op ob = (flow, out, ob') \<Longrightarrow> ob' = ob"
  "CommandTimeline tc op ob = (flow, out, ob') \<Longrightarrow> ob' = ob"
  "CommandStats tc op ob = (flow, out, ob') \<Longrightarrow> ob' = ob"
  by (auto simp: CommandQuery_def CommandExplain_def CommandTimeline_def CommandStats_def refused_def usage_def Let_def
      split: if_splits sum.splits option.splits)

lemma WriteFile_frame: "WriteFile faults path s files = (written, files') \<Longrightarrow> p \<noteq> path \<Longrightarrow> files' p = files p"
  by (auto simp: WriteFile_def split: if_splits)

lemma policy_default_frame:
  "policy_default tc faults op files = (code, out, files') \<Longrightarrow> p \<noteq> op_out_path op \<Longrightarrow> files' p = files p"
  by (auto simp: policy_default_def Let_def split: if_splits prod.splits dest: WriteFile_frame)

lemma CommandReport_frame:
  "CommandReport tc faults now op ob files = ((flow, out, ob'), files') \<Longrightarrow>
     ob' = ob \<and> (\<forall>p. p \<noteq> op_out_path op \<longrightarrow> files' p = files p)"
  by (auto simp: CommandReport_def refused_def Let_def split: if_splits sum.splits prod.splits dest: WriteFile_frame)

lemma run_command_moves:
  assumes "server_activity dt tc fc (iv_activity iv)" "run_command dt tc fc iv op ob files = ((flow, out, ob'), files')"
  shows "engine_moves dt ob ob' \<and> (\<forall>p. p \<noteq> op_out_path op \<longrightarrow> files' p = files p)"
  using assms(2) CommandServe_moves [OF assms(1)]
  by (auto simp: run_command_def usage_def refused_def Let_def split: if_splits option.splits prod.splits
      dest: reading_commands CommandReport_frame
      intro: CommandEvaluate_moves CommandOperator_moves CommandIntentCommit_moves CommandObserve_moves)

text \<open>A command that returns at once has failed, and only \<^verbatim>\<open>explain\<close> saves and returns.\<close>

lemma run_command_flow:
  assumes "run_command dt tc fc iv op ob files = ((flow, out, ob'), files')"
  shows "case flow of Return code \<Rightarrow> code = kExitUsage | Save_return _ \<Rightarrow> op_command op = ''explain'' | Proceed _ \<Rightarrow> True"
proof -
  have "case flow of Return code \<Rightarrow> code = kExitUsage | Save_return _ \<Rightarrow> False | Proceed _ \<Rightarrow> True"
    if "op_command op \<noteq> ''explain''"
    using that assms
    by (auto simp: run_command_def CommandIntentCommit_def CommandObserve_def CommandQuery_def CommandTimeline_def CommandReport_def
        CommandOperator_def CommandStats_def CommandServe_def usage_def refused_def Let_def
        split: if_splits option.splits prod.splits sum.splits)
  moreover have "case flow of Return code \<Rightarrow> code = kExitUsage | _ \<Rightarrow> True" if "op_command op = ''explain''"
    using that assms
    by (auto simp: run_command_def CommandExplain_def usage_def refused_def split: if_splits option.splits sum.splits)
  ultimately show ?thesis by (cases flow) auto
qed

lemma engine_moves_keep:
  assumes "engine_moves dt ob ob'" "engine_ok gapless ob"
  shows "engine_ok gapless ob' \<and>
    (\<forall>fid f. FindFinding fid (ob_ledger ob) = Some f \<longrightarrow>
       (\<exists>g. FindFinding fid (ob_ledger ob') = Some g \<and> f_identity g = f_identity f))"
  using assms(1)
proof (induction rule: rtranclp_induct)
  case base
  then show ?case using assms(2) by simp
next
  case (step ob1 ob2)
  have ok: "ledger_ok gapless (ob_ledger ob1)" "l_limits (ob_ledger ob1) = oc_limits (ob_config ob1)"
    using step.IH by (simp_all add: engine_ok_def Let_def)
  have "engine_ok gapless ob2" using step by (auto simp: engine_move_def intro: engine_call_ok)
  moreover have "ob_ledger ob2 = ob_ledger ob1 \<or> ledger_step dt (ob_ledger ob1) (ob_ledger ob2)"
    using step.hyps(2) engine_call_ledger [of dt ob1 ob2] ok(2) by (auto simp: engine_move_def tally_def SetLimits_same)
  ultimately show ?case using step.IH ledger_step_findings [OF _ ok(1)] by metis
qed

lemma save_state_effect:
  assumes "save_state tc faults op ob files = (saved, files')" "op_state_path op \<noteq> []"
  shows "if saved then files' (op_state_path op) = Some (EncodeState tc ob) else files' (op_state_path op) = files (op_state_path op)"
  using assms
  by (auto simp: save_state_def Save_def SaveLedgerFile_def EncodeState_def Let_def status_ok_def mk_status_def split: if_splits prod.splits)

text \<open>The common tail: the state file keeps its content or gets the encoding of the state reached.\<close>

lemma finish_invocation_effect:
  assumes "finish_invocation dt tc iv op ((flow, out, ob), files) = (code, out', files')" "op_state_path op \<noteq> []"
    and "case flow of Return c \<Rightarrow> c = kExitUsage | _ \<Rightarrow> True"
  obtains ob' where "engine_moves dt ob ob'"
    "files' (op_state_path op) = files (op_state_path op) \<or> files' (op_state_path op) = Some (EncodeState tc ob')"
    "code \<noteq> kExitUsage \<and> (\<forall>c. flow \<noteq> Save_return c) \<longrightarrow> files' (op_state_path op) = Some (EncodeState tc ob')"
proof (cases flow)
  case (Return c)
  then show thesis using assms that [of ob] by (simp add: finish_invocation_def)
next
  case (Save_return c)
  obtain saved files1 where "save_state tc (iv_save iv) op ob files = (saved, files1)" by fastforce
  with save_state_effect [OF this assms(2)] show thesis
    using assms(1) Save_return that [of ob] by (auto simp: finish_invocation_def split: if_splits)
next
  case (Proceed c)
  obtain evaluated more ob1 where e:
    "(if op_evaluate_after op then CommandEvaluate dt tc (iv_clock iv 2) op ob else (kExitOk, [], ob)) = (evaluated, more, ob1)"
    by (metis prod_cases3)
  then have "engine_moves dt ob ob1" using CommandEvaluate_moves by (auto split: if_splits)
  moreover obtain saved files1 where v: "save_state tc (iv_save iv) op ob1 files = (saved, files1)" by fastforce
  ultimately show thesis
    using save_state_effect [OF v assms(2)] assms(1) Proceed e that [of ob1] by (auto simp: finish_invocation_def split: if_splits)
qed

lemma opened_invocation:
  assumes "finish_invocation dt tc iv op (run_command dt tc fc iv op ob files) = (code, out, files')"
    and "op_state_path op \<noteq> []" "op_out_path op \<noteq> op_state_path op" "server_activity dt tc fc (iv_activity iv)"
  obtains ob' where "engine_moves dt ob ob'"
    "files' (op_state_path op) = files (op_state_path op) \<or> files' (op_state_path op) = Some (EncodeState tc ob')"
    "code \<noteq> kExitUsage \<and> op_command op \<noteq> ''explain'' \<longrightarrow> files' (op_state_path op) = Some (EncodeState tc ob')"
proof -
  obtain flow out1 ob1 files1 where r: "run_command dt tc fc iv op ob files = ((flow, out1, ob1), files1)" by (metis prod.collapse)
  note moves = run_command_moves [OF assms(4) r] and flow = run_command_flow [OF r]
  have "case flow of Return c \<Rightarrow> c = kExitUsage | _ \<Rightarrow> True" using flow by (cases flow) auto
  from finish_invocation_effect [OF assms(1) [unfolded r] assms(2) this] obtain ob2 where ob2: "engine_moves dt ob1 ob2"
    "files' (op_state_path op) = files1 (op_state_path op) \<or> files' (op_state_path op) = Some (EncodeState tc ob2)"
    "code \<noteq> kExitUsage \<and> (\<forall>c. flow \<noteq> Save_return c) \<longrightarrow> files' (op_state_path op) = Some (EncodeState tc ob2)" .
  have "engine_moves dt ob ob2" using moves ob2(1) moves_trans by metis
  moreover have "files1 (op_state_path op) = files (op_state_path op)" using moves assms(3) by auto
  moreover have "op_command op = ''explain''" if "flow = Save_return c" for c using flow that by simp
  ultimately show thesis using ob2(2,3) that by metis
qed

section \<open>Properties\<close>



definition example_invocation :: Invocation where
  "example_invocation =
     \<lparr>iv_clock = (\<lambda>_. 9), iv_policy = sound_files, iv_input = sound_files, iv_output = sound_files, iv_load = sound_files,
      iv_save = sound_files, iv_lines = [], iv_binding = Inr 9000, iv_incoming = Inr example_socket, iv_session_stop = (\<lambda>_. True),
      iv_session_clock = (\<lambda>_. 9), iv_activity = (\<lambda>_ sv. sv)\<rparr>"

lemma empty_ledger_document:
  "ledger_document (FindingLedger default_limits) = V_Map (members_of
     [(''schema'', V_String ''ndo/ledger/1''), (''format_version'', V_Int 1), (''revision'', V_Int 0),
      (''timeline_sequence'', V_Int 0), (''baselines'', V_List []), (''observations'', V_List []), (''findings'', V_List []),
      (''groups'', V_List []), (''timeline'', V_List [])])"
  by (simp add: ledger_document_def FindingLedger_def Targets_def sort_unique_def retained_observations_def
      map_filter_simps kLedgerFormatVersion_def MakeUint_def)

lemma empty_ledger_size: "length (EncodeLedger (\<lambda>_. None) 1 1 (FindingLedger default_limits)) \<le> max_ledger_bytes default_limits"
proof -
  have "length (ledger_text (\<lambda>_. None) (FindingLedger default_limits)) \<le> 1000"
    unfolding empty_ledger_document ledger_text_def by (simp add: written_simps)
  then show ?thesis by (simp add: length_EncodeLedger kLedgerHeaderBytes_def default_limits_def)
qed

definition example_options :: Options where
  "example_options = default_options\<lparr>op_command := ''stats'', op_state_path := ''s''\<rparr>"

definition example_opened :: Observatory where
  "example_opened = (Observatory_new (BuildConfig example_options (named_policy synthetic_policy)))\<lparr>ob_started := True\<rparr>"

lemma example_option_fields:
  "op_command example_options = ''stats''" "op_state_path example_options = ''s''" "op_out_path example_options = []"
  "op_policy_path example_options = []" "op_epoch example_options = 1" "op_incarnation example_options = 1"
  "\<not> op_help example_options" "\<not> op_evaluate_after example_options"
  by (simp_all add: example_options_def default_options_def)

lemma example_invocation_fields:
  "ff_opens (iv_save example_invocation)" "ff_writes (iv_save example_invocation)" "ff_flushes (iv_save example_invocation)"
  "ff_renames (iv_save example_invocation)" "iv_activity example_invocation = (\<lambda>_ sv. sv)"
  by (simp_all add: example_invocation_def sound_files_def)

lemma example_opened_fields:
  "ob_ledger example_opened = FindingLedger default_limits" "oc_limits (ob_config example_opened) = default_limits"
  "oc_epoch (ob_config example_opened) = 1" "oc_incarnation (ob_config example_opened) = 1"
  by (simp_all add: example_opened_def Observatory_new_def BuildConfig_def clamp_workers_def Let_def example_option_fields)

lemma example_start: "Start (Observatory_new (BuildConfig example_options (named_policy synthetic_policy))) = (Status_Ok, example_opened)"
proof -
  have "IsValidIdentityText ''policy/default''" by code_simp
  then have "status_ok (Policy_Validate default_limits (named_policy synthetic_policy))"
    by (simp add: named_policy_def synthetic_policy_def Policy_Validate_def Policy_Default_def default_freshness_policy_def)
  moreover have "po_evidence (named_policy synthetic_policy) \<noteq> EC_Unknown" by (simp add: named_policy_def synthetic_policy_def)
  ultimately show ?thesis
    by (simp add: Start_def example_opened_def Observatory_new_def BuildConfig_def SetLimits_same FindingLedger_def Let_def
        uint_is_set_def clamp_workers_def example_option_fields)
qed


end
