(* ===== verification/NDO_Collector.thy ===== *)
theory NDO_Collector
  imports NDO_Cli NDO_Client
begin

text \<open>
  The collector (\<^verbatim>\<open>tools/ndo_collector.cpp\<close>): a source that makes up snapshots from its arguments and publishes them
  through the client of \<open>NDO_Client\<close>.  An identity that cannot be parsed ends the program with an exception
  nothing catches; that is the value \<open>None\<close>.  The delay between snapshots is left out.
\<close>

section \<open>Options\<close>

record CollectorOptions =
  co_host :: string
  co_source :: string
  co_target :: string
  co_value :: string
  co_coverage :: string
  co_unobserved :: string
  co_evidence :: string
  co_provenance :: string
  co_epoch :: u64
  co_incarnation :: u64
  co_sequence_start :: u64
  co_sequence_step :: u64
  co_objects :: u64
  co_fields :: u64
  co_count :: u64
  co_interval_ms :: u64
  co_age_seconds :: u64
  co_flood :: u64
  co_applied_generation :: "u64 option"
  co_ttl_nanos :: int
  co_port :: u16
  co_asserts_absence :: bool
  co_complete_coverage :: bool
  co_nested :: bool
  co_quiet :: bool

definition default_collector :: CollectorOptions where
  "default_collector =
     \<lparr>co_host = ''127.0.0.1'', co_source = ''collector/a'', co_target = ''switch/1'', co_value = ''1500'', co_coverage = ''complete'',
      co_unobserved = [], co_evidence = ''synthetic'', co_provenance = ''ndo_collector'', co_epoch = 1, co_incarnation = 1,
      co_sequence_start = 1, co_sequence_step = 1, co_objects = 2, co_fields = 2, co_count = 1, co_interval_ms = 0, co_age_seconds = 0,
      co_flood = 0, co_applied_generation = None, co_ttl_nanos = 0, co_port = 0, co_asserts_absence = False,
      co_complete_coverage = False, co_nested = False, co_quiet = False\<rparr>"

definition collector_flags :: "(string \<times> (CollectorOptions \<Rightarrow> CollectorOptions)) list" where
  "collector_flags =
     [(''--asserts-absence'', co_asserts_absence_update (\<lambda>_. True)), (''--complete-coverage'', co_complete_coverage_update (\<lambda>_. True)),
      (''--nested'', co_nested_update (\<lambda>_. True)), (''--quiet'', co_quiet_update (\<lambda>_. True))]"

definition collector_texts :: "(string \<times> (string \<Rightarrow> CollectorOptions \<Rightarrow> CollectorOptions)) list" where
  "collector_texts =
     [(''--host'', \<lambda>v. co_host_update (\<lambda>_. v)), (''--source'', \<lambda>v. co_source_update (\<lambda>_. v)),
      (''--target'', \<lambda>v. co_target_update (\<lambda>_. v)), (''--value'', \<lambda>v. co_value_update (\<lambda>_. v)),
      (''--coverage'', \<lambda>v. co_coverage_update (\<lambda>_. v)), (''--unobserved'', \<lambda>v. co_unobserved_update (\<lambda>_. v)),
      (''--evidence'', \<lambda>v. co_evidence_update (\<lambda>_. v)), (''--provenance'', \<lambda>v. co_provenance_update (\<lambda>_. v))]"

definition collector_numbers :: "nat \<Rightarrow> (string \<times> (string \<Rightarrow> CollectorOptions \<Rightarrow> CollectorOptions option)) list" where
  "collector_numbers width =
     [(''--epoch'', \<lambda>v op. map_option (\<lambda>n. op\<lparr>co_epoch := n\<rparr>) (stoull v)),
      (''--incarnation'', \<lambda>v op. map_option (\<lambda>n. op\<lparr>co_incarnation := n\<rparr>) (stoull v)),
      (''--sequence-start'', \<lambda>v op. map_option (\<lambda>n. op\<lparr>co_sequence_start := n\<rparr>) (stoull v)),
      (''--sequence-step'', \<lambda>v op. map_option (\<lambda>n. op\<lparr>co_sequence_step := n\<rparr>) (stoull v)),
      (''--objects'', \<lambda>v op. map_option (\<lambda>n. op\<lparr>co_objects := n\<rparr>) (stoull v)),
      (''--fields'', \<lambda>v op. map_option (\<lambda>n. op\<lparr>co_fields := n\<rparr>) (stoull v)),
      (''--count'', \<lambda>v op. map_option (\<lambda>n. op\<lparr>co_count := n\<rparr>) (stoull v)),
      (''--interval-ms'', \<lambda>v op. map_option (\<lambda>n. op\<lparr>co_interval_ms := n\<rparr>) (stoull v)),
      (''--age-seconds'', \<lambda>v op. map_option (\<lambda>n. op\<lparr>co_age_seconds := n\<rparr>) (stoull v)),
      (''--applied-generation'', \<lambda>v op. map_option (\<lambda>n. op\<lparr>co_applied_generation := Some n\<rparr>) (stoull v)),
      (''--ttl-nanos'', \<lambda>v op. map_option (\<lambda>n. op\<lparr>co_ttl_nanos := n\<rparr>) (stoll v)),
      (''--port'', \<lambda>v op. map_option (\<lambda>n. op\<lparr>co_port := n\<rparr>) (stoul_u16 width v)),
      (''--flood'', \<lambda>v op. map_option (\<lambda>n. op\<lparr>co_flood := n\<rparr>) (stoull v))]"

definition set_collector_option :: "nat \<Rightarrow> string \<Rightarrow> string \<Rightarrow> CollectorOptions \<Rightarrow> CollectorOptions option" where
  "set_collector_option width name v op =
     (case map_of collector_texts name of
        Some f \<Rightarrow> Some (f v op)
      | None \<Rightarrow> (case map_of (collector_numbers width) name of Some f \<Rightarrow> f v op | None \<Rightarrow> None))"

datatype collector_parse = Help_requested | Unusable | Usable CollectorOptions

fun collector_option_loop :: "nat \<Rightarrow> string list \<Rightarrow> CollectorOptions \<Rightarrow> collector_parse" where
  "collector_option_loop width [] op = (if co_port op = 0 \<or> co_source op = [] then Unusable else Usable op)"
| "collector_option_loop width (name # args) op =
     (if name = ''--help'' \<or> name = ''-h'' then Help_requested
      else case map_of collector_flags name of
        Some f \<Rightarrow> collector_option_loop width args (f op)
      | None \<Rightarrow>
          (case args of
             [] \<Rightarrow> Unusable
           | v # rest \<Rightarrow>
               (case set_collector_option width name v op of
                  None \<Rightarrow> Unusable
                | Some op' \<Rightarrow> collector_option_loop width rest op')))"

definition Collector_ParseOptions :: "nat \<Rightarrow> string list \<Rightarrow> collector_parse" where
  "Collector_ParseOptions width args = collector_option_loop width args default_collector"

section \<open>Snapshots\<close>

fun split_commas :: "string \<Rightarrow> string \<Rightarrow> string list" where
  "split_commas current [] = (if current = [] then [] else [current])"
| "split_commas current (c # cs) =
     (if c = CHR '','' then (if current = [] then [] else [current]) @ split_commas [] cs else split_commas (current @ [c]) cs)"

definition SplitCommas :: "string \<Rightarrow> string list" where
  "SplitCommas s = split_commas [] s"

text \<open>The number reader has used up the whole text exactly when only digits follow the sign.\<close>

definition ParseScalar :: "string \<Rightarrow> Value" where
  "ParseScalar s =
     (let digits = (if s \<noteq> [] \<and> hd s = CHR ''-'' then tl s else s) in
      case (if s \<noteq> [] \<and> (hd s = CHR ''-'' \<or> is_digit (hd s)) \<and> digits \<noteq> [] \<and> list_all is_digit digits then stoll s else None) of
        Some i \<Rightarrow> V_Int i
      | None \<Rightarrow> if s = ''true'' then V_Bool True else if s = ''false'' then V_Bool False else V_String s)"

definition emplace_field :: "string \<Rightarrow> Value \<Rightarrow> (FieldPath, Value) omap \<Rightarrow> (FieldPath, Value) omap" where
  "emplace_field path v m = (case FieldPath_TryParse path 8 64 of None \<Rightarrow> m | Some p \<Rightarrow> map_emplace p v m)"

definition collector_fields :: "CollectorOptions \<Rightarrow> (FieldPath, Value) omap" where
  "collector_fields op =
     (let m = emplace_field ''admin-up'' (V_Bool True) (emplace_field ''mtu'' (ParseScalar (co_value op)) []);
          m = fold (\<lambda>field. emplace_field (''extra/'' @ nat_text field) (V_String (co_value op))) [0..<unat (co_fields op)] m
      in case co_applied_generation op of
           None \<Rightarrow> m
         | Some g \<Rightarrow> emplace_field ''@applied-generation'' (V_Int (sint g)) m)"

definition emplace_object :: "CollectorOptions \<Rightarrow> nat \<Rightarrow> (ObjectId, ObservedObject) omap \<Rightarrow> (ObjectId, ObservedObject) omap" where
  "emplace_object op index m =
     (case StringId_TryParse (''obj/'' @ nat_text index) of
        None \<Rightarrow> m
      | Some oid \<Rightarrow> map_emplace oid \<lparr>oo_id = oid, oo_presence = OP_Present, oo_fields = collector_fields op\<rparr> m)"

definition collector_evidence :: "CollectorOptions \<Rightarrow> EvidenceClass" where
  "collector_evidence op = (if co_evidence op = ''real'' then EC_Real else EC_Synthetic)"

definition collector_capabilities :: "CollectorOptions \<Rightarrow> SourceCapabilities" where
  "collector_capabilities op =
     \<lparr>sc_asserts_absence = co_asserts_absence op, sc_complete_coverage = co_complete_coverage op,
      sc_reports_nested_paths = co_nested op, sc_evidence = collector_evidence op\<rparr>"

definition BuildSnapshot :: "NdoTime \<Rightarrow> CollectorOptions \<Rightarrow> u64 \<Rightarrow> ObservationSnapshot option" where
  "BuildSnapshot now op sequence =
     (case (StringId_TryParse (co_source op), StringId_TryParse (co_target op)) of
        (Some source, Some target) \<Rightarrow>
          let s = \<lparr>sn_snapshot_id = [], sn_source = source, sn_epoch = co_epoch op, sn_incarnation = co_incarnation op,
                   sn_sequence = sequence, sn_target = target, sn_collected_at = now - sint (co_age_seconds op) * 1000000000,
                   sn_received_at = 0, sn_ttl_nanos = co_ttl_nanos op,
                   sn_coverage = (if co_coverage op = ''complete'' then OC_Complete
                                  else if co_coverage op = ''partial'' then OC_Partial else OC_Unknown),
                   sn_unobserved = List.map_filter StringId_TryParse (SplitCommas (co_unobserved op)),
                   sn_objects = fold (emplace_object op) [0..<unat (co_objects op)] [],
                   sn_capabilities = collector_capabilities op, sn_evidence = collector_evidence op\<rparr>
          in Some (s\<lparr>sn_snapshot_id := ComputeSnapshotId s\<rparr>)
      | _ \<Rightarrow> None)"

section \<open>Publishing\<close>

definition collector_config :: "CollectorOptions \<Rightarrow> ClientConfig option" where
  "collector_config op =
     map_option (\<lambda>source.
       \<lparr>cc_host = co_host op, cc_port = co_port op, cc_source = source, cc_epoch = co_epoch op, cc_incarnation = co_incarnation op,
        cc_start_sequence = co_sequence_start op, cc_capabilities = collector_capabilities op, cc_provenance = co_provenance op,
        cc_limits = default_limits\<rparr>) (StringId_TryParse (co_source op))"

definition unconnected_line :: "Status \<Rightarrow> cli_output" where
  "unconnected_line status =
     Line (''{'' @ quoted ''connected'' @ '':false,'' @ quoted ''reason'' @ '':'' @ quoted (ToText_ReasonCode (st_reason status)) @ '','' @
       quoted ''detail'' @ '':'' @ quoted (st_detail status) @ ''}'')"

definition connected_line :: "HelloAckPayload \<Rightarrow> cli_output" where
  "connected_line ack =
     Line (''{'' @ quoted ''connected'' @ '':true,'' @ quoted ''session'' @ '':'' @ nat_text (unat (ha_session_id ack)) @ '','' @
       quoted ''server_epoch'' @ '':'' @ nat_text (unat (ha_server_epoch ack)) @ '','' @
       quoted ''server_incarnation'' @ '':'' @ nat_text (unat (ha_server_incarnation ack)) @ ''}'')"

definition unpublished_line :: "u64 \<Rightarrow> ReasonCode \<Rightarrow> string \<Rightarrow> cli_output" where
  "unpublished_line sequence reason detail =
     Line (''{'' @ quoted ''published'' @ '':false,'' @ quoted ''sequence'' @ '':'' @ nat_text (unat sequence) @ '','' @
       quoted ''reason'' @ '':'' @ quoted (ToText_ReasonCode reason) @ '','' @ quoted ''detail'' @ '':'' @ quoted detail @ ''}'')"

definition published_line :: "u64 \<Rightarrow> SnapshotId \<Rightarrow> cli_output" where
  "published_line sequence snapshot =
     Line (''{'' @ quoted ''published'' @ '':true,'' @ quoted ''sequence'' @ '':'' @ nat_text (unat sequence) @ '','' @
       quoted ''snapshot'' @ '':'' @ quoted snapshot @ ''}'')"

definition summary_line :: "CollectorOptions \<Rightarrow> u64 \<Rightarrow> u64 \<Rightarrow> cli_output" where
  "summary_line op accepts refusals =
     Line (''{'' @ quoted ''summary'' @ '':true,'' @ quoted ''accepted'' @ '':'' @ nat_text (unat accepts) @ '','' @
       quoted ''refused'' @ '':'' @ nat_text (unat refusals) @ '','' @ quoted ''source'' @ '':'' @ quoted (co_source op) @ '','' @
       quoted ''incarnation'' @ '':'' @ nat_text (unat (co_incarnation op)) @ ''}'')"

text \<open>The publishing loop, with the snapshots still to publish and the two counters.\<close>

record Publishing =
  pl_accepted :: u64
  pl_refused :: u64
  pl_sequence :: u64
  pl_out :: "cli_output list"
  pl_publisher :: ObservationPublisher

definition count_publication :: "bool \<Rightarrow> Status \<Rightarrow> AckPayload \<Rightarrow> Publishing \<Rightarrow> Publishing" where
  "count_publication quiet status ack pl =
     (if \<not> status_ok status
      then pl\<lparr>pl_refused := pl_refused pl + 1,
              pl_out := pl_out pl @ [unpublished_line (pl_sequence pl) (st_reason status) (st_detail status)]\<rparr>
      else if ak_accepted ack
      then pl\<lparr>pl_accepted := pl_accepted pl + 1,
              pl_out := pl_out pl @ (if quiet then [] else [published_line (pl_sequence pl) (ak_snapshot ack)])\<rparr>
      else pl\<lparr>pl_refused := pl_refused pl + 1,
              pl_out := pl_out pl @ [unpublished_line (pl_sequence pl) (ak_reason ack) (ak_detail ack)]\<rparr>)"

definition publish_one ::
    "(u64 \<Rightarrow> string option) \<Rightarrow> (string \<Rightarrow> u64 option) \<Rightarrow> NdoTime \<Rightarrow> CollectorOptions \<Rightarrow> Publishing \<Rightarrow> Publishing option" where
  "publish_one tc fc now op pl =
     (case BuildSnapshot now op (pl_sequence pl) of
        None \<Rightarrow> None
      | Some snapshot \<Rightarrow>
          (case Publish tc fc snapshot blank_ack (pl_publisher pl) of
             (status, _, ack, pb) \<Rightarrow>
               let pl = count_publication (co_quiet op) status ack (pl\<lparr>pl_publisher := pb\<rparr>)
               in Some (pl\<lparr>pl_sequence := pl_sequence pl + co_sequence_step op\<rparr>)))"

fun publish_loop ::
    "(u64 \<Rightarrow> string option) \<Rightarrow> (string \<Rightarrow> u64 option) \<Rightarrow> (nat \<Rightarrow> NdoTime) \<Rightarrow> CollectorOptions \<Rightarrow> nat \<Rightarrow> Publishing \<Rightarrow> Publishing option" where
  "publish_loop tc fc clock op 0 pl = Some pl"
| "publish_loop tc fc clock op (Suc remaining) pl =
     (case publish_one tc fc (clock remaining) op pl of None \<Rightarrow> None | Some pl \<Rightarrow> publish_loop tc fc clock op remaining pl)"

definition collector_main ::
    "(u64 \<Rightarrow> string option) \<Rightarrow> (string \<Rightarrow> u64 option) \<Rightarrow> nat \<Rightarrow> (nat \<Rightarrow> NdoTime) \<Rightarrow> Socket Result \<Rightarrow> string list \<Rightarrow>
     (nat \<times> cli_output list \<times> ObservationPublisher option) option" where
  "collector_main tc fc width clock opened args =
     (case Collector_ParseOptions width args of
        Help_requested \<Rightarrow> Some (kExitOk, [Usage], None)
      | Unusable \<Rightarrow> Some (kExitUsage, [Usage], None)
      | Usable op \<Rightarrow>
          (case collector_config op of
             None \<Rightarrow> None
           | Some config \<Rightarrow>
               let (status, pb) = Connect tc fc opened (ObservationPublisher_new config)
               in if \<not> status_ok status then Some (kExitUsage, [unconnected_line status], Some pb)
                  else
                    let greeting = (if co_quiet op then [] else [connected_line (pb_handshake pb)])
                    in map_option (\<lambda>pl.
                         (if pl_refused pl = 0 then kExitOk else kExitUsage,
                          pl_out pl @ [summary_line op (pl_accepted pl) (pl_refused pl)],
                          Some (snd (Publisher_Close tc (pl_publisher pl)))))
                       (publish_loop tc fc clock op (unat (co_count op))
                          \<lparr>pl_accepted = 0, pl_refused = 0, pl_sequence = co_sequence_start op, pl_out = greeting, pl_publisher = pb\<rparr>)))"

section \<open>Properties\<close>

text \<open>
  The publications themselves, without counters and output: each with its sequence number and whether
  the call succeeded and the server accepted the snapshot.
\<close>

fun publications ::
    "(u64 \<Rightarrow> string option) \<Rightarrow> (string \<Rightarrow> u64 option) \<Rightarrow> (nat \<Rightarrow> NdoTime) \<Rightarrow> CollectorOptions \<Rightarrow> nat \<Rightarrow> u64 \<Rightarrow> ObservationPublisher \<Rightarrow>
     (u64 \<times> bool) list option" where
  "publications tc fc clock op 0 sequence pb = Some []"
| "publications tc fc clock op (Suc remaining) sequence pb =
     (case BuildSnapshot (clock remaining) op sequence of
        None \<Rightarrow> None
      | Some s \<Rightarrow>
          (case Publish tc fc s blank_ack pb of
             (status, _, ack, pb) \<Rightarrow>
               map_option ((#) (sequence, status_ok status \<and> ak_accepted ack))
                 (publications tc fc clock op remaining (sequence + co_sequence_step op) pb)))"

abbreviation "sequence_numbers op start n \<equiv> map (\<lambda>i. start + of_nat i * co_sequence_step op) [0..<n]"

lemma sequence_numbers_Suc:
  "sequence_numbers op start (Suc n) = start # sequence_numbers op (start + co_sequence_step op) n"
proof -
  have "[0..<Suc n] = 0 # map Suc [0..<n]" by (simp add: upt_conv_Cons map_Suc_upt del: upt_Suc)
  then show ?thesis by (simp add: algebra_simps del: upt_Suc)
qed

lemma count_publication_frame:
  "pl_refused (count_publication quiet status ack pl) = pl_refused pl + (if status_ok status \<and> ak_accepted ack then 0 else 1)"
  "pl_sequence (count_publication quiet status ack pl) = pl_sequence pl"
  "pl_publisher (count_publication quiet status ack pl) = pl_publisher pl"
  by (simp_all add: count_publication_def)

lemma BuildSnapshot_total:
  "StringId_TryParse (co_source op) \<noteq> None \<Longrightarrow> StringId_TryParse (co_target op) \<noteq> None \<Longrightarrow> BuildSnapshot now op sequence \<noteq> None"
  by (auto simp: BuildSnapshot_def Let_def)

lemma publish_loop_counts:
  assumes "StringId_TryParse (co_source op) \<noteq> None" "StringId_TryParse (co_target op) \<noteq> None"
  shows "\<exists>pl' results. publish_loop tc fc clock op n pl = Some pl' \<and>
    publications tc fc clock op n (pl_sequence pl) (pl_publisher pl) = Some results \<and>
    map fst results = sequence_numbers op (pl_sequence pl) n \<and>
    pl_refused pl' = pl_refused pl + of_nat (length (filter (\<lambda>r. \<not> snd r) results))"
proof (induction n arbitrary: pl)
  case (Suc n)
  obtain s where s: "BuildSnapshot (clock n) op (pl_sequence pl) = Some s" using BuildSnapshot_total [OF assms] by fastforce
  obtain status s' ack pb where p: "Publish tc fc s blank_ack (pl_publisher pl) = (status, s', ack, pb)" by (metis prod_cases4)
  let ?pl = "count_publication (co_quiet op) status ack (pl\<lparr>pl_publisher := pb\<rparr>)"
  let ?next = "?pl\<lparr>pl_sequence := pl_sequence ?pl + co_sequence_step op\<rparr>"
  from Suc [of ?next] obtain pl' results where ih: "publish_loop tc fc clock op n ?next = Some pl'"
    "publications tc fc clock op n (pl_sequence pl + co_sequence_step op) pb = Some results"
    "map fst results = sequence_numbers op (pl_sequence pl + co_sequence_step op) n"
    "pl_refused pl' = pl_refused ?pl + of_nat (length (filter (\<lambda>r. \<not> snd r) results))"
    by (auto simp: count_publication_frame)
  then show ?case
    using s p unfolding sequence_numbers_Suc
    by (simp add: publish_one_def Let_def count_publication_frame algebra_simps)
qed simp


lemma Connect_unopened: "Connect tc fc (Inl status) pb = (st, pb') \<Longrightarrow> \<not> status_ok status \<Longrightarrow> \<not> status_ok st"
  by (auto simp: Connect_def Let_def status_ok_def mk_status_def split: if_splits)


end
