(* ===== verification/Spec2Isabelle.thy ===== *)
theory Spec2Isabelle
  imports NDO_Publishing NDO_Collector
begin

text \<open>
  Network Drift Observatory: a verification library of the C++ runtime under \<^verbatim>\<open>src/\<close>.

  \<^bold>\<open>The program.\<close>  The observatory compares what a network was told to be with what is observed of it.  Owners publish
  intent generations for their targets; sources publish observation snapshots; an evaluation compares the
  two under a policy and turns every difference into a finding with an identity, a lifecycle and a
  history.  Its parts, and who calls whom:
    \<^item> vocabulary (status and reason codes, identities, field paths, values, time, drift classes);
    \<^item> domain documents (intent, observations, freshness, policy);
    \<^item> the comparison of one target, which drafts findings and decides compliance;
    \<^item> the ledger, which keeps baselines, evidence windows, findings, groups and the timeline;
    \<^item> the engine, which owns a ledger and runs evaluations on worker threads around it;
    \<^item> queries and reports, which read the engine;
    \<^item> the JSON codec, the interchange and policy documents, the durable ledger format and its file operations;
    \<^item> the wire frames, the server with its sessions and fences, and the publishing client;
    \<^item> the command-line tool, which opens a state file, runs one command and saves, and the collector, which
      publishes made-up snapshots through the client.

  \<^bold>\<open>Theories and sources.\<close>  Files named \<^verbatim>\<open>x.cpp\<close> are under \<^verbatim>\<open>src/src\<close>, headers under
  \<^verbatim>\<open>src/include/summon/network_drift_observatory\<close>.  Definitions carry the names of the functions they translate;
  lower-case names are the parts of a long function, in the order of its statements.
    \<^descr> \<open>NDO_Prelude\<close>: machine types, C++ division, \<^verbatim>\<open>std::map\<close> as an ascending association list, name tables, stable sorting,
      the collections of simplification rules, and the locales \<open>keyed_store\<close> and \<open>strict_weak_order\<close>.
    \<^descr> \<open>NDO_Status\<close> (\<^verbatim>\<open>status\<close>, \<^verbatim>\<open>limits\<close>, \<^verbatim>\<open>checked.hpp\<close>), \<open>NDO_Text\<close> (decimal numerals), \<open>NDO_Hash\<close> (\<^verbatim>\<open>hash\<close>), \<open>NDO_Identity\<close>
      (\<^verbatim>\<open>identity\<close>), \<open>NDO_Values\<close> (\<^verbatim>\<open>value\<close>), \<open>NDO_Time\<close> (\<^verbatim>\<open>time\<close>), \<open>NDO_Drift\<close> (\<^verbatim>\<open>drift\<close>).
    \<^descr> \<open>NDO_Intent\<close>, \<open>NDO_Observation\<close>, \<open>NDO_Freshness\<close>, \<open>NDO_Policy\<close>: the files of the same names.
    \<^descr> \<open>NDO_Comparison\<close> (\<^verbatim>\<open>comparison\<close>): \<open>CompareTarget\<close> phase by phase.
    \<^descr> \<open>NDO_Finding\<close> (\<^verbatim>\<open>finding\<close>), \<open>NDO_Ledger\<close> (\<^verbatim>\<open>ledger\<close>: the record \<open>Ledger\<close>, its single operations, its invariant \<open>ledger_ok\<close>),
      \<open>NDO_Operations\<close> (what they keep), \<open>NDO_Apply\<close> (\<^verbatim>\<open>ApplyEvaluation\<close> and \<^verbatim>\<open>RefreshGroups\<close>), \<open>NDO_Ledger_Safety\<close> (any sequence of
      operations).
    \<^descr> \<open>NDO_Query\<close> (\<^verbatim>\<open>query\<close>), \<open>NDO_Engine\<close> (\<^verbatim>\<open>engine\<close>: the record \<open>Observatory\<close>), \<open>NDO_Engine_Safety\<close> (threads and reachable states),
      \<open>NDO_Engine_State\<close> (saving and loading), \<open>NDO_Report\<close> (\<^verbatim>\<open>report\<close>).
    \<^descr> \<open>NDO_Json\<close> and \<open>NDO_Json_Roundtrip\<close> (\<^verbatim>\<open>json\<close>), \<open>NDO_Members\<close> (\<^verbatim>\<open>json_help.hpp\<close>), \<open>NDO_Codec\<close> (what codecs share, the locale
      \<open>document_codec\<close>), \<open>NDO_Interchange\<close> (\<^verbatim>\<open>interchange\<close>), \<open>NDO_Policy_Json\<close> (the codec in \<^verbatim>\<open>policy.cpp\<close>), \<open>NDO_Records\<close> and
      \<open>NDO_Persistence\<close> (\<^verbatim>\<open>persistence\<close>).
    \<^descr> \<open>NDO_Wire\<close> (\<^verbatim>\<open>wire\<close>), \<open>NDO_Transport\<close> (the loops of \<^verbatim>\<open>net.cpp\<close> and the frame readers), \<open>NDO_Server\<close> and
      \<open>NDO_Server_Safety\<close> (\<^verbatim>\<open>server\<close>), \<open>NDO_Client\<close> (\<^verbatim>\<open>client\<close>), \<open>NDO_Publishing\<close> (client and server joined).
    \<^descr> \<open>NDO_Cli\<close> (\<^verbatim>\<open>src/tools/ndo_cli.cpp\<close>) and \<open>NDO_Collector\<close> (\<^verbatim>\<open>src/tools/ndo_collector.cpp\<close>).

  \<^bold>\<open>How code becomes definitions.\<close>  Structs are records and enums are datatypes with their declared codes; unsigned integers are
  words of their width, signed 64-bit quantities are \<open>int\<close> with the bounds written out; strings are lists of
  bytes as characters.  A status or an error result is a value, so every early return is a branch.
  Operations return the updated state.  Loops are structural recursion or carry a termination proof:
  the JSON parser runs on fuel of twice the length of the text plus one, proved enough for every text; the
  receive loop ends because every call that goes on takes bytes, the session loop because every
  iteration that goes on takes a frame header from the socket, however the stop flag behaves.

  \<^bold>\<open>Threads.\<close>  A function body that holds a mutex is one step.  An evaluation is two such steps around the workers, whose
  writes are explored in every interleaving.  The server is the relation \<open>server_step\<close>: any session with any
  socket, the accept loop, the end of a session, starting and stopping, and any other user of the
  observatory may move next.

  \<^bold>\<open>Parameters.\<close>  The clock's readings; \<^verbatim>\<open>std::to_chars\<close> and \<^verbatim>\<open>std::from_chars\<close> on doubles (\<open>tc\<close>, \<open>fc\<close>, and \<open>dt\<close> for explanations), with the hypothesis
  \<open>double_codec\<close> that a printed double reads back, and only for the doubles in the document at hand; the outcomes
  of file operations (\<open>FileFaults\<close>); what each send and receive call of a socket gives; what binding, accepting
  and connecting give; what each look at the stop flag finds; for the command-line tool, \<^verbatim>\<open>std::stod\<close>, the width of
  \<^verbatim>\<open>unsigned long\<close>, and what the threads of a served network do between the steps of the main thread, with the
  hypothesis \<open>server_activity\<close> that these are steps of the server.

  \<^bold>\<open>What the lemmas show.\<close>
    \<^item> Comparison: a target is compliant exactly when fresh, authoritative evidence shows everything managed as
      intended; the order of the evidence is irrelevant; a managed difference is always reported; without
      fresh evidence nothing is decided.
    \<^item> Ledger: the invariant of every reachable ledger; drafted findings are recorded, and a live finding is
      closed only by an accepted, decidable evaluation of its target; history only grows; intent never
      regresses; operator actions leave assessments alone; evidence windows keep the newest.
      The invariant carries a flag that says whether the timeline numbering is claimed to be free of gaps:
      it is on every running path, and recovery from a file gives it up.
    \<^item> Engine: worker independence; an evaluation overtaken by a restart publishes nothing; a restart closes
      nothing; reachable states; a checkpoint carries the findings to another process.
    \<^item> Codecs: JSON, documents, policies, durable records and frames are inverse pairs (each an
      interpretation of \<open>document_codec\<close>), whatever is accepted is well formed and canonical, and recovery from any
      bytes is conservative.
    \<^item> Server and client: the invariant under any peers and interleaving, fences that never go back, sessions
      that publish only as greeted and that end, segmentation that is invisible, and an acknowledgement
      that says accepted exactly when the observatory ingested the snapshot.
    \<^item> Reports: requests for exactly the live findings; and counts that are wrong.
    \<^item> Tools: the exit code of an evaluation says whether everything complies, the collector's whether
      everything was accepted, and an invocation leaves its state file as it was or holding a state the
      engine reached, with no finding lost.
  Where the code does not do what it means to, the property states what it does.

  \<^bold>\<open>Not modelled.\<close>  Opening, binding, accepting, shutting down and timing out sockets, threads being started and joined,
  and the other branch of \<^verbatim>\<open>net.cpp\<close>, which refuses every call on other systems than Windows: operating-system
  calls.  The usage texts and the error stream of the tools; examples, benchmark and tests.  \<^verbatim>\<open>CheckedCast\<close>, the three-way order of values and the
  helper \<^verbatim>\<open>DecodeIdentity\<close> of \<^verbatim>\<open>interchange.cpp\<close>, which nothing calls.  Exceptions for want of memory.
\<close>

end
